(* ===== verification/Prelude.thy ===== *)
theory Prelude
  imports Main "HOL-Library.Sublist" "HOL-Library.Char_ord" "HOL-Library.List_Lexorder"
    "HOL-Library.Product_Lexorder"
begin

text \<open>
  What every component theory shares: the result type of fallible Rust code, Rust's iterator
  reductions (\<open>min_by_key\<close> keeps the first minimum, \<open>max_by_key\<close> the last maximum), positions in a
  list of rows, and the stability of sorting. The orders of strings and tuples are the
  lexicographic ones of the library, which is Rust's derived \<open>Ord\<close>.
\<close>

section \<open>Fallible results\<close>

text \<open>Rust's \<open>Result<T, E>\<close>: \<open>Inl\<close> is \<open>Err\<close>, \<open>Inr\<close> is \<open>Ok\<close>.\<close>

type_synonym ('e, 'a) result = "'e + 'a"

abbreviation Err :: "'e \<Rightarrow> ('e, 'a) result" where "Err \<equiv> Inl"
abbreviation Ok :: "'a \<Rightarrow> ('e, 'a) result" where "Ok \<equiv> Inr"

definition and_then :: "('e, 'a) result \<Rightarrow> ('a \<Rightarrow> ('e, 'b) result) \<Rightarrow> ('e, 'b) result" where
  "and_then r f = (case r of Inl e \<Rightarrow> Inl e | Inr x \<Rightarrow> f x)"

lemma and_then_simps [simp]:
  "and_then (Inl e) f = Inl e"
  "and_then (Inr x) f = f x"
  by (simp_all add: and_then_def)

lemma and_then_Inr_iff [simp]:
  "and_then r f = Inr y \<longleftrightarrow> (\<exists>x. r = Inr x \<and> f x = Inr y)"
  by (cases r) simp_all

fun map_result :: "('a \<Rightarrow> ('e, 'b) result) \<Rightarrow> 'a list \<Rightarrow> ('e, 'b list) result" where
  "map_result f [] = Inr []"
| "map_result f (x # xs) = and_then (f x) (\<lambda>y. and_then (map_result f xs) (\<lambda>ys. Inr (y # ys)))"

lemma map_result_Inr: "(\<forall>x \<in> set xs. f x = Inr (g x)) \<Longrightarrow> map_result f xs = Inr (map g xs)"
  by (induction xs) simp_all

fun fold_result :: "('x \<Rightarrow> 's \<Rightarrow> ('e, 's) result) \<Rightarrow> 'x list \<Rightarrow> 's \<Rightarrow> ('e, 's) result" where
  "fold_result f [] s = Inr s"
| "fold_result f (x # xs) s = and_then (f x s) (fold_result f xs)"

lemma fold_result_invariant:
  assumes "fold_result f xs s = Inr s'" "I s"
    and "\<And>x s s'. x \<in> set xs \<Longrightarrow> I s \<Longrightarrow> f x s = Inr s' \<Longrightarrow> I s'"
  shows "I s'"
  using assms
proof (induction xs arbitrary: s)
  case (Cons x xs)
  then obtain t where t: "f x s = Inr t" "fold_result f xs t = Inr s'" by auto
  have "I t" using Cons.prems(3) [OF _ Cons.prems(2) t(1)] by simp
  then show ?case using Cons.IH [OF t(2)] Cons.prems(3) by (meson list.set_intros(2))
qed simp

lemma map_result_length: "map_result f xs = Inr ys \<Longrightarrow> length ys = length xs"
  by (induction xs arbitrary: ys) auto

section \<open>Options\<close>

fun opt_or :: "'a option \<Rightarrow> 'a option \<Rightarrow> 'a option" where
  "opt_or (Some x) _ = Some x"
| "opt_or None y = y"

lemma opt_or_Some: "opt_or a b = Some x \<longleftrightarrow> a = Some x \<or> (a = None \<and> b = Some x)"
  by (cases a) auto

definition unwrap_or :: "'a option \<Rightarrow> 'a \<Rightarrow> 'a" where
  "unwrap_or r d = (case r of None \<Rightarrow> d | Some x \<Rightarrow> x)"

lemma unwrap_or_simps [simp]: "unwrap_or None d = d" "unwrap_or (Some x) d = x"
  by (simp_all add: unwrap_or_def)

lemma map_filter_total: "(\<And>x. x \<in> set xs \<Longrightarrow> f x = Some (g x)) \<Longrightarrow> List.map_filter f xs = map g xs"
  by (induction xs) (simp_all add: List.map_filter_def)

text \<open>\<open>value.map(f).transpose()?\<close>\<close>

definition optional :: "('a \<Rightarrow> ('e, 'b) result) \<Rightarrow> 'a option \<Rightarrow> ('e, 'b option) result" where
  "optional f value = (case value of None \<Rightarrow> Inr None | Some a \<Rightarrow> and_then (f a) (\<lambda>b. Inr (Some b)))"

section \<open>Reductions over an iterator\<close>

text \<open>\<open>Iterator::min_by_key\<close> returns the first of several minima.\<close>

definition first_min_by :: "('a \<Rightarrow> 'k::linorder) \<Rightarrow> 'a list \<Rightarrow> 'a option" where
  "first_min_by f xs = (case xs of [] \<Rightarrow> None
     | x # ys \<Rightarrow> Some (foldl (\<lambda>b y. if f y < f b then y else b) x ys))"

text \<open>\<open>Iterator::max_by_key\<close> returns the last of several maxima.\<close>

definition last_max_by :: "('a \<Rightarrow> 'k::linorder) \<Rightarrow> 'a list \<Rightarrow> 'a option" where
  "last_max_by f xs = (case xs of [] \<Rightarrow> None
     | x # ys \<Rightarrow> Some (foldl (\<lambda>b y. if f b \<le> f y then y else b) x ys))"

lemma foldl_min_in:
  "foldl (\<lambda>b y. if f y < f b then y else b) x ys \<in> insert x (set ys)"
  by (induction ys arbitrary: x) (auto split: if_splits)

lemma foldl_min_le:
  fixes f :: "'a \<Rightarrow> 'k::linorder"
  shows "z \<in> insert x (set ys) \<Longrightarrow> f (foldl (\<lambda>b y. if f y < f b then y else b) x ys) \<le> f z"
proof (induction ys arbitrary: x z)
  case (Cons y ys)
  let ?x = "if f y < f x then y else x"
  have le: "f (foldl (\<lambda>b y. if f y < f b then y else b) ?x ys) \<le> f w" if "w \<in> insert ?x (set ys)" for w
    using Cons.IH [OF that] .
  have below: "f ?x \<le> f x" "f ?x \<le> f y" by auto
  have first: "f (foldl (\<lambda>b y. if f y < f b then y else b) ?x ys) \<le> f ?x"
    by (rule le) simp
  consider "z = x" | "z = y" | "z \<in> set ys" using Cons.prems by auto
  then have "f (foldl (\<lambda>b y. if f y < f b then y else b) ?x ys) \<le> f z"
    using order_trans [OF first below(1)] order_trans [OF first below(2)] le [of z] by cases blast+
  then show ?case by simp
qed simp

lemma foldl_max_in:
  "foldl (\<lambda>b y. if f b \<le> f y then y else b) x ys \<in> insert x (set ys)"
  by (induction ys arbitrary: x) (auto split: if_splits)

lemma foldl_max_ge:
  fixes f :: "'a \<Rightarrow> 'k::linorder"
  shows "z \<in> insert x (set ys) \<Longrightarrow> f z \<le> f (foldl (\<lambda>b y. if f b \<le> f y then y else b) x ys)"
proof (induction ys arbitrary: x z)
  case (Cons y ys)
  let ?x = "if f x \<le> f y then y else x"
  have le: "f w \<le> f (foldl (\<lambda>b y. if f b \<le> f y then y else b) ?x ys)" if "w \<in> insert ?x (set ys)" for w
    using Cons.IH [OF that] .
  have above: "f x \<le> f ?x" "f y \<le> f ?x" by auto
  have last: "f ?x \<le> f (foldl (\<lambda>b y. if f b \<le> f y then y else b) ?x ys)"
    by (rule le) simp
  consider "z = x" | "z = y" | "z \<in> set ys" using Cons.prems by auto
  then have "f z \<le> f (foldl (\<lambda>b y. if f b \<le> f y then y else b) ?x ys)"
    using order_trans [OF above(1) last] order_trans [OF above(2) last] le [of z] by cases blast+
  then show ?case by simp
qed simp

lemma first_min_by_None [simp]: "first_min_by f xs = None \<longleftrightarrow> xs = []"
  by (cases xs) (simp_all add: first_min_by_def)

lemma last_max_by_None [simp]: "last_max_by f xs = None \<longleftrightarrow> xs = []"
  by (cases xs) (simp_all add: last_max_by_def)

lemma first_min_by_in: "first_min_by f xs = Some m \<Longrightarrow> m \<in> set xs"
  using foldl_min_in by (fastforce simp: first_min_by_def split: list.splits)

lemma last_max_by_in: "last_max_by f xs = Some m \<Longrightarrow> m \<in> set xs"
  using foldl_max_in by (fastforce simp: last_max_by_def split: list.splits)

lemma first_min_by_le: "first_min_by f xs = Some m \<Longrightarrow> x \<in> set xs \<Longrightarrow> f m \<le> f x"
  by (cases xs) (auto simp: first_min_by_def intro!: foldl_min_le)

lemma last_max_by_ge: "last_max_by f xs = Some m \<Longrightarrow> x \<in> set xs \<Longrightarrow> f x \<le> f m"
  by (cases xs) (auto simp: last_max_by_def intro!: foldl_max_ge)

section \<open>Rows of a list by index\<close>

lemma find_member: "find P xs = Some x \<Longrightarrow> x \<in> set xs \<and> P x"
  by (auto simp: find_Some_iff)

definition find_index :: "('a \<Rightarrow> bool) \<Rightarrow> 'a list \<Rightarrow> nat option" where
  "find_index P xs = (case filter (\<lambda>i. P (xs ! i)) [0..<length xs] of [] \<Rightarrow> None | i # _ \<Rightarrow> Some i)"

definition update_at :: "nat \<Rightarrow> ('a \<Rightarrow> 'a) \<Rightarrow> 'a list \<Rightarrow> 'a list" where
  "update_at i f xs = (if i < length xs then xs[i := f (xs ! i)] else xs)"

definition enumerate_list :: "'a list \<Rightarrow> (nat \<times> 'a) list" where
  "enumerate_list xs = zip [0..<length xs] xs"

lemma find_index_Some:
  assumes "find_index P xs = Some i"
  shows "i < length xs" "P (xs ! i)"
proof -
  obtain js where "filter (\<lambda>i. P (xs ! i)) [0..<length xs] = i # js"
    using assms by (auto simp: find_index_def split: list.splits)
  then have "i \<in> set (filter (\<lambda>i. P (xs ! i)) [0..<length xs])"
    by (metis list.set_intros(1))
  then show "i < length xs" "P (xs ! i)" by auto
qed

lemma find_index_None: "find_index P xs = None \<longleftrightarrow> (\<forall>x \<in> set xs. \<not> P x)"
proof -
  have "find_index P xs = None \<longleftrightarrow> filter (\<lambda>i. P (xs ! i)) [0..<length xs] = []"
    by (auto simp: find_index_def split: list.splits)
  also have "\<dots> \<longleftrightarrow> (\<forall>i < length xs. \<not> P (xs ! i))"
    by (auto simp: filter_empty_conv)
  finally show ?thesis by (simp add: all_set_conv_all_nth)
qed

lemma update_at_length [simp]: "length (update_at i f xs) = length xs"
  by (simp add: update_at_def)

lemma update_at_nth: "j < length xs \<Longrightarrow> update_at i f xs ! j = (if i = j then f (xs ! j) else xs ! j)"
  by (simp add: update_at_def)

lemma map_update_at: "(\<And>x. g (f x) = g x) \<Longrightarrow> map g (update_at i f xs) = map g xs"
  by (simp add: update_at_def map_update) (metis length_map list_update_id nth_map)

lemma set_update_at: "x \<in> set (update_at i f xs) \<Longrightarrow> x \<in> set xs \<or> (i < length xs \<and> x = f (xs ! i))"
  by (auto simp: update_at_def dest: set_update_subset_insert [THEN subsetD] split: if_splits)

lemma enumerate_list_set: "(i, x) \<in> set (enumerate_list xs) \<longleftrightarrow> i < length xs \<and> x = xs ! i"
  by (auto simp: enumerate_list_def set_zip intro!: exI [of _ i])

section \<open>Sorting\<close>

lemma sort_key_filter: "filter P (sort_key f xs) = sort_key f (filter P xs)"
  by (rule filter_sort)

lemma insort_key_agree:
  "(\<And>y. y \<in> insert x (set ys) \<Longrightarrow> f y = g y) \<Longrightarrow> insort_key f x ys = insort_key g x ys"
  by (induction ys) auto

lemma sort_key_agree:
  assumes "\<And>x. x \<in> set xs \<Longrightarrow> f x = g x"
  shows "sort_key f xs = sort_key g xs"
  using assms
proof (induction xs)
  case (Cons x xs)
  then have "insort_key f x (sort_key g xs) = insort_key g x (sort_key g xs)"
    by (intro insort_key_agree) auto
  with Cons show ?case by simp
qed simp

text \<open>A loop that updates the rows of distinct indices in turn.\<close>

lemma enumerate_snoc: "enumerate_list (xs @ [x]) = enumerate_list xs @ [(length xs, x)]"
  by (simp add: enumerate_list_def)

lemma update_rows:
  assumes "distinct is" "\<And>i. i \<in> set is \<Longrightarrow> i < length xs"
  shows "let ys = foldl (\<lambda>xs (k, i). update_at i (f k) xs) xs (enumerate_list is) in
    length ys = length xs \<and> (\<forall>k < length is. ys ! (is ! k) = f k (xs ! (is ! k))) \<and>
    (\<forall>j. j \<notin> set is \<longrightarrow> ys ! j = xs ! j)"
  using assms
proof (induction "is" rule: rev_induct)
  case (snoc i "is")
  let ?ys = "foldl (\<lambda>xs (k, i). update_at i (f k) xs) xs (enumerate_list is)"
  have IH: "length ?ys = length xs" "\<forall>k < length is. ?ys ! (is ! k) = f k (xs ! (is ! k))"
    "\<forall>j. j \<notin> set is \<longrightarrow> ?ys ! j = xs ! j"
    using snoc by (simp_all add: Let_def)
  have i: "i < length xs" "i \<notin> set is" using snoc.prems by auto
  have other: "is ! k \<noteq> i" if "k < length is" for k using that i(2) nth_mem by metis
  show ?case
    using IH i other by (auto simp: enumerate_snoc Let_def update_at_def nth_append nth_list_update less_Suc_eq)
qed (simp add: enumerate_list_def)

lemma length_le_one:
  assumes "distinct (map f xs)" "\<And>x y. x \<in> set xs \<Longrightarrow> y \<in> set xs \<Longrightarrow> f x = f y"
  shows "length xs \<le> 1"
proof (cases xs)
  case (Cons x ys)
  then show ?thesis
  proof (cases ys)
    case (Cons y zs)
    then show ?thesis using assms(1) assms(2) [of x y] \<open>xs = x # ys\<close> by simp
  qed simp
qed simp

section \<open>Positional numbers\<close>

lemma mult_add_less: "a < b \<Longrightarrow> v < B \<Longrightarrow> a * B + v < b * B + (w :: nat)"
proof -
  assume *: "a < b" "v < B"
  then have "a * B + v < (a + 1) * B" by simp
  also have "\<dots> \<le> b * B" using * by (intro mult_right_mono) auto
  finally show ?thesis by simp
qed

section \<open>Collections of facts\<close>

named_theorems model_defs \<open>definitions a component's proofs unfold\<close>
named_theorems frame \<open>fields an operation leaves alone\<close>

end
