(* ===== verification/RustStr.thy ===== *)
theory RustStr
  imports Prelude
begin

text \<open>
  The operations of Rust's \<open>str\<close> and \<open>format!\<close> the modelled code uses. A \<open>string\<close> is read as a
  sequence of the scalars below U+0100 (or, where a theory says so, of bytes): \<open>trim\<close> strips the
  \<open>White_Space\<close> scalars of that range, the comparison is by scalar, which is the byte order of
  UTF-8 there.
\<close>

section \<open>Characters\<close>

definition char_code :: "char \<Rightarrow> nat" where
  "char_code c = of_char c"

definition is_digit :: "char \<Rightarrow> bool" where
  "is_digit c \<longleftrightarrow> 48 \<le> char_code c \<and> char_code c \<le> 57"

definition is_ascii_upper :: "char \<Rightarrow> bool" where
  "is_ascii_upper c \<longleftrightarrow> 65 \<le> char_code c \<and> char_code c \<le> 90"

definition is_ascii_lower :: "char \<Rightarrow> bool" where
  "is_ascii_lower c \<longleftrightarrow> 97 \<le> char_code c \<and> char_code c \<le> 122"

definition ascii_lower :: "char \<Rightarrow> char" where
  "ascii_lower c = (if is_ascii_upper c then char_of (char_code c + 32) else c)"

text \<open>\<open>char::is_whitespace\<close> below U+0100: tab to carriage return, space, NEL and NBSP.\<close>

definition is_ws :: "char \<Rightarrow> bool" where
  "is_ws c \<longleftrightarrow> (let n = char_code c in (9 \<le> n \<and> n \<le> 13) \<or> n = 32 \<or> n = 133 \<or> n = 160)"

section \<open>Slices of a string\<close>

definition trim_start :: "string \<Rightarrow> string" where
  "trim_start s = dropWhile is_ws s"

definition trim_end :: "string \<Rightarrow> string" where
  "trim_end s = rev (dropWhile is_ws (rev s))"

definition trim :: "string \<Rightarrow> string" where
  "trim s = trim_end (trim_start s)"

definition to_ascii_lowercase :: "string \<Rightarrow> string" where
  "to_ascii_lowercase = map ascii_lower"

definition eq_ignore_ascii_case :: "string \<Rightarrow> string \<Rightarrow> bool" where
  "eq_ignore_ascii_case a b \<longleftrightarrow> to_ascii_lowercase a = to_ascii_lowercase b"

fun strip_prefix :: "string \<Rightarrow> string \<Rightarrow> string option" where
  "strip_prefix [] s = Some s"
| "strip_prefix (_ # _) [] = None"
| "strip_prefix (p # ps) (c # cs) = (if p = c then strip_prefix ps cs else None)"

definition strip_suffix :: "string \<Rightarrow> string \<Rightarrow> string option" where
  "strip_suffix p s = map_option rev (strip_prefix (rev p) (rev s))"

definition starts_with :: "string \<Rightarrow> string \<Rightarrow> bool" where
  "starts_with p s \<longleftrightarrow> strip_prefix p s \<noteq> None"

definition ends_with :: "string \<Rightarrow> string \<Rightarrow> bool" where
  "ends_with p s \<longleftrightarrow> strip_suffix p s \<noteq> None"

fun contains_str :: "string \<Rightarrow> string \<Rightarrow> bool" where
  "contains_str p [] \<longleftrightarrow> p = []"
| "contains_str p (c # s) \<longleftrightarrow> starts_with p (c # s) \<or> contains_str p s"

text \<open>\<open>s.split(c)\<close>: always at least one piece.\<close>

fun split_on :: "char \<Rightarrow> string \<Rightarrow> string list" where
  "split_on d [] = [[]]"
| "split_on d (c # s) =
     (if c = d then [] # split_on d s
      else (case split_on d s of [] \<Rightarrow> [[c]] | p # ps \<Rightarrow> (c # p) # ps))"

text \<open>\<open>pieces.join(c)\<close>\<close>

fun join_on :: "string \<Rightarrow> string list \<Rightarrow> string" where
  "join_on d [] = []"
| "join_on d [p] = p"
| "join_on d (p # q # ps) = p @ d @ join_on d (q # ps)"

definition drop_cr :: "string \<Rightarrow> string" where
  "drop_cr s = (if s \<noteq> [] \<and> last s = CHR 0x0D then butlast s else s)"

text \<open>\<open>s.lines()\<close>: split after each newline, no final empty line, one carriage return stripped
  from a line that ended in a newline.\<close>

definition lines :: "string \<Rightarrow> string list" where
  "lines s = (let ps = split_on (CHR 0x0A) s in
     map drop_cr (butlast ps) @ (if last ps = [] then [] else [last ps]))"

definition nl :: string where
  "nl = [CHR 0x0A]"

section \<open>Decimal numbers\<close>

definition digit_char :: "nat \<Rightarrow> char" where
  "digit_char n = char_of (48 + n)"

fun dec :: "nat \<Rightarrow> string" where
  "dec n = (if n < 10 then [digit_char n] else dec (n div 10) @ [digit_char (n mod 10)])"

declare dec.simps [simp del]

text \<open>\<open>format!("{n:0w}")\<close>\<close>

definition dec_pad :: "nat \<Rightarrow> nat \<Rightarrow> string" where
  "dec_pad w n = replicate (w - length (dec n)) (CHR ''0'') @ dec n"

definition digits_value :: "string \<Rightarrow> nat" where
  "digits_value s = foldl (\<lambda>v c. 10 * v + (char_code c - 48)) 0 s"

text \<open>\<open>s.parse::<usize>()\<close> on a 64-bit target: an optional plus sign, at least one digit, no
  overflow.\<close>

definition parse_usize :: "string \<Rightarrow> nat option" where
  "parse_usize s =
     (let ds = (case s of [] \<Rightarrow> [] | c # cs \<Rightarrow> if c = CHR ''+'' then cs else s) in
      if ds = [] \<or> \<not> list_all is_digit ds then None
      else if digits_value ds < 2 ^ 64 then Some (digits_value ds) else None)"

section \<open>Lemmas\<close>

lemma strip_prefix_Some [simp]: "strip_prefix p s = Some r \<longleftrightarrow> s = p @ r"
  by (induction p s rule: strip_prefix.induct) auto

lemma strip_prefix_append [simp]: "strip_prefix p (p @ r) = Some r"
  by simp

lemma strip_suffix_Some [simp]: "strip_suffix p s = Some r \<longleftrightarrow> s = r @ p"
proof -
  have "strip_suffix p s = Some r \<longleftrightarrow> rev s = rev p @ rev r"
    by (auto simp: strip_suffix_def)
  also have "\<dots> \<longleftrightarrow> s = r @ p" by (metis rev_append rev_rev_ident)
  finally show ?thesis .
qed

lemma starts_with_iff [simp]: "starts_with p s \<longleftrightarrow> (\<exists>r. s = p @ r)"
  by (auto simp: starts_with_def simp flip: strip_prefix_Some)

lemma ends_with_iff: "ends_with p s \<longleftrightarrow> (\<exists>r. s = r @ p)"
  by (auto simp: ends_with_def simp flip: strip_suffix_Some)

lemma starts_with_code [code]: "starts_with p s = (take (length p) s = p)"
  by (metis append_eq_conv_conj append_take_drop_id starts_with_iff)

lemma contains_str_iff: "contains_str p s \<longleftrightarrow> (\<exists>a b. s = a @ p @ b)"
proof (induction s)
  case (Cons c s)
  have "(\<exists>a b. c # s = a @ p @ b) \<longleftrightarrow> (\<exists>b. c # s = p @ b) \<or> (\<exists>a b. s = a @ p @ b)"
    by (metis append_Cons append_Nil list.inject neq_Nil_conv)
  with Cons show ?case by simp
qed simp

lemma split_on_nonempty [simp]: "split_on d s \<noteq> []"
  by (cases s) (auto split: list.splits)

lemma split_on_no_delim: "p \<in> set (split_on d s) \<Longrightarrow> d \<notin> set p"
proof (induction s arbitrary: p)
  case (Cons c s)
  obtain q qs where "split_on d s = q # qs" using split_on_nonempty [of d s] by (cases "split_on d s") auto
  with Cons show ?case by (auto split: if_splits)
qed simp

lemma join_on_Cons: "ps \<noteq> [] \<Longrightarrow> join_on d (p # ps) = p @ d @ join_on d ps"
  by (cases ps) simp_all

lemma join_split [simp]: "join_on [d] (split_on d s) = s"
proof (induction s)
  case (Cons c s)
  obtain q qs where q: "split_on d s = q # qs" using split_on_nonempty [of d s] by (cases "split_on d s") auto
  show ?case
  proof (cases "c = d")
    case True
    then show ?thesis using Cons q by (simp add: join_on_Cons)
  next
    case False
    then show ?thesis using Cons q by (cases qs) simp_all
  qed
qed simp

lemma split_on_append_delim:
  "d \<notin> set p \<Longrightarrow> split_on d (p @ d # s) = p # split_on d s"
  by (induction p) auto

lemma split_on_single: "d \<notin> set p \<Longrightarrow> split_on d p = [p]"
  by (induction p) auto

lemma split_join:
  assumes "ps \<noteq> []" "\<And>p. p \<in> set ps \<Longrightarrow> d \<notin> set p"
  shows "split_on d (join_on [d] ps) = ps"
  using assms
proof (induction ps rule: list_nonempty_induct)
  case (cons p ps)
  then show ?case by (simp add: join_on_Cons split_on_append_delim)
qed (simp add: split_on_single)

lemma length_join_on:
  "ps \<noteq> [] \<Longrightarrow> length (join_on d ps) = sum_list (map length ps) + length d * (length ps - 1)"
  by (induction ps rule: list_nonempty_induct) (simp_all add: join_on_Cons neq_Nil_conv algebra_simps, auto)

lemma dropWhile_id: "(xs = [] \<or> \<not> P (hd xs)) \<Longrightarrow> dropWhile P xs = xs"
  by (cases xs) auto

lemma trim_end_last: "trim_end s = [] \<or> \<not> is_ws (last (trim_end s))"
  unfolding trim_end_def
  by (metis hd_dropWhile last_rev rev_is_Nil_conv)

lemma trim_end_prefix: "prefix (trim_end s) s"
  unfolding trim_end_def
  by (metis rev_rev_ident suffix_dropWhile suffix_to_prefix)

lemma trim_edges: "trim s = [] \<or> (\<not> is_ws (hd (trim s)) \<and> \<not> is_ws (last (trim s)))"
proof -
  have "trim_start s = [] \<or> \<not> is_ws (hd (trim_start s))"
    unfolding trim_start_def using hd_dropWhile by blast
  moreover have "prefix (trim s) (trim_start s)"
    unfolding trim_def by (rule trim_end_prefix)
  moreover have "trim s = [] \<or> \<not> is_ws (last (trim s))"
    unfolding trim_def by (rule trim_end_last)
  ultimately show ?thesis by (cases "trim s") (auto simp: prefix_def)
qed

lemma trim_id: "s = [] \<or> (\<not> is_ws (hd s) \<and> \<not> is_ws (last s)) \<Longrightarrow> trim s = s"
  by (auto simp: trim_def trim_start_def trim_end_def dropWhile_id hd_rev)

lemma trim_idem [simp]: "trim (trim s) = trim s"
  by (rule trim_id, rule trim_edges)

lemma digit_char_code: "n < 10 \<Longrightarrow> char_code (digit_char n) = 48 + n"
  by (simp add: char_code_def digit_char_def)

lemma is_digit_digit_char [simp]: "n < 10 \<Longrightarrow> is_digit (digit_char n)"
  by (simp add: is_digit_def digit_char_code)

lemma dec_nonempty [simp]: "dec n \<noteq> []"
  by (subst dec.simps) simp

lemma dec_digits: "list_all is_digit (dec n)"
proof (induction n rule: dec.induct)
  case (1 n)
  then show ?case by (subst dec.simps) simp
qed

lemma digits_value_append: "digits_value (s @ [c]) = 10 * digits_value s + (char_code c - 48)"
  by (simp add: digits_value_def)

lemma digits_value_dec [simp]: "digits_value (dec n) = n"
proof (induction n rule: dec.induct)
  case (1 n)
  show ?case
  proof (cases "n < 10")
    case True
    then show ?thesis by (subst dec.simps) (simp add: digits_value_def digit_char_code)
  next
    case False
    then show ?thesis using 1 by (subst dec.simps) (simp add: digits_value_append digit_char_code)
  qed
qed

lemma digits_value_zeros: "digits_value (replicate k (CHR ''0'') @ s) = digits_value s"
proof (induction k)
  case (Suc k)
  have "foldl (\<lambda>v c. 10 * v + (char_code c - 48)) 0 (CHR ''0'' # replicate k (CHR ''0'') @ s)
      = foldl (\<lambda>v c. 10 * v + (char_code c - 48)) 0 (replicate k (CHR ''0'') @ s)"
    by (simp add: char_code_def)
  with Suc show ?case by (simp add: digits_value_def)
qed simp

lemma dec_pad_nonempty [simp]: "dec_pad w n \<noteq> []"
  by (simp add: dec_pad_def)

lemma dec_pad_digits: "list_all is_digit (dec_pad w n)"
proof -
  have "is_digit (CHR ''0'')" by (simp add: is_digit_def char_code_def)
  then show ?thesis using dec_digits [of n] by (auto simp: dec_pad_def list_all_iff)
qed

lemma digits_value_dec_pad [simp]: "digits_value (dec_pad w n) = n"
  by (simp add: dec_pad_def digits_value_zeros)

lemma not_digit_plus: "\<not> is_digit (CHR ''+'')"
  by (simp add: is_digit_def char_code_def)

lemma parse_usize_digits:
  assumes "s \<noteq> []" "list_all is_digit s" "digits_value s < 2 ^ 64"
  shows "parse_usize s = Some (digits_value s)"
proof -
  obtain c cs where s: "s = c # cs" using assms by (cases s) auto
  then have "c \<noteq> CHR ''+''" using assms not_digit_plus by auto
  then have "(case s of [] \<Rightarrow> [] | c # cs \<Rightarrow> if c = CHR ''+'' then cs else s) = s" using s by simp
  then show ?thesis using assms by (simp add: parse_usize_def Let_def)
qed

lemma parse_usize_dec_pad [simp]: "n < 2 ^ 64 \<Longrightarrow> parse_usize (dec_pad w n) = Some n"
  using parse_usize_digits [of "dec_pad w n"] dec_pad_digits by simp

lemma length_dec: "n < 10 ^ k \<Longrightarrow> 0 < k \<Longrightarrow> length (dec n) \<le> k"
proof (induction n arbitrary: k rule: dec.induct)
  case (1 n)
  show ?case
  proof (cases "n < 10")
    case True
    then show ?thesis using 1 by (subst dec.simps) simp
  next
    case False
    then obtain k' where k: "k = Suc k'" "0 < k'"
      using "1.prems" by (cases k; cases "k - 1") auto
    then have "n div 10 < 10 ^ k'" using "1.prems" by (simp add: less_mult_imp_div_less mult.commute)
    then have "length (dec (n div 10)) \<le> k'" using 1 False k by simp
    then show ?thesis using False k by (subst dec.simps) simp
  qed
qed

lemma length_dec_pad: "n < 10 ^ w \<Longrightarrow> 0 < w \<Longrightarrow> length (dec_pad w n) = w"
  using length_dec [of n w] by (simp add: dec_pad_def)

end
