(* ===== verification/Calendar.thy ===== *)
theory Calendar
  imports RustStr
begin

text \<open>
  The UTC calendar the sessions are stamped with: \<open>unix_to_ymdhms\<close> and \<open>now_rfc3339\<close> of
  \<open>host/checkpoints/session/phase.rs\<close>, the second implementation in \<open>telemetry/analytics.rs\<close>, the
  sub-second variant of \<open>strategy/manual_commit/git_sequence.rs\<close>, and the inverse the doctor uses
  (\<open>days_since_unix_epoch\<close>, \<open>cli/doctor.rs\<close>). The clock is an argument (seconds since the epoch);
  \<open>u64\<close> values are naturals: every operation divides, subtracts what was compared or counts years
  up to at most the number of days.
\<close>

section \<open>From seconds to a calendar date (phase.rs)\<close>

definition is_leap :: "nat \<Rightarrow> bool" where
  "is_leap year \<longleftrightarrow> (year mod 4 = 0 \<and> \<not> year mod 100 = 0) \<or> year mod 400 = 0"

definition days_in_year :: "nat \<Rightarrow> nat" where
  "days_in_year year = (if is_leap year then 366 else 365)"

text \<open>The loop over the years; the day count drops by at least 365 at each turn.\<close>

function year_loop :: "nat \<Rightarrow> nat \<Rightarrow> nat \<times> nat" where
  "year_loop year remaining =
     (if remaining < days_in_year year then (year, remaining)
      else year_loop (year + 1) (remaining - days_in_year year))"
  by auto
termination by (relation "measure snd") (auto simp: days_in_year_def)

declare year_loop.simps [simp del]

definition months :: "nat list" where
  "months = [31, 28, 31, 30, 31, 30, 31, 31, 30, 31, 30, 31]"

text \<open>The loop over the month table, with the \<open>break\<close> as the early return.\<close>

fun month_loop :: "nat \<Rightarrow> nat list \<Rightarrow> nat \<Rightarrow> nat \<Rightarrow> nat \<times> nat" where
  "month_loop year [] month remaining = (month, remaining)"
| "month_loop year (len # lens) month remaining =
     (let days_in_month = (if month = 2 \<and> is_leap year then 29 else len) in
      if remaining < days_in_month then (month, remaining)
      else month_loop year lens (month + 1) (remaining - days_in_month))"

definition unix_to_ymdhms :: "nat \<Rightarrow> nat \<times> nat \<times> nat \<times> nat \<times> nat \<times> nat" where
  "unix_to_ymdhms secs =
     (let s = secs mod 60; mins = secs div 60; mi = mins mod 60;
          hours = mins div 60; h = hours mod 24; days = hours div 24;
          (year, remaining) = year_loop 1970 days;
          (month, remaining) = month_loop year months 1 remaining;
          day = remaining + 1
      in (year, month, day, h, mi, s))"

definition format_rfc3339 :: "nat \<times> nat \<times> nat \<times> nat \<times> nat \<times> nat \<Rightarrow> string" where
  "format_rfc3339 t = (case t of (y, mo, d, h, mi, s) \<Rightarrow>
     dec_pad 4 y @ ''-'' @ dec_pad 2 mo @ ''-'' @ dec_pad 2 d @ ''T'' @
     dec_pad 2 h @ '':'' @ dec_pad 2 mi @ '':'' @ dec_pad 2 s @ ''Z'')"

definition now_rfc3339 :: "nat \<Rightarrow> string" where
  "now_rfc3339 secs = format_rfc3339 (unix_to_ymdhms secs)"

section \<open>The copy of the telemetry module (analytics.rs)\<close>

fun analytics_month_loop :: "nat list \<Rightarrow> nat \<Rightarrow> nat \<Rightarrow> nat \<times> nat" where
  "analytics_month_loop [] month days = (month, days)"
| "analytics_month_loop (ml # mls) month days =
     (if days < ml then (month, days) else analytics_month_loop mls (month + 1) (days - ml))"

definition analytics_unix_to_ymdhms :: "nat \<Rightarrow> nat \<times> nat \<times> nat \<times> nat \<times> nat \<times> nat" where
  "analytics_unix_to_ymdhms secs =
     (let days = secs div 86400; rem = secs mod 86400;
          hour = rem div 3600; rem = rem mod 3600;
          minute = rem div 60; second = rem mod 60;
          (year, days) = year_loop 1970 days;
          month_lengths = (if is_leap year
            then [31, 29, 31, 30, 31, 30, 31, 31, 30, 31, 30, 31]
            else [31, 28, 31, 30, 31, 30, 31, 31, 30, 31, 30, 31]);
          (month, days) = analytics_month_loop month_lengths 1 days;
          day = days + 1
      in (year, month, day, hour, minute, second))"

section \<open>The sub-second stamp (git\_sequence.rs)\<close>

text \<open>\<open>while frac.ends_with('0') { frac.pop(); }\<close>\<close>

definition strip_zeros :: "string \<Rightarrow> string" where
  "strip_zeros frac = rev (dropWhile (\<lambda>c. c = CHR ''0'') (rev frac))"

definition now_rfc3339_nanos :: "nat \<Rightarrow> nat \<Rightarrow> string" where
  "now_rfc3339_nanos secs nanos =
     (if nanos = 0 then format_rfc3339 (unix_to_ymdhms secs)
      else butlast (format_rfc3339 (unix_to_ymdhms secs)) @ ''.'' @
           strip_zeros (dec_pad 9 nanos) @ ''Z'')"

section \<open>From a calendar date to days (doctor.rs)\<close>

definition is_leap_year :: "int \<Rightarrow> bool" where
  "is_leap_year year \<longleftrightarrow> (year mod 4 = 0 \<and> year mod 100 \<noteq> 0) \<or> year mod 400 = 0"

definition days_in_month :: "int \<Rightarrow> nat \<Rightarrow> nat" where
  "days_in_month year month =
     (if month \<in> {1, 3, 5, 7, 8, 10, 12} then 31
      else if month \<in> {4, 6, 9, 11} then 30
      else if month = 2 then (if is_leap_year year then 29 else 28)
      else 0)"

definition doctor_year_days :: "int \<Rightarrow> int" where
  "doctor_year_days y = (if is_leap_year y then 366 else 365)"

definition days_since_unix_epoch :: "int \<Rightarrow> nat \<Rightarrow> nat \<Rightarrow> int option" where
  "days_since_unix_epoch year month day =
     (if \<not> (1 \<le> month \<and> month \<le> 12) \<or> day = 0 \<or> day > days_in_month year month then None
      else
        let days = (if 1970 \<le> year
                    then sum_list (map doctor_year_days [1970..year - 1])
                    else - sum_list (map doctor_year_days [year..1969]));
            days = days + sum_list (map (\<lambda>m. int (days_in_month year m)) [1..<month])
        in Some (days + int (day - 1)))"

section \<open>The loops compute the calendar\<close>

definition month_days :: "nat \<Rightarrow> nat \<Rightarrow> nat" where
  "month_days y m = days_in_month (int y) m"

definition days_before_year :: "nat \<Rightarrow> nat" where
  "days_before_year y = sum_list (map days_in_year [1970..<y])"

definition days_before_month :: "nat \<Rightarrow> nat \<Rightarrow> nat" where
  "days_before_month y m = sum_list (map (month_days y) [1..<m])"

definition valid_date :: "nat \<Rightarrow> nat \<Rightarrow> nat \<Rightarrow> bool" where
  "valid_date y m d \<longleftrightarrow> 1970 \<le> y \<and> 1 \<le> m \<and> m \<le> 12 \<and> 1 \<le> d \<and> d \<le> month_days y m"

definition days_of_date :: "nat \<Rightarrow> nat \<Rightarrow> nat \<Rightarrow> nat" where
  "days_of_date y m d = days_before_year y + days_before_month y m + (d - 1)"

lemma is_leap_year_int [simp]: "is_leap_year (int y) = is_leap y"
proof -
  have "int y mod k = 0 \<longleftrightarrow> y mod nat k = 0" if "0 < k" for k
    using that by (metis int_nat_eq less_le nat_int of_nat_0_eq_iff zmod_int)
  from this [of 4] this [of 100] this [of 400] show ?thesis
    by (simp add: is_leap_year_def is_leap_def)
qed

lemma days_before_year_Suc: "1970 \<le> y \<Longrightarrow> days_before_year (Suc y) = days_before_year y + days_in_year y"
  by (simp add: days_before_year_def)

lemma days_before_month_Suc: "1 \<le> m \<Longrightarrow> days_before_month y (Suc m) = days_before_month y m + month_days y m"
  by (simp add: days_before_month_def)

lemma year_loop_spec:
  assumes "year_loop y r = (y', r')" "1970 \<le> y"
  shows "y \<le> y' \<and> r' < days_in_year y' \<and> days_before_year y + r = days_before_year y' + r'"
  using assms
proof (induction y r arbitrary: y' r' rule: year_loop.induct)
  case (1 y r)
  show ?case
  proof (cases "r < days_in_year y")
    case True
    then show ?thesis using 1 by (simp add: year_loop.simps)
  next
    case False
    then have "year_loop (y + 1) (r - days_in_year y) = (y', r')"
      using "1.prems" by (metis year_loop.simps)
    then show ?thesis using 1(1) [OF False] "1.prems" False by (fastforce simp: days_before_year_Suc)
  qed
qed

lemma month_table: "1 \<le> m \<Longrightarrow> m \<le> 12 \<Longrightarrow>
    (if m = 2 \<and> is_leap y then 29 else months ! (m - 1)) = month_days y m"
proof -
  assume "1 \<le> m" "m \<le> 12"
  then have "m \<in> {1, 2, 3, 4, 5, 6, 7, 8, 9, 10, 11, 12}"
    unfolding insert_iff empty_iff by presburger
  then show ?thesis
    by (elim insertE) (simp_all add: months_def month_days_def days_in_month_def)
qed

lemma days_before_month_13: "days_before_month y 13 = days_in_year y"
  by (simp add: days_before_month_def upt_rec month_days_def days_in_month_def days_in_year_def)

lemma days_before_month_mono: "m \<le> m' \<Longrightarrow> days_before_month y m \<le> days_before_month y m'"
proof (cases "1 \<le> m")
  case True
  assume "m \<le> m'"
  then obtain k where "m' = m + k" using le_Suc_ex by blast
  then show ?thesis using upt_add_eq_append [OF True, of k] by (simp add: days_before_month_def)
qed (simp add: days_before_month_def)

lemma month_loop_spec:
  assumes "month_loop y lens m r = (m', r')" "lens = drop (m - 1) months" "1 \<le> m" "m \<le> 13"
    "days_before_month y m + r < days_in_year y"
  shows "m \<le> m' \<and> m' \<le> 12 \<and> r' < month_days y m' \<and>
         days_before_month y m + r = days_before_month y m' + r'"
  using assms
proof (induction y lens m r arbitrary: m' r' rule: month_loop.induct)
  case (1 y m r)
  then have "m = 13" by (simp add: months_def)
  then show ?case using 1 days_before_month_13 by simp
next
  case (2 y len lens m r)
  have m: "m \<le> 12" using 2 by (cases "m = 13") (auto simp: months_def)
  have len: "months ! (m - 1) = len"
    using "2.prems"(2) m by (metis drop_eq_Nil2 hd_drop_conv_nth linorder_not_less list.distinct(1) list.sel(1))
  have lens: "lens = drop (Suc m - 1) months"
    using "2.prems"(2,3) by (metis Suc_diff_le diff_Suc_1 drop_Suc list.sel(3) tl_drop)
  let ?dim = "if m = 2 \<and> is_leap y then 29 else len"
  have dim: "?dim = month_days y m"
    using month_table [OF "2.prems"(3) m, of y] unfolding len .
  have step: "month_loop y (len # lens) m r =
      (if r < month_days y m then (m, r) else month_loop y lens (m + 1) (r - month_days y m))"
    by (simp only: month_loop.simps Let_def dim)
  show ?case
  proof (cases "r < month_days y m")
    case True
    with step "2.prems"(1) have "m' = m" "r' = r" by simp_all
    then show ?thesis using m True by simp
  next
    case False
    have carry: "days_before_month y (m + 1) + (r - month_days y m) = days_before_month y m + r"
      using False "2.prems"(3) days_before_month_Suc [of m y] by simp
    have "m + 1 \<le> m' \<and> m' \<le> 12 \<and> r' < month_days y m' \<and>
        days_before_month y (m + 1) + (r - month_days y m) = days_before_month y m' + r'"
    proof (rule "2.IH" [OF refl, unfolded dim, OF False])
      show "month_loop y lens (m + 1) (r - month_days y m) = (m', r')"
        using step "2.prems"(1) False by simp
      show "lens = drop (m + 1 - 1) months" using lens by simp
      show "days_before_month y (m + 1) + (r - month_days y m) < days_in_year y"
        using carry "2.prems"(5) by simp
    qed (use m in simp_all)
    then show ?thesis using carry by simp
  qed
qed

lemma unix_to_ymdhms_spec:
  assumes "unix_to_ymdhms secs = (y, m, d, h, mi, s)"
  shows "valid_date y m d" "h < 24" "mi < 60" "s < 60"
    "secs = ((days_of_date y m d * 24 + h) * 60 + mi) * 60 + s"
proof -
  let ?days = "secs div 60 div 60 div 24"
  obtain r where y: "year_loop 1970 ?days = (y, r)" and m: "month_loop y months 1 r = (m, d - 1)"
    and d: "1 \<le> d"
    and t: "h = secs div 60 div 60 mod 24" "mi = secs div 60 mod 60" "s = secs mod 60"
    using assms by (auto simp: unix_to_ymdhms_def Let_def split: prod.splits)
  have ys: "1970 \<le> y" "r < days_in_year y" "?days = days_before_year y + r"
    using year_loop_spec [OF y] by (auto simp: days_before_year_def)
  have ms: "1 \<le> m" "m \<le> 12" "d - 1 < month_days y m" "r = days_before_month y m + (d - 1)"
    using month_loop_spec [OF m] ys(2) by (auto simp: days_before_month_def)
  show "valid_date y m d" using ys ms d by (simp add: valid_date_def)
  show "h < 24" "mi < 60" "s < 60" using t by auto
  have "days_of_date y m d = ?days" using ys ms by (simp add: days_of_date_def)
  then show "secs = ((days_of_date y m d * 24 + h) * 60 + mi) * 60 + s"
    using t by (simp add: div_mult_mod_eq)
qed
section \<open>Dates order as their day numbers\<close>

lemma days_before_year_mono: "y \<le> y' \<Longrightarrow> days_before_year y \<le> days_before_year y'"
proof (cases "1970 \<le> y")
  case True
  assume "y \<le> y'"
  then obtain k where "y' = y + k" using le_Suc_ex by blast
  then show ?thesis using upt_add_eq_append [OF True, of k] by (simp add: days_before_year_def)
qed (simp add: days_before_year_def)

lemma day_in_month:
  assumes "valid_date y m d"
  shows "days_before_month y m + (d - 1) < days_before_month y (Suc m)"
  using assms days_before_month_Suc [of m y] by (auto simp: valid_date_def)

lemma day_in_year:
  assumes "valid_date y m d"
  shows "days_before_month y m + (d - 1) < days_in_year y"
proof -
  have "days_before_month y (Suc m) \<le> days_before_month y 13"
    using assms by (intro days_before_month_mono) (simp add: valid_date_def)
  then show ?thesis using day_in_month [OF assms] days_before_month_13 [of y] by simp
qed

lemma days_of_date_less:
  assumes v: "valid_date y m d" and v': "valid_date y' m' d'"
    and less: "y < y' \<or> (y = y' \<and> (m < m' \<or> (m = m' \<and> d < d')))"
  shows "days_of_date y m d < days_of_date y' m' d'"
proof (cases "y < y'")
  case True
  have "days_before_year y + days_in_year y \<le> days_before_year y'"
    using days_before_year_mono [of "Suc y" y'] days_before_year_Suc [of y] v True
    by (simp add: valid_date_def)
  then show ?thesis using day_in_year [OF v] by (simp add: days_of_date_def)
next
  case False
  then have y: "y' = y" using less by simp
  show ?thesis
  proof (cases "m < m'")
    case True
    then show ?thesis
      using day_in_month [OF v] days_before_month_mono [of "Suc m" m' y] y
      by (simp add: days_of_date_def)
  next
    case False
    then show ?thesis using less v y by (auto simp: days_of_date_def valid_date_def)
  qed
qed

section \<open>Stamps order as the numbers they print\<close>

lemma digits_value_foldl:
  "foldl (\<lambda>v c. 10 * v + (char_code c - 48)) k s = k * 10 ^ length s + digits_value s"
proof (induction s arbitrary: k)
  case (Cons c s)
  have "digits_value (c # s) = (char_code c - 48) * 10 ^ length s + digits_value s"
    using Cons [of "char_code c - 48"] by (simp add: digits_value_def)
  then show ?case using Cons [of "10 * k + (char_code c - 48)"] by (simp add: algebra_simps)
qed (simp add: digits_value_def)

lemma digits_value_Cons:
  "digits_value (c # s) = (char_code c - 48) * 10 ^ length s + digits_value s"
  using digits_value_foldl [of "char_code c - 48" s] by (simp add: digits_value_def)

lemma digits_value_bound: "list_all is_digit s \<Longrightarrow> digits_value s < 10 ^ length s"
proof (induction s)
  case (Cons c s)
  have "(char_code c - 48) * 10 ^ length s \<le> 9 * 10 ^ length s"
    using Cons.prems by (intro mult_right_mono) (auto simp: is_digit_def)
  moreover have "digits_value s < 10 ^ length s" using Cons by simp
  ultimately have "(char_code c - 48) * 10 ^ length s + digits_value s < 10 * 10 ^ length s"
    by linarith
  then show ?case by (simp add: digits_value_Cons)
qed (simp add: digits_value_def)

lemma digits_less_iff:
  "list_all is_digit s \<Longrightarrow> list_all is_digit t \<Longrightarrow> length s = length t \<Longrightarrow>
     s < t \<longleftrightarrow> digits_value s < digits_value t"
proof (induction s arbitrary: t)
  case (Cons c s)
  then obtain e u where t: "t = e # u" by (cases t) auto
  have bounds: "digits_value s < 10 ^ length s" "digits_value u < 10 ^ length s"
    using Cons.prems t digits_value_bound [of s] digits_value_bound [of u] by auto
  have code: "48 \<le> char_code c" "48 \<le> char_code e" using Cons.prems t by (auto simp: is_digit_def)
  consider "char_code c < char_code e" | "char_code e < char_code c" | "char_code c = char_code e"
    by linarith
  then show ?case
  proof cases
    case 1
    have "c < e" "c \<noteq> e" using 1 by (auto simp: less_char_def char_code_def)
    moreover have "digits_value (c # s) < digits_value t"
      using mult_add_less [of "char_code c - 48" "char_code e - 48", OF _ bounds(1)] 1 code Cons.prems t
      by (simp add: digits_value_Cons)
    ultimately show ?thesis using t by simp
  next
    case 2
    have "\<not> c < e" "c \<noteq> e" using 2 by (auto simp: less_char_def char_code_def)
    moreover have "digits_value t < digits_value (c # s)"
      using mult_add_less [of "char_code e - 48" "char_code c - 48", OF _ bounds(2)] 2 code Cons.prems t
      by (simp add: digits_value_Cons)
    ultimately show ?thesis using t by simp
  next
    case 3
    then have "c = e" by (simp add: char_code_def)
    then show ?thesis using Cons t by (simp add: digits_value_Cons)
  qed
qed (simp add: digits_value_def)

lemma dec_pad_less_iff:
  assumes "n < 10 ^ w" "m < 10 ^ w" "0 < w"
  shows "dec_pad w n < dec_pad w m \<longleftrightarrow> n < m" "dec_pad w n = dec_pad w m \<longleftrightarrow> n = m"
proof -
  show "dec_pad w n < dec_pad w m \<longleftrightarrow> n < m"
    using digits_less_iff [OF dec_pad_digits dec_pad_digits, of w n w m] assms
    by (simp add: length_dec_pad)
  show "dec_pad w n = dec_pad w m \<longleftrightarrow> n = m" by (metis digits_value_dec_pad)
qed

lemma append_less_iff:
  fixes a b c d :: string
  assumes "length a = length b"
  shows "a @ c < b @ d \<longleftrightarrow> a < b \<or> (a = b \<and> c < d)"
  using assms by (induction a b rule: list_induct2) auto

lemma dec_pad_append_less:
  assumes "n < 10 ^ w" "m < 10 ^ w" "0 < w"
  shows "dec_pad w n @ c < dec_pad w m @ d \<longleftrightarrow> n < m \<or> (n = m \<and> c < d)"
  using assms by (simp add: append_less_iff length_dec_pad dec_pad_less_iff)

definition stamp_fits :: "nat \<times> nat \<times> nat \<times> nat \<times> nat \<times> nat \<Rightarrow> bool" where
  "stamp_fits t = (case t of (y, mo, d, h, mi, s) \<Rightarrow>
     y < 10000 \<and> mo < 100 \<and> d < 100 \<and> h < 100 \<and> mi < 100 \<and> s < 100)"

lemma format_rfc3339_less:
  assumes "stamp_fits t" "stamp_fits u"
  shows "format_rfc3339 t < format_rfc3339 u \<longleftrightarrow> t < u"
  using assms
  by (cases t; cases u)
    (simp add: format_rfc3339_def stamp_fits_def dec_pad_append_less [where w = 4, simplified]
      dec_pad_append_less [where w = 2, simplified] less_prod_def')

lemma tuple_less_secs:
  assumes "unix_to_ymdhms t < unix_to_ymdhms u"
  shows "t < u"
proof -
  obtain y m d h mi s where T: "unix_to_ymdhms t = (y, m, d, h, mi, s)" by (metis prod_cases6)
  obtain y' m' d' h' mi' s' where U: "unix_to_ymdhms u = (y', m', d', h', mi', s')"
    by (metis prod_cases6)
  note ts = unix_to_ymdhms_spec [OF T] and us = unix_to_ymdhms_spec [OF U]
  let ?D = "days_of_date y m d" and ?D' = "days_of_date y' m' d'"
  have "(y < y' \<or> (y = y' \<and> (m < m' \<or> (m = m' \<and> d < d')))) \<or>
      (y = y' \<and> m = m' \<and> d = d' \<and> (h < h' \<or> (h = h' \<and> (mi < mi' \<or> (mi = mi' \<and> s < s')))))"
    using assms unfolding T U by (auto simp: less_prod_def')
  then have "?D < ?D' \<or> (?D = ?D' \<and> (h < h' \<or> (h = h' \<and> (mi < mi' \<or> (mi = mi' \<and> s < s')))))"
    using days_of_date_less [OF ts(1) us(1)] by blast
  then have "?D * 24 + h < ?D' * 24 + h' \<or> (?D * 24 + h = ?D' * 24 + h' \<and> (mi < mi' \<or> (mi = mi' \<and> s < s')))"
    using mult_add_less [of ?D ?D' h 24 h'] ts(2) by auto
  then have "(?D * 24 + h) * 60 + mi < (?D' * 24 + h') * 60 + mi' \<or>
      ((?D * 24 + h) * 60 + mi = (?D' * 24 + h') * 60 + mi' \<and> s < s')"
    using mult_add_less [of "?D * 24 + h" "?D' * 24 + h'" mi 60 mi'] ts(3) by auto
  then show ?thesis
    using mult_add_less [of "(?D * 24 + h) * 60 + mi" "(?D' * 24 + h') * 60 + mi'" s 60 s']
      ts(4,5) us(5) by auto
qed

lemma unix_to_ymdhms_inj: "unix_to_ymdhms t = unix_to_ymdhms u \<Longrightarrow> t = u"
  by (metis prod_cases6 unix_to_ymdhms_spec(5))

lemma tuple_less_iff: "unix_to_ymdhms t < unix_to_ymdhms u \<longleftrightarrow> t < u"
proof (cases rule: linorder_cases [of t u])
  case less
  then have "unix_to_ymdhms t \<noteq> unix_to_ymdhms u" using unix_to_ymdhms_inj by blast
  then consider "unix_to_ymdhms t < unix_to_ymdhms u" | "unix_to_ymdhms u < unix_to_ymdhms t"
    using linorder_neqE by blast
  then show ?thesis using tuple_less_secs [of u t] less by cases simp_all
qed (use tuple_less_secs [of t u] in auto)

lemma stamp_fits_unix:
  assumes "fst (unix_to_ymdhms t) < 10000"
  shows "stamp_fits (unix_to_ymdhms t)"
proof -
  obtain y m d h mi s where T: "unix_to_ymdhms t = (y, m, d, h, mi, s)" by (metis prod_cases6)
  have "month_days y m \<le> 31" by (auto simp: month_days_def days_in_month_def)
  then show ?thesis
    using unix_to_ymdhms_spec [OF T] T assms by (simp add: stamp_fits_def valid_date_def)
qed

lemma fst_unix_mono: "t \<le> u \<Longrightarrow> fst (unix_to_ymdhms t) \<le> fst (unix_to_ymdhms u)"
  using tuple_less_iff [of t u] by (cases "t = u") (auto simp: less_prod_def')

lemma now_rfc3339_less:
  assumes "fst (unix_to_ymdhms t) < 10000" "fst (unix_to_ymdhms u) < 10000"
  shows "now_rfc3339 t < now_rfc3339 u \<longleftrightarrow> t < u"
  using assms
  by (simp add: now_rfc3339_def format_rfc3339_less stamp_fits_unix tuple_less_iff)

lemma analytics_month_loop_table:
  "analytics_month_loop (map (\<lambda>(k, len). if k = 2 \<and> is_leap y then 29 else len)
      (zip [m..<m + length lens] lens)) m r = month_loop y lens m r"
proof (induction lens arbitrary: m r)
  case (Cons len lens)
  show ?case using Cons [of "m + 1"] by (simp add: upt_conv_Cons Let_def del: upt_Suc)
qed simp

lemma months_table:
  "map (\<lambda>(k, len). if k = 2 \<and> is_leap y then 29 else len) (zip [1..<1 + length months] months) =
     (if is_leap y then [31, 29, 31, 30, 31, 30, 31, 31, 30, 31, 30, 31]
      else [31, 28, 31, 30, 31, 30, 31, 31, 30, 31, 30, 31])"
  by (simp add: months_def upt_rec)

lemma analytics_month_loop_eq:
  "analytics_month_loop (if is_leap y
      then [31, 29, 31, 30, 31, 30, 31, 31, 30, 31, 30, 31]
      else [31, 28, 31, 30, 31, 30, 31, 31, 30, 31, 30, 31]) 1 r = month_loop y months 1 r"
  using analytics_month_loop_table [of y 1 months r] by (simp only: months_table)

lemma time_of_day:
  fixes t :: nat
  shows "t div 86400 = t div 60 div 60 div 24"
    "t mod 86400 div 3600 = t div 60 div 60 mod 24"
    "t mod 86400 mod 3600 div 60 = t div 60 mod 60"
    "t mod 86400 mod 3600 mod 60 = t mod 60"
proof -
  have hour: "t div 60 div 60 = t div 3600" by (simp add: div_mult2_eq [symmetric])
  show "t div 86400 = t div 60 div 60 div 24" by (simp add: div_mult2_eq [symmetric])
  have "t mod 86400 = 3600 * (t div 3600 mod 24) + t mod 3600"
    using mod_mult2_eq [of t 3600 24] by simp
  then show "t mod 86400 div 3600 = t div 60 div 60 mod 24" by (simp add: hour)
  have low: "t mod 86400 mod 3600 = t mod 3600" by (rule mod_mod_cancel) simp
  have "t mod 3600 = 60 * (t div 60 mod 60) + t mod 60"
    using mod_mult2_eq [of t 60 60] by simp
  then show "t mod 86400 mod 3600 div 60 = t div 60 mod 60" "t mod 86400 mod 3600 mod 60 = t mod 60"
    unfolding low by simp_all
qed

lemma sum_list_int: "sum_list (map (\<lambda>x. int (f x)) xs) = int (sum_list (map f xs))"
  by (induction xs) simp_all

lemma doctor_years: "1970 \<le> y \<Longrightarrow> sum_list (map doctor_year_days [1970..int y - 1]) = int (days_before_year y)"
proof (induction y rule: dec_induct)
  case (step y)
  have "[1970..int (Suc y) - 1] = [1970..int y - 1] @ [int y]"
    using step upto_rec2 [of 1970 "int y"] by simp
  then show ?case
    using step by (simp add: days_before_year_Suc doctor_year_days_def days_in_year_def)
qed (simp add: days_before_year_def)

lemma days_since_unix_epoch_date:
  assumes "valid_date y m d"
  shows "days_since_unix_epoch (int y) m d = Some (int (days_of_date y m d))"
  using assms sum_list_int [of "month_days y" "[1..<m]"]
  by (auto simp: valid_date_def days_since_unix_epoch_def Let_def doctor_years days_of_date_def
      days_before_month_def month_days_def [abs_def] month_days_def)

section \<open>Properties\<close>

text \<open>C40: \<open>unix_to_ymdhms\<close> returns a date of the calendar and the time of day, the second count is
  recovered from them, and the doctor's \<open>days_since_unix_epoch\<close> maps the date back to the day it
  came from.\<close>

theorem calendar_roundtrip:
  "case unix_to_ymdhms secs of (y, m, d, h, mi, s) \<Rightarrow>
     valid_date y m d \<and> h < 24 \<and> mi < 60 \<and> s < 60 \<and>
     days_since_unix_epoch (int y) m d = Some (int (secs div 86400)) \<and>
     secs = ((secs div 86400 * 24 + h) * 60 + mi) * 60 + s"
proof -
  obtain y m d h mi s where u: "unix_to_ymdhms secs = (y, m, d, h, mi, s)" by (metis prod_cases6)
  note spec = unix_to_ymdhms_spec [OF u]
  have "days_of_date y m d = secs div 86400" using spec(2-5) by (simp add: div_mult2_eq)
  then show ?thesis using spec days_since_unix_epoch_date [OF spec(1)] u by simp
qed

text \<open>The telemetry module's own conversion, which splits the seconds differently and picks a
  month table per year, computes the same function.\<close>

theorem analytics_calendar_agrees: "analytics_unix_to_ymdhms secs = unix_to_ymdhms secs"
proof -
  obtain y r where y: "year_loop 1970 (secs div 60 div 60 div 24) = (y, r)" by (metis surj_pair)
  obtain m r' where m: "month_loop y months 1 r = (m, r')" by (metis surj_pair)
  note m' = analytics_month_loop_eq [of y r, unfolded m]
  show ?thesis
    by (simp only: analytics_unix_to_ymdhms_def unix_to_ymdhms_def Let_def time_of_day y m m' prod.case)
qed

text \<open>The sub-second stamps do not sort by time. Within one second every stamp with a fraction
  sorts before the stamp of the full second, although it is later.\<close>

theorem nanos_stamp_sorts_backwards:
  assumes "0 < nanos"
  shows "now_rfc3339_nanos secs nanos < now_rfc3339_nanos secs 0"
proof -
  obtain p where p: "format_rfc3339 (unix_to_ymdhms secs) = p @ ''Z''"
    by (cases "unix_to_ymdhms secs") (auto simp: format_rfc3339_def)
  have "CHR ''.'' < CHR ''Z''" by (simp add: less_char_def)
  then show ?thesis using assms p by (simp add: now_rfc3339_nanos_def butlast_append append_less_iff)
qed

theorem nanos_stamp_sorts_backwards_witness:
  "now_rfc3339_nanos 1700000000 500000000 < now_rfc3339_nanos 1700000000 0"
  by (rule nanos_stamp_sorts_backwards) simp

end
