(* ===== verification/SessionPhase.thy ===== *)
theory SessionPhase
  imports Calendar
begin

text \<open>
  The session lifecycle of \<open>host/checkpoints/session\<close>: the phase state machine of \<open>phase.rs\<close> (the
  three transition tables, \<open>apply_transition\<close> with its first-error rule) over the persisted
  \<open>SessionState\<close> of \<open>state.rs\<close>, the normalisation of a state after loading and the choice of the
  most recent session. The \<open>ActionHandler\<close> trait object is a record of four functions on the
  handler's state; the clock gives the second at which the i-th action of a transition runs.
\<close>

section \<open>Session state (state.rs)\<close>

datatype token_usage = TokenUsage
  (input_tokens: int) (cache_creation_tokens: int) (cache_read_tokens: int)
  (output_tokens: int) (api_call_count: int) (subagent_tokens: "token_usage option")

datatype session_phase = Idle | Active | Ended

record prompt_attribution =
  checkpoint_number :: int
  user_lines_added :: int
  user_lines_removed :: int
  agent_lines_added :: int
  agent_lines_removed :: int
  user_added_per_file :: "(string \<times> int) list"

record pending_checkpoint_state =
  step_count :: nat
  checkpoint_transcript_start :: int
  files_touched :: "string list"
  token_usage :: "token_usage option"
  transcript_identifier_at_start :: string

record session_state =
  session_id :: string
  cli_version :: string
  base_commit :: string
  worktree_path :: string
  worktree_id :: string
  started_at :: string
  ended_at :: "string option"
  phase :: session_phase
  turn_id :: string
  turn_checkpoint_ids :: "string list"
  last_interaction_time :: "string option"
  condensed_transcript_lines :: int
  transcript_lines_at_start :: int
  untracked_files_at_start :: "string list"
  transcript_path :: string
  first_prompt :: string
  agent_type :: string
  is_auxiliary :: bool
  last_checkpoint_id :: string
  attribution_base_commit :: string
  prompt_attributions :: "prompt_attribution list"
  pending_prompt_attribution :: "prompt_attribution option"
  pending :: pending_checkpoint_state

definition pending_default :: pending_checkpoint_state where
  "pending_default = \<lparr>step_count = 0, checkpoint_transcript_start = 0, files_touched = [],
     token_usage = None, transcript_identifier_at_start = []\<rparr>"

definition session_default :: session_state where
  "session_default = \<lparr>session_id = [], cli_version = [], base_commit = [], worktree_path = [],
     worktree_id = [], started_at = [], ended_at = None, phase = Idle, turn_id = [],
     turn_checkpoint_ids = [], last_interaction_time = None, condensed_transcript_lines = 0,
     transcript_lines_at_start = 0, untracked_files_at_start = [], transcript_path = [],
     first_prompt = [], agent_type = [], is_auxiliary = False, last_checkpoint_id = [],
     attribution_base_commit = [], prompt_attributions = [], pending_prompt_attribution = None,
     pending = pending_default\<rparr>"

record pre_prompt_state =
  pp_session_id :: string
  pp_timestamp :: string
  pp_source :: string
  pp_prompt :: string
  pp_transcript_path :: string
  pp_untracked_files :: "string list"
  transcript_offset :: int
  last_transcript_identifier :: string
  start_message_index :: int
  step_transcript_start :: int
  last_transcript_line_count :: int

section \<open>Phases, events and actions (phase.rs)\<close>

datatype event = TurnStart | TurnEnd | GitCommit | SessionStart | SessionStop | Compaction

datatype action = Condense | CondenseIfFilesTouched | DiscardIfNoFiles | WarnStaleSession
  | ClearEndedAt | UpdateLastInteraction

definition from_string :: "string \<Rightarrow> session_phase" where
  "from_string value =
     (if value = ''active'' \<or> value = ''active_committed'' then Active
      else if value = ''idle'' then Idle
      else if value = ''ended'' then Ended
      else Idle)"

fun as_str :: "session_phase \<Rightarrow> string" where
  "as_str Idle = ''idle''"
| "as_str Active = ''active''"
| "as_str Ended = ''ended''"

definition is_active :: "session_phase \<Rightarrow> bool" where
  "is_active p \<longleftrightarrow> (case p of Active \<Rightarrow> True | _ \<Rightarrow> False)"

text \<open>The serde visitor: what each kind of JSON value deserializes to. A number that fits neither
  \<open>i64\<close> nor \<open>u64\<close> arrives as \<open>f64\<close>; the visitor has no failing branch.\<close>

datatype json_value = JNull | JBool bool | JI64 int | JU64 nat | JF64 | JStr string
  | JSeq "json_value list" | JMap "(string \<times> json_value) list"

fun deserialize_phase :: "json_value \<Rightarrow> session_phase" where
  "deserialize_phase (JStr value) = from_string value"
| "deserialize_phase JNull = Idle"
| "deserialize_phase (JBool _) = Idle"
| "deserialize_phase (JI64 _) = Idle"
| "deserialize_phase (JU64 _) = Idle"
| "deserialize_phase JF64 = Idle"
| "deserialize_phase (JSeq _) = Idle"
| "deserialize_phase (JMap _) = Idle"

fun event_as_str :: "event \<Rightarrow> string" where
  "event_as_str TurnStart = ''TurnStart''"
| "event_as_str TurnEnd = ''TurnEnd''"
| "event_as_str GitCommit = ''GitCommit''"
| "event_as_str SessionStart = ''SessionStart''"
| "event_as_str SessionStop = ''SessionStop''"
| "event_as_str Compaction = ''Compaction''"

fun action_as_str :: "action \<Rightarrow> string" where
  "action_as_str Condense = ''Condense''"
| "action_as_str CondenseIfFilesTouched = ''CondenseIfFilesTouched''"
| "action_as_str DiscardIfNoFiles = ''DiscardIfNoFiles''"
| "action_as_str WarnStaleSession = ''WarnStaleSession''"
| "action_as_str ClearEndedAt = ''ClearEndedAt''"
| "action_as_str UpdateLastInteraction = ''UpdateLastInteraction''"

record transition_context =
  has_files_touched :: bool
  is_rebase_in_progress :: bool

record transition_result =
  new_phase :: session_phase
  actions :: "action list"

abbreviation goto :: "session_phase \<Rightarrow> action list \<Rightarrow> transition_result" where
  "goto p as \<equiv> \<lparr>new_phase = p, actions = as\<rparr>"

fun transition_from_idle :: "event \<Rightarrow> transition_context \<Rightarrow> transition_result" where
  "transition_from_idle TurnStart ctx = goto Active [UpdateLastInteraction]"
| "transition_from_idle TurnEnd ctx = goto Idle []"
| "transition_from_idle GitCommit ctx =
     (if is_rebase_in_progress ctx then goto Idle []
      else goto Idle [Condense, UpdateLastInteraction])"
| "transition_from_idle SessionStart ctx = goto Idle []"
| "transition_from_idle SessionStop ctx = goto Ended [UpdateLastInteraction]"
| "transition_from_idle Compaction ctx = goto Idle [CondenseIfFilesTouched, UpdateLastInteraction]"

fun transition_from_active :: "event \<Rightarrow> transition_context \<Rightarrow> transition_result" where
  "transition_from_active TurnStart ctx = goto Active [UpdateLastInteraction]"
| "transition_from_active TurnEnd ctx = goto Idle [UpdateLastInteraction]"
| "transition_from_active GitCommit ctx =
     (if is_rebase_in_progress ctx then goto Active []
      else goto Active [Condense, UpdateLastInteraction])"
| "transition_from_active SessionStart ctx = goto Active [WarnStaleSession]"
| "transition_from_active SessionStop ctx = goto Ended [UpdateLastInteraction]"
| "transition_from_active Compaction ctx = goto Active [CondenseIfFilesTouched, UpdateLastInteraction]"

fun transition_from_ended :: "event \<Rightarrow> transition_context \<Rightarrow> transition_result" where
  "transition_from_ended TurnStart ctx = goto Active [ClearEndedAt, UpdateLastInteraction]"
| "transition_from_ended TurnEnd ctx = goto Ended []"
| "transition_from_ended GitCommit ctx =
     (if is_rebase_in_progress ctx then goto Ended []
      else if has_files_touched ctx then goto Ended [CondenseIfFilesTouched, UpdateLastInteraction]
      else goto Ended [DiscardIfNoFiles, UpdateLastInteraction])"
| "transition_from_ended SessionStart ctx = goto Idle [ClearEndedAt]"
| "transition_from_ended SessionStop ctx = goto Ended []"
| "transition_from_ended Compaction ctx = goto Ended []"

definition transition_with_context ::
    "session_phase \<Rightarrow> event \<Rightarrow> transition_context \<Rightarrow> transition_result" where
  "transition_with_context current event ctx =
     (case from_string (as_str current) of
        Idle \<Rightarrow> transition_from_idle event ctx
      | Active \<Rightarrow> transition_from_active event ctx
      | Ended \<Rightarrow> transition_from_ended event ctx)"

section \<open>Applying a transition\<close>

text \<open>\<open>trait ActionHandler\<close>: each method may change the handler and the session and may fail with
  a message.\<close>

type_synonym 'h handler_method =
  "'h \<Rightarrow> session_state \<Rightarrow> 'h \<times> session_state \<times> (string, unit) result"

record 'h action_handler =
  handle_condense :: "'h handler_method"
  handle_condense_if_files_touched :: "'h handler_method"
  handle_discard_if_no_files :: "'h handler_method"
  handle_warn_stale_session :: "'h handler_method"

definition no_op_handler :: "unit action_handler" where
  "no_op_handler =
     \<lparr>handle_condense = (\<lambda>h st. (h, st, Inr ())),
      handle_condense_if_files_touched = (\<lambda>h st. (h, st, Inr ())),
      handle_discard_if_no_files = (\<lambda>h st. (h, st, Inr ())),
      handle_warn_stale_session = (\<lambda>h st. (h, st, Inr ()))\<rparr>"

text \<open>\<open>record_first_error\<close>: once the slot holds an error, the closure is not even called.\<close>

definition record_first_error :: "string option \<Rightarrow> action \<Rightarrow> 'h handler_method \<Rightarrow> 'h \<Rightarrow> session_state
    \<Rightarrow> 'h \<times> session_state \<times> string option" where
  "record_first_error slot act f h st =
     (case slot of
        Some err \<Rightarrow> (h, st, slot)
      | None \<Rightarrow> (case f h st of
          (h', st', Inl err) \<Rightarrow> (h', st', Some (action_as_str act @ '': '' @ err))
        | (h', st', Inr _) \<Rightarrow> (h', st', None)))"

fun apply_action :: "'h action_handler \<Rightarrow> nat \<Rightarrow> action \<Rightarrow> 'h \<times> session_state \<times> string option
    \<Rightarrow> 'h \<times> session_state \<times> string option" where
  "apply_action H now UpdateLastInteraction (h, st, slot) =
     (h, st\<lparr>last_interaction_time := Some (now_rfc3339 now)\<rparr>, slot)"
| "apply_action H now ClearEndedAt (h, st, slot) = (h, st\<lparr>ended_at := None\<rparr>, slot)"
| "apply_action H now Condense (h, st, slot) =
     record_first_error slot Condense (handle_condense H) h st"
| "apply_action H now CondenseIfFilesTouched (h, st, slot) =
     record_first_error slot CondenseIfFilesTouched (handle_condense_if_files_touched H) h st"
| "apply_action H now DiscardIfNoFiles (h, st, slot) =
     record_first_error slot DiscardIfNoFiles (handle_discard_if_no_files H) h st"
| "apply_action H now WarnStaleSession (h, st, slot) =
     record_first_error slot WarnStaleSession (handle_warn_stale_session H) h st"

fun apply_actions :: "'h action_handler \<Rightarrow> (nat \<Rightarrow> nat) \<Rightarrow> nat \<Rightarrow> action list
    \<Rightarrow> 'h \<times> session_state \<times> string option \<Rightarrow> 'h \<times> session_state \<times> string option" where
  "apply_actions H clock i [] w = w"
| "apply_actions H clock i (a # as) w =
     apply_actions H clock (Suc i) as (apply_action H (clock i) a w)"

definition apply_transition :: "'h action_handler \<Rightarrow> (nat \<Rightarrow> nat) \<Rightarrow> 'h \<Rightarrow> session_state
    \<Rightarrow> transition_result \<Rightarrow> 'h \<times> session_state \<times> (string, unit) result" where
  "apply_transition H clock h st result =
     (case apply_actions H clock 0 (actions result) (h, st\<lparr>phase := new_phase result\<rparr>, None) of
        (h', st', Some err) \<Rightarrow> (h', st', Inl err)
      | (h', st', None) \<Rightarrow> (h', st', Inr ()))"

text \<open>\<open>apply_session_transition\<close> of the hook runtime: the default context, the no-op handler, a
  failure only warned about.\<close>

definition default_context :: transition_context where
  "default_context = \<lparr>has_files_touched = False, is_rebase_in_progress = False\<rparr>"


section \<open>Loading and choosing sessions (state.rs)\<close>

definition normalize_after_load :: "session_state \<Rightarrow> session_state" where
  "normalize_after_load st =
     (let st = st\<lparr>phase := from_string (as_str (phase st))\<rparr>;
          st = (if checkpoint_transcript_start (pending st) = 0 then
                  if condensed_transcript_lines st > 0 then
                    st\<lparr>pending := (pending st)\<lparr>checkpoint_transcript_start := condensed_transcript_lines st\<rparr>\<rparr>
                  else if transcript_lines_at_start st > 0 then
                    st\<lparr>pending := (pending st)\<lparr>checkpoint_transcript_start := transcript_lines_at_start st\<rparr>\<rparr>
                  else st
                else st);
          st = st\<lparr>condensed_transcript_lines := 0, transcript_lines_at_start := 0\<rparr>
      in if attribution_base_commit st = [] \<and> base_commit st \<noteq> []
         then st\<lparr>attribution_base_commit := base_commit st\<rparr> else st)"

definition pre_prompt_normalize_after_load :: "pre_prompt_state \<Rightarrow> pre_prompt_state" where
  "pre_prompt_normalize_after_load st =
     (let st = (if step_transcript_start st = 0 \<and> last_transcript_line_count st > 0
                then st\<lparr>step_transcript_start := last_transcript_line_count st\<rparr> else st);
          st = st\<lparr>last_transcript_line_count := 0\<rparr>;
          st = (if transcript_offset st = 0 then
                  if step_transcript_start st > 0 then st\<lparr>transcript_offset := step_transcript_start st\<rparr>
                  else if start_message_index st > 0 then st\<lparr>transcript_offset := start_message_index st\<rparr>
                  else st
                else st)
      in st\<lparr>step_transcript_start := 0, start_message_index := 0\<rparr>)"

definition session_score :: "session_state \<Rightarrow> string \<times> string" where
  "session_score st = (unwrap_or (last_interaction_time st) [], started_at st)"

definition find_most_recent_session :: "session_state list \<Rightarrow> string \<Rightarrow> session_state option" where
  "find_most_recent_session sessions worktree =
     (let matching = filter (\<lambda>s. worktree \<noteq> [] \<and> worktree_path s = worktree) sessions;
          pick_from = (if matching = [] then sessions else matching)
      in last_max_by session_score pick_from)"

section \<open>The contract of an action handler\<close>





section \<open>Properties\<close>


lemma as_str_roundtrip [simp]: "from_string (as_str p) = p"
  by (cases p) (simp_all add: from_string_def)

lemma transition_tables [simp]:
  "transition_with_context Idle ev ctx = transition_from_idle ev ctx"
  "transition_with_context Active ev ctx = transition_from_active ev ctx"
  "transition_with_context Ended ev ctx = transition_from_ended ev ctx"
  by (simp_all add: transition_with_context_def from_string_def)






text \<open>A commit during a rebase changes nothing in any phase; a stop always ends the session, a
  turn always makes it active, and only these two events and the end of a turn or a restart move
  the phase at all.\<close>

theorem transition_contract:
  "transition_with_context p GitCommit (ctx\<lparr>is_rebase_in_progress := True\<rparr>) = goto p [] \<and>
   new_phase (transition_with_context p SessionStop ctx) = Ended \<and>
   new_phase (transition_with_context p TurnStart ctx) = Active \<and>
   new_phase (transition_with_context p GitCommit ctx) = p \<and>
   new_phase (transition_with_context p Compaction ctx) = p \<and>
   new_phase (transition_with_context p TurnEnd ctx) = (if p = Active then Idle else p) \<and>
   new_phase (transition_with_context p SessionStart ctx) = (if p = Ended then Idle else p)"
  by (cases p) simp_all

lemma apply_actions_append:
  "apply_actions H clock i (as @ bs) w =
     apply_actions H clock (i + length as) bs (apply_actions H clock i as w)"
  by (induction as arbitrary: i w) simp_all

lemma update_is_last:
  "UpdateLastInteraction \<in> set (actions (transition_with_context p ev ctx)) \<Longrightarrow>
     \<exists>as. actions (transition_with_context p ev ctx) = as @ [UpdateLastInteraction]"
  by (cases p; cases ev) (auto split: if_splits)

text \<open>Whatever the action handler does, failing included, a transition whose actions update the
  interaction time leaves the session stamped with the time of that action: a strategy error is
  returned but does not suppress the common actions.\<close>

theorem transition_stamps_despite_errors:
  assumes "UpdateLastInteraction \<in> set (actions (transition_with_context p ev ctx))"
    and "apply_transition H clock h st (transition_with_context p ev ctx) = (h', st', r)"
  shows "last_interaction_time st' =
    Some (now_rfc3339 (clock (length (actions (transition_with_context p ev ctx)) - 1)))"
proof -
  let ?t = "transition_with_context p ev ctx"
  obtain as where as: "actions ?t = as @ [UpdateLastInteraction]" using update_is_last [OF assms(1)] ..
  obtain h1 st1 slot where w:
    "apply_actions H clock 0 as (h, st\<lparr>phase := new_phase ?t\<rparr>, None) = (h1, st1, slot)"
    by (metis prod_cases3)
  show ?thesis
    using assms(2) by (auto simp: apply_transition_def as apply_actions_append w split: option.splits)
qed

text \<open>A handler whose condensation fails.\<close>

definition failing_handler :: "unit action_handler" where
  "failing_handler = no_op_handler\<lparr>handle_condense := (\<lambda>h st. (h, st, Inl ''disk full''))\<rparr>"

theorem transition_stamps_despite_errors_witness:
  "\<exists>st'. apply_transition failing_handler (\<lambda>i. i) () session_default
       (transition_with_context Active GitCommit default_context)
     = ((), st', Inl ''Condense: disk full'') \<and>
   last_interaction_time st' = Some (now_rfc3339 1)"
proof -
  obtain st' where t: "apply_transition failing_handler (\<lambda>i. i) () session_default
      (transition_with_context Active GitCommit default_context) = ((), st', Inl ''Condense: disk full'')"
    by (simp add: apply_transition_def failing_handler_def record_first_error_def default_context_def)
  have "UpdateLastInteraction \<in> set (actions (transition_with_context Active GitCommit default_context))"
    by (simp add: default_context_def)
  from transition_stamps_despite_errors [OF this t] t show ?thesis by (simp add: default_context_def)
qed

lemma normalize_fixed:
  assumes "condensed_transcript_lines st = 0" "transcript_lines_at_start st = 0"
    "attribution_base_commit st \<noteq> [] \<or> base_commit st = []"
  shows "normalize_after_load st = st"
proof -
  have "st\<lparr>condensed_transcript_lines := 0, transcript_lines_at_start := 0\<rparr> = st"
    using assms by (cases st) simp
  then show ?thesis using assms by (auto simp: normalize_after_load_def Let_def)
qed

lemma normalize_fields:
  "condensed_transcript_lines (normalize_after_load st) = 0"
  "transcript_lines_at_start (normalize_after_load st) = 0"
  "base_commit (normalize_after_load st) = base_commit st"
  "attribution_base_commit (normalize_after_load st) =
     (if attribution_base_commit st = [] then base_commit st else attribution_base_commit st)"
  by (simp_all add: normalize_after_load_def Let_def)

text \<open>Normalising a loaded session twice is normalising it once.\<close>

theorem normalize_after_load_idempotent:
  "normalize_after_load (normalize_after_load st) = normalize_after_load st"
  by (rule normalize_fixed) (simp_all add: normalize_fields)

text \<open>Among sessions stamped by \<open>now_rfc3339\<close>, \<open>find_most_recent_session\<close> returns one of the
  requested worktree when there is one, and none of the candidates was interacted with later: the
  order of the stamps is the order of time.\<close>

theorem most_recent_session_is_latest:
  assumes "\<forall>s \<in> set sessions. last_interaction_time s = Some (now_rfc3339 (t s)) \<and>
      fst (unix_to_ymdhms (t s)) < 10000"
    and "find_most_recent_session sessions worktree = Some m"
  shows "m \<in> set sessions \<and>
    (\<forall>s \<in> set sessions. worktree \<noteq> [] \<and> worktree_path s = worktree \<longrightarrow>
      worktree_path m = worktree \<and> t s \<le> t m) \<and>
    ((\<forall>s \<in> set sessions. worktree = [] \<or> worktree_path s \<noteq> worktree) \<longrightarrow>
      (\<forall>s \<in> set sessions. t s \<le> t m))"
proof -
  let ?match = "filter (\<lambda>s. worktree \<noteq> [] \<and> worktree_path s = worktree) sessions"
  let ?cand = "if ?match = [] then sessions else ?match"
  have m: "last_max_by session_score ?cand = Some m"
    using assms(2) by (simp add: find_most_recent_session_def Let_def)
  have sub: "set ?cand \<subseteq> set sessions" by auto
  have mf: "m \<in> set ?cand" using last_max_by_in [OF m] .
  have later: "t s \<le> t m" if s: "s \<in> set ?cand" for s
  proof -
    have "session_score s \<le> session_score m" using last_max_by_ge [OF m s] .
    moreover have "session_score s = (now_rfc3339 (t s), started_at s)"
      "session_score m = (now_rfc3339 (t m), started_at m)"
      using assms(1) s mf sub by (auto simp: session_score_def)
    ultimately have "\<not> now_rfc3339 (t m) < now_rfc3339 (t s)" by (auto simp: less_eq_prod_def)
    then show ?thesis
      using now_rfc3339_less [of "t m" "t s"] assms(1) s mf sub by (meson linorder_not_less subsetD)
  qed
  have "m \<in> set sessions" using mf sub by blast
  moreover have "\<forall>s \<in> set sessions. worktree \<noteq> [] \<and> worktree_path s = worktree \<longrightarrow>
      worktree_path m = worktree \<and> t s \<le> t m"
    using later mf by (auto simp: filter_empty_conv split: if_splits)
  moreover have "(\<forall>s \<in> set sessions. worktree = [] \<or> worktree_path s \<noteq> worktree) \<longrightarrow>
      (\<forall>s \<in> set sessions. t s \<le> t m)"
    using later by (auto simp: filter_empty_conv split: if_splits)
  ultimately show ?thesis by blast
qed

definition stamped_session :: "string \<Rightarrow> nat \<Rightarrow> session_state" where
  "stamped_session sid secs = session_default\<lparr>session_id := sid, worktree_path := ''/w'',
     last_interaction_time := Some (now_rfc3339 secs)\<rparr>"

lemma stamped_sessions_pick:
  "map_option session_id (find_most_recent_session [stamped_session ''b'' 90, stamped_session ''a'' 5] ''/w'')
     = Some ''b''"
  by code_simp

theorem most_recent_session_is_latest_witness:
  "\<exists>m. find_most_recent_session [stamped_session ''b'' 90, stamped_session ''a'' 5] ''/w'' = Some m \<and>
     session_id m = ''b'' \<and> worktree_path m = ''/w''"
proof -
  let ?ss = "[stamped_session ''b'' 90, stamped_session ''a'' 5]"
  obtain m where m: "find_most_recent_session ?ss ''/w'' = Some m" "session_id m = ''b''"
    using stamped_sessions_pick by blast
  have stamps: "\<forall>s \<in> set ?ss. last_interaction_time s =
      Some (now_rfc3339 (if session_id s = ''a'' then 5 else 90)) \<and>
      fst (unix_to_ymdhms (if session_id s = ''a'' then 5 else 90)) < 10000"
    by (simp add: stamped_session_def unix_to_ymdhms_def year_loop.simps days_in_year_def is_leap_def
        Let_def split: prod.splits)
  from most_recent_session_is_latest [OF stamps m(1)] m show ?thesis
    by (auto simp: stamped_session_def)
qed

end
