(* ===== verification/OrdMap.thy ===== *)
theory OrdMap
  imports RustStr
begin

text \<open>
  Rust's \<open>BTreeMap\<close> and \<open>BTreeSet\<close> as association lists and lists in strictly ascending key
  order, the order the code iterates them in. The interface is a locale of its own: what the
  lookups return after an update and which keys there are; everything the clients use about
  repeated insertion and accumulation is proved once in it, and the association lists
  interpret it.
\<close>

section \<open>Operations\<close>

type_synonym ('k, 'v) btree = "('k \<times> 'v) list"

fun bt_get :: "('k::linorder, 'v) btree \<Rightarrow> 'k \<Rightarrow> 'v option" where
  "bt_get [] k = None"
| "bt_get ((k', v) # m) k = (if k = k' then Some v else bt_get m k)"

fun bt_insert :: "'k::linorder \<Rightarrow> 'v \<Rightarrow> ('k, 'v) btree \<Rightarrow> ('k, 'v) btree" where
  "bt_insert k v [] = [(k, v)]"
| "bt_insert k v ((k', v') # m) =
     (if k < k' then (k, v) # (k', v') # m
      else if k = k' then (k, v) # m
      else (k', v') # bt_insert k v m)"

fun bt_remove :: "'k::linorder \<Rightarrow> ('k, 'v) btree \<Rightarrow> ('k, 'v) btree" where
  "bt_remove k [] = []"
| "bt_remove k ((k', v') # m) = (if k = k' then m else (k', v') # bt_remove k m)"

definition bt_keys :: "('k::linorder, 'v) btree \<Rightarrow> 'k list" where
  "bt_keys m = map fst m"

definition bt_values :: "('k::linorder, 'v) btree \<Rightarrow> 'v list" where
  "bt_values m = map snd m"

definition bt_contains :: "('k::linorder, 'v) btree \<Rightarrow> 'k \<Rightarrow> bool" where
  "bt_contains m k \<longleftrightarrow> bt_get m k \<noteq> None"

definition bt_ok :: "('k::linorder, 'v) btree \<Rightarrow> bool" where
  "bt_ok m \<longleftrightarrow> sorted_wrt (<) (map fst m)"

text \<open>\<open>FromIterator\<close>: later pairs replace earlier ones.\<close>

definition bt_of_list :: "('k::linorder \<times> 'v) list \<Rightarrow> ('k, 'v) btree" where
  "bt_of_list ps = foldl (\<lambda>m (k, v). bt_insert k v m) [] ps"

text \<open>\<open>*m.entry(k).or_insert(d) = f(...)\<close>\<close>

definition bt_upsert :: "'k::linorder \<Rightarrow> 'v \<Rightarrow> ('v \<Rightarrow> 'v) \<Rightarrow> ('k, 'v) btree \<Rightarrow> ('k, 'v) btree" where
  "bt_upsert k d f m = bt_insert k (f (unwrap_or (bt_get m k) d)) m"

fun bs_insert :: "'k::linorder \<Rightarrow> 'k list \<Rightarrow> 'k list" where
  "bs_insert x [] = [x]"
| "bs_insert x (y # ys) = (if x < y then x # y # ys else if x = y then y # ys else y # bs_insert x ys)"

definition bs_of_list :: "'k::linorder list \<Rightarrow> 'k list" where
  "bs_of_list xs = foldl (\<lambda>s x. bs_insert x s) [] xs"

section \<open>Sets\<close>

lemma set_bs_insert [simp]: "set (bs_insert x s) = insert x (set s)"
  by (induction s) auto

lemma sorted_bs_insert: "sorted_wrt (<) s \<Longrightarrow> sorted_wrt (<) (bs_insert x s)"
  by (induction s) (auto simp: less_le)

lemma bs_fold_set: "set (foldl (\<lambda>s x. bs_insert x s) s xs) = set s \<union> set xs"
  by (induction xs arbitrary: s) auto

lemma bs_fold_sorted: "sorted_wrt (<) s \<Longrightarrow> sorted_wrt (<) (foldl (\<lambda>s x. bs_insert x s) s xs)"
  by (induction xs arbitrary: s) (auto simp: sorted_bs_insert)

lemma set_bs_of_list [simp]: "set (bs_of_list xs) = set xs"
  by (simp add: bs_of_list_def bs_fold_set)

lemma sorted_bs_of_list [simp]: "sorted_wrt (<) (bs_of_list xs)"
  by (simp add: bs_of_list_def bs_fold_sorted)

lemma bs_of_list_sorted_list: "bs_of_list xs = sorted_list_of_set (set xs)"
proof (rule sorted_distinct_set_unique)
  show "sorted (bs_of_list xs)" "distinct (bs_of_list xs)"
    using sorted_bs_of_list [of xs] by (auto simp: strict_sorted_iff)
qed auto

lemma bs_of_list_cong: "set xs = set ys \<Longrightarrow> bs_of_list xs = bs_of_list ys"
  by (simp add: bs_of_list_sorted_list)

lemma bs_of_list_id: "sorted_wrt (<) xs \<Longrightarrow> bs_of_list xs = xs"
  by (simp add: bs_of_list_sorted_list strict_sorted_iff sorted_list_of_set.idem_if_sorted_distinct)

lemma bs_of_list_idem [simp]: "bs_of_list (bs_of_list xs) = bs_of_list xs"
  by (simp add: bs_of_list_id)

section \<open>The interface of an ordered map\<close>

locale ordered_map =
  fixes get :: "'m \<Rightarrow> 'k::linorder \<Rightarrow> 'v option"
    and ins :: "'k \<Rightarrow> 'v \<Rightarrow> 'm \<Rightarrow> 'm"
    and rem :: "'k \<Rightarrow> 'm \<Rightarrow> 'm"
    and keys :: "'m \<Rightarrow> 'k list"
    and ok :: "'m \<Rightarrow> bool"
    and empty :: 'm
  assumes ok_empty: "ok empty"
    and get_empty: "get empty k = None"
    and ok_ins: "ok m \<Longrightarrow> ok (ins k v m)"
    and get_ins: "ok m \<Longrightarrow> get (ins k v m) k' = (if k' = k then Some v else get m k')"
    and ok_rem: "ok m \<Longrightarrow> ok (rem k m)"
    and get_rem: "ok m \<Longrightarrow> get (rem k m) k' = (if k' = k then None else get m k')"
    and keys_get: "ok m \<Longrightarrow> set (keys m) = {k. get m k \<noteq> None}"
    and keys_sorted: "ok m \<Longrightarrow> sorted_wrt (<) (keys m)"
begin

definition put_all :: "('k \<times> 'v) list \<Rightarrow> 'm \<Rightarrow> 'm" where
  "put_all ps m = foldl (\<lambda>m (k, v). ins k v m) m ps"

definition upsert :: "'k \<Rightarrow> 'v \<Rightarrow> ('v \<Rightarrow> 'v) \<Rightarrow> 'm \<Rightarrow> 'm" where
  "upsert k d f m = ins k (f (unwrap_or (get m k) d)) m"

lemma put_all_ok: "ok m \<Longrightarrow> ok (put_all ps m)"
  unfolding put_all_def by (induction ps arbitrary: m) (auto simp: ok_ins split: prod.splits)

lemma get_put_all: "ok m \<Longrightarrow> get (put_all ps m) k = opt_or (map_of (rev ps) k) (get m k)"
proof (induction ps rule: rev_induct)
  case (snoc p ps)
  have "put_all (ps @ [p]) m = (case p of (k, v) \<Rightarrow> ins k v (put_all ps m))"
    by (simp add: put_all_def split: prod.splits)
  then show ?case using snoc put_all_ok [OF snoc.prems, of ps] by (cases p) (simp add: get_ins)
qed (simp add: put_all_def)

lemma upsert_ok: "ok m \<Longrightarrow> ok (upsert k d f m)"
  by (simp add: upsert_def ok_ins)

lemma get_upsert: "ok m \<Longrightarrow> get (upsert k d f m) k' =
    (if k' = k then Some (f (unwrap_or (get m k) d)) else get m k')"
  by (simp add: upsert_def get_ins)

lemma keys_ext:
  assumes "ok m" "ok m'" "\<And>k. get m k = get m' k"
  shows "keys m = keys m'"
  using keys_get [OF assms(1)] keys_get [OF assms(2)] keys_sorted [OF assms(1)] keys_sorted [OF assms(2)]
    assms(3) by (intro sorted_distinct_set_unique) (auto simp: strict_sorted_iff)

end

lemma bt_get_map_of: "bt_get m = map_of m"
  by (rule ext, induct m rule: list.induct) auto

lemma fst_bt_insert: "fst ` set (bt_insert k v m) = insert k (fst ` set m)"
  by (induction k v m rule: bt_insert.induct) (simp_all add: insert_commute)

lemma bt_ok_Cons: "bt_ok ((k, v) # m) \<longleftrightarrow> (\<forall>k' \<in> fst ` set m. k < k') \<and> bt_ok m"
  by (simp add: bt_ok_def)

lemma bt_ok_Nil [simp]: "bt_ok []"
  by (simp add: bt_ok_def)

lemma bt_ok_insert: "bt_ok m \<Longrightarrow> bt_ok (bt_insert k v m)"
proof (induction k v m rule: bt_insert.induct)
  case (2 k v k0 v0 m)
  consider "k < k0" | "k = k0" | "k0 < k" by fastforce
  then show ?case
  proof cases
    case 1
    then show ?thesis using 2(2) by (auto simp: bt_ok_Cons intro: less_trans)
  next
    case 2
    then show ?thesis using "2.prems" by (simp add: bt_ok_Cons)
  next
    case 3
    then show ?thesis using "2.IH" "2.prems" by (auto simp: bt_ok_Cons fst_bt_insert)
  qed
qed (simp add: bt_ok_Cons)

lemma bt_get_insert: "bt_get (bt_insert k v m) k' = (if k' = k then Some v else bt_get m k')"
  by (induction m) auto

lemma bt_get_notin: "k \<notin> fst ` set m \<Longrightarrow> bt_get m k = None"
  by (simp add: bt_get_map_of map_of_eq_None_iff)

lemma bt_remove_sub: "fst ` set (bt_remove k m) \<subseteq> fst ` set m"
  by (induction k m rule: bt_remove.induct) auto

lemma bt_ok_remove: "bt_ok m \<Longrightarrow> bt_ok (bt_remove k m)"
  by (induction k m rule: bt_remove.induct) (use bt_remove_sub in \<open>fastforce simp: bt_ok_Cons\<close>)+

lemma bt_get_remove: "bt_ok m \<Longrightarrow> bt_get (bt_remove k m) k' = (if k' = k then None else bt_get m k')"
proof (induction k m rule: bt_remove.induct)
  case (2 k k0 v m)
  have "k0 \<notin> fst ` set m" using 2 by (auto simp: bt_ok_Cons)
  with 2 show ?case by (auto simp: bt_ok_Cons bt_get_notin)
qed simp

lemma bt_keys_get: "set (bt_keys m) = {k. bt_get m k \<noteq> None}"
  by (auto simp: bt_keys_def bt_get_map_of map_of_eq_None_iff dest: map_of_SomeD)

lemma bt_keys_sorted: "bt_ok m \<Longrightarrow> sorted_wrt (<) (bt_keys m)"
  by (simp add: bt_ok_def bt_keys_def)

interpretation bt: ordered_map bt_get bt_insert bt_remove bt_keys bt_ok "[]"
  by unfold_locales
    (simp_all only: bt_ok_Nil bt_get.simps bt_ok_insert bt_get_insert bt_ok_remove bt_get_remove
      bt_keys_get bt_keys_sorted)

lemma bt_of_list_put_all: "bt_of_list ps = bt.put_all ps []"
  by (simp add: bt_of_list_def bt.put_all_def)

lemma bt_upsert_eq: "bt_upsert k d f m = bt.upsert k d f m"
  by (simp add: bt_upsert_def bt.upsert_def)

lemma bt_contains_iff: "bt_contains m k \<longleftrightarrow> k \<in> set (bt_keys m)"
  by (simp add: bt_contains_def bt_keys_get)

lemma bt_get_in: "bt_get m k = Some v \<Longrightarrow> (k, v) \<in> set m"
  by (simp add: bt_get_map_of map_of_SomeD)

lemma bt_ok_distinct: "bt_ok m \<Longrightarrow> distinct (map fst m)"
  by (auto simp: bt_ok_def strict_sorted_iff)

lemma bt_in_get: "bt_ok m \<Longrightarrow> (k, v) \<in> set m \<Longrightarrow> bt_get m k = Some v"
  by (simp add: bt_get_map_of bt_ok_distinct)

text \<open>Summing the values: an insertion of a fresh key adds its value, an update replaces it.\<close>

definition bt_sum :: "('k::linorder, int) btree \<Rightarrow> int" where
  "bt_sum m = sum_list (map snd m)"

lemma bt_sum_insert: "bt_ok m \<Longrightarrow> bt_sum (bt_insert k v m) = bt_sum m + v - unwrap_or (bt_get m k) 0"
proof (induction m)
  case (Cons p m)
  obtain k' v' where p: "p = (k', v')" by (cases p)
  have "k < k' \<Longrightarrow> bt_get m k = None"
    using Cons.prems by (intro bt_get_notin) (auto simp: p bt_ok_Cons)
  then show ?case using Cons by (auto simp: p bt_sum_def bt_ok_Cons)
qed (simp add: bt_sum_def)

lemma set_bt_insert: "set (bt_insert k v m) \<subseteq> insert (k, v) (set m)"
  by (induction k v m rule: bt_insert.induct) (auto split: if_splits)

lemma length_bt_insert: "length (bt_insert k v m) \<le> Suc (length m)"
  by (induction m) auto

lemma length_bt_fold: "length (foldl (\<lambda>m (k, v). bt_insert k v m) m ps) \<le> length m + length ps"
proof (induction ps arbitrary: m)
  case (Cons p ps)
  obtain k v where p: "p = (k, v)" by (cases p)
  show ?case using Cons [of "bt_insert k v m"] length_bt_insert [of k v m] by (simp add: p)
qed simp

lemma bt_value_le_sum:
  "(\<forall>p \<in> set m. 0 \<le> snd p) \<Longrightarrow> 0 \<le> bt_sum m \<and> (\<forall>k. unwrap_or (bt_get m k) 0 \<le> bt_sum m \<and>
     0 \<le> unwrap_or (bt_get m k) 0)"
proof (induction m)
  case (Cons p m)
  then have "0 \<le> bt_sum m" "\<And>k. unwrap_or (bt_get m k) 0 \<le> bt_sum m"
    "\<And>k. 0 \<le> unwrap_or (bt_get m k) 0" "0 \<le> snd p"
    by auto
  then show ?case by (cases p) (auto simp: bt_sum_def intro: add_increasing)
qed (simp add: bt_sum_def)

lemma bs_fold_filter:
  "set (foldl (\<lambda>s x. if P x then bs_insert (f x) s else s) s xs) = set s \<union> f ` {x \<in> set xs. P x}"
  by (induction xs arbitrary: s) auto

lemma bs_fold_filter_sorted:
  "sorted_wrt (<) s \<Longrightarrow> sorted_wrt (<) (foldl (\<lambda>s x. if P x then bs_insert (f x) s else s) s xs)"
  by (induction xs arbitrary: s) (auto simp: sorted_bs_insert)

lemma bs_fold_if:
  "set (foldl (\<lambda>s x. if P x then bs_insert x s else s) s xs) = set s \<union> {x \<in> set xs. P x}"
  "sorted_wrt (<) s \<Longrightarrow> sorted_wrt (<) (foldl (\<lambda>s x. if P x then bs_insert x s else s) s xs)"
  using bs_fold_filter [of P "\<lambda>x. x" s xs] bs_fold_filter_sorted [of s P "\<lambda>x. x" xs] by simp_all

end
