(* ===== verification/Attribution.thy ===== *)
theory Attribution
  imports Complex_Main OrdMap SessionPhase
begin

text \<open>
  Line attribution of a manual commit, \<open>host/checkpoints/strategy/attribution.rs\<close>: which files
  differ between two trees, the line diff by a longest common subsequence, and the split of a
  commit into agent and human lines. \<open>i32\<close> results wrap at 32 bits as in a release build
  (\<open>i32\<close>, \<open>add32\<close>, \<open>sub32\<close>); the percentage is the exact quotient the code rounds to \<open>f64\<close>.
  The prompt attribution record is the one of the session state, whose field for field copy this
  module declares.
\<close>

section \<open>32-bit integers\<close>

definition i32 :: "int \<Rightarrow> int" where
  "i32 n = (n + 2 ^ 31) mod 2 ^ 32 - 2 ^ 31"

definition add32 :: "int \<Rightarrow> int \<Rightarrow> int" where
  "add32 a b = i32 (a + b)"

definition sub32 :: "int \<Rightarrow> int \<Rightarrow> int" where
  "sub32 a b = i32 (a - b)"

lemma i32_id: "- (2 ^ 31) \<le> n \<Longrightarrow> n < 2 ^ 31 \<Longrightarrow> i32 n = n"
  by (simp add: i32_def)

section \<open>Trees\<close>

record tree_snapshot =
  files :: "(string, string) btree"

definition from_files :: "(string \<times> string) list \<Rightarrow> tree_snapshot" where
  "from_files fs = \<lparr>files = bt_of_list fs\<rparr>"

definition tree_get :: "tree_snapshot option \<Rightarrow> string \<Rightarrow> string option" where
  "tree_get tree path = (case tree of None \<Rightarrow> None | Some t \<Rightarrow> bt_get (files t) path)"

definition get_file_content :: "tree_snapshot option \<Rightarrow> string \<Rightarrow> string" where
  "get_file_content tree path = unwrap_or (tree_get tree path) []"

definition get_all_changed_files_between_trees ::
    "tree_snapshot option \<Rightarrow> tree_snapshot option \<Rightarrow> string list" where
  "get_all_changed_files_between_trees tree1 tree2 =
     (if tree1 = None \<and> tree2 = None then []
      else
        let changed = [];
            changed = (case tree1 of
                None \<Rightarrow> changed
              | Some left \<Rightarrow> foldl (\<lambda>ch (path, content_left).
                  let different = (case tree_get tree2 path of
                        Some content_right \<Rightarrow> content_right \<noteq> content_left
                      | None \<Rightarrow> True)
                  in if different then bs_insert path ch else ch) changed (files left));
            changed = (case tree2 of
                None \<Rightarrow> changed
              | Some right \<Rightarrow> foldl (\<lambda>ch path.
                  if (case tree1 of None \<Rightarrow> True | Some left \<Rightarrow> \<not> bt_contains (files left) path)
                  then bs_insert path ch else ch) changed (bt_keys (files right)))
        in changed)"

section \<open>Line diff\<close>

definition ends_with_nl :: "string \<Rightarrow> bool" where
  "ends_with_nl s \<longleftrightarrow> s \<noteq> [] \<and> last s = CHR 0x0A"

definition split_lines :: "string \<Rightarrow> string list" where
  "split_lines content =
     (if content = [] then []
      else let parts = split_on (CHR 0x0A) content
           in if ends_with_nl content then butlast parts else parts)"

definition count_lines_str :: "string \<Rightarrow> int" where
  "count_lines_str content = i32 (int (length (split_lines content)))"

text \<open>The dynamic program, cell by cell over the table of \<open>m + 1\<close> rows of \<open>n + 1\<close> counts.\<close>

definition lcs_cell :: "'a list \<Rightarrow> 'a list \<Rightarrow> nat \<Rightarrow> nat \<Rightarrow> nat list list \<Rightarrow> nat list list" where
  "lcs_cell left right i j dp =
     dp[i := (dp ! i)[j :=
       (if left ! (i - 1) = right ! (j - 1) then dp ! (i - 1) ! (j - 1) + 1
        else max (dp ! (i - 1) ! j) (dp ! i ! (j - 1)))]]"

definition lcs_table :: "'a list \<Rightarrow> 'a list \<Rightarrow> nat list list" where
  "lcs_table left right =
     (let m = length left; n = length right in
      foldl (\<lambda>dp i. foldl (\<lambda>dp j. lcs_cell left right i j dp) dp [1..<n + 1])
        (replicate (m + 1) (replicate (n + 1) 0)) [1..<m + 1])"

definition lcs_line_count :: "'a list \<Rightarrow> 'a list \<Rightarrow> nat" where
  "lcs_line_count left right =
     (let m = length left; n = length right in
      if m = 0 \<or> n = 0 then 0 else lcs_table left right ! m ! n)"

definition diff_lines :: "string \<Rightarrow> string \<Rightarrow> int \<times> int \<times> int" where
  "diff_lines checkpoint_content committed_content =
     (if checkpoint_content = committed_content then (count_lines_str committed_content, 0, 0)
      else if checkpoint_content = [] then (0, count_lines_str committed_content, 0)
      else if committed_content = [] then (0, 0, count_lines_str checkpoint_content)
      else
        let a = split_lines checkpoint_content; b = split_lines committed_content;
            unchanged = i32 (int (lcs_line_count a b));
            removed = max (sub32 (i32 (int (length a))) unchanged) 0;
            added = max (sub32 (i32 (int (length b))) unchanged) 0
        in (unchanged, added, removed))"

section \<open>Attribution of a commit\<close>











section \<open>Attribution of a prompt\<close>

definition prompt_step :: "tree_snapshot option \<Rightarrow> tree_snapshot option \<Rightarrow> prompt_attribution
    \<Rightarrow> string \<times> string \<Rightarrow> prompt_attribution" where
  "prompt_step base last_checkpoint result fc =
     (let (file_path, worktree_content) = fc;
          reference_tree = opt_or last_checkpoint base;
          reference_content = get_file_content reference_tree file_path;
          base_content = get_file_content base file_path;
          (_, user_added, user_removed) = diff_lines reference_content worktree_content;
          result = result\<lparr>user_lines_added := add32 (user_lines_added result) user_added,
                          user_lines_removed := add32 (user_lines_removed result) user_removed\<rparr>;
          result = (if user_added > 0
            then result\<lparr>user_added_per_file := bt_insert file_path user_added (user_added_per_file result)\<rparr>
            else result)
      in case last_checkpoint of
           None \<Rightarrow> result
         | Some t \<Rightarrow>
             (let checkpoint_content = get_file_content (Some t) file_path;
                  (_, agent_added, agent_removed) = diff_lines base_content checkpoint_content
              in result\<lparr>agent_lines_added := add32 (agent_lines_added result) agent_added,
                        agent_lines_removed := add32 (agent_lines_removed result) agent_removed\<rparr>))"

definition calculate_prompt_attribution :: "tree_snapshot option \<Rightarrow> tree_snapshot option
    \<Rightarrow> (string, string) btree \<Rightarrow> int \<Rightarrow> prompt_attribution" where
  "calculate_prompt_attribution base last_checkpoint worktree_files number =
     foldl (prompt_step base last_checkpoint)
       \<lparr>checkpoint_number = number, user_lines_added = 0, user_lines_removed = 0,
        agent_lines_added = 0, agent_lines_removed = 0, user_added_per_file = []\<rparr> worktree_files"

section \<open>The longest common subsequence\<close>

text \<open>The recurrence on prefix lengths, and its meaning.\<close>

fun lcs_rec :: "'a list \<Rightarrow> 'a list \<Rightarrow> nat \<Rightarrow> nat \<Rightarrow> nat" where
  "lcs_rec left right 0 j = 0"
| "lcs_rec left right (Suc i) 0 = 0"
| "lcs_rec left right (Suc i) (Suc j) =
     (if left ! i = right ! j then lcs_rec left right i j + 1
      else max (lcs_rec left right i (Suc j)) (lcs_rec left right (Suc i) j))"

definition lcs_spec :: "'a list \<Rightarrow> 'a list \<Rightarrow> nat" where
  "lcs_spec xs ys = Max (length ` {zs. subseq zs xs \<and> subseq zs ys})"

lemma lcs_rec_0 [simp]: "lcs_rec left right i 0 = 0"
  by (cases i) simp_all

lemma subseq_snoc_iff:
  "subseq zs (ys @ [y]) \<longleftrightarrow> subseq zs ys \<or> (\<exists>zs'. zs = zs' @ [y] \<and> subseq zs' ys)"
proof
  assume "subseq zs (ys @ [y])"
  then obtain a b where z: "zs = a @ b" "subseq a ys" "subseq b [y]" by (auto simp: subseq_append_iff)
  have "b = [] \<or> b = [y]" using z(3) by (cases b) (auto split: if_splits)
  then show "subseq zs ys \<or> (\<exists>zs'. zs = zs' @ [y] \<and> subseq zs' ys)" using z by auto
next
  assume "subseq zs ys \<or> (\<exists>zs'. zs = zs' @ [y] \<and> subseq zs' ys)"
  then show "subseq zs (ys @ [y])"
    unfolding subseq_append_iff by (metis append_Nil2 list_emb_Nil subseq_order.order_refl)
qed

lemma subseq_butlast_snoc: "subseq (zs @ [z]) (ys @ [y]) \<Longrightarrow> subseq zs ys"
  using subseq_order.trans [of zs "zs @ [z]" ys] by (auto simp: subseq_snoc_iff)

lemma lcs_rec_upper:
  "i \<le> length left \<Longrightarrow> j \<le> length right \<Longrightarrow> subseq zs (take i left) \<Longrightarrow> subseq zs (take j right) \<Longrightarrow>
     length zs \<le> lcs_rec left right i j"
proof (induction left right i j arbitrary: zs rule: lcs_rec.induct)
  case (3 left right i j)
  have l: "take (Suc i) left = take i left @ [left ! i]" "take (Suc j) right = take j right @ [right ! j]"
    using "3.prems" by (simp_all add: take_Suc_conv_app_nth)
  show ?case
  proof (cases "left ! i = right ! j")
    case True
    show ?thesis
    proof (cases zs rule: rev_cases)
      case (snoc zs' z)
      then have "subseq zs' (take i left)" "subseq zs' (take j right)"
        using "3.prems" subseq_butlast_snoc by (metis l)+
      then show ?thesis using "3.IH"(1) [OF True, of zs'] "3.prems" True snoc by simp
    qed simp
  next
    case False
    then have "subseq zs (take i left) \<or> subseq zs (take j right)"
      using "3.prems" by (auto simp: l subseq_snoc_iff)
    then show ?thesis
      using "3.IH"(2,3) [OF False, of zs] "3.prems" False by (auto simp: max_def)
  qed
qed simp_all

lemma lcs_rec_lower:
  "i \<le> length left \<Longrightarrow> j \<le> length right \<Longrightarrow>
     \<exists>zs. subseq zs (take i left) \<and> subseq zs (take j right) \<and> length zs = lcs_rec left right i j"
proof (induction left right i j rule: lcs_rec.induct)
  case (3 left right i j)
  have l: "take (Suc i) left = take i left @ [left ! i]" "take (Suc j) right = take j right @ [right ! j]"
    using "3.prems" by (simp_all add: take_Suc_conv_app_nth)
  show ?case
  proof (cases "left ! i = right ! j")
    case True
    then obtain zs where "subseq zs (take i left)" "subseq zs (take j right)" "length zs = lcs_rec left right i j"
      using 3 by auto
    then show ?thesis using True by (intro exI [of _ "zs @ [left ! i]"]) (simp add: l subseq_snoc_iff)
  next
    case False
    then obtain zs zs' where
      "subseq zs (take i left)" "subseq zs (take (Suc j) right)" "length zs = lcs_rec left right i (Suc j)"
      "subseq zs' (take (Suc i) left)" "subseq zs' (take j right)" "length zs' = lcs_rec left right (Suc i) j"
      using 3 by fastforce
    then show ?thesis using False
      by (intro exI [of _ "if length zs' \<le> length zs then zs else zs'"]) (auto simp: l subseq_snoc_iff max_def)
  qed
qed auto

lemma lcs_rec_spec: "lcs_rec xs ys (length xs) (length ys) = lcs_spec xs ys"
  unfolding lcs_spec_def
proof (rule Max_eqI [symmetric])
  have "{zs. subseq zs xs \<and> subseq zs ys} \<subseteq> set (subseqs xs)" by auto
  then show "finite (length ` {zs. subseq zs xs \<and> subseq zs ys})"
    by (intro finite_imageI) (rule finite_subset, auto)
  show "n \<le> lcs_rec xs ys (length xs) (length ys)" if "n \<in> length ` {zs. subseq zs xs \<and> subseq zs ys}" for n
    using that lcs_rec_upper [of "length xs" xs "length ys" ys] by auto
  show "lcs_rec xs ys (length xs) (length ys) \<in> length ` {zs. subseq zs xs \<and> subseq zs ys}"
    using lcs_rec_lower [of "length xs" xs "length ys" ys] by force
qed

section \<open>The table holds the recurrence\<close>

text \<open>After the cells before \<open>(i, j)\<close>: every finished cell holds the recurrence, the border is zero.\<close>

definition table_ok :: "'a list \<Rightarrow> 'a list \<Rightarrow> nat \<Rightarrow> nat \<Rightarrow> nat list list \<Rightarrow> bool" where
  "table_ok left right i j dp \<longleftrightarrow>
     length dp = length left + 1 \<and> (\<forall>a \<le> length left. length (dp ! a) = length right + 1) \<and>
     (\<forall>a \<le> length left. \<forall>b \<le> length right.
        a < i \<or> (a = i \<and> b < j) \<or> b = 0 \<longrightarrow> dp ! a ! b = lcs_rec left right a b)"

lemma lcs_cell_ok:
  assumes "table_ok left right (Suc i) (Suc j) dp" "Suc i \<le> length left" "Suc j \<le> length right"
  shows "table_ok left right (Suc i) (Suc (Suc j)) (lcs_cell left right (Suc i) (Suc j) dp)"
proof -
  have "dp ! i ! j = lcs_rec left right i j" "dp ! i ! Suc j = lcs_rec left right i (Suc j)"
    "dp ! Suc i ! j = lcs_rec left right (Suc i) j"
    using assms unfolding table_ok_def by auto
  then have cell: "(if left ! i = right ! j then dp ! i ! j + 1 else max (dp ! i ! Suc j) (dp ! Suc i ! j))
      = lcs_rec left right (Suc i) (Suc j)"
    by simp
  have cell_eq: "lcs_cell left right (Suc i) (Suc j) dp =
      dp[Suc i := (dp ! Suc i)[Suc j := lcs_rec left right (Suc i) (Suc j)]]"
    by (simp only: lcs_cell_def diff_Suc_1 cell)
  have dims: "length dp = length left + 1" "\<And>a. a \<le> length left \<Longrightarrow> length (dp ! a) = length right + 1"
    using assms unfolding table_ok_def by auto
  have entry: "lcs_cell left right (Suc i) (Suc j) dp ! a ! b =
      (if a = Suc i \<and> b = Suc j then lcs_rec left right (Suc i) (Suc j) else dp ! a ! b)"
    if "a \<le> length left" "b \<le> length right" for a b
    using that assms(2,3) dims by (simp add: cell_eq nth_list_update del: lcs_rec.simps)
  have rows: "length (lcs_cell left right (Suc i) (Suc j) dp) = length left + 1"
    "\<And>a. a \<le> length left \<Longrightarrow> length (lcs_cell left right (Suc i) (Suc j) dp ! a) = length right + 1"
    using dims assms(2) by (auto simp: lcs_cell_def nth_list_update)
  have old: "dp ! a ! b = lcs_rec left right a b"
    if "a \<le> length left" "b \<le> length right" "a < Suc i \<or> (a = Suc i \<and> b < Suc j) \<or> b = 0" for a b
    using assms(1) that unfolding table_ok_def by blast
  show ?thesis
    unfolding table_ok_def
  proof (intro conjI allI impI)
    fix a b assume ab: "a \<le> length left" "b \<le> length right"
      "a < Suc i \<or> a = Suc i \<and> b < Suc (Suc j) \<or> b = 0"
    show "lcs_cell left right (Suc i) (Suc j) dp ! a ! b = lcs_rec left right a b"
    proof (cases "a = Suc i \<and> b = Suc j")
      case False
      then have "a < Suc i \<or> (a = Suc i \<and> b < Suc j) \<or> b = 0" using ab(3) by auto
      then show ?thesis using entry [OF ab(1,2)] old [OF ab(1,2)] False by presburger
    qed (use entry [OF ab(1,2)] in presburger)
  qed (use rows in auto)
qed

lemma lcs_row_ok:
  assumes "table_ok left right (Suc i) 1 dp" "Suc i \<le> length left" "k \<le> length right"
  shows "table_ok left right (Suc i) (Suc k) (foldl (\<lambda>dp j. lcs_cell left right (Suc i) j dp) dp [1..<k + 1])"
  using assms(3)
proof (induction k)
  case (Suc k)
  then show ?case using lcs_cell_ok [OF Suc.IH] assms by simp
qed (use assms in simp)

lemma table_ok_next: "table_ok left right i (Suc (length right)) dp \<Longrightarrow> table_ok left right (Suc i) 1 dp"
  unfolding table_ok_def
  by (elim conjE, intro conjI) (assumption, assumption, metis One_nat_def le_imp_less_Suc less_antisym less_one)

lemma lcs_rows_ok:
  assumes "k \<le> length left"
  shows "table_ok left right (Suc k) 1
    (foldl (\<lambda>dp i. foldl (\<lambda>dp j. lcs_cell left right i j dp) dp [1..<length right + 1])
      (replicate (length left + 1) (replicate (length right + 1) 0)) [1..<k + 1])"
  using assms
proof (induction k)
  case 0
  show ?case by (simp add: table_ok_def less_Suc_eq_le nth_replicate del: replicate_Suc)
next
  case (Suc k)
  let ?dp = "foldl (\<lambda>dp i. foldl (\<lambda>dp j. lcs_cell left right i j dp) dp [1..<length right + 1])
      (replicate (length left + 1) (replicate (length right + 1) 0)) [1..<k + 1]"
  have "table_ok left right (Suc k) 1 ?dp" using Suc by simp
  from table_ok_next [OF lcs_row_ok [OF this Suc.prems order_refl]] show ?case by simp
qed

lemma lcs_line_count_rec: "lcs_line_count xs ys = lcs_rec xs ys (length xs) (length ys)"
proof (cases "xs = [] \<or> ys = []")
  case False
  have "table_ok xs ys (Suc (length xs)) 1 (lcs_table xs ys)"
    using lcs_rows_ok [of "length xs" xs ys] by (simp add: lcs_table_def Let_def)
  then show ?thesis using False by (simp add: table_ok_def lcs_line_count_def Let_def)
qed (auto simp: lcs_line_count_def)

lemma lcs_spec_le: "lcs_spec xs ys \<le> length xs" "lcs_spec xs ys \<le> length ys"
proof -
  obtain zs where "subseq zs xs" "subseq zs ys" "length zs = lcs_spec xs ys"
    using lcs_rec_lower [of "length xs" xs "length ys" ys] by (auto simp: lcs_rec_spec)
  then show "lcs_spec xs ys \<le> length xs" "lcs_spec xs ys \<le> length ys"
    by (metis list_emb_length)+
qed

lemma lcs_spec_self [simp]: "lcs_spec xs xs = length xs"
  using lcs_rec_upper [of "length xs" xs "length xs" xs xs] lcs_spec_le [of xs xs]
  by (simp add: lcs_rec_spec)

lemma lcs_spec_Nil [simp]: "lcs_spec [] ys = 0" "lcs_spec xs [] = 0"
  using lcs_spec_le [of "[]" ys] lcs_spec_le [of xs "[]"] by simp_all

text \<open>One description of \<open>diff_lines\<close> for all its branches.\<close>

lemma diff_lines_eq:
  assumes "length (split_lines c) < 2 ^ 31" "length (split_lines h) < 2 ^ 31"
  shows "diff_lines c h =
    (let u = int (lcs_spec (split_lines c) (split_lines h)) in
     (u, int (length (split_lines h)) - u, int (length (split_lines c)) - u))"
proof -
  have id: "i32 (int n) = int n" if "n < 2 ^ 31" for n
    using that by (intro i32_id) simp_all
  have len: "i32 (int (length (split_lines c))) = int (length (split_lines c))"
    "i32 (int (length (split_lines h))) = int (length (split_lines h))"
    using assms id by blast+
  note le = lcs_spec_le [of "split_lines c" "split_lines h"]
  have lcs: "i32 (int (lcs_spec (split_lines c) (split_lines h))) = int (lcs_spec (split_lines c) (split_lines h))"
    using le assms by (intro id) simp
  have sub: "sub32 (int a) (int b) = int a - int b" if "b \<le> a" "a < 2 ^ 31" for a b
    unfolding sub32_def using that by (intro i32_id) simp_all
  have nil: "split_lines [] = []" by (simp add: split_lines_def)
  show ?thesis
    using le assms
    by (auto simp: diff_lines_def Let_def count_lines_str_def len lcs_line_count_rec lcs_rec_spec lcs sub nil)
qed

section \<open>No overflow in a commit of bounded size\<close>

definition tree_ok :: "tree_snapshot option \<Rightarrow> bool" where
  "tree_ok t \<longleftrightarrow> (case t of None \<Rightarrow> True | Some t \<Rightarrow> bt_ok (files t))"







text \<open>A running sum of \<open>k\<close> values of at most \<open>B\<close>.\<close>

definition sum_within :: "nat \<Rightarrow> nat \<Rightarrow> int \<Rightarrow> bool" where
  "sum_within B k s \<longleftrightarrow> 0 \<le> s \<and> s \<le> int k * int B"

lemma sum_within_0: "sum_within B k 0"
  by (simp add: sum_within_def)











section \<open>Properties\<close>

text \<open>C37: the table computes the length of a longest common subsequence of the two line lists.\<close>

theorem lcs_is_longest:
  "lcs_line_count xs ys = Max (length ` {zs. subseq zs xs \<and> subseq zs ys})"
  by (simp add: lcs_line_count_rec lcs_rec_spec lcs_spec_def)

text \<open>On every branch, the shortcuts for equal and empty contents included, \<open>diff_lines\<close> keeps a
  longest common subsequence of the lines, and what it adds and removes completes the two line
  counts; no result is negative.\<close>

theorem diff_lines_accounts:
  assumes "length (split_lines c) < 2 ^ 31" "length (split_lines h) < 2 ^ 31"
  shows "case diff_lines c h of (unchanged, added, removed) \<Rightarrow>
    unchanged = int (lcs_spec (split_lines c) (split_lines h)) \<and>
    unchanged + added = int (length (split_lines h)) \<and>
    unchanged + removed = int (length (split_lines c)) \<and>
    0 \<le> unchanged \<and> 0 \<le> added \<and> 0 \<le> removed"
  using lcs_spec_le [of "split_lines c" "split_lines h"]
  by (simp add: diff_lines_eq [OF assms] Let_def)

theorem diff_lines_accounts_witness:
  "case diff_lines (''a'' @ nl @ ''b'' @ nl) (''b'' @ nl @ ''c'') of (unchanged, added, removed) \<Rightarrow>
    unchanged + added = 2 \<and> unchanged + removed = 2"
proof -
  have l: "length (split_lines (''a'' @ nl @ ''b'' @ nl)) = 2" "length (split_lines (''b'' @ nl @ ''c'')) = 2"
    by (simp_all add: split_lines_def nl_def ends_with_nl_def)
  have "length (split_lines (''a'' @ nl @ ''b'' @ nl)) < 2 ^ 31" "length (split_lines (''b'' @ nl @ ''c'')) < 2 ^ 31"
    unfolding l by simp_all
  from diff_lines_accounts [OF this] show ?thesis unfolding l by auto
qed

text \<open>The files changed between two trees are exactly the paths at which the trees differ, in
  ascending order and without repetition; an absent tree has no files.\<close>

theorem changed_files_exact:
  assumes "tree_ok t1" "tree_ok t2"
  shows "set (get_all_changed_files_between_trees t1 t2) = {p. tree_get t1 p \<noteq> tree_get t2 p} \<and>
    sorted_wrt (<) (get_all_changed_files_between_trees t1 t2)"
proof -
  let ?differs = "\<lambda>(path, content_left). case tree_get t2 path of
      Some content_right \<Rightarrow> content_right \<noteq> content_left | None \<Rightarrow> True"
  define ch where "ch = (case t1 of None \<Rightarrow> [] | Some left \<Rightarrow>
      foldl (\<lambda>s x. if ?differs x then bs_insert (fst x) s else s) [] (files left))"
  have ch_set: "set ch = {p. tree_get t1 p \<noteq> None \<and> tree_get t1 p \<noteq> tree_get t2 p}"
  proof (cases t1)
    case (Some left)
    then have "(p, c) \<in> set (files left) \<longleftrightarrow> tree_get t1 p = Some c" for p c
      using assms(1) bt_in_get [of "files left" p c] bt_get_in [of "files left" p c]
      by (auto simp: tree_ok_def tree_get_def)
    then show ?thesis
      by (auto simp: ch_def Some bs_fold_filter image_iff split: option.splits) metis
  qed (simp add: ch_def tree_get_def)
  have ch_sorted: "sorted_wrt (<) ch"
    by (auto simp: ch_def bs_fold_filter_sorted split: option.splits)
  define ch' where "ch' = (case t2 of None \<Rightarrow> ch | Some right \<Rightarrow>
      foldl (\<lambda>s x. if tree_get t1 x = None then bs_insert x s else s) ch (bt_keys (files right)))"
  have "set ch' = {p. tree_get t1 p \<noteq> tree_get t2 p}"
  proof (cases t2)
    case (Some right)
    have "set ch' = set ch \<union> {p. bt_get (files right) p \<noteq> None \<and> tree_get t1 p = None}"
      using bt_keys_get [of "files right"] by (auto simp: ch'_def Some bs_fold_if)
    then show ?thesis using Some by (auto simp: ch_set tree_get_def)
  next
    case None
    then show ?thesis by (auto simp: ch'_def ch_set tree_get_def)
  qed
  moreover have "sorted_wrt (<) ch'"
    using ch_sorted by (auto simp: ch'_def bs_fold_if split: option.splits)
  moreover have "get_all_changed_files_between_trees t1 t2 = ch'"
    unfolding get_all_changed_files_between_trees_def ch'_def ch_def Let_def
    by (cases t1; cases t2) (auto simp: case_prod_unfold tree_get_def bt_contains_def)
  ultimately show ?thesis by simp
qed

theorem changed_files_exact_witness:
  "set (get_all_changed_files_between_trees (Some (from_files [(''a'', ''x''), (''b'', ''y'')]))
     (Some (from_files [(''b'', ''z''), (''c'', ''x'')]))) = {''a'', ''b'', ''c''}"
proof -
  let ?t1 = "Some (from_files [(''a'', ''x''), (''b'', ''y'')])"
  let ?t2 = "Some (from_files [(''b'', ''z''), (''c'', ''x'')])"
  have ok: "tree_ok ?t1" "tree_ok ?t2"
    by (simp_all add: tree_ok_def from_files_def bt_of_list_put_all bt.put_all_ok)
  have "tree_get ?t1 p \<noteq> tree_get ?t2 p \<longleftrightarrow> p \<in> {''a'', ''b'', ''c''}" for p
    by (auto simp: tree_get_def from_files_def bt_of_list_def less_char_def)
  then show ?thesis using changed_files_exact [OF ok] by auto
qed







end
