(* ===== verification/TaskTypes.thy ===== *)
theory TaskTypes
  imports OrdMap
begin

text \<open>
  The data of the DevQL task queue: \<open>daemon/types/devql_task.rs\<close> with the payload types it refers
  to (\<open>embeddings_bootstrap.rs\<close>, \<open>summary_bootstrap.rs\<close>, the sync progress and summary of
  \<open>host/devql/commands_sync\<close>, the ingestion counters of \<open>host/devql/ingestion\<close>) and the persisted
  queue state of \<open>host/runtime_store/types.rs\<close>. Paths are strings; \<open>u64\<close> and \<open>usize\<close> counts are
  naturals.
\<close>

section \<open>Kinds, sources, modes and statuses\<close>

datatype devql_task_kind = Sync | Ingest | EmbeddingsBootstrap | SummaryBootstrap

fun kind_display :: "devql_task_kind \<Rightarrow> string" where
  "kind_display Sync = ''sync''"
| "kind_display Ingest = ''ingest''"
| "kind_display EmbeddingsBootstrap = ''embeddings_bootstrap''"
| "kind_display SummaryBootstrap = ''summary_bootstrap''"

text \<open>The derived \<open>Ord\<close> of the enum is the order of its constructors.\<close>

fun kind_rank :: "devql_task_kind \<Rightarrow> nat" where
  "kind_rank Sync = 0"
| "kind_rank Ingest = 1"
| "kind_rank EmbeddingsBootstrap = 2"
| "kind_rank SummaryBootstrap = 3"

instantiation devql_task_kind :: linorder
begin

definition less_eq_devql_task_kind :: "devql_task_kind \<Rightarrow> devql_task_kind \<Rightarrow> bool" where
  "less_eq_devql_task_kind a b \<longleftrightarrow> kind_rank a \<le> kind_rank b"

definition less_devql_task_kind :: "devql_task_kind \<Rightarrow> devql_task_kind \<Rightarrow> bool" where
  "less_devql_task_kind a b \<longleftrightarrow> kind_rank a < kind_rank b"

instance
proof
  fix a b :: devql_task_kind
  assume "a \<le> b" "b \<le> a"
  then show "a = b" by (cases a; cases b) (simp_all add: less_eq_devql_task_kind_def)
qed (auto simp: less_eq_devql_task_kind_def less_devql_task_kind_def)

end

datatype devql_task_source = Init | ManualCli | Watcher | PostCommit | PostMerge | PostCheckout
  | RepoPolicyChange

fun source_display :: "devql_task_source \<Rightarrow> string" where
  "source_display Init = ''init''"
| "source_display ManualCli = ''manual_cli''"
| "source_display Watcher = ''watcher''"
| "source_display PostCommit = ''post_commit''"
| "source_display PostMerge = ''post_merge''"
| "source_display PostCheckout = ''post_checkout''"
| "source_display RepoPolicyChange = ''repo_policy_change''"

datatype sync_task_mode = Auto | Full | Paths "string list" | Repair | Validate

fun sync_task_mode_display :: "sync_task_mode \<Rightarrow> string" where
  "sync_task_mode_display Auto = ''auto''"
| "sync_task_mode_display Full = ''full''"
| "sync_task_mode_display (Paths _) = ''paths''"
| "sync_task_mode_display Repair = ''repair''"
| "sync_task_mode_display Validate = ''validate''"

datatype devql_task_status = Queued | Running | Completed | Failed | Cancelled

fun status_display :: "devql_task_status \<Rightarrow> string" where
  "status_display Queued = ''queued''"
| "status_display Running = ''running''"
| "status_display Completed = ''completed''"
| "status_display Failed = ''failed''"
| "status_display Cancelled = ''cancelled''"

section \<open>Specifications\<close>

record post_commit_snapshot_spec =
  snap_commit_sha :: string
  snap_changed_paths :: "string list"

record sync_task_spec =
  sync_mode :: sync_task_mode
  post_commit_snapshot :: "post_commit_snapshot_spec option"

record ingest_task_spec =
  ingest_commits :: "string list"
  ingest_backfill :: "nat option"

datatype embeddings_bootstrap_mode = Local | Platform

record embeddings_bootstrap_task_spec =
  ebs_config_path :: string
  ebs_profile_name :: string
  ebs_mode :: embeddings_bootstrap_mode
  ebs_gateway_url_override :: "string option"
  ebs_api_key_env :: "string option"

datatype summary_bootstrap_action = InstallRuntimeOnly | InstallRuntimeOnlyPendingProbe
  | ConfigureLocal | ConfigureCloud

record summary_bootstrap_request =
  sbr_action :: summary_bootstrap_action
  sbr_message :: "string option"
  sbr_model_name :: "string option"
  sbr_gateway_url_override :: "string option"
  sbr_api_key_env :: "string option"

datatype devql_task_spec =
    SyncSpec sync_task_spec
  | IngestSpec ingest_task_spec
  | EmbeddingsBootstrapSpec embeddings_bootstrap_task_spec
  | SummaryBootstrapSpec summary_bootstrap_request

section \<open>Progress\<close>

datatype sync_progress_phase = SpQueued | EnsuringSchema | InspectingWorkspace | BuildingManifest
  | LoadingStoredState | ClassifyingPaths | RemovingPaths | ExtractingPaths | MaterialisingPaths
  | ReconcilingEdges | RunningGc | BuildingValidationProjection | LoadingValidationRows
  | ComparingValidationRows | SpComplete | SpFailed

fun sync_phase_as_str :: "sync_progress_phase \<Rightarrow> string" where
  "sync_phase_as_str SpQueued = ''queued''"
| "sync_phase_as_str EnsuringSchema = ''ensuring_schema''"
| "sync_phase_as_str InspectingWorkspace = ''inspecting_workspace''"
| "sync_phase_as_str BuildingManifest = ''building_manifest''"
| "sync_phase_as_str LoadingStoredState = ''loading_stored_state''"
| "sync_phase_as_str ClassifyingPaths = ''classifying_paths''"
| "sync_phase_as_str RemovingPaths = ''removing_paths''"
| "sync_phase_as_str ExtractingPaths = ''extracting_paths''"
| "sync_phase_as_str MaterialisingPaths = ''materialising_paths''"
| "sync_phase_as_str ReconcilingEdges = ''reconciling_edges''"
| "sync_phase_as_str RunningGc = ''running_gc''"
| "sync_phase_as_str BuildingValidationProjection = ''building_validation_projection''"
| "sync_phase_as_str LoadingValidationRows = ''loading_validation_rows''"
| "sync_phase_as_str ComparingValidationRows = ''comparing_validation_rows''"
| "sync_phase_as_str SpComplete = ''complete''"
| "sync_phase_as_str SpFailed = ''failed''"

record sync_progress_update =
  sp_phase :: sync_progress_phase
  sp_current_path :: "string option"
  sp_paths_total :: nat
  sp_paths_completed :: nat
  sp_paths_remaining :: nat
  sp_paths_unchanged :: nat
  sp_paths_added :: nat
  sp_paths_changed :: nat
  sp_paths_removed :: nat
  sp_cache_hits :: nat
  sp_cache_misses :: nat
  sp_parse_errors :: nat

definition sync_progress_default :: sync_progress_update where
  "sync_progress_default = \<lparr>sp_phase = SpQueued, sp_current_path = None, sp_paths_total = 0,
     sp_paths_completed = 0, sp_paths_remaining = 0, sp_paths_unchanged = 0, sp_paths_added = 0,
     sp_paths_changed = 0, sp_paths_removed = 0, sp_cache_hits = 0, sp_cache_misses = 0,
     sp_parse_errors = 0\<rparr>"

record ingestion_counters =
  ic_success :: bool
  ic_init_requested :: bool
  ic_commits_processed :: nat
  ic_checkpoint_companions_processed :: nat
  ic_events_inserted :: nat
  ic_artefacts_upserted :: nat
  ic_checkpoints_without_commit :: nat
  ic_temporary_rows_promoted :: nat
  ic_semantic_feature_rows_upserted :: nat
  ic_semantic_feature_rows_skipped :: nat
  ic_symbol_embedding_rows_upserted :: nat
  ic_symbol_embedding_rows_skipped :: nat
  ic_symbol_clone_edges_upserted :: nat
  ic_symbol_clone_sources_scored :: nat

definition ingestion_counters_default :: ingestion_counters where
  "ingestion_counters_default = \<lparr>ic_success = False, ic_init_requested = False,
     ic_commits_processed = 0, ic_checkpoint_companions_processed = 0, ic_events_inserted = 0,
     ic_artefacts_upserted = 0, ic_checkpoints_without_commit = 0, ic_temporary_rows_promoted = 0,
     ic_semantic_feature_rows_upserted = 0, ic_semantic_feature_rows_skipped = 0,
     ic_symbol_embedding_rows_upserted = 0, ic_symbol_embedding_rows_skipped = 0,
     ic_symbol_clone_edges_upserted = 0, ic_symbol_clone_sources_scored = 0\<rparr>"

datatype ingestion_progress_phase = Initializing | Extracting | Persisting | IpComplete | IpFailed

record ingestion_progress_update =
  ip_phase :: ingestion_progress_phase
  ip_commits_total :: nat
  ip_commits_processed :: nat
  ip_current_checkpoint_id :: "string option"
  ip_current_commit_sha :: "string option"
  ip_counters :: ingestion_counters

datatype embeddings_bootstrap_phase = EbQueued | EbPreparingConfig | EbResolvingRelease
  | EbDownloadingRuntime | EbExtractingRuntime | EbRewritingRuntime | EbWarmingProfile | EbComplete
  | EbFailed

fun embeddings_phase_as_str :: "embeddings_bootstrap_phase \<Rightarrow> string" where
  "embeddings_phase_as_str EbQueued = ''queued''"
| "embeddings_phase_as_str EbPreparingConfig = ''preparing_config''"
| "embeddings_phase_as_str EbResolvingRelease = ''resolving_release''"
| "embeddings_phase_as_str EbDownloadingRuntime = ''downloading_runtime''"
| "embeddings_phase_as_str EbExtractingRuntime = ''extracting_runtime''"
| "embeddings_phase_as_str EbRewritingRuntime = ''rewriting_runtime''"
| "embeddings_phase_as_str EbWarmingProfile = ''warming_profile''"
| "embeddings_phase_as_str EbComplete = ''complete''"
| "embeddings_phase_as_str EbFailed = ''failed''"

record embeddings_bootstrap_progress =
  ebp_phase :: embeddings_bootstrap_phase
  ebp_asset_name :: "string option"
  ebp_bytes_downloaded :: nat
  ebp_bytes_total :: "nat option"
  ebp_version :: "string option"
  ebp_message :: "string option"

definition embeddings_progress_default :: embeddings_bootstrap_progress where
  "embeddings_progress_default = \<lparr>ebp_phase = EbQueued, ebp_asset_name = None,
     ebp_bytes_downloaded = 0, ebp_bytes_total = None, ebp_version = None, ebp_message = None\<rparr>"

datatype summary_bootstrap_phase = SbQueued | SbResolvingRelease | SbDownloadingRuntime
  | SbExtractingRuntime | SbRewritingRuntime | SbWritingProfile | SbComplete | SbFailed

fun summary_phase_display :: "summary_bootstrap_phase \<Rightarrow> string" where
  "summary_phase_display SbQueued = ''queued''"
| "summary_phase_display SbResolvingRelease = ''resolving_release''"
| "summary_phase_display SbDownloadingRuntime = ''downloading_runtime''"
| "summary_phase_display SbExtractingRuntime = ''extracting_runtime''"
| "summary_phase_display SbRewritingRuntime = ''rewriting_runtime''"
| "summary_phase_display SbWritingProfile = ''writing_profile''"
| "summary_phase_display SbComplete = ''complete''"
| "summary_phase_display SbFailed = ''failed''"

record summary_bootstrap_progress =
  sbp_phase :: summary_bootstrap_phase
  sbp_asset_name :: "string option"
  sbp_bytes_downloaded :: nat
  sbp_bytes_total :: "nat option"
  sbp_version :: "string option"
  sbp_message :: "string option"

definition summary_progress_default :: summary_bootstrap_progress where
  "summary_progress_default = \<lparr>sbp_phase = SbQueued, sbp_asset_name = None,
     sbp_bytes_downloaded = 0, sbp_bytes_total = None, sbp_version = None, sbp_message = None\<rparr>"

datatype devql_task_progress =
    SyncProgress sync_progress_update
  | IngestProgress ingestion_progress_update
  | EmbeddingsProgress embeddings_bootstrap_progress
  | SummaryProgress summary_bootstrap_progress

section \<open>Results\<close>

record sync_validation_file_drift =
  vd_path :: string
  vd_missing_artefacts :: nat
  vd_stale_artefacts :: nat
  vd_mismatched_artefacts :: nat
  vd_missing_edges :: nat
  vd_stale_edges :: nat
  vd_mismatched_edges :: nat

record sync_validation_summary =
  vs_valid :: bool
  vs_expected_artefacts :: nat
  vs_actual_artefacts :: nat
  vs_expected_edges :: nat
  vs_actual_edges :: nat
  vs_missing_artefacts :: nat
  vs_stale_artefacts :: nat
  vs_mismatched_artefacts :: nat
  vs_missing_edges :: nat
  vs_stale_edges :: nat
  vs_mismatched_edges :: nat
  vs_files_with_drift :: "sync_validation_file_drift list"

record sync_summary =
  ss_success :: bool
  ss_mode :: string
  ss_parser_version :: string
  ss_extractor_version :: string
  ss_active_branch :: "string option"
  ss_head_commit_sha :: "string option"
  ss_head_tree_sha :: "string option"
  ss_paths_unchanged :: nat
  ss_paths_added :: nat
  ss_paths_changed :: nat
  ss_paths_removed :: nat
  ss_cache_hits :: nat
  ss_cache_misses :: nat
  ss_parse_errors :: nat
  ss_validation :: "sync_validation_summary option"

record embeddings_bootstrap_result =
  ebr_version :: "string option"
  ebr_binary_path :: "string option"
  ebr_cache_dir :: "string option"
  ebr_runtime_name :: "string option"
  ebr_model_name :: "string option"
  ebr_freshly_installed :: bool
  ebr_message :: string

record summary_bootstrap_result_record =
  sbres_outcome_kind :: string
  sbres_model_name :: "string option"
  sbres_message :: string

datatype devql_task_result =
    SyncResult sync_summary
  | IngestResult ingestion_counters
  | EmbeddingsResult embeddings_bootstrap_result
  | SummaryResult summary_bootstrap_result_record

section \<open>Task records and the persisted queue\<close>

record devql_task_record =
  task_id :: string
  repo_id :: string
  repo_name :: string
  repo_provider :: string
  repo_organisation :: string
  repo_identity :: string
  daemon_config_root :: string
  repo_root :: string
  init_session_id :: "string option"
  kind :: devql_task_kind
  source :: devql_task_source
  spec :: devql_task_spec
  status :: devql_task_status
  submitted_at_unix :: nat
  started_at_unix :: "nat option"
  updated_at_unix :: nat
  completed_at_unix :: "nat option"
  queue_position :: "nat option"
  tasks_ahead :: "nat option"
  progress :: devql_task_progress
  task_error :: "string option"
  task_result :: "devql_task_result option"

definition normalise_legacy_values :: "devql_task_record \<Rightarrow> devql_task_record" where
  "normalise_legacy_values t =
     (if daemon_config_root t = [] then t\<lparr>daemon_config_root := repo_root t\<rparr> else t)"

fun sync_spec_of :: "devql_task_spec \<Rightarrow> sync_task_spec option" where
  "sync_spec_of (SyncSpec s) = Some s"
| "sync_spec_of (IngestSpec _) = None"
| "sync_spec_of (EmbeddingsBootstrapSpec _) = None"
| "sync_spec_of (SummaryBootstrapSpec _) = None"

definition sync_spec :: "devql_task_record \<Rightarrow> sync_task_spec option" where
  "sync_spec t = sync_spec_of (spec t)"

definition ingest_spec :: "devql_task_record \<Rightarrow> ingest_task_spec option" where
  "ingest_spec t = (case spec t of IngestSpec s \<Rightarrow> Some s | _ \<Rightarrow> None)"

definition embeddings_bootstrap_spec :: "devql_task_record \<Rightarrow> embeddings_bootstrap_task_spec option" where
  "embeddings_bootstrap_spec t = (case spec t of EmbeddingsBootstrapSpec s \<Rightarrow> Some s | _ \<Rightarrow> None)"

definition summary_bootstrap_spec :: "devql_task_record \<Rightarrow> summary_bootstrap_request option" where
  "summary_bootstrap_spec t = (case spec t of SummaryBootstrapSpec s \<Rightarrow> Some s | _ \<Rightarrow> None)"

definition sync_progress :: "devql_task_record \<Rightarrow> sync_progress_update option" where
  "sync_progress t = (case progress t of SyncProgress p \<Rightarrow> Some p | _ \<Rightarrow> None)"

definition ingest_progress :: "devql_task_record \<Rightarrow> ingestion_progress_update option" where
  "ingest_progress t = (case progress t of IngestProgress p \<Rightarrow> Some p | _ \<Rightarrow> None)"

definition embeddings_progress_of :: "devql_task_record \<Rightarrow> embeddings_bootstrap_progress option" where
  "embeddings_progress_of t = (case progress t of EmbeddingsProgress p \<Rightarrow> Some p | _ \<Rightarrow> None)"

definition summary_progress_of :: "devql_task_record \<Rightarrow> summary_bootstrap_progress option" where
  "summary_progress_of t = (case progress t of SummaryProgress p \<Rightarrow> Some p | _ \<Rightarrow> None)"

definition sync_result :: "devql_task_record \<Rightarrow> sync_summary option" where
  "sync_result t = (case task_result t of Some (SyncResult r) \<Rightarrow> Some r | _ \<Rightarrow> None)"

definition ingest_result :: "devql_task_record \<Rightarrow> ingestion_counters option" where
  "ingest_result t = (case task_result t of Some (IngestResult r) \<Rightarrow> Some r | _ \<Rightarrow> None)"

definition embeddings_result_of :: "devql_task_record \<Rightarrow> embeddings_bootstrap_result option" where
  "embeddings_result_of t = (case task_result t of Some (EmbeddingsResult r) \<Rightarrow> Some r | _ \<Rightarrow> None)"

definition summary_result_of :: "devql_task_record \<Rightarrow> summary_bootstrap_result_record option" where
  "summary_result_of t = (case task_result t of Some (SummaryResult r) \<Rightarrow> Some r | _ \<Rightarrow> None)"

record repo_task_control_state =
  ctl_repo_id :: string
  ctl_paused :: bool
  ctl_paused_reason :: "string option"
  ctl_updated_at_unix :: nat

record devql_task_kind_counts =
  kc_kind :: devql_task_kind
  kc_queued_tasks :: nat
  kc_running_tasks :: nat
  kc_failed_tasks :: nat
  kc_completed_recent_tasks :: nat

record devql_task_queue_state =
  qs_version :: nat
  qs_queued_tasks :: nat
  qs_running_tasks :: nat
  qs_failed_tasks :: nat
  qs_completed_recent_tasks :: nat
  qs_by_kind :: "devql_task_kind_counts list"
  qs_last_action :: "string option"
  qs_last_updated_unix :: nat

record devql_task_queue_status =
  st_state :: devql_task_queue_state
  st_persisted :: bool
  st_current_repo_tasks :: "devql_task_record list"
  st_current_repo_control :: "repo_task_control_state option"

record devql_task_control_result =
  cr_message :: string
  cr_control :: repo_task_control_state

record queue_state =
  version :: nat
  tasks :: "devql_task_record list"
  repo_controls :: "(string, repo_task_control_state) btree"
  last_action :: "string option"
  updated_at :: nat

definition queue_state_default :: queue_state where
  "queue_state_default = \<lparr>version = 1, tasks = [], repo_controls = [],
     last_action = Some ''initialized'', updated_at = 0\<rparr>"

text \<open>The part of \<open>DevqlConfig\<close> the queue reads: the roots and the repository identity.\<close>

record devql_config =
  cfg_config_root :: string
  cfg_repo_root :: string
  cfg_repo_id :: string
  cfg_name :: string
  cfg_provider :: string
  cfg_organization :: string
  cfg_identity :: string

section \<open>Shape predicates\<close>

definition is_active_status :: "devql_task_status \<Rightarrow> bool" where
  "is_active_status st \<longleftrightarrow> st = Queued \<or> st = Running"

definition is_terminal_status :: "devql_task_status \<Rightarrow> bool" where
  "is_terminal_status st \<longleftrightarrow> st = Completed \<or> st = Failed \<or> st = Cancelled"

lemma active_or_terminal: "is_terminal_status st \<longleftrightarrow> \<not> is_active_status st"
  by (cases st) (simp_all add: is_active_status_def is_terminal_status_def)

end
