(* ===== verification/TaskQueue.thy ===== *)
theory TaskQueue
  imports TaskTypes "HOL-Library.Multiset"
begin

text \<open>
  The pure operations of the task queue, \<open>daemon/tasks/queue.rs\<close>: merging a submission into a
  waiting task, choosing the tasks to start, queue positions, pruning of finished tasks and the
  status projection. \<open>HashMap\<close> and \<open>HashSet\<close> values whose iteration order the code does not use are
  lists or sets; the one loop that iterates a \<open>HashSet\<close> takes the enumeration as an argument. The
  clock is the argument \<open>now\<close>.
\<close>

definition MAX_TERMINAL_TASKS :: nat where
  "MAX_TERMINAL_TASKS = 64"

type_synonym lane = "string \<times> devql_task_kind"

definition task_lane :: "devql_task_record \<Rightarrow> lane" where
  "task_lane t = (repo_id t, kind t)"

definition active :: "devql_task_record \<Rightarrow> bool" where
  "active t \<longleftrightarrow> status t = Queued \<or> status t = Running"

definition terminal :: "devql_task_record \<Rightarrow> bool" where
  "terminal t \<longleftrightarrow> status t = Completed \<or> status t = Failed \<or> status t = Cancelled"

text \<open>\<open>v.sort(); v.dedup()\<close>\<close>

definition sort_dedup :: "string list \<Rightarrow> string list" where
  "sort_dedup xs = remdups_adj (sort xs)"

section \<open>Changed tasks\<close>

definition changed_tasks :: "devql_task_record list \<Rightarrow> devql_task_record list \<Rightarrow> devql_task_record list" where
  "changed_tasks previous current =
     (let previous_by_id = map_of (rev (map (\<lambda>t. (task_id t, t)) previous)) in
      filter (\<lambda>t. case previous_by_id (task_id t) of None \<Rightarrow> True | Some p \<Rightarrow> p \<noteq> t) current)"

section \<open>Sync modes\<close>

definition is_full_like :: "sync_task_mode \<Rightarrow> bool" where
  "is_full_like m \<longleftrightarrow> (case m of Auto \<Rightarrow> True | Full \<Rightarrow> True | _ \<Rightarrow> False)"

definition is_weaker_than_repair :: "sync_task_mode \<Rightarrow> bool" where
  "is_weaker_than_repair m \<longleftrightarrow> (case m of Auto \<Rightarrow> True | Full \<Rightarrow> True | Paths _ \<Rightarrow> True | _ \<Rightarrow> False)"

definition is_stronger_than_paths :: "sync_task_mode \<Rightarrow> bool" where
  "is_stronger_than_paths m \<longleftrightarrow> (case m of Auto \<Rightarrow> True | Full \<Rightarrow> True | Repair \<Rightarrow> True | _ \<Rightarrow> False)"

definition is_paths :: "sync_task_mode \<Rightarrow> bool" where
  "is_paths m \<longleftrightarrow> (case m of Paths _ \<Rightarrow> True | _ \<Rightarrow> False)"

definition merge_sync_modes :: "sync_task_mode \<Rightarrow> sync_task_mode \<Rightarrow> sync_task_mode" where
  "merge_sync_modes existing incoming =
     (if existing = Repair \<or> incoming = Repair then Repair
      else if existing = Full \<or> incoming = Full then Full
      else if existing = Auto then Auto
      else incoming)"

definition sync_specs_have_compatible_snapshots :: "sync_task_spec \<Rightarrow> sync_task_spec \<Rightarrow> bool" where
  "sync_specs_have_compatible_snapshots existing incoming =
     (case (post_commit_snapshot existing, post_commit_snapshot incoming) of
        (None, None) \<Rightarrow> True
      | (Some e, Some i) \<Rightarrow> snap_commit_sha e = snap_commit_sha i
      | _ \<Rightarrow> False)"

definition extend_snapshot :: "post_commit_snapshot_spec \<Rightarrow> post_commit_snapshot_spec \<Rightarrow> post_commit_snapshot_spec" where
  "extend_snapshot e i =
     e\<lparr>snap_changed_paths := sort_dedup (snap_changed_paths e @ snap_changed_paths i)\<rparr>"

definition merge_sync_snapshot_metadata :: "sync_task_spec \<Rightarrow> sync_task_spec \<Rightarrow> sync_task_spec" where
  "merge_sync_snapshot_metadata existing incoming =
     (case (post_commit_snapshot existing, post_commit_snapshot incoming) of
        (None, Some i) \<Rightarrow> existing\<lparr>post_commit_snapshot := Some i\<rparr>
      | (Some e, Some i) \<Rightarrow>
          if snap_commit_sha e = snap_commit_sha i
          then existing\<lparr>post_commit_snapshot := Some (extend_snapshot e i)\<rparr> else existing
      | _ \<Rightarrow> existing)"

section \<open>Producer sources\<close>

definition is_background_producer_source :: "devql_task_source \<Rightarrow> bool" where
  "is_background_producer_source s \<longleftrightarrow>
     (case s of Watcher \<Rightarrow> True | PostCheckout \<Rightarrow> True | PostCommit \<Rightarrow> True | PostMerge \<Rightarrow> True | _ \<Rightarrow> False)"

definition should_keep_distinct_producer_sources ::
    "devql_task_source \<Rightarrow> devql_task_source \<Rightarrow> sync_task_mode \<Rightarrow> sync_task_mode \<Rightarrow> bool" where
  "should_keep_distinct_producer_sources existing incoming existing_mode incoming_mode =
     (if existing = incoming then False
      else if existing = RepoPolicyChange \<or> incoming = RepoPolicyChange then False
      else if \<not> is_background_producer_source existing \<or> \<not> is_background_producer_source incoming then False
      else if existing = PostCheckout \<and> incoming = Watcher \<and> is_full_like existing_mode then False
      else if existing = Watcher \<and> incoming = PostCheckout \<and> is_paths existing_mode
              \<and> is_stronger_than_paths incoming_mode then False
      else True)"

section \<open>Merging a submission\<close>

text \<open>The first task that a sync of a whole tree, or a path sync that a stronger waiting one covers,
  is merged into.\<close>

definition absorbs :: "sync_task_mode \<Rightarrow> sync_task_mode \<Rightarrow> devql_task_status \<Rightarrow> bool" where
  "absorbs existing_mode mode st =
     (if existing_mode = Repair then True
      else if is_full_like existing_mode \<and> is_weaker_than_repair mode then True
      else if is_paths existing_mode \<and> st = Queued \<and> is_stronger_than_paths mode then True
      else False)"

definition merges_into :: "devql_config \<Rightarrow> devql_task_source \<Rightarrow> sync_task_spec \<Rightarrow> string option
    \<Rightarrow> devql_task_record \<Rightarrow> bool" where
  "merges_into cfg src incoming init t \<longleftrightarrow>
     repo_id t = cfg_repo_id cfg \<and> kind t = Sync \<and> active t \<and> init_session_id t = init \<and>
     (src \<noteq> RepoPolicyChange \<or> status t = Queued) \<and>
     (case sync_spec_of (spec t) of
        None \<Rightarrow> False
      | Some existing \<Rightarrow>
          \<not> should_keep_distinct_producer_sources (source t) src (sync_mode existing) (sync_mode incoming) \<and>
          sync_specs_have_compatible_snapshots existing incoming \<and>
          absorbs (sync_mode existing) (sync_mode incoming) (status t))"

definition merge_into :: "nat \<Rightarrow> devql_task_source \<Rightarrow> sync_task_spec \<Rightarrow> devql_task_record \<Rightarrow> devql_task_record" where
  "merge_into now src incoming t =
     (let use_incoming_source = (src = RepoPolicyChange);
          (t, use_incoming_source) =
            (case spec t of
               SyncSpec existing \<Rightarrow>
                 (let use_incoming_source = (use_incoming_source \<or>
                        source t \<noteq> RepoPolicyChange \<and> is_paths (sync_mode existing) \<and>
                        is_stronger_than_paths (sync_mode incoming));
                      existing = existing\<lparr>sync_mode := merge_sync_modes (sync_mode existing) (sync_mode incoming)\<rparr>;
                      existing = merge_sync_snapshot_metadata existing incoming
                  in (t\<lparr>spec := SyncSpec existing\<rparr>, use_incoming_source))
             | _ \<Rightarrow> (t, use_incoming_source));
          t = (if use_incoming_source then t\<lparr>source := src\<rparr> else t)
      in t\<lparr>updated_at_unix := now, task_error := None\<rparr>)"

text \<open>The first waiting path sync a further path sync is merged into.\<close>

definition merges_paths_into :: "devql_config \<Rightarrow> devql_task_source \<Rightarrow> sync_task_spec \<Rightarrow> string option
    \<Rightarrow> devql_task_record \<Rightarrow> bool" where
  "merges_paths_into cfg src incoming init t \<longleftrightarrow>
     repo_id t = cfg_repo_id cfg \<and> kind t = Sync \<and> status t = Queued \<and> init_session_id t = init \<and>
     (case sync_spec_of (spec t) of
        None \<Rightarrow> False
      | Some existing \<Rightarrow>
          \<not> should_keep_distinct_producer_sources (source t) src (sync_mode existing) (sync_mode incoming) \<and>
          is_paths (sync_mode existing) \<and> sync_specs_have_compatible_snapshots existing incoming)"

definition merge_paths_into :: "nat \<Rightarrow> string list \<Rightarrow> sync_task_spec \<Rightarrow> devql_task_record \<Rightarrow> devql_task_record" where
  "merge_paths_into now paths incoming t =
     (let t = (case spec t of
            SyncSpec existing \<Rightarrow>
              (case sync_mode existing of
                 Paths existing_paths \<Rightarrow>
                   (let existing = existing\<lparr>sync_mode := Paths (sort_dedup (existing_paths @ paths))\<rparr>;
                        existing = (case (post_commit_snapshot existing, post_commit_snapshot incoming) of
                            (Some e, Some i) \<Rightarrow> existing\<lparr>post_commit_snapshot := Some (extend_snapshot e i)\<rparr>
                          | _ \<Rightarrow> existing)
                    in t\<lparr>spec := SyncSpec existing\<rparr>)
               | _ \<Rightarrow> t)
          | _ \<Rightarrow> t)
      in t\<lparr>updated_at_unix := now, task_error := None\<rparr>)"

definition ingest_duplicate :: "devql_config \<Rightarrow> devql_task_spec \<Rightarrow> string option \<Rightarrow> devql_task_record \<Rightarrow> bool" where
  "ingest_duplicate cfg sp init t \<longleftrightarrow>
     repo_id t = cfg_repo_id cfg \<and> kind t = Ingest \<and> active t \<and> init_session_id t = init \<and> spec t = sp"

text \<open>\<open>iter_mut().find(p)\<close> followed by an update of what was found.\<close>

definition update_first :: "(devql_task_record \<Rightarrow> bool) \<Rightarrow> (devql_task_record \<Rightarrow> devql_task_record)
    \<Rightarrow> devql_task_record list \<Rightarrow> (devql_task_record list \<times> devql_task_record) option" where
  "update_first p f ts =
     (case find_index p ts of None \<Rightarrow> None | Some i \<Rightarrow> Some (ts[i := f (ts ! i)], f (ts ! i)))"

definition merge_existing_task :: "nat \<Rightarrow> queue_state \<Rightarrow> devql_config \<Rightarrow> devql_task_source
    \<Rightarrow> devql_task_kind \<Rightarrow> devql_task_spec \<Rightarrow> string option \<Rightarrow> (queue_state \<times> devql_task_record) option" where
  "merge_existing_task now st cfg src k sp init =
     (let commit = map_option (\<lambda>(ts, t). (st\<lparr>tasks := ts\<rparr>, t)) in
      if k = EmbeddingsBootstrap then None
      else if k = SummaryBootstrap then None
      else if k = Ingest then
        commit (update_first (ingest_duplicate cfg sp init)
          (\<lambda>t. t\<lparr>updated_at_unix := now, task_error := None\<rparr>) (tasks st))
      else (case sync_spec_of sp of
          None \<Rightarrow> None
        | Some incoming \<Rightarrow>
            opt_or
              (if sync_mode incoming \<noteq> Validate
               then commit (update_first (merges_into cfg src incoming init) (merge_into now src incoming) (tasks st))
               else None)
              (case sync_mode incoming of
                 Paths paths \<Rightarrow>
                   commit (update_first (merges_paths_into cfg src incoming init)
                     (merge_paths_into now paths incoming) (tasks st))
               | _ \<Rightarrow> None)))"

section \<open>Choosing the tasks to start\<close>

definition is_git_hook_sync_task :: "devql_task_record \<Rightarrow> bool" where
  "is_git_hook_sync_task t \<longleftrightarrow>
     kind t = Sync \<and> source t \<in> {PostCheckout, PostCommit, PostMerge} \<and>
     (case sync_spec t of None \<Rightarrow> True | Some s \<Rightarrow> sync_mode s \<noteq> Validate)"

definition pending_sort_key :: "nat \<Rightarrow> devql_task_record \<Rightarrow> nat \<times> nat \<times> nat" where
  "pending_sort_key index t =
     (if kind t = Sync \<and> source t = RepoPolicyChange then 0
      else if is_git_hook_sync_task t then 1
      else if kind t = EmbeddingsBootstrap \<or> kind t = SummaryBootstrap then 3
      else if kind t = Sync \<and> (case sync_spec t of None \<Rightarrow> False | Some s \<Rightarrow> sync_mode s = Validate) then 4
      else 2,
      submitted_at_unix t, index)"

definition paused_repo_ids :: "queue_state \<Rightarrow> string set" where
  "paused_repo_ids st = set (map fst (filter (\<lambda>(_, c). ctl_paused c) (repo_controls st)))"

definition repo_policy_change_blocked_repo_ids :: "queue_state \<Rightarrow> string set" where
  "repo_policy_change_blocked_repo_ids st =
     set (map repo_id (filter (\<lambda>t. kind t = Sync \<and> source t = RepoPolicyChange \<and> active t) (tasks st)))"

definition sync_blocked_ingest_repo_ids :: "queue_state \<Rightarrow> string set" where
  "sync_blocked_ingest_repo_ids st = set (map repo_id (filter (\<lambda>t. kind t = Sync \<and> active t) (tasks st)))"

definition running_lanes :: "queue_state \<Rightarrow> lane set" where
  "running_lanes st = set (map task_lane (filter (\<lambda>t. status t = Running) (tasks st)))"

definition running_repo_ids :: "queue_state \<Rightarrow> string set" where
  "running_repo_ids st = set (map repo_id (filter (\<lambda>t. status t = Running) (tasks st)))"

text \<open>The guards of the selection loop, in their order.\<close>

definition may_start :: "queue_state \<Rightarrow> string set \<Rightarrow> devql_task_record \<Rightarrow> bool" where
  "may_start st blocked t =
     (if status t \<noteq> Queued \<or> repo_id t \<in> paused_repo_ids st then False
      else if repo_id t \<in> blocked then False
      else if repo_id t \<in> repo_policy_change_blocked_repo_ids st
              \<and> \<not> (kind t = Sync \<and> source t = RepoPolicyChange) then False
      else if kind t = Ingest \<and> repo_id t \<in> sync_blocked_ingest_repo_ids st then False
      else if kind t = Sync \<and> source t = RepoPolicyChange \<and> repo_id t \<in> running_repo_ids st then False
      else if task_lane t \<in> running_lanes st then False
      else True)"

text \<open>\<open>selected.entry(lane).and_modify(..).or_insert(..)\<close>\<close>

type_synonym selection = "(lane \<times> nat \<times> nat \<times> nat \<times> nat) list"

fun select_lane :: "'l \<Rightarrow> nat \<Rightarrow> 'k::linorder \<Rightarrow> ('l \<times> nat \<times> 'k) list \<Rightarrow> ('l \<times> nat \<times> 'k) list" where
  "select_lane l i key [] = [(l, i, key)]"
| "select_lane l i key ((l', i', key') # sel) =
     (if l = l' then (if key < key' then (l, i, key) else (l', i', key')) # sel
      else (l', i', key') # select_lane l i key sel)"

definition next_runnable_task_indexes_blocking_repo_ids :: "queue_state \<Rightarrow> string set \<Rightarrow> nat list" where
  "next_runnable_task_indexes_blocking_repo_ids st blocked =
     (let selected = foldl (\<lambda>sel (index, t).
            if may_start st blocked t then select_lane (task_lane t) index (pending_sort_key index t) sel
            else sel) [] (enumerate_list (tasks st))
      in map (\<lambda>(_, i, _). i) (sort_key (\<lambda>(_, _, key). key) selected))"

section \<open>Guards for post-commit derivations\<close>

record claim_guards =
  guard_blocked :: "(string \<times> string) set"
  guard_abandoned :: "(string \<times> string) set"

definition guard_step :: "claim_guards \<Rightarrow> devql_task_record \<Rightarrow> claim_guards" where
  "guard_step g t =
     (if kind t = Sync \<and> source t = PostCommit then
        (case Option.bind (sync_spec t) post_commit_snapshot of
           None \<Rightarrow> g
         | Some snapshot \<Rightarrow>
             (let key = (repo_id t, snap_commit_sha snapshot) in
              case status t of
                Queued \<Rightarrow> g\<lparr>guard_blocked := insert key (guard_blocked g)\<rparr>
              | Running \<Rightarrow> g\<lparr>guard_blocked := insert key (guard_blocked g)\<rparr>
              | Failed \<Rightarrow> g\<lparr>guard_abandoned := insert key (guard_abandoned g)\<rparr>
              | Cancelled \<Rightarrow> g\<lparr>guard_abandoned := insert key (guard_abandoned g)\<rparr>
              | Completed \<Rightarrow> g))
      else g)"

definition post_commit_derivation_claim_guards :: "queue_state \<Rightarrow> claim_guards" where
  "post_commit_derivation_claim_guards st =
     foldl guard_step \<lparr>guard_blocked = {}, guard_abandoned = {}\<rparr> (tasks st)"

section \<open>Queue positions\<close>

definition clear_position :: "devql_task_record \<Rightarrow> devql_task_record" where
  "clear_position t = t\<lparr>queue_position := None, tasks_ahead := None\<rparr>"

definition set_position :: "nat \<Rightarrow> devql_task_record \<Rightarrow> devql_task_record" where
  "set_position index t = t\<lparr>queue_position := Some (index + 1), tasks_ahead := Some (index + 1 - 1)\<rparr>"

text \<open>The comparator sorts running tasks first, then by the pending key.\<close>

definition lane_sort_key :: "devql_task_record list \<Rightarrow> nat \<Rightarrow> nat \<times> nat \<times> nat \<times> nat" where
  "lane_sort_key ts i = (if status (ts ! i) = Running then 0 else 1, pending_sort_key i (ts ! i))"

definition lane_order :: "devql_task_record list \<Rightarrow> lane \<Rightarrow> nat list" where
  "lane_order ts l =
     sort_key (lane_sort_key ts)
       (filter (\<lambda>i. repo_id (ts ! i) = fst l \<and> kind (ts ! i) = snd l \<and> active (ts ! i)) [0..<length ts])"

definition number_lane :: "devql_task_record list \<Rightarrow> lane \<Rightarrow> devql_task_record list" where
  "number_lane ts l =
     foldl (\<lambda>ts (index, i). update_at i (set_position index) ts) ts (enumerate_list (lane_order ts l))"

text \<open>The loop over the lanes, in the order \<open>lanes\<close> in which the \<open>HashSet\<close> yields them.\<close>

definition recompute_lanes :: "lane list \<Rightarrow> devql_task_record list \<Rightarrow> devql_task_record list" where
  "recompute_lanes lanes ts = foldl number_lane (map clear_position ts) lanes"

definition active_lanes :: "devql_task_record list \<Rightarrow> lane list" where
  "active_lanes ts = remdups (map task_lane (filter active ts))"

definition recompute_queue_positions :: "devql_task_record list \<Rightarrow> devql_task_record list" where
  "recompute_queue_positions ts = recompute_lanes (active_lanes ts) ts"

section \<open>Pruning\<close>

definition prune_terminal_tasks :: "string set \<Rightarrow> devql_task_record list \<Rightarrow> devql_task_record list" where
  "prune_terminal_tasks protected_ids ts =
     (let candidates = filter (\<lambda>t. terminal t \<and> task_id t \<notin> protected_ids) ts;
          newest_first = sort_key (\<lambda>t. - int (updated_at_unix t)) candidates;
          terminal_ids = set (map task_id (take MAX_TERMINAL_TASKS newest_first))
      in filter (\<lambda>t. \<not> terminal t \<or> task_id t \<in> terminal_ids \<or> task_id t \<in> protected_ids) ts)"

section \<open>Status\<close>

definition count_status :: "devql_task_status \<Rightarrow> devql_task_record list \<Rightarrow> nat" where
  "count_status s ts = length (filter (\<lambda>t. status t = s) ts)"

definition zero_counts :: "devql_task_kind \<Rightarrow> devql_task_kind_counts" where
  "zero_counts k = \<lparr>kc_kind = k, kc_queued_tasks = 0, kc_running_tasks = 0, kc_failed_tasks = 0,
     kc_completed_recent_tasks = 0\<rparr>"

fun count_task :: "devql_task_status \<Rightarrow> devql_task_kind_counts \<Rightarrow> devql_task_kind_counts" where
  "count_task Queued c = c\<lparr>kc_queued_tasks := kc_queued_tasks c + 1\<rparr>"
| "count_task Running c = c\<lparr>kc_running_tasks := kc_running_tasks c + 1\<rparr>"
| "count_task Failed c = c\<lparr>kc_failed_tasks := kc_failed_tasks c + 1\<rparr>"
| "count_task Completed c = c\<lparr>kc_completed_recent_tasks := kc_completed_recent_tasks c + 1\<rparr>"
| "count_task Cancelled c = c"

definition counts_by_kind :: "devql_task_record list \<Rightarrow> devql_task_kind_counts list" where
  "counts_by_kind ts =
     (let zero = (\<lambda>k. zero_counts k);
          counts = foldl (\<lambda>m t. m(kind t := count_task (status t) (m (kind t)))) zero ts
      in sort_key kc_kind (map counts [Sync, Ingest, EmbeddingsBootstrap, SummaryBootstrap]))"

definition select_repo_task :: "devql_task_record list \<Rightarrow> string \<Rightarrow> devql_task_kind \<Rightarrow> devql_task_record option" where
  "select_repo_task ts repo k =
     opt_or (last_max_by updated_at_unix (filter (\<lambda>t. repo_id t = repo \<and> kind t = k \<and> status t = Running) ts))
       (opt_or (first_min_by (\<lambda>t. unwrap_or (queue_position t) (2 ^ 64 - 1))
                  (filter (\<lambda>t. repo_id t = repo \<and> kind t = k \<and> status t = Queued) ts))
         (last_max_by updated_at_unix (filter (\<lambda>t. repo_id t = repo \<and> kind t = k) ts)))"

definition select_repo_tasks :: "devql_task_record list \<Rightarrow> string \<Rightarrow> devql_task_record list" where
  "select_repo_tasks ts repo =
     concat (map (\<lambda>k. case select_repo_task ts repo k of None \<Rightarrow> [] | Some t \<Rightarrow> [t])
       [Sync, Ingest, EmbeddingsBootstrap, SummaryBootstrap])"

definition project_status :: "queue_state \<Rightarrow> string option \<Rightarrow> bool \<Rightarrow> devql_task_queue_status" where
  "project_status st repo persisted =
     \<lparr>st_state = \<lparr>qs_version = version st,
        qs_queued_tasks = count_status Queued (tasks st),
        qs_running_tasks = count_status Running (tasks st),
        qs_failed_tasks = count_status Failed (tasks st),
        qs_completed_recent_tasks = count_status Completed (tasks st),
        qs_by_kind = counts_by_kind (tasks st),
        qs_last_action = last_action st,
        qs_last_updated_unix = updated_at st\<rparr>,
      st_persisted = persisted,
      st_current_repo_tasks = (case repo of None \<Rightarrow> [] | Some r \<Rightarrow> select_repo_tasks (tasks st) r),
      st_current_repo_control = Option.bind repo (bt_get (repo_controls st))\<rparr>"

section \<open>Host sync modes\<close>

datatype host_sync_mode = HostAuto | HostFull | HostPaths "string list" | HostRepair | HostValidate

definition replace_backslash :: "string \<Rightarrow> string" where
  "replace_backslash = map (\<lambda>c. if c = CHR 0x5C then CHR ''/'' else c)"

fun strip_dot_slash :: "string \<Rightarrow> string" where
  "strip_dot_slash (a # b # s) =
     (if a = CHR ''.'' \<and> b = CHR ''/'' then strip_dot_slash s else a # b # s)"
| "strip_dot_slash s = s"

definition normalize_repo_path :: "string \<Rightarrow> string" where
  "normalize_repo_path path =
     dropWhile (\<lambda>c. c = CHR ''/'') (strip_dot_slash (replace_backslash (trim path)))"

definition normalize_paths :: "string list \<Rightarrow> string list" where
  "normalize_paths paths = sort_dedup (filter (\<lambda>p. p \<noteq> []) (map normalize_repo_path paths))"

fun sync_task_mode_from_host :: "host_sync_mode \<Rightarrow> sync_task_mode" where
  "sync_task_mode_from_host HostAuto = Auto"
| "sync_task_mode_from_host HostFull = Full"
| "sync_task_mode_from_host (HostPaths paths) = Paths (normalize_paths paths)"
| "sync_task_mode_from_host HostRepair = Repair"
| "sync_task_mode_from_host HostValidate = Validate"

fun sync_task_mode_to_host :: "sync_task_mode \<Rightarrow> host_sync_mode" where
  "sync_task_mode_to_host Auto = HostAuto"
| "sync_task_mode_to_host Full = HostFull"
| "sync_task_mode_to_host (Paths paths) = HostPaths paths"
| "sync_task_mode_to_host Repair = HostRepair"
| "sync_task_mode_to_host Validate = HostValidate"

section \<open>Progress of a task\<close>

definition sync_progress_from_summary :: "sync_summary \<Rightarrow> sync_progress_update" where
  "sync_progress_from_summary s =
     (let total = ss_paths_unchanged s + ss_paths_added s + ss_paths_changed s + ss_paths_removed s in
      \<lparr>sp_phase = SpComplete, sp_current_path = None, sp_paths_total = total,
       sp_paths_completed = total, sp_paths_remaining = 0, sp_paths_unchanged = ss_paths_unchanged s,
       sp_paths_added = ss_paths_added s, sp_paths_changed = ss_paths_changed s,
       sp_paths_removed = ss_paths_removed s, sp_cache_hits = ss_cache_hits s,
       sp_cache_misses = ss_cache_misses s, sp_parse_errors = ss_parse_errors s\<rparr>)"

definition ingest_progress_from_summary :: "ingestion_counters \<Rightarrow> ingestion_progress_update" where
  "ingest_progress_from_summary s =
     \<lparr>ip_phase = IpComplete, ip_commits_total = ic_commits_processed s,
      ip_commits_processed = ic_commits_processed s, ip_current_checkpoint_id = None,
      ip_current_commit_sha = None, ip_counters = s\<rparr>"

fun default_progress_for_spec :: "devql_task_spec \<Rightarrow> devql_task_progress" where
  "default_progress_for_spec (SyncSpec _) = SyncProgress sync_progress_default"
| "default_progress_for_spec (IngestSpec _) = IngestProgress
     \<lparr>ip_phase = Initializing, ip_commits_total = 0, ip_commits_processed = 0,
      ip_current_checkpoint_id = None, ip_current_commit_sha = None,
      ip_counters = ingestion_counters_default\<rparr>"
| "default_progress_for_spec (EmbeddingsBootstrapSpec _) = EmbeddingsProgress embeddings_progress_default"
| "default_progress_for_spec (SummaryBootstrapSpec _) = SummaryProgress summary_progress_default"

fun failed_progress :: "devql_task_progress \<Rightarrow> devql_task_progress" where
  "failed_progress (SyncProgress p) = SyncProgress (p\<lparr>sp_phase := SpFailed\<rparr>)"
| "failed_progress (IngestProgress p) = IngestProgress (p\<lparr>ip_phase := IpFailed\<rparr>)"
| "failed_progress (EmbeddingsProgress p) = EmbeddingsProgress (p\<lparr>ebp_phase := EbFailed\<rparr>)"
| "failed_progress (SummaryProgress p) = SummaryProgress (p\<lparr>sbp_phase := SbFailed\<rparr>)"

section \<open>Lemmas on the selection\<close>

lemma terminal_not_active: "terminal t \<longleftrightarrow> \<not> active t"
  by (cases "status t") (simp_all add: terminal_def active_def)

lemma set_sort_dedup [simp]: "set (sort_dedup xs) = set xs"
  by (simp add: sort_dedup_def)

lemma strict_sorted_remdups_adj: "sorted xs \<Longrightarrow> sorted_wrt (<) (remdups_adj xs)"
proof (induction xs rule: remdups_adj.induct)
  case (3 x y xs)
  show ?case
  proof (cases "x = y")
    case True
    then show ?thesis using 3 by simp
  next
    case False
    then have "\<forall>z \<in> set (y # xs). x < z" using "3.prems" by auto
    then show ?thesis using 3 False by (simp del: set_simps)
  qed
qed simp_all

lemma sorted_sort_dedup [simp]: "sorted_wrt (<) (sort_dedup xs)"
  by (simp add: sort_dedup_def strict_sorted_remdups_adj)

lemma sort_dedup_bs: "sort_dedup xs = bs_of_list xs"
  using sorted_sort_dedup [of xs] sorted_bs_of_list [of xs]
  by (intro sorted_distinct_set_unique) (auto simp: strict_sorted_iff)


text \<open>What the selection loop has collected: one candidate per lane, the smallest by its key.\<close>

definition candidate :: "(devql_task_record \<Rightarrow> bool) \<Rightarrow> devql_task_record list \<Rightarrow> nat \<Rightarrow> bool" where
  "candidate p ts i \<longleftrightarrow> i < length ts \<and> p (ts ! i)"

definition selection_ok :: "(devql_task_record \<Rightarrow> bool) \<Rightarrow> devql_task_record list \<Rightarrow> selection \<Rightarrow> bool" where
  "selection_ok p ts sel \<longleftrightarrow> distinct (map fst sel) \<and>
     (\<forall>i. candidate p ts i \<longrightarrow> task_lane (ts ! i) \<in> fst ` set sel) \<and>
     (\<forall>l i key. (l, i, key) \<in> set sel \<longrightarrow> candidate p ts i \<and> task_lane (ts ! i) = l \<and>
        key = pending_sort_key i (ts ! i) \<and>
        (\<forall>j. candidate p ts j \<and> task_lane (ts ! j) = l \<longrightarrow> key \<le> pending_sort_key j (ts ! j)))"

lemma select_lane_lanes: "fst ` set (select_lane l i key sel) = insert l (fst ` set sel)"
  by (induction l i key sel rule: select_lane.induct) auto

lemma select_lane_distinct: "distinct (map fst sel) \<Longrightarrow> distinct (map fst (select_lane l i key sel))"
proof (induction l i key sel rule: select_lane.induct)
  case (2 l i key l' i' key' sel)
  then show ?case using select_lane_lanes [of l i key sel] by (auto simp: image_iff)
qed simp

lemma select_lane_in:
  "(l', i', key') \<in> set (select_lane l i key sel) \<Longrightarrow> distinct (map fst sel) \<Longrightarrow>
     (l' = l \<and> i' = i \<and> key' = key \<and> (\<forall>j k. (l, j, k) \<in> set sel \<longrightarrow> key < k)) \<or>
     ((l', i', key') \<in> set sel \<and> (l' = l \<longrightarrow> key' \<le> key))"
proof (induction l i key sel rule: select_lane.induct)
  case (2 l i key l0 i0 key0 sel)
  show ?case
  proof (cases "l = l0")
    case True
    then have fresh: "\<And>j k. (l, j, k) \<notin> set sel" using "2.prems"(2) by force
    have "\<And>j k. (l, j, k) \<in> set ((l0, i0, key0) # sel) \<Longrightarrow> k = key0" using True fresh by auto
    moreover have "(l', i', key') = (if key < key0 then (l, i, key) else (l0, i0, key0)) \<or>
        (l', i', key') \<in> set sel"
      using "2.prems"(1) True by (auto split: if_splits)
    ultimately show ?thesis using True fresh by (auto split: if_splits)
  next
    case False
    then consider "(l', i', key') = (l0, i0, key0)" | "(l', i', key') \<in> set (select_lane l i key sel)"
      using "2.prems"(1) by auto
    then show ?thesis using "2.IH" [OF False] "2.prems"(2) False by cases auto
  qed
qed simp

lemma selection_ok_snoc:
  assumes "selection_ok p ts sel"
  shows "selection_ok p (ts @ [t])
    (if p t then select_lane (task_lane t) (length ts) (pending_sort_key (length ts) t) sel else sel)"
proof -
  have cand: "candidate p (ts @ [t]) i \<longleftrightarrow> candidate p ts i \<or> (i = length ts \<and> p t)" for i
    by (auto simp: candidate_def nth_append less_Suc_eq)
  have nth: "candidate p ts i \<Longrightarrow> (ts @ [t]) ! i = ts ! i" for i
    by (simp add: candidate_def nth_append)
  have last: "\<not> candidate p ts (length ts)" by (simp add: candidate_def)
  note ok = assms [unfolded selection_ok_def]
  show ?thesis
  proof (cases "p t")
    case False
    then show ?thesis using assms by (auto simp: selection_ok_def cand nth)
  next
    case True
    let ?l = "task_lane t" and ?key = "pending_sort_key (length ts) t"
    let ?sel = "select_lane ?l (length ts) ?key sel"
    have "distinct (map fst ?sel)" using ok by (simp add: select_lane_distinct)
    moreover have "task_lane ((ts @ [t]) ! i) \<in> fst ` set ?sel" if "candidate p (ts @ [t]) i" for i
      using that ok by (auto simp: cand nth select_lane_lanes)
    moreover have "candidate p (ts @ [t]) i \<and> task_lane ((ts @ [t]) ! i) = l \<and>
        key = pending_sort_key i ((ts @ [t]) ! i) \<and>
        (\<forall>j. candidate p (ts @ [t]) j \<and> task_lane ((ts @ [t]) ! j) = l \<longrightarrow>
           key \<le> pending_sort_key j ((ts @ [t]) ! j))"
      if e: "(l, i, key) \<in> set ?sel" for l i key
    proof -
      have "distinct (map fst sel)" using ok by blast
      note select_lane_in [OF e this]
      then show ?thesis
      proof (elim disjE conjE)
      assume new: "l = ?l" "i = length ts" "key = ?key" and
        less: "\<forall>j k. (?l, j, k) \<in> set sel \<longrightarrow> ?key < k"
      have "key \<le> pending_sort_key j (ts ! j)" if j: "candidate p ts j" "task_lane (ts ! j) = l" for j
      proof -
        have "task_lane (ts ! j) \<in> fst ` set sel" using ok j(1) by blast
        then obtain e' where e': "e' \<in> set sel" "fst e' = l" using j(2) by auto
        define i0 k0 where "i0 = fst (snd e')" and "k0 = snd (snd e')"
        have "e' = (l, i0, k0)" using e'(2) by (simp add: prod_eq_iff i0_def k0_def)
        then have mem: "(l, i0, k0) \<in> set sel" using e'(1) by simp
        then have "?key < k0" using less new(1) by blast
        moreover have "k0 \<le> pending_sort_key j (ts ! j)"
          using ok [THEN conjunct2, THEN conjunct2, rule_format, OF mem] j by blast
        ultimately have "?key < k0" "k0 \<le> pending_sort_key j (ts ! j)" .
        then show ?thesis using new by simp
      qed
      then show ?thesis using new True by (auto simp: cand nth)
    next
      assume old: "(l, i, key) \<in> set sel" and le: "l = ?l \<longrightarrow> key \<le> ?key"
      then have i: "candidate p ts i" "task_lane (ts ! i) = l" "key = pending_sort_key i (ts ! i)"
        "\<forall>j. candidate p ts j \<and> task_lane (ts ! j) = l \<longrightarrow> key \<le> pending_sort_key j (ts ! j)"
        using ok by blast+
      show ?thesis using i le True by (auto simp: cand nth)
      qed
    qed
    ultimately show ?thesis using True by (auto simp: selection_ok_def)
  qed
qed

lemma selection_ok_fold:
  "selection_ok p ts (foldl (\<lambda>sel (index, t).
     if p t then select_lane (task_lane t) index (pending_sort_key index t) sel else sel) []
     (enumerate_list ts))"
proof (induction ts rule: rev_induct)
  case Nil
  show ?case by (simp add: selection_ok_def candidate_def enumerate_list_def)
next
  case (snoc t ts)
  show ?case using selection_ok_snoc [OF snoc.IH] by (simp add: enumerate_snoc)
qed

text \<open>The scheduler's choice: startable tasks, one per lane, each the first of its lane, in the order of
  their keys; a lane with a startable task is never left out.\<close>

lemma next_runnable_spec:
  fixes st blocked
  defines "idx \<equiv> next_runnable_task_indexes_blocking_repo_ids st blocked"
  shows "i \<in> set idx \<Longrightarrow> i < length (tasks st) \<and> may_start st blocked (tasks st ! i)"
    and "i \<in> set idx \<Longrightarrow> j < length (tasks st) \<Longrightarrow> may_start st blocked (tasks st ! j) \<Longrightarrow>
      task_lane (tasks st ! j) = task_lane (tasks st ! i) \<Longrightarrow>
      pending_sort_key i (tasks st ! i) \<le> pending_sort_key j (tasks st ! j)"
    and "j < length (tasks st) \<Longrightarrow> may_start st blocked (tasks st ! j) \<Longrightarrow>
      \<exists>i \<in> set idx. task_lane (tasks st ! i) = task_lane (tasks st ! j)"
    and "distinct (map (\<lambda>i. task_lane (tasks st ! i)) idx)"
    and "sorted (map (\<lambda>i. pending_sort_key i (tasks st ! i)) idx)"
proof -
  let ?ts = "tasks st" and ?p = "may_start st blocked"
  define sel where "sel = foldl (\<lambda>sel (index, t).
     if ?p t then select_lane (task_lane t) index (pending_sort_key index t) sel else sel) [] (enumerate_list ?ts)"
  have ok: "selection_ok ?p ?ts sel" unfolding sel_def by (rule selection_ok_fold)
  define sorted_sel where "sorted_sel = sort_key (\<lambda>(_, _, key). key) sel"
  have idx: "idx = map (\<lambda>(_, i, _). i) sorted_sel"
    by (simp add: idx_def next_runnable_task_indexes_blocking_repo_ids_def sel_def sorted_sel_def)
  have set_is: "i \<in> set idx \<longleftrightarrow> (\<exists>l key. (l, i, key) \<in> set sel)" for i
    by (force simp: idx sorted_sel_def)
  have entry: "candidate ?p ?ts i \<and> task_lane (?ts ! i) = l \<and> key = pending_sort_key i (?ts ! i) \<and>
      (\<forall>j. candidate ?p ?ts j \<and> task_lane (?ts ! j) = l \<longrightarrow> key \<le> pending_sort_key j (?ts ! j))"
    if "(l, i, key) \<in> set sel" for l i key
    using ok that unfolding selection_ok_def by blast
  show "i < length ?ts \<and> ?p (?ts ! i)" if "i \<in> set idx"
    using that entry by (auto simp: set_is candidate_def)
  show "pending_sort_key i (?ts ! i) \<le> pending_sort_key j (?ts ! j)"
    if "i \<in> set idx" "j < length ?ts" "?p (?ts ! j)" "task_lane (?ts ! j) = task_lane (?ts ! i)"
    using that entry unfolding set_is candidate_def by blast
  show "\<exists>i \<in> set idx. task_lane (?ts ! i) = task_lane (?ts ! j)" if "j < length ?ts" "?p (?ts ! j)"
  proof -
    have "task_lane (?ts ! j) \<in> fst ` set sel"
      using ok that by (simp add: selection_ok_def candidate_def)
    then obtain i key where "(task_lane (?ts ! j), i, key) \<in> set sel" by force
    then show ?thesis using entry set_is by blast
  qed
  have lanes: "map (\<lambda>i. task_lane (?ts ! i)) idx = map fst sorted_sel"
    unfolding idx by (auto simp: sorted_sel_def dest: entry)
  have "mset (map fst sorted_sel) = mset (map fst sel)" by (simp add: sorted_sel_def)
  then have "distinct (map fst sorted_sel)"
    using ok by (metis selection_ok_def mset_eq_imp_distinct_iff)
  then show "distinct (map (\<lambda>i. task_lane (?ts ! i)) idx)" by (simp add: lanes)
  have "map (\<lambda>i. pending_sort_key i (?ts ! i)) idx = map (\<lambda>(_, _, key). key) sorted_sel"
    unfolding idx by (auto simp: sorted_sel_def dest: entry)
  then show "sorted (map (\<lambda>i. pending_sort_key i (?ts ! i)) idx)"
    by (simp add: sorted_sel_def)
qed

section \<open>Lemmas on queue positions\<close>

lemma clear_position_simps [simp]:
  "clear_position (clear_position t) = clear_position t"
  "clear_position (set_position k t) = clear_position t"
  "status (clear_position t) = status t" "repo_id (clear_position t) = repo_id t"
  "kind (clear_position t) = kind t" "active (clear_position t) = active t"
  "task_lane (clear_position t) = task_lane t" "task_id (clear_position t) = task_id t"
  "pending_sort_key i (clear_position t) = pending_sort_key i t"
  by (simp_all add: clear_position_def set_position_def active_def task_lane_def pending_sort_key_def
      is_git_hook_sync_task_def sync_spec_def)

lemma position_eqI:
  assumes "clear_position t = clear_position u" "queue_position t = queue_position u"
    "tasks_ahead t = tasks_ahead u"
  shows "t = u"
  using assms by (cases t; cases u) (simp add: clear_position_def)

lemma lane_order_cong:
  assumes "map clear_position ts = map clear_position us"
  shows "lane_order ts l = lane_order us l"
proof -
  have len: "length ts = length us" using assms by (metis length_map)
  have clear: "clear_position (ts ! i) = clear_position (us ! i)" if "i < length ts" for i
    using that assms len by (metis nth_map)
  have same: "repo_id (ts ! i) = repo_id (us ! i)" "kind (ts ! i) = kind (us ! i)"
    "active (ts ! i) = active (us ! i)" "lane_sort_key ts i = lane_sort_key us i" if "i < length ts" for i
  proof -
    note c = clear [OF that]
    show "repo_id (ts ! i) = repo_id (us ! i)" using arg_cong [OF c, of repo_id] by simp
    show "kind (ts ! i) = kind (us ! i)" using arg_cong [OF c, of kind] by simp
    show "active (ts ! i) = active (us ! i)" using arg_cong [OF c, of active] by simp
    have "status (ts ! i) = status (us ! i)" using arg_cong [OF c, of status] by simp
    moreover have "pending_sort_key i (ts ! i) = pending_sort_key i (us ! i)"
      using arg_cong [OF c, of "pending_sort_key i"] by simp
    ultimately show "lane_sort_key ts i = lane_sort_key us i" by (simp add: lane_sort_key_def)
  qed
  define ids where "ids = filter (\<lambda>i. repo_id (us ! i) = fst l \<and> kind (us ! i) = snd l \<and> active (us ! i))
      [0..<length us]"
  have "filter (\<lambda>i. repo_id (ts ! i) = fst l \<and> kind (ts ! i) = snd l \<and> active (ts ! i)) [0..<length ts] = ids"
    unfolding ids_def using same len by (intro filter_cong) auto
  moreover have "sort_key (lane_sort_key ts) ids = sort_key (lane_sort_key us) ids"
    using same len by (intro sort_key_agree) (simp add: ids_def)
  ultimately show ?thesis unfolding lane_order_def ids_def [symmetric] by simp
qed

lemma lane_order_set:
  "i \<in> set (lane_order ts l) \<longleftrightarrow> i < length ts \<and> task_lane (ts ! i) = l \<and> active (ts ! i)"
  by (cases l) (auto simp: lane_order_def task_lane_def)

lemma lane_order_distinct: "distinct (lane_order ts l)"
  by (simp add: lane_order_def)

lemma number_lane_spec:
  "length (number_lane ts l) = length ts \<and>
   (\<forall>k < length (lane_order ts l). number_lane ts l ! (lane_order ts l ! k) =
      set_position k (ts ! (lane_order ts l ! k))) \<and>
   (\<forall>j. j \<notin> set (lane_order ts l) \<longrightarrow> number_lane ts l ! j = ts ! j)"
  using update_rows [OF lane_order_distinct [of ts l], of ts set_position]
  by (simp add: number_lane_def Let_def lane_order_set)

lemma number_lane_clear: "map clear_position (number_lane ts l) = map clear_position ts"
proof (rule nth_equalityI)
  fix i assume "i < length (map clear_position (number_lane ts l))"
  then have i: "i < length ts" using number_lane_spec [of ts l] by simp
  show "map clear_position (number_lane ts l) ! i = map clear_position ts ! i"
  proof (cases "i \<in> set (lane_order ts l)")
    case True
    then obtain k where "k < length (lane_order ts l)" "lane_order ts l ! k = i" by (auto simp: in_set_conv_nth)
    then show ?thesis using i number_lane_spec [of ts l] by auto
  next
    case False
    then show ?thesis using i number_lane_spec [of ts l] by simp
  qed
qed (use number_lane_spec [of ts l] in simp)

text \<open>After the loop over \<open>lanes\<close>: each of these lanes is numbered from 1 in its order, everything else
  has no position, and nothing but the positions has changed.\<close>

definition numbered :: "lane set \<Rightarrow> devql_task_record list \<Rightarrow> devql_task_record list \<Rightarrow> bool" where
  "numbered L ts us \<longleftrightarrow> map clear_position us = map clear_position ts \<and>
     (\<forall>l \<in> L. \<forall>k < length (lane_order ts l).
        us ! (lane_order ts l ! k) = set_position k (clear_position (ts ! (lane_order ts l ! k)))) \<and>
     (\<forall>i < length ts. \<not> active (ts ! i) \<or> task_lane (ts ! i) \<notin> L \<longrightarrow> us ! i = clear_position (ts ! i))"

lemma set_position_clear: "set_position k (clear_position t) = set_position k t"
  by (simp add: set_position_def clear_position_def)

lemma numbered_step:
  assumes "numbered L ts us" "l \<notin> L"
  shows "numbered (insert l L) ts (number_lane us l)"
proof -
  have clear: "map clear_position us = map clear_position ts" using assms(1) by (simp add: numbered_def)
  then have len: "length us = length ts" by (metis length_map)
  have order: "lane_order us l' = lane_order ts l'" for l' by (rule lane_order_cong [OF clear])
  have cl: "i < length ts \<Longrightarrow> clear_position (us ! i) = clear_position (ts ! i)" for i
    using clear len by (metis nth_map)
  note n = number_lane_spec [of us l, unfolded order]
  have new: "number_lane us l ! (lane_order ts l ! k) = set_position k (clear_position (ts ! (lane_order ts l ! k)))"
    if "k < length (lane_order ts l)" for k
  proof -
    have "lane_order ts l ! k < length ts" using that lane_order_set nth_mem by metis
    then show ?thesis using n that cl set_position_clear by metis
  qed
  have old: "number_lane us l ! i = us ! i" if "i < length ts" "task_lane (ts ! i) \<noteq> l \<or> \<not> active (ts ! i)" for i
    using n that lane_order_set [of i ts l] by blast
  have kept: "number_lane us l ! (lane_order ts l' ! k) = us ! (lane_order ts l' ! k)"
    if "l' \<in> L" "k < length (lane_order ts l')" for l' k
    using that assms(2) old lane_order_set [of "lane_order ts l' ! k" ts l'] nth_mem by metis
  show ?thesis
    unfolding numbered_def
  proof (intro conjI ballI allI impI)
    show "map clear_position (number_lane us l) = map clear_position ts"
      using number_lane_clear [of us l] clear by simp
  next
    fix l' k assume "l' \<in> insert l L" "k < length (lane_order ts l')"
    then show "number_lane us l ! (lane_order ts l' ! k) =
        set_position k (clear_position (ts ! (lane_order ts l' ! k)))"
      using new kept assms(1) unfolding numbered_def by (cases "l' = l") auto
  next
    fix i assume i: "i < length ts" "\<not> active (ts ! i) \<or> task_lane (ts ! i) \<notin> insert l L"
    then have "number_lane us l ! i = us ! i" using old by blast
    then show "number_lane us l ! i = clear_position (ts ! i)"
      using assms(1) i unfolding numbered_def by auto
  qed
qed

lemma recompute_lanes_numbered:
  "distinct lanes \<Longrightarrow> numbered (set lanes) ts (recompute_lanes lanes ts)"
proof (induction lanes rule: rev_induct)
  case Nil
  show ?case by (auto simp: numbered_def recompute_lanes_def comp_def)
next
  case (snoc l lanes)
  then have "numbered (set lanes) ts (recompute_lanes lanes ts)" "l \<notin> set lanes" by auto
  from numbered_step [OF this] show ?case by (simp add: recompute_lanes_def)
qed

lemma numbered_unique:
  assumes "numbered L ts us" "numbered L ts vs"
  shows "us = vs"
proof (rule nth_equalityI)
  have "map clear_position us = map clear_position vs" using assms by (simp add: numbered_def)
  then show "length us = length vs" by (metis length_map)
  fix i assume "i < length us"
  moreover have "length us = length ts" using assms(1) unfolding numbered_def by (metis length_map)
  ultimately have i: "i < length ts" by simp
  show "us ! i = vs ! i"
  proof (cases "active (ts ! i) \<and> task_lane (ts ! i) \<in> L")
    case True
    then have "i \<in> set (lane_order ts (task_lane (ts ! i)))" using i by (simp add: lane_order_set)
    then obtain k where "k < length (lane_order ts (task_lane (ts ! i)))"
      "lane_order ts (task_lane (ts ! i)) ! k = i" by (auto simp: in_set_conv_nth)
    then show ?thesis using assms True unfolding numbered_def by metis
  next
    case False
    then show ?thesis using assms i unfolding numbered_def by metis
  qed
qed

lemma set_active_lanes: "set (active_lanes ts) = task_lane ` {t \<in> set ts. active t}"
  by (simp add: active_lanes_def)

lemma recompute_numbered: "numbered (set (active_lanes ts)) ts (recompute_queue_positions ts)"
  unfolding recompute_queue_positions_def by (rule recompute_lanes_numbered) (simp add: active_lanes_def)

lemma recompute_clear [simp]: "map clear_position (recompute_queue_positions ts) = map clear_position ts"
  using recompute_numbered [of ts] by (simp add: numbered_def)

end
