(* ===== verification/TaskCoordinator.thy ===== *)
theory TaskCoordinator
  imports TaskQueue
begin

text \<open>
  The coordinator of the task queue, \<open>daemon/tasks/coordinator.rs\<close> and \<open>coordinator/state.rs\<close>:
  every operation runs on the persisted state inside one transaction, \<open>mutate_state\<close>, which on
  success stamps the state, recomputes the queue positions and prunes finished tasks. The clock
  \<open>now\<close>, the fresh identifier of an enqueued task and the exclusion matcher of the repository
  policy are arguments. The lock and the database are one atomic step of the model.
\<close>

section \<open>The transaction\<close>

definition save_state :: "nat \<Rightarrow> string set \<Rightarrow> queue_state \<Rightarrow> queue_state" where
  "save_state now protected_ids st =
     st\<lparr>version := 1, updated_at := now,
        tasks := prune_terminal_tasks protected_ids (recompute_queue_positions (tasks st))\<rparr>"

definition mutate_state :: "nat \<Rightarrow> string set \<Rightarrow> (queue_state \<Rightarrow> (string, queue_state \<times> 'a) result)
    \<Rightarrow> queue_state \<Rightarrow> (string, queue_state \<times> 'a \<times> devql_task_record list) result" where
  "mutate_state now protected_ids mutate st =
     and_then (mutate st) (\<lambda>(st', x).
       let st'' = save_state now protected_ids st'
       in Inr (st'', x, changed_tasks (tasks st) (tasks st'')))"

text \<open>The task identifiers of the init sessions that have not ended.\<close>

record init_session =
  is_terminal :: bool
  is_initial_sync_task_id :: "string option"
  is_ingest_task_id :: "string option"
  is_embeddings_bootstrap_task_id :: "string option"
  is_summary_bootstrap_task_id :: "string option"
  is_follow_up_sync_task_id :: "string option"

definition active_init_session_task_ids :: "init_session list \<Rightarrow> string set" where
  "active_init_session_task_ids sessions =
     set (concat (map (\<lambda>s. concat (map (\<lambda>i. case i of None \<Rightarrow> [] | Some x \<Rightarrow> [x])
       [is_initial_sync_task_id s, is_ingest_task_id s, is_embeddings_bootstrap_task_id s,
        is_summary_bootstrap_task_id s, is_follow_up_sync_task_id s]))
       (filter (\<lambda>s. \<not> is_terminal s) sessions)))"

section \<open>Enqueueing\<close>

fun task_kind_from_spec :: "devql_task_spec \<Rightarrow> devql_task_kind" where
  "task_kind_from_spec (SyncSpec _) = Sync"
| "task_kind_from_spec (IngestSpec _) = Ingest"
| "task_kind_from_spec (EmbeddingsBootstrapSpec _) = EmbeddingsBootstrap"
| "task_kind_from_spec (SummaryBootstrapSpec _) = SummaryBootstrap"

record enqueue_result =
  er_task :: devql_task_record
  er_merged :: bool

definition new_task :: "nat \<Rightarrow> string \<Rightarrow> devql_config \<Rightarrow> devql_task_source \<Rightarrow> devql_task_spec
    \<Rightarrow> string option \<Rightarrow> devql_task_record" where
  "new_task now uuid cfg src sp init =
     \<lparr>task_id = kind_display (task_kind_from_spec sp) @ ''-task-'' @ uuid,
      repo_id = cfg_repo_id cfg, repo_name = cfg_name cfg, repo_provider = cfg_provider cfg,
      repo_organisation = cfg_organization cfg, repo_identity = cfg_identity cfg,
      daemon_config_root = cfg_config_root cfg, repo_root = cfg_repo_root cfg,
      init_session_id = init, kind = task_kind_from_spec sp, source = src, spec = sp,
      status = Queued, submitted_at_unix = now, started_at_unix = None, updated_at_unix = now,
      completed_at_unix = None, queue_position = None, tasks_ahead = None,
      progress = default_progress_for_spec sp, task_error = None, task_result = None\<rparr>"

definition enqueue_body :: "nat \<Rightarrow> string \<Rightarrow> devql_config \<Rightarrow> devql_task_source \<Rightarrow> devql_task_spec
    \<Rightarrow> string option \<Rightarrow> queue_state \<Rightarrow> (string, queue_state \<times> enqueue_result) result" where
  "enqueue_body now uuid cfg src sp init st =
     (case merge_existing_task now st cfg src (task_kind_from_spec sp) sp init of
        Some (st', t) \<Rightarrow> Inr (st', \<lparr>er_task = t, er_merged = True\<rparr>)
      | None \<Rightarrow>
          let t = new_task now uuid cfg src sp init
          in Inr (st\<lparr>tasks := tasks st @ [t], last_action := Some ''enqueue''\<rparr>,
                  \<lparr>er_task = t, er_merged = False\<rparr>))"

definition enqueue_with_init_session where
  "enqueue_with_init_session now protected_ids uuid cfg src sp init =
     mutate_state now protected_ids (enqueue_body now uuid cfg src sp init)"

definition enqueue where
  "enqueue now protected_ids uuid cfg src sp = enqueue_with_init_session now protected_ids uuid cfg src sp None"

section \<open>Reading\<close>

definition find_task :: "string \<Rightarrow> queue_state \<Rightarrow> devql_task_record option" where
  "find_task tid st = find (\<lambda>t. task_id t = tid) (tasks st)"

definition list_tasks :: "string option \<Rightarrow> devql_task_kind option \<Rightarrow> devql_task_status option \<Rightarrow> nat option
    \<Rightarrow> queue_state \<Rightarrow> devql_task_record list" where
  "list_tasks repo k s limit st =
     (let ts = filter (\<lambda>t. case repo of None \<Rightarrow> True | Some r \<Rightarrow> repo_id t = r) (tasks st);
          ts = filter (\<lambda>t. case k of None \<Rightarrow> True | Some k \<Rightarrow> kind t = k) ts;
          ts = filter (\<lambda>t. case s of None \<Rightarrow> True | Some s \<Rightarrow> status t = s) ts;
          ts = sort_key (\<lambda>t. (- int (updated_at_unix t), task_id t)) ts
      in case limit of None \<Rightarrow> ts | Some n \<Rightarrow> take n ts)"

definition has_blocking_scope_exclusion_reconcile :: "string \<Rightarrow> queue_state \<Rightarrow> bool" where
  "has_blocking_scope_exclusion_reconcile repo st =
     list_ex (\<lambda>t. repo_id t = repo \<and> kind t = Sync \<and> source t = RepoPolicyChange \<and> active t) (tasks st)"

section \<open>Pausing\<close>

definition new_control :: "string \<Rightarrow> repo_task_control_state" where
  "new_control repo = \<lparr>ctl_repo_id = repo, ctl_paused = False, ctl_paused_reason = None, ctl_updated_at_unix = 0\<rparr>"

definition pause_repo_body :: "nat \<Rightarrow> string \<Rightarrow> string option \<Rightarrow> queue_state
    \<Rightarrow> (string, queue_state \<times> devql_task_control_result) result" where
  "pause_repo_body now repo reason st =
     (let control = unwrap_or (bt_get (repo_controls st) repo) (new_control repo);
          control = control\<lparr>ctl_paused := True, ctl_paused_reason := reason, ctl_updated_at_unix := now\<rparr>
      in Inr (st\<lparr>repo_controls := bt_insert repo control (repo_controls st), last_action := Some ''paused''\<rparr>,
              \<lparr>cr_message = ''paused DevQL task queue for '' @ repo, cr_control = control\<rparr>))"

definition resume_repo_body :: "nat \<Rightarrow> string \<Rightarrow> queue_state
    \<Rightarrow> (string, queue_state \<times> devql_task_control_result) result" where
  "resume_repo_body now repo st =
     (let control = unwrap_or (bt_get (repo_controls st) repo) (new_control repo);
          control = control\<lparr>ctl_paused := False, ctl_paused_reason := None, ctl_updated_at_unix := now\<rparr>
      in Inr (st\<lparr>repo_controls := bt_insert repo control (repo_controls st), last_action := Some ''resumed''\<rparr>,
              \<lparr>cr_message = ''resumed DevQL task queue for '' @ repo, cr_control = control\<rparr>))"

section \<open>Updating one task\<close>

text \<open>\<open>state.tasks.iter_mut().find(|task| task.task_id == id)\<close>\<close>

definition task_index :: "string \<Rightarrow> queue_state \<Rightarrow> nat option" where
  "task_index tid st = find_index (\<lambda>t. task_id t = tid) (tasks st)"

definition with_task :: "string \<Rightarrow> (devql_task_record \<Rightarrow> devql_task_record) \<Rightarrow> string \<Rightarrow> queue_state
    \<Rightarrow> (string, queue_state \<times> unit) result" where
  "with_task tid f action st =
     (case task_index tid st of
        None \<Rightarrow> Inr (st, ())
      | Some i \<Rightarrow> Inr (st\<lparr>tasks := (tasks st)[i := f (tasks st ! i)], last_action := Some action\<rparr>, ()))"

definition cancel_task_body :: "nat \<Rightarrow> string \<Rightarrow> queue_state \<Rightarrow> (string, queue_state \<times> devql_task_record) result" where
  "cancel_task_body now tid st =
     (case task_index tid st of
        None \<Rightarrow> Inl (''unknown task `'' @ tid @ ''`'')
      | Some i \<Rightarrow>
          let t = tasks st ! i in
          (case status t of
             Queued \<Rightarrow>
               let t' = t\<lparr>status := Cancelled, updated_at_unix := now, completed_at_unix := Some now,
                          task_error := None, task_result := None\<rparr>
               in Inr (st\<lparr>tasks := (tasks st)[i := t'], last_action := Some ''cancelled''\<rparr>, t')
           | Running \<Rightarrow> Inl (''task `'' @ tid @ ''` is already running and cannot be cancelled'')
           | _ \<Rightarrow> Inl (''task `'' @ tid @ ''` is not queued and cannot be cancelled'')))"

definition set_sync_mode :: "sync_task_mode \<Rightarrow> devql_task_record \<Rightarrow> devql_task_record" where
  "set_sync_mode mode t = (case spec t of SyncSpec s \<Rightarrow> t\<lparr>spec := SyncSpec (s\<lparr>sync_mode := mode\<rparr>)\<rparr> | _ \<Rightarrow> t)"

definition update_sync_mode_body :: "nat \<Rightarrow> string \<Rightarrow> sync_task_mode \<Rightarrow> queue_state
    \<Rightarrow> (string, queue_state \<times> unit) result" where
  "update_sync_mode_body now tid mode =
     with_task tid (\<lambda>t. (set_sync_mode mode t)\<lparr>updated_at_unix := now\<rparr>) ''mode_updated''"

definition reset_task :: "nat \<Rightarrow> devql_task_record \<Rightarrow> devql_task_record" where
  "reset_task now t = t\<lparr>status := Queued, progress := default_progress_for_spec (spec t),
     task_error := None, task_result := None, started_at_unix := None, completed_at_unix := None,
     updated_at_unix := now\<rparr>"

definition recover_running_tasks_body :: "nat \<Rightarrow> queue_state \<Rightarrow> (string, queue_state \<times> unit) result" where
  "recover_running_tasks_body now st =
     Inr (st\<lparr>tasks := map (\<lambda>t. if status t = Running then reset_task now t else t) (tasks st),
             last_action := Some ''recovered_running_tasks''\<rparr>, ())"

definition ingest_phase_display :: "ingestion_progress_phase \<Rightarrow> string" where
  "ingest_phase_display p = (case p of Initializing \<Rightarrow> ''initializing'' | Extracting \<Rightarrow> ''extracting''
     | Persisting \<Rightarrow> ''persisting'' | IpComplete \<Rightarrow> ''complete'' | IpFailed \<Rightarrow> ''failed'')"

fun progress_action :: "devql_task_progress \<Rightarrow> string" where
  "progress_action (SyncProgress p) = sync_phase_as_str (sp_phase p)"
| "progress_action (IngestProgress p) = ingest_phase_display (ip_phase p)"
| "progress_action (EmbeddingsProgress p) = embeddings_phase_as_str (ebp_phase p)"
| "progress_action (SummaryProgress p) = summary_phase_display (sbp_phase p)"

definition update_task_progress_body :: "nat \<Rightarrow> string \<Rightarrow> devql_task_progress \<Rightarrow> queue_state
    \<Rightarrow> (string, queue_state \<times> unit) result" where
  "update_task_progress_body now tid update =
     with_task tid (\<lambda>t. t\<lparr>progress := update, updated_at_unix := now\<rparr>) (progress_action update)"

section \<open>Finishing a task\<close>

definition complete_task :: "nat \<Rightarrow> devql_task_result \<Rightarrow> devql_task_progress \<Rightarrow> devql_task_record \<Rightarrow> devql_task_record" where
  "complete_task now r p t = t\<lparr>status := Completed, updated_at_unix := now, completed_at_unix := Some now,
     task_error := None, task_result := Some r, progress := p\<rparr>"

definition finish_sync_task_completed_body where
  "finish_sync_task_completed_body now tid summary =
     with_task tid (complete_task now (SyncResult summary) (SyncProgress (sync_progress_from_summary summary))) ''completed''"

definition finish_ingest_task_completed_body where
  "finish_ingest_task_completed_body now tid summary =
     with_task tid (complete_task now (IngestResult summary) (IngestProgress (ingest_progress_from_summary summary))) ''completed''"

definition finish_embeddings_bootstrap_task_completed_body where
  "finish_embeddings_bootstrap_task_completed_body now tid r =
     with_task tid (complete_task now (EmbeddingsResult r)
       (EmbeddingsProgress \<lparr>ebp_phase = EbComplete, ebp_asset_name = None, ebp_bytes_downloaded = 0,
          ebp_bytes_total = None, ebp_version = ebr_version r, ebp_message = Some (ebr_message r)\<rparr>)) ''completed''"

definition finish_summary_bootstrap_task_completed_body where
  "finish_summary_bootstrap_task_completed_body now tid r =
     with_task tid (complete_task now (SummaryResult r)
       (SummaryProgress \<lparr>sbp_phase = SbComplete, sbp_asset_name = None, sbp_bytes_downloaded = 0,
          sbp_bytes_total = None, sbp_version = None, sbp_message = Some (sbres_message r)\<rparr>)) ''completed''"

definition is_cancelled_join_error :: "string \<Rightarrow> bool" where
  "is_cancelled_join_error err =
     (let lower = to_ascii_lowercase err in
      contains_str ''joining '' lower \<and> contains_str '' task: task '' lower \<and>
      (contains_str '' was cancelled'' lower \<or> contains_str '' was canceled'' lower))"

definition fail_task :: "nat \<Rightarrow> string \<Rightarrow> devql_task_record \<Rightarrow> devql_task_record" where
  "fail_task now err t = t\<lparr>status := Failed, updated_at_unix := now, completed_at_unix := Some now,
     task_error := Some err, task_result := None, progress := failed_progress (progress t)\<rparr>"

definition requeue_task_after_cancelled_join_body where
  "requeue_task_after_cancelled_join_body now tid = with_task tid (reset_task now) ''requeued''"

definition finish_task_failed_body :: "nat \<Rightarrow> string \<Rightarrow> string \<Rightarrow> queue_state \<Rightarrow> (string, queue_state \<times> unit) result" where
  "finish_task_failed_body now tid err =
     (if is_cancelled_join_error err then requeue_task_after_cancelled_join_body now tid
      else with_task tid (fail_task now err) ''failed'')"

section \<open>Pruning excluded paths\<close>

text \<open>One queued task of the repository: whether it changed, and the task.\<close>

definition prune_task :: "nat \<Rightarrow> (string \<Rightarrow> bool) \<Rightarrow> string \<Rightarrow> devql_task_record \<Rightarrow> bool \<times> devql_task_record" where
  "prune_task now excludes repo t =
     (if repo_id t = repo \<and> status t = Queued then
        (case spec t of
           SyncSpec s \<Rightarrow>
             (case sync_mode s of
                Paths paths \<Rightarrow>
                  (let kept = sort_dedup (filter (\<lambda>p. \<not> excludes p) paths);
                       t = t\<lparr>spec := SyncSpec (s\<lparr>sync_mode := Paths kept\<rparr>)\<rparr>
                   in if kept = [] then
                        (True, t\<lparr>status := Cancelled, updated_at_unix := now, completed_at_unix := Some now,
                           task_error := Some ''task only targeted paths now excluded by repo policy'',
                           task_result := None\<rparr>)
                      else if length kept \<noteq> length paths then
                        (True, t\<lparr>updated_at_unix := now, task_error := None\<rparr>)
                      else (False, t))
              | _ \<Rightarrow> (False, t))
         | _ \<Rightarrow> (False, t))
      else (False, t))"

definition prune_excluded_body :: "nat \<Rightarrow> (string \<Rightarrow> bool) \<Rightarrow> string \<Rightarrow> queue_state
    \<Rightarrow> (string, queue_state \<times> unit) result" where
  "prune_excluded_body now excludes repo st =
     (let pruned = map (prune_task now excludes repo) (tasks st);
          st = st\<lparr>tasks := map snd pruned\<rparr>
      in Inr (if list_ex fst pruned then st\<lparr>last_action := Some ''prune_excluded_paths''\<rparr> else st, ()))"

section \<open>Starting tasks (worker/activation.rs)\<close>

definition start_task :: "nat \<Rightarrow> devql_task_record \<Rightarrow> devql_task_record" where
  "start_task now t = t\<lparr>status := Running, started_at_unix := Some (unwrap_or (started_at_unix t) now),
     updated_at_unix := now, task_error := None, completed_at_unix := None, task_result := None\<rparr>"

definition schedule_body :: "nat \<Rightarrow> string set \<Rightarrow> queue_state
    \<Rightarrow> (string, queue_state \<times> devql_task_record list) result" where
  "schedule_body now spool_running st =
     (let indexes = next_runnable_task_indexes_blocking_repo_ids st spool_running in
      if indexes = [] then Inr (st, [])
      else
        let (ts, scheduled) = foldl (\<lambda>(ts, scheduled) i.
              let t = start_task now (ts ! i) in (ts[i := t], scheduled @ [t])) (tasks st, []) indexes
        in Inr (st\<lparr>tasks := ts, last_action := Some ''running''\<rparr>, scheduled))"

section \<open>The invariant of the queue\<close>

definition policy_sync :: "devql_task_record \<Rightarrow> bool" where
  "policy_sync t \<longleftrightarrow> kind t = Sync \<and> source t = RepoPolicyChange"

text \<open>Two tasks may run together: different repositories, or different kinds of work neither of which
  is a policy-change sync.\<close>

definition compatible :: "devql_task_record \<Rightarrow> devql_task_record \<Rightarrow> bool" where
  "compatible t u \<longleftrightarrow> repo_id t \<noteq> repo_id u \<or> (kind t \<noteq> kind u \<and> \<not> policy_sync t \<and> \<not> policy_sync u)"

definition running_ok :: "devql_task_record list \<Rightarrow> bool" where
  "running_ok ts \<longleftrightarrow> sorted_wrt (\<lambda>t u. status t = Running \<and> status u = Running \<longrightarrow> compatible t u) ts"

definition task_ok :: "devql_task_record \<Rightarrow> bool" where
  "task_ok t \<longleftrightarrow> kind t = task_kind_from_spec (spec t) \<and>
     (completed_at_unix t = None \<longleftrightarrow> active t) \<and>
     (status t = Running \<longrightarrow> started_at_unix t \<noteq> None)"

definition queue_inv :: "queue_state \<Rightarrow> bool" where
  "queue_inv st \<longleftrightarrow> list_all task_ok (tasks st) \<and> running_ok (tasks st)"

lemma compatible_sym: "compatible t u \<longleftrightarrow> compatible u t"
  by (auto simp: compatible_def)

lemma running_ok_nth: "running_ok ts \<longleftrightarrow>
    (\<forall>i j. i < length ts \<and> j < length ts \<and> i \<noteq> j \<and> status (ts ! i) = Running \<and> status (ts ! j) = Running
       \<longrightarrow> compatible (ts ! i) (ts ! j))"
proof
  assume ok: "running_ok ts"
  show "\<forall>i j. i < length ts \<and> j < length ts \<and> i \<noteq> j \<and> status (ts ! i) = Running \<and> status (ts ! j) = Running
       \<longrightarrow> compatible (ts ! i) (ts ! j)"
  proof (intro allI impI, elim conjE)
    fix i j assume "i < length ts" "j < length ts" "i \<noteq> j" "status (ts ! i) = Running" "status (ts ! j) = Running"
    then show "compatible (ts ! i) (ts ! j)"
      using ok compatible_sym [of "ts ! i" "ts ! j"]
      by (cases "i < j") (auto simp: running_ok_def sorted_wrt_iff_nth_less)
  qed
qed (auto simp: running_ok_def sorted_wrt_iff_nth_less)

lemma running_okD:
  "running_ok ts \<Longrightarrow> i < length ts \<Longrightarrow> j < length ts \<Longrightarrow> i \<noteq> j \<Longrightarrow>
     status (ts ! i) = Running \<Longrightarrow> status (ts ! j) = Running \<Longrightarrow> compatible (ts ! i) (ts ! j)"
  by (auto simp: running_ok_nth)

text \<open>An operation that starts nothing and turns no running task into a policy-change sync.\<close>

definition starts_nothing :: "devql_task_record \<Rightarrow> devql_task_record \<Rightarrow> bool" where
  "starts_nothing t u \<longleftrightarrow> (status u = Running \<longrightarrow>
     status t = Running \<and> repo_id u = repo_id t \<and> kind u = kind t \<and> (policy_sync u \<longrightarrow> policy_sync t))"

lemma starts_nothing_refl [simp]: "starts_nothing t t"
  by (simp add: starts_nothing_def)

lemma running_ok_pointwise:
  assumes "running_ok ts" "list_all2 starts_nothing ts us"
  shows "running_ok us"
  unfolding running_ok_nth
proof (intro allI impI, elim conjE)
  fix i j assume ij: "i < length us" "j < length us" "i \<noteq> j" "status (us ! i) = Running" "status (us ! j) = Running"
  have len: "length ts = length us" using assms(2) by (rule list_all2_lengthD)
  have "starts_nothing (ts ! i) (us ! i)" "starts_nothing (ts ! j) (us ! j)"
    using assms(2) ij len by (simp_all add: list_all2_conv_all_nth)
  then show "compatible (us ! i) (us ! j)"
    using running_okD [OF assms(1), of i j] ij len by (auto simp: starts_nothing_def compatible_def)
qed

lemma running_ok_update:
  assumes "running_ok ts" "i < length ts" "starts_nothing (ts ! i) u"
  shows "running_ok (ts[i := u])"
  using assms by (intro running_ok_pointwise [OF assms(1)])
    (auto simp: list_all2_conv_all_nth nth_list_update)

lemma list_all_update: "list_all p ts \<Longrightarrow> p u \<Longrightarrow> list_all p (ts[i := u])"
  using set_update_subset_insert [of ts i u] by (auto simp: list_all_iff)

text \<open>From \<open>st\<close> to \<open>st'\<close> nothing was started: the invariant holds after it and each running task was
  running before, in the same repository and kind, and as a policy-change sync if it is one.\<close>

definition calm :: "queue_state \<Rightarrow> queue_state \<Rightarrow> bool" where
  "calm st st' \<longleftrightarrow> queue_inv st' \<and> (\<forall>u \<in> set (tasks st'). status u = Running \<longrightarrow>
     (\<exists>t \<in> set (tasks st). starts_nothing t u))"

lemma calm_refl: "queue_inv st \<Longrightarrow> calm st st"
  by (auto simp: calm_def intro: bexI [of _ "t" for t] starts_nothing_refl)

lemma calm_update:
  assumes "queue_inv st" "i < length (tasks st)" "starts_nothing (tasks st ! i) u" "task_ok u"
  shows "calm st (st\<lparr>tasks := (tasks st)[i := u]\<rparr>)"
proof -
  have "\<exists>t \<in> set (tasks st). starts_nothing t v" if "v \<in> set ((tasks st)[i := u])" for v
  proof (cases "v = u")
    case True
    then show ?thesis using assms(2,3) nth_mem by blast
  next
    case False
    then have "v \<in> set (tasks st)" using that set_update_subset_insert [of "tasks st" i u] by blast
    then show ?thesis by (meson starts_nothing_refl)
  qed
  then show ?thesis
    using assms by (simp add: calm_def queue_inv_def running_ok_update list_all_update)
qed

lemma queue_inv_fields [simp]:
  "queue_inv (st\<lparr>last_action := a\<rparr>) = queue_inv st"
  "queue_inv (st\<lparr>repo_controls := c\<rparr>) = queue_inv st"
  "queue_inv (st\<lparr>version := v\<rparr>) = queue_inv st"
  "queue_inv (st\<lparr>updated_at := n\<rparr>) = queue_inv st"
  by (simp_all add: queue_inv_def)

lemma calm_fields [simp]:
  "calm st (st'\<lparr>last_action := a\<rparr>) = calm st st'"
  "calm st (st'\<lparr>repo_controls := c\<rparr>) = calm st st'"
  by (simp_all add: calm_def)

lemma starts_nothing_clear: "clear_position t = clear_position u \<Longrightarrow> starts_nothing t u"
  by (cases t; cases u) (simp add: clear_position_def starts_nothing_def policy_sync_def)

lemma task_ok_clear: "clear_position t = clear_position u \<Longrightarrow> task_ok t = task_ok u"
  by (cases t; cases u) (simp add: clear_position_def task_ok_def active_def)

text \<open>Saving keeps the invariant: positions are no part of it, and pruning only drops rows.\<close>

lemma queue_inv_recompute:
  assumes "list_all task_ok ts" "running_ok ts"
  shows "list_all task_ok (recompute_queue_positions ts)" "running_ok (recompute_queue_positions ts)"
proof -
  let ?us = "recompute_queue_positions ts"
  have clear: "map clear_position ts = map clear_position ?us" by simp
  then have len: "length ?us = length ts" by (metis length_map)
  have each: "clear_position (ts ! i) = clear_position (?us ! i)" if "i < length ts" for i
    using clear that len by (metis nth_map)
  show "list_all task_ok ?us"
    using assms(1) task_ok_clear [OF each] len by (simp add: list_all_length)
  show "running_ok ?us"
    using each len by (intro running_ok_pointwise [OF assms(2)])
      (auto simp: list_all2_conv_all_nth intro: starts_nothing_clear)
qed

lemma queue_inv_prune:
  assumes "list_all task_ok ts" "running_ok ts"
  shows "list_all task_ok (prune_terminal_tasks p ts)" "running_ok (prune_terminal_tasks p ts)"
  using assms by (auto simp: prune_terminal_tasks_def Let_def list_all_iff running_ok_def sorted_wrt_filter)

lemma queue_inv_save: "queue_inv st \<Longrightarrow> queue_inv (save_state now p st)"
  using queue_inv_recompute queue_inv_prune by (simp add: queue_inv_def save_state_def)

section \<open>The contract of an operation\<close>

text \<open>Every operation handed to \<open>mutate_state\<close> keeps the invariant; then so does its transaction.\<close>

lemma starts_nothing_trans: "starts_nothing t u \<Longrightarrow> starts_nothing u v \<Longrightarrow> starts_nothing t v"
  by (simp add: starts_nothing_def)

lemma calm_save:
  assumes "calm st st'"
  shows "calm st (save_state now p st')"
proof -
  have "\<exists>t \<in> set (tasks st). starts_nothing t v"
    if v: "v \<in> set (tasks (save_state now p st'))" "status v = Running" for v
  proof -
    have "v \<in> set (recompute_queue_positions (tasks st'))"
      using v(1) by (auto simp: save_state_def prune_terminal_tasks_def Let_def)
    then have "clear_position v \<in> set (map clear_position (tasks st'))"
      by (metis image_eqI list.set_map recompute_clear)
    then obtain u where u: "u \<in> set (tasks st')" "clear_position v = clear_position u" by auto
    have uv: "starts_nothing u v" using u(2) by (intro starts_nothing_clear) simp
    have "status u = Running" using uv v(2) by (simp add: starts_nothing_def)
    then obtain t where "t \<in> set (tasks st)" "starts_nothing t u" using assms u(1) unfolding calm_def by blast
    then show ?thesis using starts_nothing_trans [OF _ uv] by blast
  qed
  then show ?thesis using assms queue_inv_save unfolding calm_def by blast
qed

locale queue_operation =
  fixes body :: "queue_state \<Rightarrow> (string, queue_state \<times> 'a) result"
  assumes keeps: "queue_inv st \<Longrightarrow> body st = Inr (st', x) \<Longrightarrow> queue_inv st'"
begin

lemma transaction_keeps:
  assumes "queue_inv st" "mutate_state now p body st = Inr (st', x, changed)"
  shows "queue_inv st'"
  using assms keeps by (auto simp: mutate_state_def Let_def intro: queue_inv_save)

lemma transaction_fails: "body st = Inl e \<Longrightarrow> mutate_state now p body st = Inl e"
  by (simp add: mutate_state_def)

end

text \<open>All operations but the scheduler start nothing.\<close>

locale calm_operation =
  fixes body :: "queue_state \<Rightarrow> (string, queue_state \<times> 'a) result"
  assumes calm: "queue_inv st \<Longrightarrow> body st = Inr (st', x) \<Longrightarrow> calm st st'"
begin

lemma transaction_calm:
  assumes "queue_inv st" "mutate_state now p body st = Inr (st', x, changed)"
  shows "calm st st'"
  using assms calm by (auto simp: mutate_state_def Let_def intro: calm_save)

end

sublocale calm_operation \<subseteq> queue_operation body
  by unfold_locales (use calm in \<open>auto simp: calm_def\<close>)

lemma with_task_keeps:
  assumes "\<And>t. task_ok t \<Longrightarrow> task_ok (f t) \<and> starts_nothing t (f t)"
  shows "calm_operation (with_task tid f action)"
proof
  fix st st' x assume inv: "queue_inv st" and b: "with_task tid f action st = Inr (st', x)"
  show "calm st st'"
  proof (cases "task_index tid st")
    case (Some i)
    then have i: "i < length (tasks st)" unfolding task_index_def by (rule find_index_Some)
    then have "task_ok (tasks st ! i)" using inv by (simp add: queue_inv_def list_all_length)
    then show ?thesis
      using calm_update [OF inv i] assms b Some by (auto simp: with_task_def)
  qed (use calm_refl [OF inv] b in \<open>simp add: with_task_def\<close>)
qed

lemmas task_step_simps = task_ok_def starts_nothing_def active_def policy_sync_def

interpretation update_mode: calm_operation "update_sync_mode_body now tid mode" for now tid mode
  unfolding update_sync_mode_body_def
  by (rule with_task_keeps) (auto simp: task_step_simps set_sync_mode_def split: devql_task_spec.splits)

interpretation update_progress: calm_operation "update_task_progress_body now tid update" for now tid update
  unfolding update_task_progress_body_def by (rule with_task_keeps) (auto simp: task_step_simps)

lemma complete_task_keeps: "task_ok t \<Longrightarrow> task_ok (complete_task now r p t) \<and> starts_nothing t (complete_task now r p t)"
  by (auto simp: task_step_simps complete_task_def)

interpretation finish_sync: calm_operation "finish_sync_task_completed_body now tid s" for now tid s
  unfolding finish_sync_task_completed_body_def by (rule with_task_keeps) (rule complete_task_keeps)

interpretation finish_ingest: calm_operation "finish_ingest_task_completed_body now tid s" for now tid s
  unfolding finish_ingest_task_completed_body_def by (rule with_task_keeps) (rule complete_task_keeps)

interpretation finish_embeddings: calm_operation "finish_embeddings_bootstrap_task_completed_body now tid r" for now tid r
  unfolding finish_embeddings_bootstrap_task_completed_body_def by (rule with_task_keeps) (rule complete_task_keeps)

interpretation finish_summary: calm_operation "finish_summary_bootstrap_task_completed_body now tid r" for now tid r
  unfolding finish_summary_bootstrap_task_completed_body_def by (rule with_task_keeps) (rule complete_task_keeps)

lemma reset_task_keeps: "task_ok t \<Longrightarrow> task_ok (reset_task now t) \<and> starts_nothing t (reset_task now t)"
  by (auto simp: task_step_simps reset_task_def)

interpretation requeue: calm_operation "requeue_task_after_cancelled_join_body now tid" for now tid
  unfolding requeue_task_after_cancelled_join_body_def by (rule with_task_keeps) (rule reset_task_keeps)

interpretation fail: calm_operation "finish_task_failed_body now tid err" for now tid err
proof -
  have "calm_operation (with_task tid (fail_task now err) ''failed'')"
    by (rule with_task_keeps) (auto simp: task_step_simps fail_task_def)
  then show "calm_operation (finish_task_failed_body now tid err)"
    using requeue.calm_operation_axioms by (simp add: finish_task_failed_body_def [abs_def])
qed

interpretation pause: calm_operation "pause_repo_body now repo reason" for now repo reason
  by unfold_locales (auto simp: pause_repo_body_def Let_def intro: calm_refl)

interpretation resume: calm_operation "resume_repo_body now repo" for now repo
  by unfold_locales (auto simp: resume_repo_body_def Let_def intro: calm_refl)

interpretation cancel: calm_operation "cancel_task_body now tid" for now tid
proof
  fix st st' x assume inv: "queue_inv st" and b: "cancel_task_body now tid st = Inr (st', x)"
  then obtain i where idx: "task_index tid st = Some i" by (auto simp: cancel_task_body_def split: option.splits)
  then have i: "i < length (tasks st)" unfolding task_index_def by (rule find_index_Some)
  then have ok: "task_ok (tasks st ! i)" using inv by (simp add: queue_inv_def list_all_length)
  let ?t = "(tasks st ! i)\<lparr>status := Cancelled, updated_at_unix := now, completed_at_unix := Some now,
      task_error := None, task_result := None\<rparr>"
  have "st' = st\<lparr>tasks := (tasks st)[i := ?t], last_action := Some ''cancelled''\<rparr>"
    using b idx by (auto simp: cancel_task_body_def Let_def split: devql_task_status.splits)
  then show "calm st st'" using calm_update [OF inv i, of ?t] ok by (simp add: task_step_simps)
qed

text \<open>Operations over all tasks.\<close>

lemma calm_map:
  assumes "queue_inv st" "\<And>t. task_ok t \<Longrightarrow> task_ok (f t) \<and> starts_nothing t (f t)"
  shows "calm st (st\<lparr>tasks := map f (tasks st)\<rparr>)"
proof -
  have "list_all2 starts_nothing (tasks st) (map f (tasks st))"
    using assms by (auto simp: list_all2_conv_all_nth queue_inv_def list_all_length)
  then show ?thesis
    using assms running_ok_pointwise [of "tasks st"] by (auto simp: calm_def queue_inv_def list_all_iff)
qed

interpretation recover: calm_operation "recover_running_tasks_body now" for now
proof
  fix st st' x assume inv: "queue_inv st" and b: "recover_running_tasks_body now st = Inr (st', x)"
  have "calm st (st\<lparr>tasks := map (\<lambda>t. if status t = Running then reset_task now t else t) (tasks st)\<rparr>)"
    using inv reset_task_keeps by (intro calm_map) auto
  then show "calm st st'" using b by (auto simp: recover_running_tasks_body_def)
qed

lemma prune_task_keeps: "task_ok t \<Longrightarrow>
    task_ok (snd (prune_task now excludes repo t)) \<and> starts_nothing t (snd (prune_task now excludes repo t))"
  by (auto simp: prune_task_def task_step_simps Let_def split: devql_task_spec.splits sync_task_mode.splits)

interpretation prune: calm_operation "prune_excluded_body now excludes repo" for now excludes repo
proof
  fix st st' x assume inv: "queue_inv st" and b: "prune_excluded_body now excludes repo st = Inr (st', x)"
  have "calm st (st\<lparr>tasks := map (snd \<circ> prune_task now excludes repo) (tasks st)\<rparr>)"
    using inv prune_task_keeps by (intro calm_map) auto
  then show "calm st st'" using b by (auto simp: prune_excluded_body_def Let_def split: if_splits)
qed

section \<open>Enqueueing keeps the invariant\<close>

lemma update_first_Some:
  assumes "update_first p f ts = Some (us, u)"
  shows "\<exists>i < length ts. p (ts ! i) \<and> us = ts[i := f (ts ! i)] \<and> u = f (ts ! i)"
  using assms find_index_Some [of p ts] by (auto simp: update_first_def split: option.splits)

lemma merge_into_keeps:
  assumes "task_ok t" "merges_into cfg src incoming init t"
  shows "task_ok (merge_into now src incoming t)" "starts_nothing t (merge_into now src incoming t)"
    "active (merge_into now src incoming t)"
proof -
  obtain existing where e: "spec t = SyncSpec existing"
    using assms(2) by (cases "spec t") (auto simp: merges_into_def)
  have m: "active t" "src \<noteq> RepoPolicyChange \<or> status t = Queued" "kind t = Sync"
    "absorbs (sync_mode existing) (sync_mode incoming) (status t)"
    using assms(2) e by (auto simp: merges_into_def)
  have "status t = Running \<Longrightarrow> \<not> is_paths (sync_mode existing)"
    using m(4) by (auto simp: absorbs_def is_paths_def is_full_like_def split: if_splits sync_task_mode.splits)
  then show "task_ok (merge_into now src incoming t)" "starts_nothing t (merge_into now src incoming t)"
    "active (merge_into now src incoming t)"
    using assms(1) m e by (auto simp: merge_into_def task_step_simps Let_def)
qed

lemma merge_paths_into_keeps:
  assumes "task_ok t" "merges_paths_into cfg src incoming init t"
  shows "task_ok (merge_paths_into now paths incoming t)" "starts_nothing t (merge_paths_into now paths incoming t)"
    "active (merge_paths_into now paths incoming t)"
  using assms
  by (auto simp: merges_paths_into_def merge_paths_into_def task_step_simps Let_def
      split: devql_task_spec.splits sync_task_mode.splits option.splits)

lemma merge_existing_sync_cases:
  assumes "merge_existing_task now st cfg src Sync sp init = Some (st', t)"
    and "sync_spec_of sp = Some s"
  obtains us where "sync_mode s \<noteq> Validate" "st' = st\<lparr>tasks := us\<rparr>"
      "update_first (merges_into cfg src s init) (merge_into now src s) (tasks st) = Some (us, t)"
    | us ps where "sync_mode s = Paths ps" "st' = st\<lparr>tasks := us\<rparr>"
      "update_first (merges_paths_into cfg src s init) (merge_paths_into now ps s) (tasks st) = Some (us, t)"
  using assms
  by (auto simp: merge_existing_task_def Let_def opt_or_Some split: if_splits sync_task_mode.splits)

lemma merge_existing_keeps:
  assumes "queue_inv st" "merge_existing_task now st cfg src k sp init = Some (st', t)"
  shows "calm st st' \<and> t \<in> set (tasks st') \<and> active t"
proof -
  have step: "calm st (st\<lparr>tasks := us\<rparr>) \<and> u \<in> set us \<and> active u"
    if found: "update_first p f (tasks st) = Some (us, u)"
      and each: "\<And>t. task_ok t \<Longrightarrow> p t \<Longrightarrow> task_ok (f t) \<and> starts_nothing t (f t) \<and> active (f t)" for p f us u
  proof -
    obtain i where i: "i < length (tasks st)" "p (tasks st ! i)" "us = (tasks st)[i := f (tasks st ! i)]"
      "u = f (tasks st ! i)"
      using update_first_Some [OF found] by blast
    have "task_ok (tasks st ! i)" using assms(1) i(1) by (simp add: queue_inv_def list_all_length)
    then show ?thesis
      using calm_update [OF assms(1) i(1)] each i by (simp add: set_update_memI)
  qed
  have ingest: "task_ok t \<Longrightarrow> ingest_duplicate cfg sp init t \<Longrightarrow>
      task_ok (t\<lparr>updated_at_unix := now, task_error := None\<rparr>) \<and>
      starts_nothing t (t\<lparr>updated_at_unix := now, task_error := None\<rparr>) \<and>
      active (t\<lparr>updated_at_unix := now, task_error := None\<rparr>)" for t
    by (auto simp: task_step_simps ingest_duplicate_def)
  show ?thesis
  proof (cases k)
    case Sync
    then obtain incoming where sp: "sync_spec_of sp = Some incoming"
      using assms(2) by (auto simp: merge_existing_task_def Let_def split: option.splits)
    from assms(2) [unfolded Sync] sp show ?thesis
    proof (cases rule: merge_existing_sync_cases)
      case 1
      then show ?thesis using step [OF 1(3)] merge_into_keeps by simp
    next
      case 2
      then show ?thesis using step [OF 2(3)] merge_paths_into_keeps by simp
    qed
  next
    case Ingest
    then obtain us where us: "update_first (ingest_duplicate cfg sp init)
        (\<lambda>t. t\<lparr>updated_at_unix := now, task_error := None\<rparr>) (tasks st) = Some (us, t)" "st' = st\<lparr>tasks := us\<rparr>"
      using assms(2) by (auto simp: merge_existing_task_def Let_def)
    then show ?thesis using step [OF us(1)] ingest by simp
  qed (use assms(2) in \<open>simp_all add: merge_existing_task_def\<close>)
qed

lemma calm_append:
  assumes "queue_inv st" "task_ok t" "status t = Queued"
  shows "calm st (st\<lparr>tasks := tasks st @ [t]\<rparr>)"
  using assms by (auto simp: calm_def queue_inv_def running_ok_def sorted_wrt_append intro: starts_nothing_refl)

interpretation enqueue: calm_operation "enqueue_body now uuid cfg src sp init" for now uuid cfg src sp init
proof
  fix st st' x assume inv: "queue_inv st" and b: "enqueue_body now uuid cfg src sp init st = Inr (st', x)"
  show "calm st st'"
  proof (cases "merge_existing_task now st cfg src (task_kind_from_spec sp) sp init")
    case None
    have "task_ok (new_task now uuid cfg src sp init)" "status (new_task now uuid cfg src sp init) = Queued"
      by (simp_all add: new_task_def task_ok_def active_def)
    from calm_append [OF inv this] show ?thesis
      using b None by (auto simp: enqueue_body_def Let_def)
  next
    case (Some r)
    then show ?thesis using b merge_existing_keeps [OF inv] by (cases r) (auto simp: enqueue_body_def)
  qed
qed

section \<open>Scheduling keeps the invariant\<close>

definition start_rows :: "nat \<Rightarrow> nat list \<Rightarrow> devql_task_record list
    \<Rightarrow> devql_task_record list \<times> devql_task_record list" where
  "start_rows now idx ts = foldl (\<lambda>(ts, scheduled) i.
     let t = start_task now (ts ! i) in (ts[i := t], scheduled @ [t])) (ts, []) idx"

lemma start_rows_spec:
  assumes "distinct idx" "\<And>i. i \<in> set idx \<Longrightarrow> i < length ts"
  shows "\<exists>us. start_rows now idx ts = (us, map (\<lambda>i. start_task now (ts ! i)) idx) \<and>
    length us = length ts \<and>
    (\<forall>i < length ts. us ! i = (if i \<in> set idx then start_task now (ts ! i) else ts ! i))"
  using assms
proof (induction idx rule: rev_induct)
  case (snoc i idx)
  then obtain us where us: "start_rows now idx ts = (us, map (\<lambda>i. start_task now (ts ! i)) idx)"
    "length us = length ts" "\<forall>j < length ts. us ! j = (if j \<in> set idx then start_task now (ts ! j) else ts ! j)"
    by auto
  have "i \<notin> set idx" "i < length ts" using snoc.prems by auto
  then show ?case using us by (auto simp: start_rows_def Let_def nth_list_update)
qed (simp add: start_rows_def)

lemma start_task_simps [simp]:
  "repo_id (start_task now t) = repo_id t" "kind (start_task now t) = kind t"
  "source (start_task now t) = source t" "status (start_task now t) = Running"
  "spec (start_task now t) = spec t" "task_id (start_task now t) = task_id t"
  "policy_sync (start_task now t) = policy_sync t" "task_lane (start_task now t) = task_lane t"
  by (simp_all add: start_task_def policy_sync_def task_lane_def)

lemma may_startD:
  assumes "may_start st blocked t"
  shows "status t = Queued" "repo_id t \<notin> blocked" "repo_id t \<notin> paused_repo_ids st"
    "u \<in> set (tasks st) \<Longrightarrow> policy_sync u \<Longrightarrow> active u \<Longrightarrow> repo_id u = repo_id t \<Longrightarrow> policy_sync t"
    "kind t = Ingest \<Longrightarrow> u \<in> set (tasks st) \<Longrightarrow> kind u = Sync \<Longrightarrow> active u \<Longrightarrow> repo_id u \<noteq> repo_id t"
    "policy_sync t \<Longrightarrow> u \<in> set (tasks st) \<Longrightarrow> status u = Running \<Longrightarrow> repo_id u \<noteq> repo_id t"
    "u \<in> set (tasks st) \<Longrightarrow> status u = Running \<Longrightarrow> task_lane u \<noteq> task_lane t"
  using assms
  by (auto simp: may_start_def policy_sync_def repo_policy_change_blocked_repo_ids_def running_lanes_def
      sync_blocked_ingest_repo_ids_def running_repo_ids_def image_iff split: if_splits)

lemma new_compatible_old:
  assumes "may_start st blocked t" "u \<in> set (tasks st)" "status u = Running"
  shows "compatible t u"
proof -
  have "active u" using assms(3) by (simp add: active_def)
  then show ?thesis
    using may_startD(4,6,7) [OF assms(1), of u] assms(2,3) by (auto simp: compatible_def task_lane_def)
qed

lemma new_compatible_new:
  assumes "may_start st blocked t" "may_start st blocked u" "t \<in> set (tasks st)" "u \<in> set (tasks st)"
    "task_lane t \<noteq> task_lane u"
  shows "compatible t u"
proof -
  have "active t" "active u" using assms(1,2) by (auto dest: may_startD(1) simp: active_def)
  then have "repo_id t = repo_id u \<Longrightarrow> policy_sync t \<longleftrightarrow> policy_sync u"
    using may_startD(4) [OF assms(1), of u] may_startD(4) [OF assms(2), of t] assms(3,4) by metis
  moreover have "policy_sync t \<Longrightarrow> policy_sync u \<Longrightarrow> kind t = kind u" by (simp add: policy_sync_def)
  ultimately show ?thesis using assms(5) by (auto simp: compatible_def task_lane_def)
qed

lemma compatible_cong:
  "repo_id t' = repo_id t \<Longrightarrow> kind t' = kind t \<Longrightarrow> policy_sync t' = policy_sync t \<Longrightarrow>
   repo_id u' = repo_id u \<Longrightarrow> kind u' = kind u \<Longrightarrow> policy_sync u' = policy_sync u \<Longrightarrow>
   compatible t' u' = compatible t u"
  by (simp add: compatible_def)

lemma schedule_result:
  fixes st blocked
  defines "idx \<equiv> next_runnable_task_indexes_blocking_repo_ids st blocked"
  assumes "schedule_body now blocked st = Inr (st', scheduled)"
  shows "scheduled = map (\<lambda>i. start_task now (tasks st ! i)) idx"
    and "length (tasks st') = length (tasks st)"
    and "i < length (tasks st) \<Longrightarrow>
      tasks st' ! i = (if i \<in> set idx then start_task now (tasks st ! i) else tasks st ! i)"
proof -
  have "distinct idx" using next_runnable_spec(4) [of st blocked] by (simp add: idx_def distinct_map)
  moreover have "\<And>i. i \<in> set idx \<Longrightarrow> i < length (tasks st)" using next_runnable_spec(1) by (auto simp: idx_def)
  ultimately obtain us where us: "start_rows now idx (tasks st) = (us, map (\<lambda>i. start_task now (tasks st ! i)) idx)"
    "length us = length (tasks st)"
    "\<forall>i < length (tasks st). us ! i = (if i \<in> set idx then start_task now (tasks st ! i) else tasks st ! i)"
    using start_rows_spec [of idx "tasks st" now] by blast
  show "scheduled = map (\<lambda>i. start_task now (tasks st ! i)) idx" "length (tasks st') = length (tasks st)"
    "i < length (tasks st) \<Longrightarrow>
      tasks st' ! i = (if i \<in> set idx then start_task now (tasks st ! i) else tasks st ! i)"
    using assms(2) us unfolding schedule_body_def start_rows_def idx_def [symmetric]
    by (auto simp: Let_def split: if_splits)
qed

interpretation schedule: queue_operation "schedule_body now blocked" for now blocked
proof
  fix st st' x assume inv: "queue_inv st" and b: "schedule_body now blocked st = Inr (st', x)"
  let ?ts = "tasks st" and ?idx = "next_runnable_task_indexes_blocking_repo_ids st blocked"
  note res = schedule_result [OF b]
  have idx: "i < length ?ts \<and> may_start st blocked (?ts ! i)" if "i \<in> set ?idx" for i
    using next_runnable_spec(1) [OF that] .
  have lanes: "task_lane (?ts ! i) \<noteq> task_lane (?ts ! j)" if "i \<in> set ?idx" "j \<in> set ?idx" "i \<noteq> j" for i j
    using next_runnable_spec(4) [of st blocked] that by (auto simp: distinct_map inj_on_def)
  have old: "list_all task_ok ?ts" "running_ok ?ts" using inv by (simp_all add: queue_inv_def)
  have "list_all task_ok (tasks st')"
    using old(1) idx res(2,3) unfolding list_all_length
    by (auto simp: task_ok_def start_task_def active_def)
  moreover have "compatible (tasks st' ! i) (tasks st' ! j)"
    if ij: "i < length ?ts" "j < length ?ts" "i \<noteq> j" "status (tasks st' ! i) = Running" "status (tasks st' ! j) = Running"
    for i j
  proof -
    have "compatible (?ts ! i) (?ts ! j)"
    proof (cases "i \<in> set ?idx"; cases "j \<in> set ?idx")
      assume "i \<in> set ?idx" "j \<in> set ?idx"
      then show ?thesis using new_compatible_new [of st blocked] idx lanes ij(3) by simp
    next
      assume "i \<in> set ?idx" "j \<notin> set ?idx"
      then show ?thesis using new_compatible_old [of st blocked] idx ij res(3) by simp
    next
      assume "i \<notin> set ?idx" "j \<in> set ?idx"
      then show ?thesis
        using new_compatible_old [of st blocked "?ts ! j" "?ts ! i"] idx ij res(3)
          compatible_sym [of "?ts ! i" "?ts ! j"] by simp
    next
      assume "i \<notin> set ?idx" "j \<notin> set ?idx"
      then show ?thesis using running_okD [OF old(2)] ij res(3) by simp
    qed
    then show ?thesis using res(3) ij by (simp add: compatible_def)
  qed
  ultimately show "queue_inv st'" using res(2) by (auto simp: queue_inv_def running_ok_nth)
qed

section \<open>Runs of the coordinator\<close>

definition commits :: "(queue_state \<Rightarrow> (string, queue_state \<times> 'a) result) \<Rightarrow> queue_state \<Rightarrow> queue_state \<Rightarrow> bool" where
  "commits body st st' \<longleftrightarrow> (\<exists>now p x changed. mutate_state now p body st = Inr (st', x, changed))"

inductive queue_update :: "queue_state \<Rightarrow> queue_state \<Rightarrow> bool" where
  enqueue: "commits (enqueue_body now uuid cfg src sp init) st st' \<Longrightarrow> queue_update st st'"
| progress: "commits (update_task_progress_body now tid update) st st' \<Longrightarrow> queue_update st st'"
| mode: "commits (update_sync_mode_body now tid m) st st' \<Longrightarrow> queue_update st st'"
| sync_done: "commits (finish_sync_task_completed_body now tid summary) st st' \<Longrightarrow> queue_update st st'"
| ingest_done: "commits (finish_ingest_task_completed_body now tid counters) st st' \<Longrightarrow> queue_update st st'"
| embeddings_done: "commits (finish_embeddings_bootstrap_task_completed_body now tid er) st st' \<Longrightarrow> queue_update st st'"
| summary_done: "commits (finish_summary_bootstrap_task_completed_body now tid sr) st st' \<Longrightarrow> queue_update st st'"
| failed: "commits (finish_task_failed_body now tid err) st st' \<Longrightarrow> queue_update st st'"
| cancel: "commits (cancel_task_body now tid) st st' \<Longrightarrow> queue_update st st'"
| recover: "commits (recover_running_tasks_body now) st st' \<Longrightarrow> queue_update st st'"
| prune: "commits (prune_excluded_body now excludes repo) st st' \<Longrightarrow> queue_update st st'"
| pause: "commits (pause_repo_body now repo reason) st st' \<Longrightarrow> queue_update st st'"
| resume: "commits (resume_repo_body now repo) st st' \<Longrightarrow> queue_update st st'"

inductive queue_step :: "queue_state \<Rightarrow> queue_state \<Rightarrow> bool" where
  update: "queue_update st st' \<Longrightarrow> queue_step st st'"
| schedule: "commits (schedule_body now spool_running) st st' \<Longrightarrow> queue_step st st'"

inductive queue_reach :: "queue_state \<Rightarrow> bool" where
  initial: "queue_reach queue_state_default"
| step: "queue_reach st \<Longrightarrow> queue_step st st' \<Longrightarrow> queue_reach st'"

lemmas operations_calm = enqueue.transaction_calm
  update_progress.transaction_calm update_mode.transaction_calm finish_sync.transaction_calm
  finish_ingest.transaction_calm finish_embeddings.transaction_calm finish_summary.transaction_calm
  fail.transaction_calm cancel.transaction_calm recover.transaction_calm prune.transaction_calm
  pause.transaction_calm resume.transaction_calm

lemma queue_update_calm: "queue_update st st' \<Longrightarrow> queue_inv st \<Longrightarrow> calm st st'"
  by (induction rule: queue_update.induct) (auto simp: commits_def intro: operations_calm)

lemma queue_step_inv: "queue_step st st' \<Longrightarrow> queue_inv st \<Longrightarrow> queue_inv st'"
proof (induction rule: queue_step.induct)
  case (update st st')
  then show ?case using queue_update_calm unfolding calm_def by blast
next
  case (schedule now spool_running st st')
  then show ?case by (auto simp: commits_def intro: schedule.transaction_keeps)
qed

lemma queue_reach_inv: "queue_reach st \<Longrightarrow> queue_inv st"
proof (induction rule: queue_reach.induct)
  case initial
  show ?case by (simp add: queue_inv_def queue_state_default_def running_ok_def)
qed (rule queue_step_inv)

end
