(* ===== verification/QueueProperties.thy ===== *)
theory QueueProperties
  imports TaskCoordinator
begin

text \<open>
  What the DevQL task queue promises: which tasks run together, what the scheduler picks and that
  it is never stuck, that a submission is covered by what is in the queue, what pruning keeps, and
  how queue positions are numbered. The sample runs at the end are the concrete inputs of the
  witnesses.
\<close>

section \<open>Sample runs\<close>

text \<open>The state after a committed operation.\<close>

definition after :: "(queue_state \<Rightarrow> (string, queue_state \<times> 'a) result) \<Rightarrow> queue_state \<Rightarrow> queue_state" where
  "after body st = (case body st of Inl _ \<Rightarrow> st | Inr (st', _) \<Rightarrow> save_state 10 {} st')"

lemma commits_after:
  assumes "body st = Inr r"
  shows "commits body st (after body st)"
proof -
  obtain st' x where r: "r = (st', x)" by (cases r)
  have "mutate_state 10 {} body st = Inr (save_state 10 {} st', x, changed_tasks (tasks st) (tasks (save_state 10 {} st')))"
    using assms r by (simp add: mutate_state_def Let_def)
  moreover have "after body st = save_state 10 {} st'" using assms r by (simp add: after_def)
  ultimately show ?thesis unfolding commits_def by metis
qed

definition sample_cfg :: devql_config where
  "sample_cfg = \<lparr>cfg_config_root = ''/c'', cfg_repo_root = ''/r'', cfg_repo_id = ''r'', cfg_name = ''n'',
     cfg_provider = ''p'', cfg_organization = ''o'', cfg_identity = ''i''\<rparr>"

definition sync_of :: "sync_task_mode \<Rightarrow> devql_task_spec" where
  "sync_of m = SyncSpec \<lparr>sync_mode = m, post_commit_snapshot = None\<rparr>"

definition bootstrap_of :: devql_task_spec where
  "bootstrap_of = EmbeddingsBootstrapSpec \<lparr>ebs_config_path = ''c'', ebs_profile_name = ''p'', ebs_mode = Local,
     ebs_gateway_url_override = None, ebs_api_key_env = None\<rparr>"

definition one_queued :: queue_state where
  "one_queued = after (enqueue_body 1 ''u1'' sample_cfg ManualCli (sync_of Auto) None) queue_state_default"

definition two_queued :: queue_state where
  "two_queued = after (enqueue_body 2 ''u2'' sample_cfg ManualCli bootstrap_of None) one_queued"

definition two_running :: queue_state where
  "two_running = after (schedule_body 3 {}) two_queued"

lemma enqueue_total: "\<exists>r. enqueue_body now uuid cfg src sp init st = Inr r"
  by (auto simp: enqueue_body_def Let_def split: option.splits prod.splits)

lemma schedule_total: "\<exists>r. schedule_body now blocked st = Inr r"
  by (auto simp: schedule_body_def Let_def split: prod.splits)

lemma reach_enqueue:
  assumes "queue_reach st"
  shows "queue_reach (after (enqueue_body now uuid cfg src sp init) st)"
proof -
  obtain r where "enqueue_body now uuid cfg src sp init st = Inr r" using enqueue_total by blast
  from queue_reach.step [OF assms queue_step.update [OF queue_update.enqueue [OF commits_after [where body = "enqueue_body now uuid cfg src sp init", OF this]]]] show ?thesis .
qed

lemma reach_schedule:
  assumes "queue_reach st"
  shows "queue_reach (after (schedule_body now blocked) st)"
proof -
  obtain r where "schedule_body now blocked st = Inr r" using schedule_total by blast
  from queue_reach.step [OF assms queue_step.schedule [OF commits_after [where body = "schedule_body now blocked", OF this]]] show ?thesis .
qed

lemma sample_reach: "queue_reach one_queued" "queue_reach two_queued" "queue_reach two_running"
  unfolding two_running_def two_queued_def one_queued_def
  by (intro reach_enqueue reach_schedule queue_reach.initial)+

lemma two_running_tasks:
  "map (\<lambda>t. (status t, repo_id t, kind t)) (tasks two_running) =
     [(Running, ''r'', Sync), (Running, ''r'', EmbeddingsBootstrap)]"
  by code_simp

lemma one_queued_tasks:
  "map (\<lambda>t. (status t, repo_id t, kind t, queue_position t)) (tasks one_queued) = [(Queued, ''r'', Sync, Some 1)]"
  by code_simp

section \<open>What saving keeps\<close>

lemma recompute_row:
  assumes "t \<in> set ts"
  shows "\<exists>u \<in> set (recompute_queue_positions ts). clear_position u = clear_position t"
proof -
  have "clear_position ` set (recompute_queue_positions ts) = clear_position ` set ts"
    using arg_cong [OF recompute_clear [of ts], of set] unfolding set_map .
  then have "clear_position t \<in> clear_position ` set (recompute_queue_positions ts)" using assms by simp
  then show ?thesis by (metis imageE)
qed

lemma active_saved:
  assumes "t \<in> set (tasks st)" "active t"
  shows "\<exists>u \<in> set (tasks (save_state now p st)). clear_position u = clear_position t"
proof -
  obtain u where u: "u \<in> set (recompute_queue_positions (tasks st))" "clear_position u = clear_position t"
    using recompute_row [OF assms(1)] by blast
  then have "active u" using assms(2) by (metis clear_position_simps(6))
  then have "u \<in> set (tasks (save_state now p st))"
    using u(1) by (simp add: save_state_def prune_terminal_tasks_def Let_def terminal_not_active)
  then show ?thesis using u(2) by blast
qed

lemma saved_row:
  assumes "u \<in> set (tasks (save_state now p st))"
  shows "\<exists>t \<in> set (tasks st). clear_position u = clear_position t"
proof -
  have "u \<in> set (recompute_queue_positions (tasks st))"
    using assms by (auto simp: save_state_def prune_terminal_tasks_def Let_def)
  then have "clear_position u \<in> set (map clear_position (tasks st))"
    by (metis image_eqI list.set_map recompute_clear)
  then show ?thesis by auto
qed

lemma clear_fields:
  assumes "clear_position t = clear_position u"
  shows "task_id t = task_id u" "repo_id t = repo_id u" "spec t = spec u" "status t = status u"
    "kind t = kind u" "source t = source u" "active t = active u" "init_session_id t = init_session_id u"
  using assms by (cases t; cases u; simp add: clear_position_def active_def)+

section \<open>Properties\<close>

text \<open>C1: in every state the coordinator can reach, two running tasks of one repository are of
  different kinds, and neither of them is the sync that applies a changed repository policy.\<close>

theorem running_tasks_compatible:
  assumes "queue_reach st" "i < length (tasks st)" "j < length (tasks st)" "i \<noteq> j"
    and "status (tasks st ! i) = Running" "status (tasks st ! j) = Running"
    and "repo_id (tasks st ! i) = repo_id (tasks st ! j)"
  shows "kind (tasks st ! i) \<noteq> kind (tasks st ! j) \<and>
    \<not> policy_sync (tasks st ! i) \<and> \<not> policy_sync (tasks st ! j)"
  using running_okD [of "tasks st" i j] queue_reach_inv [OF assms(1)] assms
  by (auto simp: queue_inv_def compatible_def)

theorem running_tasks_compatible_witness:
  "kind (tasks two_running ! 0) \<noteq> kind (tasks two_running ! 1) \<and> \<not> policy_sync (tasks two_running ! 0)"
proof -
  let ?ts = "tasks two_running"
  have len: "length ?ts = 2" using arg_cong [OF two_running_tasks, of length] by simp
  have "map (\<lambda>t. (status t, repo_id t, kind t)) ?ts ! 0 = (Running, ''r'', Sync)"
    "map (\<lambda>t. (status t, repo_id t, kind t)) ?ts ! 1 = (Running, ''r'', EmbeddingsBootstrap)"
    unfolding two_running_tasks by simp_all
  then have rows: "status (?ts ! 0) = Running" "status (?ts ! 1) = Running" "repo_id (?ts ! 0) = repo_id (?ts ! 1)"
    using len by simp_all
  from running_tasks_compatible [OF sample_reach(3), of 0 1] len rows show ?thesis by simp
qed

text \<open>C5: in every reachable state each task's kind is that of its specification, exactly the queued
  and running tasks have no completion time, and a running task has a start time.\<close>

theorem task_records_well_formed:
  assumes "queue_reach st" "t \<in> set (tasks st)"
  shows "kind t = task_kind_from_spec (spec t) \<and>
    (completed_at_unix t = None \<longleftrightarrow> status t = Queued \<or> status t = Running) \<and>
    (status t = Running \<longrightarrow> started_at_unix t \<noteq> None)"
  using queue_reach_inv [OF assms(1)] assms(2)
  by (auto simp: queue_inv_def list_all_iff task_ok_def active_def)

theorem task_records_well_formed_witness:
  "started_at_unix (hd (tasks two_running)) \<noteq> None \<and> completed_at_unix (hd (tasks two_running)) = None"
proof -
  have "tasks two_running \<noteq> []" using two_running_tasks by auto
  then have mem: "hd (tasks two_running) \<in> set (tasks two_running)" by simp
  have "status (hd (tasks two_running)) = Running"
    using two_running_tasks by (cases "tasks two_running") auto
  then show ?thesis using task_records_well_formed [OF sample_reach(3) mem] by simp
qed


text \<open>C4: the queue is never stuck: if some task waits in a repository that is neither paused nor
  blocked by a running spool job and in which nothing runs, a scheduling pass starts a task of that
  repository.\<close>

theorem scheduling_makes_progress:
  assumes "t \<in> set (tasks st)" "status t = Queued"
    and "repo_id t \<notin> paused_repo_ids st" "repo_id t \<notin> blocked"
    and "\<forall>u \<in> set (tasks st). status u = Running \<longrightarrow> repo_id u \<noteq> repo_id t"
  shows "\<exists>st' scheduled. schedule_body now blocked st = Inr (st', scheduled) \<and>
    (\<exists>u \<in> set scheduled. repo_id u = repo_id t \<and> status u = Running)"
proof -
  let ?ts = "tasks st"
  have waiting: "status u = Queued" if "u \<in> set ?ts" "active u" "repo_id u = repo_id t" for u
    using assms(5) that by (auto simp: active_def)
  have start: "may_start st blocked u"
    if u: "u \<in> set ?ts" "status u = Queued" "repo_id u = repo_id t"
      and "policy_sync u \<or> (\<forall>v \<in> set ?ts. repo_id v = repo_id t \<and> active v \<longrightarrow> \<not> policy_sync v)"
      and "kind u = Ingest \<longrightarrow> (\<forall>v \<in> set ?ts. repo_id v = repo_id t \<and> active v \<longrightarrow> kind v \<noteq> Sync)" for u
    using that assms(3-5)
    by (auto simp: may_start_def policy_sync_def repo_policy_change_blocked_repo_ids_def running_lanes_def
        sync_blocked_ingest_repo_ids_def running_repo_ids_def task_lane_def image_iff)
  obtain u where u: "u \<in> set ?ts" "repo_id u = repo_id t" "may_start st blocked u"
  proof (cases "\<exists>v \<in> set ?ts. repo_id v = repo_id t \<and> active v \<and> policy_sync v")
    case True
    then obtain v where "v \<in> set ?ts" "repo_id v = repo_id t" "active v" "policy_sync v" by blast
    then show ?thesis using that start [of v] waiting [of v] by (auto simp: policy_sync_def)
  next
    case no_policy: False
    show ?thesis
    proof (cases "kind t = Ingest \<and> (\<exists>v \<in> set ?ts. repo_id v = repo_id t \<and> active v \<and> kind v = Sync)")
      case True
      then obtain v where "v \<in> set ?ts" "repo_id v = repo_id t" "active v" "kind v = Sync" by blast
      then show ?thesis using that start [of v] waiting [of v] no_policy by auto
    next
      case False
      then show ?thesis using that start [of t] assms(1,2) no_policy by auto
    qed
  qed
  then obtain j where j: "j < length ?ts" "?ts ! j = u" by (auto simp: in_set_conv_nth)
  obtain i where i: "i \<in> set (next_runnable_task_indexes_blocking_repo_ids st blocked)"
    "task_lane (?ts ! i) = task_lane u"
    using next_runnable_spec(3) [of j st blocked] j u by auto
  obtain st' scheduled where b: "schedule_body now blocked st = Inr (st', scheduled)"
    using schedule_total [of now blocked st] by auto
  have "start_task now (?ts ! i) \<in> set scheduled" using schedule_result(1) [OF b] i by simp
  moreover have "repo_id (?ts ! i) = repo_id t" using i(2) u(2) by (simp add: task_lane_def)
  ultimately have "\<exists>u \<in> set scheduled. repo_id u = repo_id t \<and> status u = Running"
    by (intro bexI [of _ "start_task now (?ts ! i)"]) simp_all
  then show ?thesis using b by blast
qed

theorem scheduling_makes_progress_witness:
  "\<exists>st' scheduled. schedule_body 3 {} one_queued = Inr (st', scheduled) \<and>
    (\<exists>u \<in> set scheduled. repo_id u = ''r'' \<and> status u = Running)"
proof -
  obtain t where t: "tasks one_queued = [t]" "status t = Queued" "repo_id t = ''r''"
    using one_queued_tasks by (auto simp: map_eq_Cons_conv)
  have "repo_controls one_queued = []" by code_simp
  then have "repo_id t \<notin> paused_repo_ids one_queued" by (simp add: paused_repo_ids_def)
  from scheduling_makes_progress [of t one_queued "{}" 3] this t show ?thesis by simp
qed


text \<open>When a task's mode and snapshot include what a submission asked for.\<close>

definition covers :: "sync_task_mode \<Rightarrow> sync_task_mode \<Rightarrow> bool" where
  "covers m wanted \<longleftrightarrow>
     (case wanted of
        Validate \<Rightarrow> m = Validate
      | Repair \<Rightarrow> m = Repair
      | Full \<Rightarrow> m = Full \<or> m = Repair
      | Auto \<Rightarrow> m = Auto \<or> m = Full \<or> m = Repair
      | Paths ps \<Rightarrow> m = Auto \<or> m = Full \<or> m = Repair \<or>
          (case m of Paths qs \<Rightarrow> set ps \<subseteq> set qs | _ \<Rightarrow> False))"

definition covers_snapshot :: "post_commit_snapshot_spec option \<Rightarrow> post_commit_snapshot_spec option \<Rightarrow> bool" where
  "covers_snapshot s wanted \<longleftrightarrow>
     (case wanted of None \<Rightarrow> True
      | Some w \<Rightarrow> (case s of None \<Rightarrow> False
          | Some e \<Rightarrow> snap_commit_sha e = snap_commit_sha w \<and> set (snap_changed_paths w) \<subseteq> set (snap_changed_paths e)))"

definition covered_by :: "string \<Rightarrow> sync_task_spec \<Rightarrow> devql_task_record \<Rightarrow> bool" where
  "covered_by repo s t \<longleftrightarrow> active t \<and> repo_id t = repo \<and>
     (case sync_spec_of (spec t) of None \<Rightarrow> False
      | Some e \<Rightarrow> covers (sync_mode e) (sync_mode s) \<and>
          covers_snapshot (post_commit_snapshot e) (post_commit_snapshot s))"

lemma covers_refl [simp]: "covers m m"
  by (cases m) (simp_all add: covers_def)

lemma covers_snapshot_refl [simp]: "covers_snapshot s s"
  by (cases s) (simp_all add: covers_snapshot_def)

lemma merge_snapshot_covers:
  assumes "sync_specs_have_compatible_snapshots e s"
  shows "covers_snapshot (post_commit_snapshot (merge_sync_snapshot_metadata (e\<lparr>sync_mode := m\<rparr>) s)) (post_commit_snapshot s)"
  using assms
  by (auto simp: sync_specs_have_compatible_snapshots_def merge_sync_snapshot_metadata_def
      covers_snapshot_def extend_snapshot_def split: option.splits)

lemma merge_mode_covers:
  assumes "absorbs m wanted st" "wanted \<noteq> Validate"
  shows "covers (merge_sync_modes m wanted) wanted"
  using assms
  by (cases m; cases wanted) (simp_all add: absorbs_def merge_sync_modes_def covers_def is_full_like_def
      is_weaker_than_repair_def is_paths_def is_stronger_than_paths_def)

lemma merge_snapshot_mode [simp]: "sync_mode (merge_sync_snapshot_metadata e s) = sync_mode e"
  by (simp add: merge_sync_snapshot_metadata_def split: option.splits)

lemma merge_into_covers:
  assumes "merges_into cfg src s init t" "sync_mode s \<noteq> Validate"
  shows "covered_by (cfg_repo_id cfg) s (merge_into now src s t)"
proof -
  obtain e where e: "spec t = SyncSpec e" using assms(1) by (cases "spec t") (auto simp: merges_into_def)
  have m: "active t" "repo_id t = cfg_repo_id cfg" "sync_specs_have_compatible_snapshots e s"
    "absorbs (sync_mode e) (sync_mode s) (status t)"
    using assms(1) e by (auto simp: merges_into_def)
  show ?thesis
    using m merge_snapshot_covers [OF m(3)] merge_mode_covers [OF m(4) assms(2)] e
    by (simp add: covered_by_def merge_into_def Let_def active_def)
qed

lemma merge_paths_into_covers:
  assumes "merges_paths_into cfg src s init t" "sync_mode s = Paths ps"
  shows "covered_by (cfg_repo_id cfg) s (merge_paths_into now ps s t)"
proof -
  obtain e where e: "spec t = SyncSpec e" using assms(1) by (cases "spec t") (auto simp: merges_paths_into_def)
  then have m: "status t = Queued" "repo_id t = cfg_repo_id cfg" "sync_specs_have_compatible_snapshots e s"
    "is_paths (sync_mode e)"
    using assms(1) by (auto simp: merges_paths_into_def)
  obtain qs where "sync_mode e = Paths qs" using m(4) by (cases "sync_mode e") (auto simp: is_paths_def)
  then show ?thesis
    using m assms(2) e
    by (auto simp: covered_by_def merge_paths_into_def Let_def active_def covers_def covers_snapshot_def
        sync_specs_have_compatible_snapshots_def extend_snapshot_def split: option.splits)
qed

lemma enqueue_covered:
  assumes "enqueue_body now uuid cfg src (SyncSpec s) init st = Inr (st', r)"
  shows "\<exists>t \<in> set (tasks st'). covered_by (cfg_repo_id cfg) s t \<and> task_id t = task_id (er_task r)"
proof (cases "merge_existing_task now st cfg src Sync (SyncSpec s) init")
  case None
  then show ?thesis using assms by (auto simp: enqueue_body_def Let_def new_task_def covered_by_def active_def)
next
  case (Some m)
  then obtain t where m: "m = (st', t)" "r = \<lparr>er_task = t, er_merged = True\<rparr>"
    using assms by (cases m) (auto simp: enqueue_body_def)
  have found: "t \<in> set us \<and> covered_by (cfg_repo_id cfg) s t"
    if u: "update_first p f (tasks st) = Some (us, t)"
      and each: "\<And>t. p t \<Longrightarrow> covered_by (cfg_repo_id cfg) s (f t)" for p f us
  proof -
    obtain i where "i < length (tasks st)" "p (tasks st ! i)" "us = (tasks st)[i := f (tasks st ! i)]" "t = f (tasks st ! i)"
      using update_first_Some [OF u] by blast
    then show ?thesis using each by (simp add: set_update_memI)
  qed
  have merge: "merge_existing_task now st cfg src Sync (SyncSpec s) init = Some (st', t)"
    using Some m(1) by simp
  show ?thesis
  proof (cases rule: merge_existing_sync_cases [OF merge sync_spec_of.simps(1), case_names 1 2])
    case 1
    have "t \<in> set (tasks st') \<and> covered_by (cfg_repo_id cfg) s t"
      using found [OF 1(3)] merge_into_covers [of cfg src s init _ now] 1(1,2) by simp
    then show ?thesis using m(2) by auto
  next
    case 2
    have "t \<in> set (tasks st') \<and> covered_by (cfg_repo_id cfg) s t"
      using found [OF 2(3)] merge_paths_into_covers [of cfg src s init _ _ now] 2(1,2) by simp
    then show ?thesis using m(2) by auto
  qed
qed

lemma enqueue_sync_covered:
  assumes "enqueue_with_init_session now p uuid cfg src (SyncSpec s) init st = Inr (st', r, changed)"
  shows "\<exists>t \<in> set (tasks st'). covered_by (cfg_repo_id cfg) s t \<and> task_id t = task_id (er_task r)"
proof -
  obtain st1 where b: "enqueue_body now uuid cfg src (SyncSpec s) init st = Inr (st1, r)" "st' = save_state now p st1"
    using assms by (auto simp: enqueue_with_init_session_def mutate_state_def Let_def)
  then obtain t where t: "t \<in> set (tasks st1)" "covered_by (cfg_repo_id cfg) s t" "task_id t = task_id (er_task r)"
    using enqueue_covered [OF b(1)] by blast
  then obtain u where u: "u \<in> set (tasks st')" "clear_position u = clear_position t"
    using active_saved [OF t(1), of now p] b(2) by (auto simp: covered_by_def)
  then have "covered_by (cfg_repo_id cfg) s u \<and> task_id u = task_id (er_task r)"
    using t clear_fields [OF u(2)] by (simp add: covered_by_def)
  then show ?thesis using u(1) by blast
qed

text \<open>C2: a committed sync submission is covered: the queue afterwards holds a queued or running task
  of the repository, the one reported to the caller, whose mode is at least the requested one (for a
  path sync, whose paths include all requested paths) and which carries the requested commit
  snapshot.\<close>

theorem submitted_sync_is_covered:
  assumes "enqueue_with_init_session now p uuid cfg src (SyncSpec s) init st = Inr (st', r, changed)"
  shows "\<exists>t \<in> set (tasks st'). covered_by (cfg_repo_id cfg) s t \<and> task_id t = task_id (er_task r)"
  using assms by (rule enqueue_sync_covered)

theorem submitted_sync_is_covered_witness:
  "\<exists>st' r changed. enqueue_with_init_session 4 {} ''u4'' sample_cfg Watcher
       (SyncSpec \<lparr>sync_mode = Paths [''a''], post_commit_snapshot = None\<rparr>) None one_queued = Inr (st', r, changed) \<and>
     (\<exists>t \<in> set (tasks st'). covered_by ''r'' \<lparr>sync_mode = Paths [''a''], post_commit_snapshot = None\<rparr> t)"
proof -
  let ?s = "\<lparr>sync_mode = Paths [''a''], post_commit_snapshot = None\<rparr>"
  obtain st1 r where "enqueue_body 4 ''u4'' sample_cfg Watcher (SyncSpec ?s) None one_queued = Inr (st1, r)"
    using enqueue_total [of 4 "''u4''" sample_cfg Watcher "SyncSpec ?s" None one_queued] by auto
  then obtain st' changed where e:
    "enqueue_with_init_session 4 {} ''u4'' sample_cfg Watcher (SyncSpec ?s) None one_queued = Inr (st', r, changed)"
    by (simp add: enqueue_with_init_session_def mutate_state_def Let_def)
  from submitted_sync_is_covered [OF e] have "\<exists>t \<in> set (tasks st'). covered_by ''r'' ?s t"
    by (auto simp: sample_cfg_def)
  then show ?thesis using e by blast
qed

text \<open>A full sync submitted while an automatic one runs in the repository is merged into the
  running task: no task is added, and the record of the running task now says full, although the
  worker that runs it received its specification, with the automatic mode, when it was started.\<close>

theorem full_sync_merged_into_running_auto:
  assumes "find_index (merges_into cfg src \<lparr>sync_mode = Full, post_commit_snapshot = None\<rparr> init) (tasks st) = Some i"
    and "status (tasks st ! i) = Running"
    and "spec (tasks st ! i) = SyncSpec \<lparr>sync_mode = Auto, post_commit_snapshot = None\<rparr>"
  shows "\<exists>st' t. enqueue_body now uuid cfg src (SyncSpec \<lparr>sync_mode = Full, post_commit_snapshot = None\<rparr>) init st
      = Inr (st', \<lparr>er_task = t, er_merged = True\<rparr>) \<and>
    length (tasks st') = length (tasks st) \<and> status t = Running \<and>
    spec t = SyncSpec \<lparr>sync_mode = Full, post_commit_snapshot = None\<rparr>"
proof -
  let ?s = "\<lparr>sync_mode = Full, post_commit_snapshot = None\<rparr>"
  let ?t = "merge_into now src ?s (tasks st ! i)"
  have "merge_existing_task now st cfg src Sync (SyncSpec ?s) init = Some (st\<lparr>tasks := (tasks st)[i := ?t]\<rparr>, ?t)"
    using assms(1) by (simp add: merge_existing_task_def update_first_def Let_def)
  moreover have "status ?t = Running" "spec ?t = SyncSpec ?s"
    using assms(2,3) by (simp_all add: merge_into_def Let_def merge_sync_modes_def merge_sync_snapshot_metadata_def)
  ultimately show ?thesis by (simp add: enqueue_body_def)
qed

theorem full_sync_merged_into_running_auto_witness:
  "\<exists>st' t. enqueue_body 9 ''u9'' sample_cfg ManualCli (SyncSpec \<lparr>sync_mode = Full, post_commit_snapshot = None\<rparr>) None
      two_running = Inr (st', \<lparr>er_task = t, er_merged = True\<rparr>) \<and>
    length (tasks st') = length (tasks two_running) \<and> status t = Running \<and>
    spec t = SyncSpec \<lparr>sync_mode = Full, post_commit_snapshot = None\<rparr>"
proof (rule full_sync_merged_into_running_auto)
  show "find_index (merges_into sample_cfg ManualCli \<lparr>sync_mode = Full, post_commit_snapshot = None\<rparr> None)
      (tasks two_running) = Some 0"
    by code_simp
  show "status (tasks two_running ! 0) = Running" by code_simp
  show "spec (tasks two_running ! 0) = SyncSpec \<lparr>sync_mode = Auto, post_commit_snapshot = None\<rparr>" by code_simp
qed

text \<open>Queue positions do not depend on the order in which the hash set of lanes is iterated.\<close>

theorem positions_independent_of_hash_order:
  assumes "distinct lanes" "set lanes = task_lane ` {t \<in> set ts. active t}"
  shows "recompute_lanes lanes ts = recompute_queue_positions ts"
proof (rule numbered_unique)
  show "numbered (set lanes) ts (recompute_lanes lanes ts)" by (rule recompute_lanes_numbered [OF assms(1)])
  show "numbered (set lanes) ts (recompute_queue_positions ts)"
    using recompute_numbered [of ts] assms(2) by (simp add: set_active_lanes)
qed

theorem positions_independent_of_hash_order_witness:
  "recompute_lanes [(''r'', EmbeddingsBootstrap), (''r'', Sync)] (tasks two_queued) =
   recompute_queue_positions (tasks two_queued)"
proof (rule positions_independent_of_hash_order)
  have "map (\<lambda>t. (active t, task_lane t)) (tasks two_queued) =
      [(True, (''r'', Sync)), (True, (''r'', EmbeddingsBootstrap))]" by code_simp
  then show "set [(''r'', EmbeddingsBootstrap), (''r'', Sync)] = task_lane ` {t \<in> set (tasks two_queued). active t}"
    by (force simp: map_eq_Cons_conv image_iff)
qed simp

lemma positions_of_lane:
  "map (\<lambda>i. queue_position (recompute_queue_positions ts ! i)) (lane_order ts l) =
     map (\<lambda>k. Some (k + 1)) [0..<length (lane_order ts l)]"
  "map (\<lambda>i. tasks_ahead (recompute_queue_positions ts ! i)) (lane_order ts l) =
     map Some [0..<length (lane_order ts l)]"
proof -
  let ?us = "recompute_queue_positions ts"
  have row: "?us ! (lane_order ts l ! k) = set_position k (clear_position (ts ! (lane_order ts l ! k)))"
    if "k < length (lane_order ts l)" for k
  proof -
    have "lane_order ts l ! k \<in> set (lane_order ts l)" using that by simp
    then have "l \<in> set (active_lanes ts)"
      by (auto simp: set_active_lanes lane_order_set image_iff intro: nth_mem)
    then show ?thesis using recompute_numbered [of ts] that by (simp add: numbered_def)
  qed
  show "map (\<lambda>i. queue_position (?us ! i)) (lane_order ts l) = map (\<lambda>k. Some (k + 1)) [0..<length (lane_order ts l)]"
    "map (\<lambda>i. tasks_ahead (?us ! i)) (lane_order ts l) = map Some [0..<length (lane_order ts l)]"
    by (rule nth_equalityI; simp add: row set_position_def)+
qed

text \<open>Recomputing numbers the queued and running tasks of each lane from 1 without a gap, the running
  one first and the others by the pending key, with one task fewer ahead than the position; no
  other task has a position, and nothing else of a task changes.\<close>

theorem queue_positions_number_each_lane:
  "let us = recompute_queue_positions ts in
   map clear_position us = map clear_position ts \<and>
   (\<forall>i < length ts. \<not> active (ts ! i) \<longrightarrow> queue_position (us ! i) = None \<and> tasks_ahead (us ! i) = None) \<and>
   (\<forall>l. set (lane_order ts l) = {i. i < length ts \<and> task_lane (ts ! i) = l \<and> active (ts ! i)} \<and>
      sorted (map (lane_sort_key ts) (lane_order ts l)) \<and>
      map (\<lambda>i. queue_position (us ! i)) (lane_order ts l) = map (\<lambda>k. Some (k + 1)) [0..<length (lane_order ts l)] \<and>
      map (\<lambda>i. tasks_ahead (us ! i)) (lane_order ts l) = map Some [0..<length (lane_order ts l)])"
proof -
  have idle: "recompute_queue_positions ts ! i = clear_position (ts ! i)" if "i < length ts" "\<not> active (ts ! i)" for i
    using recompute_numbered [of ts] that by (simp add: numbered_def)
  have order: "set (lane_order ts l) = {i. i < length ts \<and> task_lane (ts ! i) = l \<and> active (ts ! i)}" for l
    using lane_order_set [of _ ts l] by blast
  have "sorted (map (lane_sort_key ts) (lane_order ts l))" for l
    by (simp add: lane_order_def)
  then show ?thesis
    using idle order positions_of_lane [of ts] unfolding Let_def
    by (simp add: clear_position_def)
qed

theorem queue_positions_number_each_lane_witness:
  "map queue_position (recompute_queue_positions (tasks two_queued)) = [Some 1, Some 1] \<and>
   map clear_position (recompute_queue_positions (tasks two_queued)) = map clear_position (tasks two_queued)"
proof -
  have "map queue_position (recompute_queue_positions (tasks two_queued)) = [Some 1, Some 1]" by code_simp
  then show ?thesis using queue_positions_number_each_lane [of "tasks two_queued"] by (simp add: Let_def)
qed





text \<open>Recovery after a restart leaves no task running, and every task that was running is waiting
  again, its specification unchanged, its progress reset.\<close>

theorem recovery_requeues_running_tasks:
  assumes "mutate_state now p (recover_running_tasks_body now) st = Inr (st', x, changed)"
  shows "(\<forall>t \<in> set (tasks st'). status t \<noteq> Running) \<and>
    (\<forall>t \<in> set (tasks st). status t = Running \<longrightarrow>
      (\<exists>u \<in> set (tasks st'). task_id u = task_id t \<and> status u = Queued \<and> spec u = spec t \<and>
         started_at_unix u = None \<and> progress u = default_progress_for_spec (spec t)))"
proof -
  let ?f = "\<lambda>t. if status t = Running then reset_task now t else t"
  let ?st = "st\<lparr>tasks := map ?f (tasks st), last_action := Some ''recovered_running_tasks''\<rparr>"
  have st': "st' = save_state now p ?st"
    using assms by (auto simp: mutate_state_def recover_running_tasks_body_def Let_def)
  have "status t \<noteq> Running" if t: "t \<in> set (tasks st')" for t
  proof -
    obtain u where u: "u \<in> set (tasks ?st)" "clear_position t = clear_position u"
      using saved_row t st' by blast
    then show ?thesis using clear_fields(4) [OF u(2)] by (auto simp: reset_task_def)
  qed
  moreover have "\<exists>u \<in> set (tasks st'). task_id u = task_id t \<and> status u = Queued \<and> spec u = spec t \<and>
      started_at_unix u = None \<and> progress u = default_progress_for_spec (spec t)"
    if t: "t \<in> set (tasks st)" "status t = Running" for t
  proof -
    have mem: "reset_task now t \<in> set (tasks ?st)" using t by force
    moreover have "active (reset_task now t)" by (simp add: reset_task_def active_def)
    ultimately obtain u where u: "u \<in> set (tasks st')" "clear_position u = clear_position (reset_task now t)"
      using active_saved [of "reset_task now t" ?st now p] st' by blast
    have "started_at_unix u = started_at_unix (reset_task now t)" "progress u = progress (reset_task now t)"
      using u(2) by (cases u; cases t; simp add: clear_position_def reset_task_def)+
    then show ?thesis
      using u(1) clear_fields [OF u(2)] by (intro bexI [of _ u]) (simp_all add: reset_task_def)
  qed
  ultimately show ?thesis by blast
qed

theorem recovery_requeues_running_tasks_witness:
  "\<exists>st' x changed. mutate_state 30 {} (recover_running_tasks_body 30) two_running = Inr (st', x, changed) \<and>
     Running \<notin> status ` set (tasks st')"
proof -
  obtain st' changed where r: "mutate_state 30 {} (recover_running_tasks_body 30) two_running = Inr (st', (), changed)"
    by (simp add: mutate_state_def recover_running_tasks_body_def Let_def)
  from recovery_requeues_running_tasks [OF r] r show ?thesis by (metis imageE)
qed

end
