(* ===== verification/ProducerSpool.thy ===== *)
theory ProducerSpool
  imports TaskCoordinator
begin

text \<open>
  The producer spool, \<open>host/devql/producer_spool.rs\<close> and its modules: the SQLite table in which git
  hooks and watchers leave work for the daemon. The table is a list of rows; a transaction that
  fails leaves it as it was. The clock, the fresh identifiers, the hash of a pre-push request and
  the exclusion matcher of a repository (which may fail to load) are arguments.
\<close>

section \<open>Rows and payloads (producer_spool.rs)\<close>

definition CLAIM_BATCH_LIMIT :: nat where "CLAIM_BATCH_LIMIT = 16"
definition REQUEUE_BACKOFF_SECS :: nat where "REQUEUE_BACKOFF_SECS = 5"

datatype spool_status = SpoolPending | SpoolRunning

fun spool_status_as_str :: "spool_status \<Rightarrow> string" where
  "spool_status_as_str SpoolPending = ''pending''"
| "spool_status_as_str SpoolRunning = ''running''"

definition spool_status_parse :: "string \<Rightarrow> spool_status" where
  "spool_status_parse s = (if s = ''running'' then SpoolRunning else SpoolPending)"

datatype spool_payload =
    TaskPayload devql_task_source devql_task_spec
  | PostCommitRefresh string "string list"
  | PostCommitDerivation string "string list" bool
  | PostMergeRefresh string "string list"
  | PostMergeSyncRefresh string "string list" bool
  | PostMergeIngestBackfill string bool
  | PrePushSync string "string list"

record spool_job =
  job_id :: string
  job_repo_id :: string
  job_repo_root :: string
  job_config_root :: string
  job_repo_name :: string
  job_repo_provider :: string
  job_repo_organisation :: string
  job_repo_identity :: string
  dedupe_key :: "string option"
  payload :: spool_payload
  job_status :: spool_status
  attempts :: nat
  available_at :: nat
  job_submitted_at :: nat
  job_updated_at :: nat
  last_error :: "string option"

record spool_counts =
  pending_jobs :: nat
  running_jobs :: nat

record spool_insert =
  insert_dedupe_key :: "string option"
  insert_payload :: spool_payload

record spool_enqueue_result =
  inserted_jobs :: nat
  updated_jobs :: nat

section \<open>Admission (admission.rs)\<close>

datatype admission_class =
    PromoteVisibleTask devql_task_kind
  | ExpandVisibleTask devql_task_kind
  | ExpandVisibleTasks "devql_task_kind list"
  | InlineRepoExclusive

record spool_running_task =
  rt_repo_id :: string
  rt_kind :: devql_task_kind
  rt_source :: devql_task_source

fun admission_class_of :: "spool_payload \<Rightarrow> admission_class" where
  "admission_class_of (TaskPayload _ sp) = PromoteVisibleTask (task_kind_from_spec sp)"
| "admission_class_of (PostCommitRefresh _ _) = ExpandVisibleTask Sync"
| "admission_class_of (PostMergeSyncRefresh _ _ _) = ExpandVisibleTask Sync"
| "admission_class_of (PostMergeIngestBackfill _ _) = ExpandVisibleTask Ingest"
| "admission_class_of (PostMergeRefresh _ _) = ExpandVisibleTasks [Sync, Ingest]"
| "admission_class_of (PostCommitDerivation _ _ _) = InlineRepoExclusive"
| "admission_class_of (PrePushSync _ _) = InlineRepoExclusive"

definition conflicts_with_running_task :: "spool_payload \<Rightarrow> string \<Rightarrow> spool_running_task \<Rightarrow> bool" where
  "conflicts_with_running_task p repo t =
     (if rt_repo_id t \<noteq> repo then False
      else if rt_kind t = Sync \<and> rt_source t = RepoPolicyChange then True
      else (case admission_class_of p of
          PromoteVisibleTask k \<Rightarrow> rt_kind t = k
        | ExpandVisibleTask k \<Rightarrow> rt_kind t = k
        | ExpandVisibleTasks ks \<Rightarrow> rt_kind t \<in> set ks
        | InlineRepoExclusive \<Rightarrow> True))"

section \<open>Payloads (payload.rs)\<close>

definition keep_included :: "(string \<Rightarrow> bool) \<Rightarrow> string list \<Rightarrow> (string list \<Rightarrow> spool_payload) \<Rightarrow> spool_payload option" where
  "keep_included excludes paths rebuild =
     (let kept = filter (\<lambda>p. \<not> excludes p) paths in if kept = [] then None else Some (rebuild kept))"

definition prune_excluded_paths_from_payload :: "(string \<Rightarrow> bool) \<Rightarrow> spool_payload \<Rightarrow> spool_payload option" where
  "prune_excluded_paths_from_payload excludes p =
     (case p of
        TaskPayload src (SyncSpec s) \<Rightarrow>
          (case sync_mode s of
             Paths paths \<Rightarrow> keep_included excludes paths (\<lambda>kept.
               TaskPayload src (SyncSpec \<lparr>sync_mode = Paths kept, post_commit_snapshot = None\<rparr>))
           | _ \<Rightarrow> Some p)
      | PostCommitRefresh sha files \<Rightarrow> keep_included excludes files (PostCommitRefresh sha)
      | PostMergeRefresh sha files \<Rightarrow> keep_included excludes files (PostMergeRefresh sha)
      | PostMergeSyncRefresh sha files squash \<Rightarrow>
          keep_included excludes files (\<lambda>kept. PostMergeSyncRefresh sha kept squash)
      | _ \<Rightarrow> Some p)"

definition merge_pending_payload :: "spool_payload \<Rightarrow> spool_payload \<Rightarrow> spool_payload" where
  "merge_pending_payload existing incoming =
     (case (existing, incoming) of
        (TaskPayload src (SyncSpec s), TaskPayload src' (SyncSpec s')) \<Rightarrow>
          (case (sync_mode s, sync_mode s') of
             (Paths paths, Paths paths') \<Rightarrow>
               if src = src'
               then TaskPayload src (SyncSpec \<lparr>sync_mode = Paths (sort_dedup (paths @ paths')),
                      post_commit_snapshot = None\<rparr>)
               else incoming
           | _ \<Rightarrow> incoming)
      | (PostMergeSyncRefresh sha files squash, PostMergeSyncRefresh _ files' squash') \<Rightarrow>
          PostMergeSyncRefresh sha (sort_dedup (files @ files')) (squash \<or> squash')
      | _ \<Rightarrow> incoming)"

definition sync_task_spec_from_mode :: "host_sync_mode \<Rightarrow> sync_task_spec" where
  "sync_task_spec_from_mode mode = \<lparr>sync_mode = (case mode of
        HostAuto \<Rightarrow> Auto
      | HostFull \<Rightarrow> Full
      | HostPaths paths \<Rightarrow> Paths (normalize_paths paths)
      | HostRepair \<Rightarrow> Repair
      | HostValidate \<Rightarrow> Validate), post_commit_snapshot = None\<rparr>"

fun spool_sync_mode_key :: "sync_task_mode \<Rightarrow> string" where
  "spool_sync_mode_key Auto = ''auto''"
| "spool_sync_mode_key Full = ''full''"
| "spool_sync_mode_key Repair = ''repair''"
| "spool_sync_mode_key Validate = ''validate''"
| "spool_sync_mode_key (Paths _) = ''paths''"

text \<open>The \<open>filter_map\<close> over the commits with the set of those seen.\<close>

fun distinct_trimmed :: "string set \<Rightarrow> string list \<Rightarrow> string list" where
  "distinct_trimmed seen [] = []"
| "distinct_trimmed seen (c # cs) =
     (let c = trim c in
      if c = [] \<or> c \<in> seen then distinct_trimmed seen cs
      else c # distinct_trimmed (insert c seen) cs)"

definition spool_ingest_spec_key :: "ingest_task_spec \<Rightarrow> string" where
  "spool_ingest_spec_key s =
     (let commits = distinct_trimmed {} (ingest_commits s) in
      if ingest_commits s \<noteq> [] \<and> commits \<noteq> [] then ''commits:'' @ join_on '','' commits
      else case ingest_backfill s of Some n \<Rightarrow> dec n | None \<Rightarrow> ''all'')"

definition spool_task_dedupe_key :: "devql_task_source \<Rightarrow> devql_task_spec \<Rightarrow> string option" where
  "spool_task_dedupe_key src sp =
     (case sp of
        SyncSpec s \<Rightarrow> Some (''task:'' @ source_display src @ '':sync:'' @ spool_sync_mode_key (sync_mode s))
      | IngestSpec s \<Rightarrow> Some (''task:'' @ source_display src @ '':ingest:'' @ spool_ingest_spec_key s)
      | _ \<Rightarrow> None)"

section \<open>Transactions (storage.rs)\<close>

definition sql_i64 :: "nat \<Rightarrow> (string, nat) result" where
  "sql_i64 v = (if v < 2 ^ 63 then Inr v
     else Inl ''converting DevQL producer spool integer to sqlite i64'')"

type_synonym spool_table = "spool_job list"

type_synonym 'a spool_body = "spool_table \<Rightarrow> (string, spool_table \<times> 'a) result"

text \<open>\<open>BEGIN IMMEDIATE\<close>, the body, and \<open>COMMIT\<close> or \<open>ROLLBACK\<close>; a single statement is one too.\<close>

definition spool_transaction :: "'a spool_body \<Rightarrow> spool_table \<Rightarrow> spool_table \<times> (string, 'a) result" where
  "spool_transaction body jobs =
     (case body jobs of Inl e \<Rightarrow> (jobs, Inl e) | Inr (jobs', x) \<Rightarrow> (jobs', Inr x))"

definition delete_rows :: "string \<Rightarrow> spool_table \<Rightarrow> spool_table" where
  "delete_rows jid jobs = filter (\<lambda>j. job_id j \<noteq> jid) jobs"

definition update_rows_by_id :: "string \<Rightarrow> (spool_job \<Rightarrow> spool_job) \<Rightarrow> spool_table \<Rightarrow> spool_table" where
  "update_rows_by_id jid f jobs = map (\<lambda>j. if job_id j = jid then f j else j) jobs"

section \<open>Claiming and finishing (queue.rs)\<close>

text \<open>The pending rows are read in the order of submission before any of them is changed.\<close>

definition prune_row :: "(string \<Rightarrow> (string, string \<Rightarrow> bool) result) \<Rightarrow> nat \<Rightarrow> spool_job \<Rightarrow> spool_table
    \<Rightarrow> (string, spool_table) result" where
  "prune_row load_matcher now job jobs =
     and_then (load_matcher (job_repo_root job)) (\<lambda>excludes.
       case prune_excluded_paths_from_payload excludes (payload job) of
         None \<Rightarrow> Inr (delete_rows (job_id job) jobs)
       | Some p \<Rightarrow>
           if p \<noteq> payload job then
             and_then (sql_i64 now) (\<lambda>n.
               Inr (update_rows_by_id (job_id job)
                 (\<lambda>j. j\<lparr>payload := p, job_updated_at := n, last_error := None\<rparr>) jobs))
           else Inr jobs)"

definition prune_excluded_pending_producer_spool_jobs ::
    "(string \<Rightarrow> (string, string \<Rightarrow> bool) result) \<Rightarrow> nat \<Rightarrow> spool_table \<Rightarrow> (string, spool_table) result" where
  "prune_excluded_pending_producer_spool_jobs load_matcher now jobs =
     fold_result (prune_row load_matcher now)
       (sort_key (\<lambda>j. (job_submitted_at j, job_id j)) (filter (\<lambda>j. job_status j = SpoolPending) jobs)) jobs"

definition recover_running_body :: "(string \<Rightarrow> (string, string \<Rightarrow> bool) result) \<Rightarrow> nat \<Rightarrow> nat \<Rightarrow> nat spool_body" where
  "recover_running_body load_matcher prune_now now jobs =
     and_then (sql_i64 now) (\<lambda>n.
       let recovered = map (\<lambda>j. if job_status j = SpoolRunning
             then j\<lparr>job_status := SpoolPending, available_at := n, job_updated_at := n\<rparr> else j) jobs
       in and_then (prune_excluded_pending_producer_spool_jobs load_matcher prune_now recovered)
            (\<lambda>jobs'. Inr (jobs', length (filter (\<lambda>j. job_status j = SpoolRunning) jobs))))"

definition recover_running_producer_spool_jobs where
  "recover_running_producer_spool_jobs load_matcher prune_now now =
     spool_transaction (recover_running_body load_matcher prune_now now)"

definition load_running_repo_ids :: "spool_table \<Rightarrow> string set" where
  "load_running_repo_ids jobs = set (map job_repo_id (filter (\<lambda>j. job_status j = SpoolRunning) jobs))"

definition producer_spool_payload_priority :: "spool_payload \<Rightarrow> nat" where
  "producer_spool_payload_priority p = (case p of PostCommitDerivation _ _ _ \<Rightarrow> 1 | _ \<Rightarrow> 0)"

definition producer_spool_claim_sort_key :: "spool_job \<Rightarrow> nat \<times> nat \<times> nat \<times> string" where
  "producer_spool_claim_sort_key j =
     (available_at j, job_submitted_at j, producer_spool_payload_priority (payload j), job_id j)"

definition post_commit_derivation_is_blocked :: "spool_job \<Rightarrow> claim_guards \<Rightarrow> bool" where
  "post_commit_derivation_is_blocked j g =
     (case payload j of PostCommitDerivation sha _ _ \<Rightarrow> (job_repo_id j, sha) \<in> guard_blocked g | _ \<Rightarrow> False)"

definition post_commit_derivation_is_abandoned :: "spool_job \<Rightarrow> claim_guards \<Rightarrow> bool" where
  "post_commit_derivation_is_abandoned j g =
     (case payload j of PostCommitDerivation sha _ _ \<Rightarrow> (job_repo_id j, sha) \<in> guard_abandoned g | _ \<Rightarrow> False)"

text \<open>What the loop over the pending rows depends on.\<close>

record claim_env =
  ce_blocked_repo_ids :: "string set"
  ce_running_tasks :: "spool_running_task list"
  ce_guards :: claim_guards
  ce_running_repo_ids :: "string set"
  ce_now :: nat

definition claim_row :: "nat \<Rightarrow> spool_job \<Rightarrow> spool_job" where
  "claim_row now j = j\<lparr>job_status := SpoolRunning, attempts := min (2 ^ 32 - 1) (attempts j + 1), job_updated_at := now\<rparr>"

text \<open>The loop: the claimed repositories and jobs and the identifiers of abandoned jobs so far.\<close>

fun claim_loop :: "claim_env \<Rightarrow> spool_job list \<Rightarrow> string set \<Rightarrow> spool_job list \<Rightarrow> string list
    \<Rightarrow> spool_job list \<times> string list" where
  "claim_loop env [] claimed selected abandoned = (selected, abandoned)"
| "claim_loop env (job # jobs) claimed selected abandoned =
     (if job_repo_id job \<in> ce_blocked_repo_ids env then claim_loop env jobs claimed selected abandoned
      else if list_ex (conflicts_with_running_task (payload job) (job_repo_id job)) (ce_running_tasks env)
        then claim_loop env jobs claimed selected abandoned
      else if post_commit_derivation_is_abandoned job (ce_guards env)
        then claim_loop env jobs claimed selected (abandoned @ [job_id job])
      else if post_commit_derivation_is_blocked job (ce_guards env)
        then claim_loop env jobs claimed selected abandoned
      else if job_repo_id job \<in> ce_running_repo_ids env \<or> job_repo_id job \<in> claimed
        then claim_loop env jobs claimed selected abandoned
      else
        let selected = selected @ [claim_row (ce_now env) job] in
        if length selected \<ge> CLAIM_BATCH_LIMIT then (selected, abandoned)
        else claim_loop env jobs (insert (job_repo_id job) claimed) selected abandoned)"

definition claimable_rows :: "nat \<Rightarrow> spool_table \<Rightarrow> spool_job list" where
  "claimable_rows now jobs =
     sort_key producer_spool_claim_sort_key
       (sort_key (\<lambda>j. (available_at j, job_submitted_at j, job_id j))
         (filter (\<lambda>j. job_status j = SpoolPending \<and> available_at j \<le> now) jobs))"

definition mark_running :: "nat \<Rightarrow> spool_job list \<Rightarrow> spool_table \<Rightarrow> spool_table" where
  "mark_running now selected jobs =
     foldl (\<lambda>jobs job. update_rows_by_id (job_id job)
       (\<lambda>j. j\<lparr>job_status := SpoolRunning, attempts := attempts job, job_updated_at := now, last_error := None\<rparr>) jobs)
       jobs selected"

definition claim_body :: "(string \<Rightarrow> (string, string \<Rightarrow> bool) result) \<Rightarrow> nat \<Rightarrow> nat \<Rightarrow> string set
    \<Rightarrow> spool_running_task list \<Rightarrow> claim_guards \<Rightarrow> spool_job list spool_body" where
  "claim_body load_matcher prune_now now blocked_repo_ids running_tasks guards jobs =
     and_then (prune_excluded_pending_producer_spool_jobs load_matcher prune_now jobs) (\<lambda>jobs.
       and_then (sql_i64 now) (\<lambda>n.
         let env = \<lparr>ce_blocked_repo_ids = blocked_repo_ids, ce_running_tasks = running_tasks,
               ce_guards = guards, ce_running_repo_ids = load_running_repo_ids jobs, ce_now = n\<rparr>;
             (selected, abandoned) = claim_loop env (claimable_rows n jobs) {} [] [];
             jobs = foldl (\<lambda>jobs jid. delete_rows jid jobs) jobs abandoned
         in Inr (mark_running n selected jobs, selected)))"

definition claim_next_producer_spool_jobs_excluding where
  "claim_next_producer_spool_jobs_excluding load_matcher prune_now now blocked_repo_ids running_tasks guards =
     spool_transaction (claim_body load_matcher prune_now now blocked_repo_ids running_tasks guards)"

definition running_producer_spool_repo_ids :: "spool_table \<Rightarrow> string set" where
  "running_producer_spool_repo_ids jobs = set (map job_repo_id (filter (\<lambda>j. job_status j = SpoolRunning) jobs))"

definition list_recent_producer_spool_jobs :: "string \<Rightarrow> nat \<Rightarrow> spool_table \<Rightarrow> spool_job list" where
  "list_recent_producer_spool_jobs repo limit jobs =
     take (min (2 ^ 63 - 1) (max limit 1))
       (sort_key (\<lambda>j. (- int (job_updated_at j), - int (job_submitted_at j), job_id j))
         (filter (\<lambda>j. job_repo_id j = repo) jobs))"

definition count_producer_spool_jobs :: "string \<Rightarrow> spool_table \<Rightarrow> spool_counts" where
  "count_producer_spool_jobs repo jobs =
     (let rows = filter (\<lambda>j. job_repo_id j = repo) jobs in
      \<lparr>pending_jobs = sum_list (map (\<lambda>j. if job_status j = SpoolPending then 1 else 0) rows),
       running_jobs = sum_list (map (\<lambda>j. if job_status j = SpoolRunning then 1 else 0) rows)\<rparr>)"

definition delete_producer_spool_job :: "string \<Rightarrow> spool_table \<Rightarrow> spool_table \<times> (string, unit) result" where
  "delete_producer_spool_job jid = spool_transaction (\<lambda>jobs. Inr (delete_rows jid jobs, ()))"

definition requeue_producer_spool_job :: "nat \<Rightarrow> string \<Rightarrow> string \<Rightarrow> spool_table \<Rightarrow> spool_table \<times> (string, unit) result" where
  "requeue_producer_spool_job now jid err = spool_transaction (\<lambda>jobs.
     and_then (sql_i64 (min (2 ^ 64 - 1) (now + REQUEUE_BACKOFF_SECS))) (\<lambda>available.
     and_then (sql_i64 now) (\<lambda>n.
       Inr (update_rows_by_id jid (\<lambda>j. j\<lparr>job_status := SpoolPending, available_at := available,
         job_updated_at := n, last_error := Some err\<rparr>) jobs, ()))))"

section \<open>Enqueueing (enqueue.rs)\<close>

definition load_pending_deduped_job :: "string \<Rightarrow> string option \<Rightarrow> spool_table \<Rightarrow> spool_job option" where
  "load_pending_deduped_job repo key jobs =
     (case key of
        None \<Rightarrow> None
      | Some k \<Rightarrow> first_min_by (\<lambda>j. (job_submitted_at j, job_id j))
          (filter (\<lambda>j. job_repo_id j = repo \<and> dedupe_key j = Some k \<and> job_status j = SpoolPending) jobs))"

definition new_job :: "nat \<Rightarrow> string \<Rightarrow> devql_config \<Rightarrow> spool_insert \<Rightarrow> spool_job" where
  "new_job now uuid cfg ins =
     \<lparr>job_id = ''producer-spool-job-'' @ uuid, job_repo_id = cfg_repo_id cfg, job_repo_root = cfg_repo_root cfg,
      job_config_root = cfg_config_root cfg, job_repo_name = cfg_name cfg, job_repo_provider = cfg_provider cfg,
      job_repo_organisation = cfg_organization cfg, job_repo_identity = cfg_identity cfg,
      dedupe_key = insert_dedupe_key ins, payload = insert_payload ins, job_status = SpoolPending, attempts = 0,
      available_at = now, job_submitted_at = now, job_updated_at = now, last_error = None\<rparr>"

definition enqueue_job_body :: "nat \<Rightarrow> string \<Rightarrow> devql_config \<Rightarrow> spool_insert \<Rightarrow> spool_enqueue_result spool_body" where
  "enqueue_job_body now uuid cfg ins jobs =
     and_then (sql_i64 now) (\<lambda>n.
       case load_pending_deduped_job (cfg_repo_id cfg) (insert_dedupe_key ins) jobs of
         Some existing \<Rightarrow>
           (let p = merge_pending_payload (payload existing) (insert_payload ins) in
            Inr (update_rows_by_id (job_id existing)
                   (\<lambda>j. j\<lparr>payload := p, job_updated_at := n, available_at := n, last_error := None\<rparr>) jobs,
                 \<lparr>inserted_jobs = 0, updated_jobs = 1\<rparr>))
       | None \<Rightarrow> Inr (jobs @ [new_job n uuid cfg ins], \<lparr>inserted_jobs = 1, updated_jobs = 0\<rparr>))"

definition enqueue_job where
  "enqueue_job now uuid cfg ins = spool_transaction (enqueue_job_body now uuid cfg ins)"

definition enqueue_spooled_sync_task where
  "enqueue_spooled_sync_task now uuid cfg src mode =
     (let sp = SyncSpec (sync_task_spec_from_mode mode) in
      enqueue_job now uuid cfg \<lparr>insert_dedupe_key = spool_task_dedupe_key src sp, insert_payload = TaskPayload src sp\<rparr>)"

definition enqueue_spooled_ingest_task where
  "enqueue_spooled_ingest_task now uuid cfg src s =
     (let sp = IngestSpec s in
      enqueue_job now uuid cfg \<lparr>insert_dedupe_key = spool_task_dedupe_key src sp, insert_payload = TaskPayload src sp\<rparr>)"

definition enqueue_spooled_post_commit_refresh where
  "enqueue_spooled_post_commit_refresh now uuid cfg sha files =
     enqueue_job now uuid cfg \<lparr>insert_dedupe_key = Some (''post_commit:'' @ trim sha),
       insert_payload = PostCommitRefresh (trim sha) (normalize_paths files)\<rparr>"

definition enqueue_spooled_post_commit_derivation where
  "enqueue_spooled_post_commit_derivation now uuid cfg sha files rebasing =
     enqueue_job now uuid cfg \<lparr>insert_dedupe_key = Some (''post_commit_derivation:'' @ trim sha),
       insert_payload = PostCommitDerivation (trim sha) (normalize_paths files) rebasing\<rparr>"

text \<open>Two transactions, with a clock reading and an identifier each.\<close>

definition enqueue_spooled_post_merge_refresh :: "nat \<Rightarrow> string \<Rightarrow> nat \<Rightarrow> string \<Rightarrow> devql_config \<Rightarrow> string
    \<Rightarrow> string list \<Rightarrow> bool \<Rightarrow> spool_table \<Rightarrow> spool_table \<times> (string, spool_enqueue_result) result" where
  "enqueue_spooled_post_merge_refresh now uuid now' uuid' cfg head_sha files squash jobs =
     (let sha = trim head_sha in
      case enqueue_job now uuid cfg \<lparr>insert_dedupe_key = Some (''post_merge_sync:'' @ sha),
             insert_payload = PostMergeSyncRefresh sha (normalize_paths files) squash\<rparr> jobs of
        (jobs, Inl e) \<Rightarrow> (jobs, Inl e)
      | (jobs, Inr r) \<Rightarrow>
          if squash then (jobs, Inr r)
          else (case enqueue_job now' uuid' cfg \<lparr>insert_dedupe_key = Some (''post_merge_ingest:'' @ sha),
                       insert_payload = PostMergeIngestBackfill sha squash\<rparr> jobs of
              (jobs, Inl e) \<Rightarrow> (jobs, Inl e)
            | (jobs, Inr r') \<Rightarrow> (jobs, Inr \<lparr>inserted_jobs = inserted_jobs r + inserted_jobs r',
                                     updated_jobs = updated_jobs r + updated_jobs r'\<rparr>)))"

definition pre_push_key_input :: "string \<Rightarrow> string list \<Rightarrow> string" where
  "pre_push_key_input remote ls = remote @ nl @ concat (map (\<lambda>l. l @ nl) ls)"

definition enqueue_spooled_pre_push_sync where
  "enqueue_spooled_pre_push_sync sha256_hex now uuid cfg remote stdin_lines =
     (let normalized_lines = filter (\<lambda>l. l \<noteq> []) (map trim stdin_lines) in
      enqueue_job now uuid cfg
        \<lparr>insert_dedupe_key = Some (''pre_push:'' @ sha256_hex (pre_push_key_input (trim remote) normalized_lines)),
         insert_payload = PrePushSync (trim remote) normalized_lines\<rparr>)"

end
