(* ===== verification/SpoolTable.thy ===== *)
theory SpoolTable
  imports ProducerSpool
begin

text \<open>
  The invariant of the producer spool table and what each transaction does to the table: pruning as
  one pass, a claim as the first admitted row of each repository, and the contract by which every
  transaction keeps the invariant.
\<close>

section \<open>The invariant of the table\<close>

definition same_row :: "spool_job \<Rightarrow> spool_job \<Rightarrow> bool" where
  "same_row j j' \<longleftrightarrow> job_id j' = job_id j \<and> job_repo_id j' = job_repo_id j \<and> dedupe_key j' = dedupe_key j"

definition key_rows :: "string \<Rightarrow> string \<Rightarrow> spool_table \<Rightarrow> spool_job list" where
  "key_rows repo k jobs = filter (\<lambda>j. job_repo_id j = repo \<and> dedupe_key j = Some k) jobs"

definition one_running_per_repo :: "spool_table \<Rightarrow> bool" where
  "one_running_per_repo jobs \<longleftrightarrow> (\<forall>j \<in> set jobs. \<forall>j' \<in> set jobs.
     job_status j = SpoolRunning \<and> job_status j' = SpoolRunning \<and> job_repo_id j = job_repo_id j'
     \<longrightarrow> job_id j = job_id j')"

text \<open>A row under the key of a path sync holds a path sync of that source.\<close>

definition paths_key :: "devql_task_source \<Rightarrow> string" where
  "paths_key src = ''task:'' @ source_display src @ '':sync:paths''"

definition paths_payload :: "devql_task_source \<Rightarrow> string list \<Rightarrow> spool_payload" where
  "paths_payload src ps = TaskPayload src (SyncSpec \<lparr>sync_mode = Paths ps, post_commit_snapshot = None\<rparr>)"

definition key_matches :: "string option \<Rightarrow> spool_payload \<Rightarrow> bool" where
  "key_matches key p \<longleftrightarrow> (\<forall>src. key = Some (paths_key src) \<longrightarrow> (\<exists>ps. p = paths_payload src ps))"

definition spool_inv :: "spool_table \<Rightarrow> bool" where
  "spool_inv jobs \<longleftrightarrow> distinct (map job_id jobs) \<and> one_running_per_repo jobs \<and>
     (\<forall>repo k. length (key_rows repo k jobs) \<le> 2) \<and>
     (\<forall>j \<in> set jobs. key_matches (dedupe_key j) (payload j))"

text \<open>An update that keeps the identity of each row and starts none.\<close>

definition settles :: "spool_job \<Rightarrow> spool_job \<Rightarrow> bool" where
  "settles j j' \<longleftrightarrow> same_row j j' \<and> (job_status j' = SpoolRunning \<longrightarrow> job_status j = SpoolRunning) \<and>
     (key_matches (dedupe_key j) (payload j) \<longrightarrow> key_matches (dedupe_key j) (payload j'))"

lemma settles_refl [simp]: "settles j j"
  by (simp add: settles_def same_row_def)

lemma key_rows_map:
  assumes "\<And>j. j \<in> set jobs \<Longrightarrow> same_row j (f j)"
  shows "key_rows repo k (map f jobs) = map f (key_rows repo k jobs)"
  using assms by (induction jobs) (simp_all add: key_rows_def same_row_def)

lemma ids_map: "(\<And>j. j \<in> set jobs \<Longrightarrow> same_row j (f j)) \<Longrightarrow> map job_id (map f jobs) = map job_id jobs"
  by (simp add: same_row_def)

lemma one_running_map:
  assumes "one_running_per_repo jobs" "\<And>j. j \<in> set jobs \<Longrightarrow> settles j (f j)"
  shows "one_running_per_repo (map f jobs)"
  unfolding one_running_per_repo_def
proof (intro ballI impI, elim conjE)
  fix u v assume uv: "u \<in> set (map f jobs)" "v \<in> set (map f jobs)" "job_status u = SpoolRunning"
    "job_status v = SpoolRunning" "job_repo_id u = job_repo_id v"
  then obtain j j' where j: "j \<in> set jobs" "u = f j" and j': "j' \<in> set jobs" "v = f j'" by auto
  have "settles j u" "settles j' v" using assms(2) j j' by auto
  then have "job_status j = SpoolRunning" "job_status j' = SpoolRunning" "job_repo_id j = job_repo_id j'"
    "job_id u = job_id j" "job_id v = job_id j'"
    using uv by (simp_all add: settles_def same_row_def)
  then show "job_id u = job_id v" using assms(1) j(1) j'(1) unfolding one_running_per_repo_def by metis
qed

lemma spool_inv_map:
  assumes "spool_inv jobs" "\<And>j. j \<in> set jobs \<Longrightarrow> settles j (f j)"
  shows "spool_inv (map f jobs)"
proof -
  have same: "same_row j (f j)" if "j \<in> set jobs" for j using assms(2) that by (simp add: settles_def)
  have "one_running_per_repo (map f jobs)"
    using assms by (intro one_running_map) (auto simp: spool_inv_def)
  moreover have "\<forall>j \<in> set (map f jobs). key_matches (dedupe_key j) (payload j)"
    using assms by (auto simp: spool_inv_def settles_def same_row_def)
  ultimately show ?thesis
    using assms(1) unfolding spool_inv_def by (simp only: key_rows_map [OF same] ids_map [OF same] length_map) simp
qed

lemma spool_inv_filter:
  assumes "spool_inv jobs"
  shows "spool_inv (filter p jobs)"
proof -
  have "length (key_rows repo k (filter p jobs)) \<le> length (key_rows repo k jobs)" for repo k
    unfolding key_rows_def by (induction jobs) simp_all
  then have "\<forall>repo k. length (key_rows repo k (filter p jobs)) \<le> 2"
    using assms order_trans unfolding spool_inv_def by blast
  moreover have "distinct (map job_id (filter p jobs))"
    using assms unfolding spool_inv_def by (intro distinct_map_filter) blast
  moreover have "one_running_per_repo (filter p jobs)"
    using assms unfolding spool_inv_def one_running_per_repo_def by simp
  moreover have "\<forall>j \<in> set (filter p jobs). key_matches (dedupe_key j) (payload j)"
    using assms unfolding spool_inv_def by simp
  ultimately show ?thesis unfolding spool_inv_def by blast
qed

lemma spool_inv_delete: "spool_inv jobs \<Longrightarrow> spool_inv (delete_rows jid jobs)"
  unfolding delete_rows_def by (rule spool_inv_filter)

lemma spool_inv_update:
  assumes "spool_inv jobs" "\<And>j. j \<in> set jobs \<Longrightarrow> job_id j = jid \<Longrightarrow> settles j (f j)"
  shows "spool_inv (update_rows_by_id jid f jobs)"
  unfolding update_rows_by_id_def using assms by (intro spool_inv_map) auto

section \<open>The contract of a transaction\<close>

locale spool_operation =
  fixes pre :: "spool_table \<Rightarrow> bool" and body :: "'a spool_body"
  assumes keeps: "spool_inv jobs \<Longrightarrow> pre jobs \<Longrightarrow> body jobs = Inr (jobs', x) \<Longrightarrow> spool_inv jobs'"
begin

lemma transaction_keeps: "spool_inv jobs \<Longrightarrow> pre jobs \<Longrightarrow> spool_inv (fst (spool_transaction body jobs))"
  using keeps by (auto simp: spool_transaction_def split: sum.splits)

lemma rolls_back: "snd (spool_transaction body jobs) = Inl e \<Longrightarrow> fst (spool_transaction body jobs) = jobs"
  by (auto simp: spool_transaction_def split: sum.splits)

end

text \<open>All transactions but the claim start no job: a row that is running afterwards is the same row as
  before.\<close>

definition quiet :: "spool_table \<Rightarrow> spool_table \<Rightarrow> bool" where
  "quiet jobs jobs' \<longleftrightarrow> (\<forall>j \<in> set jobs'. job_status j = SpoolRunning \<longrightarrow> j \<in> set jobs)"

lemma quiet_refl [simp]: "quiet jobs jobs"
  by (simp add: quiet_def)

lemma quiet_update:
  assumes "\<And>j. j \<in> set jobs \<Longrightarrow> job_id j = jid \<Longrightarrow> job_status (f j) \<noteq> SpoolRunning"
  shows "quiet jobs (update_rows_by_id jid f jobs)"
  using assms by (auto simp: quiet_def update_rows_by_id_def)

locale quiet_operation = spool_operation pre body
  for pre :: "spool_table \<Rightarrow> bool" and body :: "'a spool_body" +
  assumes starts_none: "spool_inv jobs \<Longrightarrow> pre jobs \<Longrightarrow> body jobs = Inr (jobs', x) \<Longrightarrow> quiet jobs jobs'"
begin

lemma transaction_quiet: "spool_inv jobs \<Longrightarrow> pre jobs \<Longrightarrow> quiet jobs (fst (spool_transaction body jobs))"
  using starts_none by (auto simp: spool_transaction_def split: sum.splits)

end

interpretation delete_job: quiet_operation "\<lambda>_. True" "\<lambda>jobs. Inr (delete_rows jid jobs, ())" for jid
  by unfold_locales (use spool_inv_delete in \<open>auto simp: quiet_def delete_rows_def\<close>)

interpretation requeue_job: quiet_operation "\<lambda>_. True" "\<lambda>jobs.
     and_then (sql_i64 (min (2 ^ 64 - 1) (now + REQUEUE_BACKOFF_SECS))) (\<lambda>available.
     and_then (sql_i64 now) (\<lambda>n.
       Inr (update_rows_by_id jid (\<lambda>j. j\<lparr>job_status := SpoolPending, available_at := available,
         job_updated_at := n, last_error := Some err\<rparr>) jobs, ())))" for now jid err
  by unfold_locales (auto simp: settles_def same_row_def intro!: spool_inv_update quiet_update)

subsection \<open>Pruning\<close>

text \<open>What pruning makes of one row: no row, the row with a smaller payload, or the row.\<close>

definition pruned_row :: "(string \<Rightarrow> (string, string \<Rightarrow> bool) result) \<Rightarrow> nat \<Rightarrow> spool_job
    \<Rightarrow> (string, spool_job list) result" where
  "pruned_row load_matcher now j =
     and_then (load_matcher (job_repo_root j)) (\<lambda>excludes.
       case prune_excluded_paths_from_payload excludes (payload j) of
         None \<Rightarrow> Inr []
       | Some p \<Rightarrow>
           if p \<noteq> payload j then
             and_then (sql_i64 now) (\<lambda>n. Inr [j\<lparr>payload := p, job_updated_at := n, last_error := None\<rparr>])
           else Inr [j])"

definition row_out :: "(string \<Rightarrow> (string, string \<Rightarrow> bool) result) \<Rightarrow> nat \<Rightarrow> spool_job \<Rightarrow> spool_job list" where
  "row_out load_matcher now j = (case pruned_row load_matcher now j of Inl _ \<Rightarrow> [] | Inr out \<Rightarrow> out)"

definition row_ok :: "(string \<Rightarrow> (string, string \<Rightarrow> bool) result) \<Rightarrow> nat \<Rightarrow> spool_job \<Rightarrow> bool" where
  "row_ok load_matcher now j \<longleftrightarrow> (\<exists>out. pruned_row load_matcher now j = Inr out)"

text \<open>The reference: one pass over the table.\<close>

definition pruned_table :: "(string \<Rightarrow> (string, string \<Rightarrow> bool) result) \<Rightarrow> nat \<Rightarrow> (spool_job \<Rightarrow> bool)
    \<Rightarrow> spool_table \<Rightarrow> spool_table" where
  "pruned_table load_matcher now p jobs = concat (map (\<lambda>j. if p j then row_out load_matcher now j else [j]) jobs)"

lemma row_out_same:
  assumes "u \<in> set (row_out load_matcher now j)"
  shows "same_row j u" "job_status u = job_status j" "length (row_out load_matcher now j) \<le> 1"
  using assms
  by (auto simp: row_out_def pruned_row_def and_then_def same_row_def split: sum.splits option.splits if_splits)

lemma row_out_length: "length (row_out load_matcher now j) \<le> 1"
  by (auto simp: row_out_def pruned_row_def and_then_def split: sum.splits option.splits)

lemma delete_rows_concat: "delete_rows jid jobs = concat (map (\<lambda>j. if job_id j = jid then [] else [j]) jobs)"
  by (induction jobs) (simp_all add: delete_rows_def)

lemma update_rows_concat:
  "update_rows_by_id jid f jobs = concat (map (\<lambda>j. if job_id j = jid then [f j] else [j]) jobs)"
  by (induction jobs) (simp_all add: update_rows_by_id_def)

lemma concat_map_cong: "(\<And>x. x \<in> set xs \<Longrightarrow> f x = g x) \<Longrightarrow> concat (map f xs) = concat (map g xs)"
  by (metis map_eq_conv)

lemma by_id:
  assumes "distinct (map job_id jobs)" "r \<in> set jobs" "j \<in> set jobs" "job_id j = job_id r"
  shows "j = r"
  using assms by (metis distinct_map inj_on_def)

lemma prune_row_result:
  assumes "distinct (map job_id jobs)" "r \<in> set jobs"
  shows "prune_row load_matcher now r jobs = Inr jobs' \<longleftrightarrow>
    row_ok load_matcher now r \<and> jobs' = pruned_table load_matcher now (\<lambda>j. job_id j = job_id r) jobs"
proof -
  have out: "pruned_table load_matcher now (\<lambda>j. job_id j = job_id r) jobs =
      concat (map (\<lambda>j. if job_id j = job_id r then row_out load_matcher now r else [j]) jobs)"
    unfolding pruned_table_def using by_id [OF assms] by (intro concat_map_cong) auto
  have upd: "update_rows_by_id (job_id r) f jobs =
      concat (map (\<lambda>j. if job_id j = job_id r then [f r] else [j]) jobs)" for f :: "spool_job \<Rightarrow> spool_job"
    unfolding update_rows_concat using by_id [OF assms] by (intro concat_map_cong) auto
  have keep: "jobs = concat (map (\<lambda>j. if job_id j = job_id r then [r] else [j]) jobs)"
  proof -
    have "concat (map (\<lambda>j. if job_id j = job_id r then [r] else [j]) jobs) = concat (map (\<lambda>j. [j]) jobs)"
      using by_id [OF assms] by (intro concat_map_cong) auto
    then show ?thesis by simp
  qed
  show ?thesis
  proof (cases "load_matcher (job_repo_root r)")
    case (Inl e)
    then show ?thesis by (simp add: prune_row_def row_ok_def pruned_row_def)
  next
    case (Inr excludes)
    show ?thesis
    proof (cases "prune_excluded_paths_from_payload excludes (payload r)")
      case None
      then have r: "row_ok load_matcher now r" "row_out load_matcher now r = []"
        using Inr by (simp_all add: row_ok_def row_out_def pruned_row_def)
      show ?thesis unfolding out r(2) using r(1) None Inr by (auto simp: prune_row_def delete_rows_concat)
    next
      case (Some p)
      show ?thesis
      proof (cases "p = payload r")
        case True
        then have r: "row_ok load_matcher now r" "row_out load_matcher now r = [r]"
          using Inr Some by (simp_all add: row_ok_def row_out_def pruned_row_def)
        show ?thesis unfolding out r(2) keep [symmetric] using r(1) True Some Inr by (auto simp: prune_row_def)
      next
        case False
        show ?thesis
        proof (cases "sql_i64 now")
          case (Inl e)
          then show ?thesis using False Some \<open>load_matcher _ = _\<close>
            by (simp add: prune_row_def row_ok_def pruned_row_def)
        next
          case (Inr n)
          let ?r = "r\<lparr>payload := p, job_updated_at := n, last_error := None\<rparr>"
          have r: "row_ok load_matcher now r" "row_out load_matcher now r = [?r]"
            using Inr Some False \<open>load_matcher _ = _\<close> by (simp_all add: row_ok_def row_out_def pruned_row_def)
          show ?thesis unfolding out r(2) using r(1) False Some Inr \<open>load_matcher _ = _\<close>
            by (auto simp: prune_row_def upd)
        qed
      qed
    qed
  qed
qed

lemma pruned_table_set:
  "u \<in> set (pruned_table load_matcher now p jobs) \<longleftrightarrow>
     (\<exists>j \<in> set jobs. if p j then u \<in> set (row_out load_matcher now j) else u = j)"
  by (auto simp: pruned_table_def split: if_splits)

lemma pruned_table_ids_subset:
  "set (map job_id (pruned_table load_matcher now p jobs)) \<subseteq> set (map job_id jobs)"
  by (auto simp: pruned_table_set same_row_def dest!: row_out_same(1) split: if_splits)

lemma pruned_table_Cons: "pruned_table load_matcher now p (j # jobs) =
    (if p j then row_out load_matcher now j else [j]) @ pruned_table load_matcher now p jobs"
  by (simp add: pruned_table_def)

lemma pruned_table_distinct:
  "distinct (map job_id jobs) \<Longrightarrow> distinct (map job_id (pruned_table load_matcher now p jobs))"
proof (induction jobs)
  case (Cons j jobs)
  let ?head = "if p j then row_out load_matcher now j else [j]"
  have "length ?head \<le> 1" using row_out_length by simp
  then have "distinct (map job_id ?head)" by (cases ?head) auto
  moreover have "set (map job_id ?head) \<subseteq> {job_id j}"
    by (auto simp: same_row_def dest: row_out_same(1))
  moreover have "job_id j \<notin> set (map job_id jobs)" "distinct (map job_id (pruned_table load_matcher now p jobs))"
    using Cons by simp_all
  ultimately have "distinct (map job_id ?head)" "distinct (map job_id (pruned_table load_matcher now p jobs))"
    "set (map job_id ?head) \<inter> set (map job_id (pruned_table load_matcher now p jobs)) = {}"
    using pruned_table_ids_subset [of load_matcher now p jobs] by blast+
  then show ?case by (simp only: pruned_table_Cons map_append distinct_append)
qed (simp add: pruned_table_def)

lemma pruned_table_append:
  "pruned_table load_matcher now p (xs @ ys) = pruned_table load_matcher now p xs @ pruned_table load_matcher now p ys"
  by (simp add: pruned_table_def)

lemma pruned_table_none: "(\<And>j. j \<in> set jobs \<Longrightarrow> \<not> p j) \<Longrightarrow> pruned_table load_matcher now p jobs = jobs"
  by (induction jobs) (simp_all add: pruned_table_def)

lemma pruned_table_compose:
  assumes "\<And>j u. q j \<Longrightarrow> same_row j u \<Longrightarrow> \<not> p u"
  shows "pruned_table load_matcher now p (pruned_table load_matcher now q jobs) =
    pruned_table load_matcher now (\<lambda>j. q j \<or> p j) jobs"
proof (induction jobs)
  case (Cons j jobs)
  have "pruned_table load_matcher now p (row_out load_matcher now j) = row_out load_matcher now j" if "q j"
    using assms [OF that] row_out_same(1) by (intro pruned_table_none) blast
  then show ?case using Cons by (simp add: pruned_table_Cons pruned_table_append) (simp add: pruned_table_def)
qed (simp add: pruned_table_def)

lemma fold_prune_rows:
  assumes "distinct (map job_id jobs)" "distinct (map job_id rows)" "set rows \<subseteq> set jobs"
  shows "fold_result (prune_row load_matcher now) rows jobs = Inr jobs' \<longleftrightarrow>
    (\<forall>r \<in> set rows. row_ok load_matcher now r) \<and>
    jobs' = pruned_table load_matcher now (\<lambda>j. job_id j \<in> job_id ` set rows) jobs"
  using assms
proof (induction rows arbitrary: jobs)
  case Nil
  show ?case by (auto simp: pruned_table_none)
next
  case (Cons r rows)
  let ?q = "\<lambda>j. job_id j = job_id r"
  let ?mid = "pruned_table load_matcher now ?q jobs"
  have fresh: "job_id r \<notin> job_id ` set rows" using Cons.prems(2) by simp
  have "set rows \<subseteq> set ?mid"
  proof
    fix j assume "j \<in> set rows"
    then have "job_id j \<in> job_id ` set rows" by (rule imageI)
    then have "job_id j \<noteq> job_id r" using fresh by metis
    moreover have "j \<in> set jobs" using \<open>j \<in> set rows\<close> Cons.prems(3) by auto
    ultimately show "j \<in> set ?mid" unfolding pruned_table_set by (intro bexI [of _ j]) auto
  qed
  then have IH: "fold_result (prune_row load_matcher now) rows ?mid = Inr jobs' \<longleftrightarrow>
      (\<forall>r \<in> set rows. row_ok load_matcher now r) \<and>
      jobs' = pruned_table load_matcher now (\<lambda>j. job_id j \<in> job_id ` set rows) ?mid"
    using Cons pruned_table_distinct by simp
  have "pruned_table load_matcher now (\<lambda>j. job_id j \<in> job_id ` set rows) ?mid =
      pruned_table load_matcher now (\<lambda>j. job_id j \<in> job_id ` set (r # rows)) jobs"
    using fresh by (subst pruned_table_compose) (auto simp: same_row_def)
  moreover have "prune_row load_matcher now r jobs = Inr m \<longleftrightarrow> row_ok load_matcher now r \<and> m = ?mid" for m
    using Cons.prems by (intro prune_row_result) auto
  ultimately show ?case using IH by auto
qed

definition pending :: "spool_job \<Rightarrow> bool" where
  "pending j \<longleftrightarrow> job_status j = SpoolPending"

lemma prune_result:
  assumes "distinct (map job_id jobs)"
  shows "prune_excluded_pending_producer_spool_jobs load_matcher now jobs = Inr jobs' \<longleftrightarrow>
    (\<forall>j \<in> set jobs. pending j \<longrightarrow> row_ok load_matcher now j) \<and>
    jobs' = pruned_table load_matcher now pending jobs"
proof -
  let ?rows = "sort_key (\<lambda>j. (job_submitted_at j, job_id j)) (filter (\<lambda>j. job_status j = SpoolPending) jobs)"
  have "mset (map job_id ?rows) = mset (map job_id (filter (\<lambda>j. job_status j = SpoolPending) jobs))" by simp
  then have dist: "distinct (map job_id ?rows)"
    using distinct_map_filter [OF assms] mset_eq_imp_distinct_iff by blast
  have mem: "job_id j \<in> job_id ` set ?rows \<longleftrightarrow> pending j" if j: "j \<in> set jobs" for j
  proof
    assume "job_id j \<in> job_id ` set ?rows"
    then obtain r where r: "r \<in> set jobs" "job_status r = SpoolPending" "job_id r = job_id j" by auto
    then show "pending j" using by_id [OF assms j r(1,3)] by (simp add: pending_def)
  qed (use j in \<open>auto simp: pending_def\<close>)
  have "pruned_table load_matcher now (\<lambda>j. job_id j \<in> job_id ` set ?rows) jobs = pruned_table load_matcher now pending jobs"
    unfolding pruned_table_def using mem by (intro concat_map_cong) simp
  moreover have "set ?rows \<subseteq> set jobs" by auto
  ultimately show ?thesis
    unfolding prune_excluded_pending_producer_spool_jobs_def using fold_prune_rows [OF assms dist]
    by (auto simp: pending_def)
qed

lemma key_rows_Cons: "key_rows repo k (j # jobs) =
    (if job_repo_id j = repo \<and> dedupe_key j = Some k then [j] else []) @ key_rows repo k jobs"
  by (simp add: key_rows_def)

lemma key_rows_append: "key_rows repo k (xs @ ys) = key_rows repo k xs @ key_rows repo k ys"
  by (simp add: key_rows_def)

lemma pruned_table_keys: "length (key_rows repo k (pruned_table load_matcher now p jobs)) \<le> length (key_rows repo k jobs)"
proof (induction jobs)
  case (Cons j jobs)
  let ?head = "if p j then row_out load_matcher now j else [j]"
  have "length (key_rows repo k ?head) \<le> length (key_rows repo k [j])"
  proof (cases "p j \<and> row_out load_matcher now j \<noteq> []")
    case True
    then obtain u where u: "row_out load_matcher now j = [u]"
      using row_out_length [of load_matcher now j] by (cases "row_out load_matcher now j") auto
    then have "same_row j u" using row_out_same(1) [of u load_matcher now j] by simp
    then show ?thesis using True u by (simp add: key_rows_def same_row_def)
  qed (auto simp: key_rows_def)
  then show ?case using Cons unfolding pruned_table_Cons key_rows_append key_rows_Cons [of repo k j]
    by (simp add: key_rows_def)
qed (simp add: pruned_table_def)

lemma pruned_table_running:
  "u \<in> set (pruned_table load_matcher now pending jobs) \<Longrightarrow> job_status u = SpoolRunning \<Longrightarrow> u \<in> set jobs"
  by (auto simp: pruned_table_set pending_def dest: row_out_same(2) split: if_splits)

lemma prune_payload_key:
  assumes "key_matches key p" "prune_excluded_paths_from_payload excludes p = Some p'"
  shows "key_matches key p'"
  unfolding key_matches_def
proof (intro allI impI)
  fix src assume "key = Some (paths_key src)"
  then obtain ps where "p = paths_payload src ps" using assms(1) unfolding key_matches_def by blast
  then show "\<exists>qs. p' = paths_payload src qs"
    using assms(2) by (auto simp: paths_payload_def prune_excluded_paths_from_payload_def keep_included_def Let_def
        split: if_splits)
qed

lemma row_out_key:
  "key_matches (dedupe_key j) (payload j) \<Longrightarrow> u \<in> set (row_out load_matcher now j) \<Longrightarrow>
     key_matches (dedupe_key u) (payload u)"
  by (auto simp: row_out_def pruned_row_def and_then_def prune_payload_key split: sum.splits option.splits if_splits)

lemma spool_inv_pruned:
  assumes "spool_inv jobs"
  shows "spool_inv (pruned_table load_matcher now pending jobs)"
proof -
  let ?t = "pruned_table load_matcher now pending jobs"
  have "\<forall>u \<in> set ?t. key_matches (dedupe_key u) (payload u)"
    using assms row_out_key unfolding spool_inv_def pruned_table_set Ball_def by (metis (full_types))
  then show ?thesis
    using assms pruned_table_keys order_trans pruned_table_running pruned_table_distinct
    unfolding spool_inv_def one_running_per_repo_def by metis
qed

lemma prune_keeps:
  assumes "spool_inv jobs" "prune_excluded_pending_producer_spool_jobs load_matcher now jobs = Inr jobs'"
  shows "spool_inv jobs'" "jobs' = pruned_table load_matcher now pending jobs"
  using assms spool_inv_pruned [OF assms(1)] prune_result [of jobs] by (auto simp: spool_inv_def)

interpretation recover_jobs: quiet_operation "\<lambda>_. True" "recover_running_body load_matcher prune_now now"
  for load_matcher prune_now now
proof
  fix jobs jobs' x
  assume inv: "spool_inv jobs" and b: "recover_running_body load_matcher prune_now now jobs = Inr (jobs', x)"
  let ?recover = "\<lambda>n j. if job_status j = SpoolRunning
      then j\<lparr>job_status := SpoolPending, available_at := n, job_updated_at := n\<rparr> else j"
  obtain n where "prune_excluded_pending_producer_spool_jobs load_matcher prune_now (map (?recover n) jobs) = Inr jobs'"
    using b by (auto simp: recover_running_body_def Let_def)
  moreover have "spool_inv (map (?recover n) jobs)"
    using inv by (intro spool_inv_map) (auto simp: settles_def same_row_def)
  ultimately show "spool_inv jobs'" using prune_keeps(1) by blast
next
  fix jobs jobs' x
  assume inv: "spool_inv jobs" and b: "recover_running_body load_matcher prune_now now jobs = Inr (jobs', x)"
  let ?recover = "\<lambda>n j. if job_status j = SpoolRunning
      then j\<lparr>job_status := SpoolPending, available_at := n, job_updated_at := n\<rparr> else j"
  obtain n where n: "prune_excluded_pending_producer_spool_jobs load_matcher prune_now (map (?recover n) jobs) = Inr jobs'"
    using b by (auto simp: recover_running_body_def Let_def)
  have "spool_inv (map (?recover n) jobs)"
    using inv by (intro spool_inv_map) (auto simp: settles_def same_row_def)
  then have "jobs' = pruned_table load_matcher prune_now pending (map (?recover n) jobs)"
    using n prune_keeps(2) by blast
  moreover have "job_status (?recover n j) \<noteq> SpoolRunning" for j by simp
  ultimately have "job_status u \<noteq> SpoolRunning" if "u \<in> set jobs'" for u
    using that pruned_table_running [of u load_matcher prune_now "map (?recover n) jobs"] by auto
  then show "quiet jobs jobs'" by (simp add: quiet_def)
qed

subsection \<open>Claiming\<close>

text \<open>The jobs the guards of the loop let through, and of these the first of each repository.\<close>

definition admitted :: "claim_env \<Rightarrow> spool_job \<Rightarrow> bool" where
  "admitted env j \<longleftrightarrow> job_repo_id j \<notin> ce_blocked_repo_ids env \<and>
     (\<forall>t \<in> set (ce_running_tasks env). \<not> conflicts_with_running_task (payload j) (job_repo_id j) t) \<and>
     \<not> post_commit_derivation_is_abandoned j (ce_guards env) \<and>
     \<not> post_commit_derivation_is_blocked j (ce_guards env) \<and>
     job_repo_id j \<notin> ce_running_repo_ids env"

definition dropped :: "claim_env \<Rightarrow> spool_job \<Rightarrow> bool" where
  "dropped env j \<longleftrightarrow> job_repo_id j \<notin> ce_blocked_repo_ids env \<and>
     (\<forall>t \<in> set (ce_running_tasks env). \<not> conflicts_with_running_task (payload j) (job_repo_id j) t) \<and>
     post_commit_derivation_is_abandoned j (ce_guards env)"

fun first_of_each_repo :: "string set \<Rightarrow> spool_job list \<Rightarrow> spool_job list" where
  "first_of_each_repo seen [] = []"
| "first_of_each_repo seen (j # jobs) =
     (if job_repo_id j \<in> seen then first_of_each_repo seen jobs
      else j # first_of_each_repo (insert (job_repo_id j) seen) jobs)"

lemma claim_loop_Cons:
  "claim_loop env (job # jobs) claimed selected abandoned =
     (if admitted env job \<and> job_repo_id job \<notin> claimed then
        if length selected + 1 \<ge> CLAIM_BATCH_LIMIT then (selected @ [claim_row (ce_now env) job], abandoned)
        else claim_loop env jobs (insert (job_repo_id job) claimed) (selected @ [claim_row (ce_now env) job]) abandoned
      else claim_loop env jobs claimed selected (if dropped env job then abandoned @ [job_id job] else abandoned))"
  by (simp add: admitted_def dropped_def list_ex_iff Let_def)

declare claim_loop.simps(2) [simp del]

lemma claim_loop_selects:
  "length selected < CLAIM_BATCH_LIMIT \<Longrightarrow>
   fst (claim_loop env jobs claimed selected abandoned) = selected @ map (claim_row (ce_now env))
     (take (CLAIM_BATCH_LIMIT - length selected) (first_of_each_repo claimed (filter (admitted env) jobs)))"
proof (induction jobs arbitrary: claimed selected abandoned)
  case (Cons job jobs)
  show ?case
  proof (cases "admitted env job \<and> job_repo_id job \<notin> claimed")
    case False
    then show ?thesis using Cons unfolding claim_loop_Cons by auto
  next
    case True
    show ?thesis
    proof (cases "length selected + 1 \<ge> CLAIM_BATCH_LIMIT")
      case full: True
      then have "CLAIM_BATCH_LIMIT - length selected = 1" using Cons.prems by simp
      then show ?thesis using True full unfolding claim_loop_Cons by simp
    next
      case more: False
      have "CLAIM_BATCH_LIMIT - length selected = Suc (CLAIM_BATCH_LIMIT - Suc (length selected))"
        using Cons.prems by simp
      then show ?thesis using True more Cons.IH [of "selected @ [claim_row (ce_now env) job]"]
        unfolding claim_loop_Cons by simp
    qed
  qed
qed simp

lemma claim_loop_drops:
  "set (snd (claim_loop env jobs claimed selected abandoned)) \<subseteq> set abandoned \<union> job_id ` {j \<in> set jobs. dropped env j}"
proof (induction jobs arbitrary: claimed selected abandoned)
  case (Cons job jobs)
  let ?D = "job_id ` {j \<in> set (job # jobs). dropped env j}"
  have sub: "job_id ` {j \<in> set jobs. dropped env j} \<subseteq> ?D" by auto
  show ?case
  proof (cases "admitted env job \<and> job_repo_id job \<notin> claimed")
    case True
    then show ?thesis using order_trans [OF Cons.IH Un_mono [OF order_refl sub]]
      unfolding claim_loop_Cons by (simp del: set_simps)
  next
    case False
    then have eq: "claim_loop env (job # jobs) claimed selected abandoned =
        claim_loop env jobs claimed selected (if dropped env job then abandoned @ [job_id job] else abandoned)"
      unfolding claim_loop_Cons by (rule if_not_P)
    show ?thesis
    proof (cases "dropped env job")
      case True
      then show ?thesis using Cons.IH [of claimed selected "abandoned @ [job_id job]"] unfolding eq by auto
    next
      case False
      then show ?thesis using order_trans [OF Cons.IH Un_mono [OF order_refl sub]] unfolding eq by simp
    qed
  qed
qed simp

lemma claim_loop_drops_all:
  "length (fst (claim_loop env jobs claimed selected abandoned)) < CLAIM_BATCH_LIMIT \<Longrightarrow>
   set abandoned \<union> job_id ` {j \<in> set jobs. dropped env j} \<subseteq> set (snd (claim_loop env jobs claimed selected abandoned))"
proof (induction jobs arbitrary: claimed selected abandoned)
  case (Cons job jobs)
  have excl: "admitted env job \<Longrightarrow> \<not> dropped env job" by (simp add: admitted_def dropped_def)
  show ?case
  proof (cases "admitted env job \<and> job_repo_id job \<notin> claimed")
    case True
    then have more: "length selected + 1 < CLAIM_BATCH_LIMIT"
      using Cons.prems unfolding claim_loop_Cons by (simp split: if_splits)
    then have "claim_loop env (job # jobs) claimed selected abandoned =
        claim_loop env jobs (insert (job_repo_id job) claimed) (selected @ [claim_row (ce_now env) job]) abandoned"
      using True unfolding claim_loop_Cons by simp
    then show ?thesis using Cons.IH [of "insert (job_repo_id job) claimed" "selected @ [claim_row (ce_now env) job]" abandoned]
        Cons.prems excl True by auto
  next
    case False
    then have eq: "claim_loop env (job # jobs) claimed selected abandoned =
        claim_loop env jobs claimed selected (if dropped env job then abandoned @ [job_id job] else abandoned)"
      unfolding claim_loop_Cons by (rule if_not_P)
    show ?thesis
    proof (cases "dropped env job")
      case True
      then have "set (abandoned @ [job_id job]) \<union> job_id ` {j \<in> set jobs. dropped env j} =
          set abandoned \<union> job_id ` {j \<in> set (job # jobs). dropped env j}" by auto
      then show ?thesis using True Cons.IH [of claimed selected "abandoned @ [job_id job]"] Cons.prems
        unfolding eq by simp
    next
      case False
      then have "{j \<in> set (job # jobs). dropped env j} = {j \<in> set jobs. dropped env j}" by auto
      then show ?thesis using False Cons.IH [of claimed selected abandoned] Cons.prems unfolding eq by simp
    qed
  qed
qed simp

lemma first_of_each_repo_in:
  "j \<in> set (first_of_each_repo seen jobs) \<Longrightarrow> j \<in> set jobs \<and> job_repo_id j \<notin> seen"
  by (induction seen jobs rule: first_of_each_repo.induct) (auto split: if_splits)

lemma first_of_each_repo_distinct: "distinct (map job_repo_id (first_of_each_repo seen jobs))"
  by (induction seen jobs rule: first_of_each_repo.induct) (auto dest: first_of_each_repo_in)

text \<open>The claimed rows by one pass over the table.\<close>

definition started :: "nat \<Rightarrow> spool_job \<Rightarrow> spool_job \<Rightarrow> spool_job" where
  "started now s j = j\<lparr>job_status := SpoolRunning, attempts := attempts s, job_updated_at := now, last_error := None\<rparr>"

definition mark_row :: "nat \<Rightarrow> spool_job list \<Rightarrow> spool_job \<Rightarrow> spool_job" where
  "mark_row now selected j = (case find (\<lambda>s. job_id s = job_id j) selected of None \<Rightarrow> j | Some s \<Rightarrow> started now s j)"

lemma started_simps [simp]:
  "job_id (started now s j) = job_id j" "job_repo_id (started now s j) = job_repo_id j"
  "dedupe_key (started now s j) = dedupe_key j" "payload (started now s j) = payload j"
  "job_status (started now s j) = SpoolRunning" "attempts (started now s j) = attempts s"
  "available_at (started now s j) = available_at j" "job_submitted_at (started now s j) = job_submitted_at j"
  by (simp_all add: started_def)

lemma find_None: "find p xs = None \<longleftrightarrow> (\<forall>x \<in> set xs. \<not> p x)"
  by (induction xs) auto

lemma find_SomeD: "find p xs = Some x \<Longrightarrow> x \<in> set xs \<and> p x"
  by (induction xs) (auto split: if_splits)

lemma mark_running_map:
  "distinct (map job_id selected) \<Longrightarrow> mark_running now selected jobs = map (mark_row now selected) jobs"
proof (induction selected arbitrary: jobs)
  case Nil
  show ?case by (simp add: mark_running_def mark_row_def)
next
  case (Cons s selected)
  have "mark_running now (s # selected) jobs =
      mark_running now selected (map (\<lambda>j. if job_id j = job_id s then started now s j else j) jobs)"
    unfolding mark_running_def update_rows_by_id_def started_def by simp
  also have "\<dots> = map (mark_row now selected \<circ> (\<lambda>j. if job_id j = job_id s then started now s j else j)) jobs"
    using Cons by simp
  also have "\<dots> = map (mark_row now (s # selected)) jobs"
  proof (rule map_cong [OF refl])
    fix j
    have "find (\<lambda>x. job_id x = job_id s) selected = None"
      using Cons.prems by (auto simp: find_None image_iff)
    then show "(mark_row now selected \<circ> (\<lambda>j. if job_id j = job_id s then started now s j else j)) j =
        mark_row now (s # selected) j"
      by (cases "job_id j = job_id s") (simp_all add: mark_row_def eq_commute)
  qed
  finally show ?case .
qed

lemma mark_row_same [simp]:
  "job_id (mark_row now selected j) = job_id j" "job_repo_id (mark_row now selected j) = job_repo_id j"
  "dedupe_key (mark_row now selected j) = dedupe_key j" "payload (mark_row now selected j) = payload j"
  by (simp_all add: mark_row_def split: option.splits)

lemma mark_row_running:
  "job_status (mark_row now selected j) = SpoolRunning \<longleftrightarrow>
     job_status j = SpoolRunning \<or> (\<exists>s \<in> set selected. job_id s = job_id j)"
  by (auto simp: mark_row_def find_None find_Some_iff split: option.splits)

lemma delete_all: "foldl (\<lambda>jobs jid. delete_rows jid jobs) jobs jids = filter (\<lambda>j. job_id j \<notin> set jids) jobs"
proof (induction jids arbitrary: jobs)
  case (Cons jid jids)
  have "filter (\<lambda>j. job_id j \<notin> set jids) (delete_rows jid jobs) = filter (\<lambda>j. job_id j \<notin> set (jid # jids)) jobs"
    unfolding delete_rows_def filter_filter by (intro filter_cong) auto
  then show ?case using Cons by simp
qed simp

text \<open>A committed claim: the rows taken, and the table they leave.\<close>

definition claim_env_of :: "string set \<Rightarrow> spool_running_task list \<Rightarrow> claim_guards \<Rightarrow> nat \<Rightarrow> spool_table \<Rightarrow> claim_env" where
  "claim_env_of blocked_repo_ids running_tasks guards now jobs =
     \<lparr>ce_blocked_repo_ids = blocked_repo_ids, ce_running_tasks = running_tasks, ce_guards = guards,
      ce_running_repo_ids = load_running_repo_ids jobs, ce_now = now\<rparr>"

definition to_claim :: "claim_env \<Rightarrow> nat \<Rightarrow> spool_table \<Rightarrow> spool_job list" where
  "to_claim env now jobs = take CLAIM_BATCH_LIMIT (first_of_each_repo {} (filter (admitted env) (claimable_rows now jobs)))"

lemma set_claimable_rows: "j \<in> set (claimable_rows now jobs) \<longleftrightarrow>
    j \<in> set jobs \<and> job_status j = SpoolPending \<and> available_at j \<le> now"
  by (auto simp: claimable_rows_def)

lemma to_claim_in:
  assumes "j \<in> set (to_claim env now jobs)"
  shows "j \<in> set jobs" "job_status j = SpoolPending" "available_at j \<le> now" "admitted env j"
proof -
  have "j \<in> set (filter (admitted env) (claimable_rows now jobs))"
    using assms first_of_each_repo_in unfolding to_claim_def by (meson in_set_takeD)
  then show "j \<in> set jobs" "job_status j = SpoolPending" "available_at j \<le> now" "admitted env j"
    by (auto simp: set_claimable_rows)
qed

lemma to_claim_distinct_repos: "distinct (map job_repo_id (to_claim env now jobs))"
  using first_of_each_repo_distinct distinct_take unfolding to_claim_def take_map [symmetric] by blast

lemma to_claim_distinct_ids:
  assumes "distinct (map job_id jobs)"
  shows "distinct (map job_id (to_claim env now jobs))"
proof -
  have "distinct (to_claim env now jobs)" using to_claim_distinct_repos [of env now jobs] by (simp add: distinct_map)
  moreover have "inj_on job_id (set (to_claim env now jobs))"
    using by_id [OF assms] to_claim_in(1) by (intro inj_onI) blast
  ultimately show ?thesis by (simp add: distinct_map)
qed

lemma mark_claimed:
  assumes "distinct (map job_id t)" "j \<in> set (to_claim env now t)"
  shows "mark_row now (map (claim_row now) (to_claim env now t)) j = started now (claim_row now j) j"
proof -
  let ?rows = "map (claim_row now) (to_claim env now t)"
  obtain u where u: "find (\<lambda>u. job_id u = job_id j) ?rows = Some u"
    using assms(2) by (cases "find (\<lambda>u. job_id u = job_id j) ?rows") (auto simp: find_None claim_row_def)
  then have "u \<in> set ?rows" "job_id u = job_id j" using find_SomeD [OF u] by simp_all
  then obtain j' where j': "j' \<in> set (to_claim env now t)" "u = claim_row now j'" "job_id j' = job_id j"
    by (auto simp: claim_row_def)
  have "j' = j" by (rule by_id [OF assms(1) to_claim_in(1) [OF assms(2)] to_claim_in(1) [OF j'(1)] j'(3)])
  then show ?thesis using u j'(2) by (simp add: mark_row_def)
qed

lemma claimed_not_dropped:
  assumes "distinct (map job_id t)" "j \<in> set (to_claim env now t)"
    and "jids \<subseteq> job_id ` {j \<in> set (claimable_rows now t). dropped env j}"
  shows "job_id j \<notin> jids"
proof
  assume "job_id j \<in> jids"
  then obtain d where d: "d \<in> set t" "dropped env d" "job_id j = job_id d"
    using assms(3) by (auto simp: set_claimable_rows)
  have "j = d" using by_id [OF assms(1) d(1) to_claim_in(1) [OF assms(2)] d(3)] .
  then show False using d(2) to_claim_in(4) [OF assms(2)] by (simp add: admitted_def dropped_def)
qed

lemma claim_result:
  assumes "claim_body load_matcher prune_now now blocked_repo_ids running_tasks guards jobs = Inr (jobs', selected)"
    and "distinct (map job_id jobs)"
  defines "t \<equiv> pruned_table load_matcher prune_now pending jobs"
  defines "env \<equiv> claim_env_of blocked_repo_ids running_tasks guards now t"
  obtains abandoned where
    "selected = map (claim_row now) (to_claim env now t)"
    "jobs' = map (mark_row now selected) (filter (\<lambda>j. job_id j \<notin> set abandoned) t)"
    "set abandoned \<subseteq> job_id ` {j \<in> set (claimable_rows now t). dropped env j}"
    "length selected < CLAIM_BATCH_LIMIT \<Longrightarrow> set abandoned = job_id ` {j \<in> set (claimable_rows now t). dropped env j}"
proof -
  have t: "prune_excluded_pending_producer_spool_jobs load_matcher prune_now jobs = Inr t"
    and now: "sql_i64 now = Inr now"
    using assms(1) prune_result [OF assms(2)]
    by (auto simp: claim_body_def t_def sql_i64_def split: if_splits)
  obtain sel abandoned where loop: "claim_loop env (claimable_rows now t) {} [] [] = (sel, abandoned)"
    by (cases "claim_loop env (claimable_rows now t) {} [] []")
  have res: "selected = sel" "jobs' = mark_running now sel (filter (\<lambda>j. job_id j \<notin> set abandoned) t)"
    using assms(1) t now loop by (auto simp: claim_body_def env_def claim_env_of_def delete_all)
  have now_env: "ce_now env = now" by (simp add: env_def claim_env_of_def)
  have sel: "sel = map (claim_row now) (to_claim env now t)"
    using claim_loop_selects [of "[]" env "claimable_rows now t" "{}" "[]"] loop now_env
    by (simp add: to_claim_def CLAIM_BATCH_LIMIT_def)
  have "distinct (map job_id t)" unfolding t_def by (rule pruned_table_distinct) (rule assms(2))
  then have ids: "distinct (map job_id sel)"
    using to_claim_distinct_ids [of t] sel by (simp add: claim_row_def comp_def)
  show thesis
  proof (rule that [of abandoned])
    show "selected = map (claim_row now) (to_claim env now t)" using res sel by simp
    show "jobs' = map (mark_row now selected) (filter (\<lambda>j. job_id j \<notin> set abandoned) t)"
      using res mark_running_map [OF ids] by simp
    show "set abandoned \<subseteq> job_id ` {j \<in> set (claimable_rows now t). dropped env j}"
      using claim_loop_drops [of env "claimable_rows now t" "{}" "[]" "[]"] loop by simp
    show "set abandoned = job_id ` {j \<in> set (claimable_rows now t). dropped env j}"
      if "length selected < CLAIM_BATCH_LIMIT"
      using claim_loop_drops [of env "claimable_rows now t" "{}" "[]" "[]"]
        claim_loop_drops_all [of env "claimable_rows now t" "{}" "[]" "[]"] loop that res by auto
  qed
qed

lemma claimed_one_running:
  fixes env now t
  defines "sel \<equiv> to_claim env now t"
  assumes "one_running_per_repo t" "distinct (map job_id t)" "ce_running_repo_ids env = load_running_repo_ids t"
  shows "one_running_per_repo (map (mark_row now (map (claim_row now) sel)) (filter p t))"
proof -
  let ?mark = "mark_row now (map (claim_row now) sel)"
  have sel: "job_repo_id s \<notin> load_running_repo_ids t" "s \<in> set t" if "s \<in> set sel" for s
    using to_claim_in(1,4) [OF that [unfolded sel_def]] assms(4) by (simp_all add: admitted_def)
  have running: "job_status j = SpoolRunning \<or> j \<in> set sel" if "j \<in> set t" "job_status (?mark j) = SpoolRunning" for j
  proof -
    have "job_status j = SpoolRunning \<or> (\<exists>s \<in> set sel. job_id s = job_id j)"
      using that(2) unfolding mark_row_running by (simp add: claim_row_def)
    then show ?thesis using by_id [OF assms(3) sel(2) that(1)] by metis
  qed
  have old: "job_repo_id j \<in> load_running_repo_ids t" if "j \<in> set t" "job_status j = SpoolRunning" for j
    using that by (auto simp: load_running_repo_ids_def)
  have repos: "s = s'" if "s \<in> set sel" "s' \<in> set sel" "job_repo_id s = job_repo_id s'" for s s'
    using that to_claim_distinct_repos [of env now t] unfolding sel_def by (meson distinct_map inj_onD)
  have "job_id j = job_id j'"
    if j: "j \<in> set t" "job_status (?mark j) = SpoolRunning" and j': "j' \<in> set t" "job_status (?mark j') = SpoolRunning"
      and same: "job_repo_id j = job_repo_id j'" for j j'
    using running [OF j] running [OF j'] old [OF j(1)] old [OF j'(1)] sel(1) repos [OF _ _ same] same assms(2) j(1) j'(1)
    unfolding one_running_per_repo_def by metis
  then show ?thesis by (auto simp: one_running_per_repo_def)
qed

interpretation claim_jobs: spool_operation "\<lambda>_. True"
    "claim_body load_matcher prune_now now blocked_repo_ids running_tasks guards"
  for load_matcher prune_now now blocked_repo_ids running_tasks guards
proof
  fix jobs jobs' x
  assume inv: "spool_inv jobs"
    and b: "claim_body load_matcher prune_now now blocked_repo_ids running_tasks guards jobs = Inr (jobs', x)"
  let ?t = "pruned_table load_matcher prune_now pending jobs"
  let ?env = "claim_env_of blocked_repo_ids running_tasks guards now ?t"
  have dist: "distinct (map job_id jobs)" using inv by (simp add: spool_inv_def)
  from b dist obtain abandoned where
    sel: "x = map (claim_row now) (to_claim ?env now ?t)" and
    jobs': "jobs' = map (mark_row now x) (filter (\<lambda>j. job_id j \<notin> set abandoned) ?t)"
    by (rule claim_result)
  let ?kept = "filter (\<lambda>j. job_id j \<notin> set abandoned) ?t"
  have t: "spool_inv ?t" using inv by (rule spool_inv_pruned)
  then have kept: "spool_inv ?kept" by (rule spool_inv_filter)
  have same: "same_row j (mark_row now x j)" for j by (simp add: same_row_def)
  have "one_running_per_repo jobs'"
    unfolding jobs' sel using t by (intro claimed_one_running) (simp_all add: spool_inv_def claim_env_of_def)
  moreover have "\<forall>j \<in> set jobs'. key_matches (dedupe_key j) (payload j)"
    using kept unfolding jobs' spool_inv_def by simp
  ultimately show "spool_inv jobs'"
    using kept unfolding jobs' spool_inv_def by (simp only: key_rows_map [OF same] ids_map [OF same] length_map) simp
qed

subsection \<open>Enqueueing\<close>

lemma running_rows_of_key:
  assumes "spool_inv jobs" "\<And>j. j \<in> set (key_rows repo k jobs) \<Longrightarrow> job_status j = SpoolRunning"
  shows "length (key_rows repo k jobs) \<le> 1"
proof -
  have one: "job_id j = job_id j'" if "j \<in> set (key_rows repo k jobs)" "j' \<in> set (key_rows repo k jobs)" for j j'
  proof -
    have "j \<in> set jobs" "j' \<in> set jobs" "job_repo_id j = job_repo_id j'" using that by (simp_all add: key_rows_def)
    moreover have "job_status j = SpoolRunning" "job_status j' = SpoolRunning" using that assms(2) by blast+
    moreover have "one_running_per_repo jobs" using assms(1) by (simp add: spool_inv_def)
    ultimately show ?thesis unfolding one_running_per_repo_def by metis
  qed
  have "distinct (map job_id (key_rows repo k jobs))"
    using assms(1) unfolding spool_inv_def key_rows_def by (intro distinct_map_filter) blast
  then show ?thesis using one by (rule length_le_one)
qed

lemma load_pending_in:
  assumes "load_pending_deduped_job repo key jobs = Some j"
  shows "j \<in> set jobs" "job_repo_id j = repo" "dedupe_key j = key" "job_status j = SpoolPending"
  using assms by (auto simp: load_pending_deduped_job_def split: option.splits dest: first_min_by_in)

lemma load_pending_none:
  "load_pending_deduped_job repo (Some k) jobs = None \<longleftrightarrow>
    (\<forall>j \<in> set jobs. job_repo_id j = repo \<and> dedupe_key j = Some k \<longrightarrow> job_status j = SpoolRunning)"
proof -
  have "job_status j = SpoolRunning \<longleftrightarrow> job_status j \<noteq> SpoolPending" for j by (cases "job_status j") simp_all
  then show ?thesis by (auto simp: load_pending_deduped_job_def filter_empty_conv)
qed

lemma merged_paths: "merge_pending_payload (paths_payload src ps) (paths_payload src ps') =
    paths_payload src (sort_dedup (ps @ ps'))"
  by (simp add: merge_pending_payload_def paths_payload_def)

lemma merge_payload_key:
  assumes "key_matches key p" "key_matches key p'"
  shows "key_matches key (merge_pending_payload p p')"
  unfolding key_matches_def
proof (intro allI impI)
  fix src assume "key = Some (paths_key src)"
  then obtain ps ps' where "p = paths_payload src ps" "p' = paths_payload src ps'"
    using assms unfolding key_matches_def by blast
  then show "\<exists>qs. merge_pending_payload p p' = paths_payload src qs" using merged_paths by blast
qed

interpretation enqueue_job: quiet_operation "\<lambda>jobs. ''producer-spool-job-'' @ uuid \<notin> job_id ` set jobs \<and>
      key_matches (insert_dedupe_key ins) (insert_payload ins)"
    "enqueue_job_body now uuid cfg ins" for now uuid cfg ins
proof
  fix jobs jobs' x
  assume inv: "spool_inv jobs" and pre: "''producer-spool-job-'' @ uuid \<notin> job_id ` set jobs \<and>
      key_matches (insert_dedupe_key ins) (insert_payload ins)"
    and b: "enqueue_job_body now uuid cfg ins jobs = Inr (jobs', x)"
  obtain n where n: "sql_i64 now = Inr n" using b by (auto simp: enqueue_job_body_def)
  let ?find = "load_pending_deduped_job (cfg_repo_id cfg) (insert_dedupe_key ins) jobs"
  show "spool_inv jobs'"
  proof (cases ?find)
    case (Some existing)
    then have jobs': "jobs' = update_rows_by_id (job_id existing)
        (\<lambda>j. j\<lparr>payload := merge_pending_payload (payload existing) (insert_payload ins), job_updated_at := n,
              available_at := n, last_error := None\<rparr>) jobs"
      using b n by (simp add: enqueue_job_body_def Let_def)
    let ?p = "merge_pending_payload (payload existing) (insert_payload ins)"
    have "settles j (j\<lparr>payload := ?p, job_updated_at := n, available_at := n, last_error := None\<rparr>)"
      if "j \<in> set jobs" "job_id j = job_id existing" for j
    proof -
      have "j = existing" using by_id load_pending_in(1) [OF Some] that inv unfolding spool_inv_def by blast
      then show ?thesis using load_pending_in(3,4) [OF Some] pre merge_payload_key
        by (simp add: settles_def same_row_def)
    qed
    then show ?thesis unfolding jobs' using inv by (intro spool_inv_update)
  next
    case None
    let ?new = "new_job n uuid cfg ins"
    have jobs': "jobs' = jobs @ [?new]" using b n None by (simp add: enqueue_job_body_def)
    have new: "job_id ?new = ''producer-spool-job-'' @ uuid" "job_status ?new = SpoolPending"
      "job_repo_id ?new = cfg_repo_id cfg" "dedupe_key ?new = insert_dedupe_key ins"
      by (simp_all add: new_job_def)
    have "distinct (map job_id jobs')" using inv pre by (simp add: jobs' new spool_inv_def)
    moreover have "one_running_per_repo jobs'"
    proof -
      have "one_running_per_repo jobs" using inv by (simp add: spool_inv_def)
      then show ?thesis unfolding jobs' one_running_per_repo_def using new(2) by (metis UnE set_append spool_status.distinct(1) empty_iff insert_iff list.set)
    qed
    moreover have "length (key_rows repo k jobs') \<le> 2" for repo k
    proof (cases "repo = cfg_repo_id cfg \<and> insert_dedupe_key ins = Some k")
      case True
      then have "length (key_rows repo k jobs) \<le> 1"
        using None load_pending_none inv by (intro running_rows_of_key) (auto simp: key_rows_def)
      then show ?thesis by (simp add: jobs' key_rows_def)
    next
      case False
      then have "key_rows repo k jobs' = key_rows repo k jobs" using new by (auto simp: jobs' key_rows_def)
      then show ?thesis using inv by (simp add: spool_inv_def)
    qed
    moreover have "\<forall>j \<in> set jobs'. key_matches (dedupe_key j) (payload j)"
      using inv pre by (simp add: jobs' spool_inv_def new_job_def)
    ultimately show ?thesis unfolding spool_inv_def by blast
  qed
next
  fix jobs jobs' x
  assume inv: "spool_inv jobs" and b: "enqueue_job_body now uuid cfg ins jobs = Inr (jobs', x)"
  obtain n where n: "sql_i64 now = Inr n" using b by (auto simp: enqueue_job_body_def)
  show "quiet jobs jobs'"
  proof (cases "load_pending_deduped_job (cfg_repo_id cfg) (insert_dedupe_key ins) jobs")
    case None
    then have "jobs' = jobs @ [new_job n uuid cfg ins]" using b n by (simp add: enqueue_job_body_def)
    then show ?thesis by (simp add: quiet_def new_job_def)
  next
    case (Some existing)
    note e = load_pending_in [OF Some]
    have "job_status j \<noteq> SpoolRunning" if "j \<in> set jobs" "job_id j = job_id existing" for j
    proof -
      have "j = existing" using by_id [OF _ e(1) that] inv by (simp add: spool_inv_def)
      then show ?thesis using e(4) by simp
    qed
    moreover have "jobs' = update_rows_by_id (job_id existing)
        (\<lambda>j. j\<lparr>payload := merge_pending_payload (payload existing) (insert_payload ins), job_updated_at := n,
              available_at := n, last_error := None\<rparr>) jobs"
      using b n Some by (simp add: enqueue_job_body_def Let_def)
    ultimately show ?thesis by (simp add: quiet_update)
  qed
qed

end
