(* ===== verification/SpoolProperties.thy ===== *)
theory SpoolProperties
  imports SpoolTable
begin

text \<open>
  What the producer spool promises: at most one running job per repository and at most two rows per
  deduplication key in every reachable table, which jobs a claim takes, that no path of a pending
  sync is lost, and what pruning, requeueing and a failing transaction do.
\<close>

section \<open>Keys\<close>

lemma paths_key_sync: "''task:'' @ source_display src @ '':sync:'' @ spool_sync_mode_key m = paths_key src' \<Longrightarrow>
    src = src' \<and> (\<exists>ps. m = Paths ps)"
  by (cases src; cases src'; cases m) (simp_all add: paths_key_def)

lemma paths_key_ingest: "''task:'' @ source_display src @ '':ingest:'' @ k \<noteq> paths_key src'"
  by (cases src; cases src') (simp_all add: paths_key_def)

lemma sync_insert_matches:
  "key_matches (spool_task_dedupe_key src (SyncSpec (sync_task_spec_from_mode mode)))
     (TaskPayload src (SyncSpec (sync_task_spec_from_mode mode)))"
  unfolding key_matches_def
proof (intro allI impI)
  fix src' let ?s = "sync_task_spec_from_mode mode"
  assume "spool_task_dedupe_key src (SyncSpec ?s) = Some (paths_key src')"
  then have "''task:'' @ source_display src @ '':sync:'' @ spool_sync_mode_key (sync_mode ?s) = paths_key src'"
    by (simp add: spool_task_dedupe_key_def)
  from paths_key_sync [OF this] show "\<exists>ps. TaskPayload src (SyncSpec ?s) = paths_payload src' ps"
    by (auto simp: paths_payload_def sync_task_spec_from_mode_def)
qed

lemma insert_matches:
  "key_matches (spool_task_dedupe_key src (IngestSpec s)) p"
  "key_matches (Some (''post_commit:'' @ sha)) p"
  "key_matches (Some (''post_commit_derivation:'' @ sha)) p"
  "key_matches (Some (''post_merge_sync:'' @ sha)) p"
  "key_matches (Some (''post_merge_ingest:'' @ sha)) p"
  "key_matches (Some (''pre_push:'' @ sha)) p"
  using paths_key_ingest by (auto simp: key_matches_def spool_task_dedupe_key_def) (simp_all add: paths_key_def)

section \<open>Reachable tables\<close>

definition fresh_id :: "string \<Rightarrow> spool_table \<Rightarrow> bool" where
  "fresh_id uuid jobs \<longleftrightarrow> ''producer-spool-job-'' @ uuid \<notin> job_id ` set jobs"

inductive spool_update :: "spool_table \<Rightarrow> spool_table \<Rightarrow> bool" where
  sync: "fresh_id uuid jobs \<Longrightarrow> spool_update jobs (fst (enqueue_spooled_sync_task now uuid cfg src mode jobs))"
| ingest: "fresh_id uuid jobs \<Longrightarrow> spool_update jobs (fst (enqueue_spooled_ingest_task now uuid cfg src s jobs))"
| refresh: "fresh_id uuid jobs \<Longrightarrow> spool_update jobs (fst (enqueue_spooled_post_commit_refresh now uuid cfg sha files jobs))"
| derivation: "fresh_id uuid jobs \<Longrightarrow>
     spool_update jobs (fst (enqueue_spooled_post_commit_derivation now uuid cfg sha files rebasing jobs))"
| merge: "fresh_id uuid jobs \<Longrightarrow> fresh_id uuid' jobs \<Longrightarrow> uuid \<noteq> uuid' \<Longrightarrow>
     spool_update jobs (fst (enqueue_spooled_post_merge_refresh now uuid now' uuid' cfg sha files squash jobs))"
| push: "fresh_id uuid jobs \<Longrightarrow> spool_update jobs (fst (enqueue_spooled_pre_push_sync sha256_hex now uuid cfg remote ls jobs))"
| delete: "spool_update jobs (fst (delete_producer_spool_job jid jobs))"
| requeue: "spool_update jobs (fst (requeue_producer_spool_job now jid err jobs))"
| recover: "spool_update jobs (fst (recover_running_producer_spool_jobs load_matcher prune_now now jobs))"

inductive spool_step :: "spool_table \<Rightarrow> spool_table \<Rightarrow> bool" where
  update: "spool_update jobs jobs' \<Longrightarrow> spool_step jobs jobs'"
| claim: "spool_step jobs (fst (claim_next_producer_spool_jobs_excluding load_matcher prune_now now
     blocked_repo_ids running_tasks guards jobs))"

inductive spool_reach :: "spool_table \<Rightarrow> bool" where
  empty: "spool_reach []"
| step: "spool_reach jobs \<Longrightarrow> spool_step jobs jobs' \<Longrightarrow> spool_reach jobs'"

lemma enqueue_keeps:
  assumes "spool_inv jobs" "fresh_id uuid jobs" "key_matches (insert_dedupe_key ins) (insert_payload ins)"
  shows "spool_inv (fst (enqueue_job now uuid cfg ins jobs)) \<and> quiet jobs (fst (enqueue_job now uuid cfg ins jobs))"
  unfolding enqueue_job_def using assms enqueue_job.transaction_keeps enqueue_job.transaction_quiet
  by (simp add: fresh_id_def)

lemma update_rows_ids:
  "(\<And>j. job_id (f j) = job_id j) \<Longrightarrow> job_id ` set (update_rows_by_id jid f jobs) = job_id ` set jobs"
  by (induction jobs) (simp_all add: update_rows_by_id_def)

lemma enqueue_fresh:
  assumes "fresh_id uuid' jobs" "uuid \<noteq> uuid'"
  shows "fresh_id uuid' (fst (enqueue_job now uuid cfg ins jobs))"
proof (cases "sql_i64 now")
  case (Inl e)
  then show ?thesis using assms by (simp add: enqueue_job_def spool_transaction_def enqueue_job_body_def)
next
  case (Inr n)
  show ?thesis
  proof (cases "load_pending_deduped_job (cfg_repo_id cfg) (insert_dedupe_key ins) jobs")
    case None
    then show ?thesis using assms Inr
      by (auto simp: enqueue_job_def spool_transaction_def enqueue_job_body_def fresh_id_def new_job_def)
  next
    case (Some existing)
    then show ?thesis using assms Inr
      by (simp add: enqueue_job_def spool_transaction_def enqueue_job_body_def fresh_id_def Let_def update_rows_ids)
  qed
qed

lemma quiet_trans: "quiet jobs jobs' \<Longrightarrow> quiet jobs' jobs'' \<Longrightarrow> quiet jobs jobs''"
  by (simp add: quiet_def)

lemma merge_keeps:
  fixes jobs now uuid now' uuid' cfg sha files squash
  assumes "spool_inv jobs" "fresh_id uuid jobs" "fresh_id uuid' jobs" "uuid \<noteq> uuid'"
  defines "jobs' \<equiv> fst (enqueue_spooled_post_merge_refresh now uuid now' uuid' cfg sha files squash jobs)"
  shows "spool_inv jobs' \<and> quiet jobs jobs'"
proof -
  let ?ins = "\<lparr>insert_dedupe_key = Some (''post_merge_sync:'' @ trim sha),
    insert_payload = PostMergeSyncRefresh (trim sha) (normalize_paths files) squash\<rparr>"
  let ?ins' = "\<lparr>insert_dedupe_key = Some (''post_merge_ingest:'' @ trim sha),
    insert_payload = PostMergeIngestBackfill (trim sha) squash\<rparr>"
  obtain m rm where m: "enqueue_job now uuid cfg ?ins jobs = (m, rm)" by (rule prod.exhaust)
  obtain e re where e: "enqueue_job now' uuid' cfg ?ins' m = (e, re)" by (rule prod.exhaust)
  have mid: "spool_inv m \<and> quiet jobs m"
    using enqueue_keeps [OF assms(1,2), of ?ins now cfg] m by (simp add: insert_matches(4) [simplified])
  have fresh: "fresh_id uuid' m" using enqueue_fresh [OF assms(3,4), of now cfg ?ins] m by simp
  have last: "spool_inv e \<and> quiet m e"
    using enqueue_keeps [OF _ fresh, of ?ins' now' cfg] mid e by (simp add: insert_matches(5) [simplified])
  have "jobs' = m \<or> jobs' = e"
    unfolding jobs'_def enqueue_spooled_post_merge_refresh_def Let_def m
    by (cases rm; cases re) (simp_all only: prod.case sum.case e fst_conv split: if_split, simp_all)
  then show ?thesis using mid last quiet_trans by metis
qed

lemma spool_update_keeps: "spool_update jobs jobs' \<Longrightarrow> spool_inv jobs \<Longrightarrow> spool_inv jobs' \<and> quiet jobs jobs'"
proof (induction rule: spool_update.induct)
  case sync
  then show ?case using sync_insert_matches
    unfolding enqueue_spooled_sync_task_def Let_def by (intro enqueue_keeps) simp_all
next
  case ingest
  then show ?case using insert_matches
    unfolding enqueue_spooled_ingest_task_def Let_def by (intro enqueue_keeps) simp_all
next
  case refresh
  then show ?case using insert_matches
    unfolding enqueue_spooled_post_commit_refresh_def by (intro enqueue_keeps) simp_all
next
  case derivation
  then show ?case using insert_matches
    unfolding enqueue_spooled_post_commit_derivation_def by (intro enqueue_keeps) simp_all
next
  case merge
  then show ?case by (intro merge_keeps)
next
  case push
  then show ?case using insert_matches
    unfolding enqueue_spooled_pre_push_sync_def Let_def by (intro enqueue_keeps) simp_all
next
  case delete
  then show ?case unfolding delete_producer_spool_job_def
    using delete_job.transaction_keeps delete_job.transaction_quiet by auto
next
  case requeue
  then show ?case unfolding requeue_producer_spool_job_def
    using requeue_job.transaction_keeps requeue_job.transaction_quiet by blast
next
  case recover
  then show ?case unfolding recover_running_producer_spool_jobs_def
    using recover_jobs.transaction_keeps recover_jobs.transaction_quiet by blast
qed

lemma spool_step_inv: "spool_step jobs jobs' \<Longrightarrow> spool_inv jobs \<Longrightarrow> spool_inv jobs'"
proof (induction rule: spool_step.induct)
  case update
  then show ?case using spool_update_keeps by blast
next
  case claim
  then show ?case unfolding claim_next_producer_spool_jobs_excluding_def by (intro claim_jobs.transaction_keeps) auto
qed

lemma spool_reach_inv: "spool_reach jobs \<Longrightarrow> spool_inv jobs"
proof (induction rule: spool_reach.induct)
  case empty
  show ?case by (simp add: spool_inv_def one_running_per_repo_def key_rows_def)
qed (rule spool_step_inv)

section \<open>Sample tables\<close>

definition include_all :: "string \<Rightarrow> (string, string \<Rightarrow> bool) result" where
  "include_all root = Inr (\<lambda>_. False)"

definition spool_cfg :: devql_config where
  "spool_cfg = \<lparr>cfg_config_root = ''/c'', cfg_repo_root = ''/r'', cfg_repo_id = ''r'', cfg_name = ''n'',
     cfg_provider = ''p'', cfg_organization = ''o'', cfg_identity = ''i''\<rparr>"

definition watch :: "nat \<Rightarrow> string \<Rightarrow> string list \<Rightarrow> spool_table \<Rightarrow> spool_table" where
  "watch now uuid paths jobs = fst (enqueue_spooled_sync_task now uuid spool_cfg Watcher (HostPaths paths) jobs)"

definition claim_at :: "nat \<Rightarrow> spool_table \<Rightarrow> spool_table \<times> (string, spool_job list) result" where
  "claim_at now = claim_next_producer_spool_jobs_excluding include_all now now {} []
     \<lparr>guard_blocked = {}, guard_abandoned = {}\<rparr>"

definition one_pending :: spool_table where
  "one_pending = watch 1 ''a'' [''x''] []"

definition one_claimed :: spool_table where
  "one_claimed = fst (claim_at 2 one_pending)"

definition running_and_pending :: spool_table where
  "running_and_pending = watch 3 ''b'' [''y''] one_claimed"

lemmas spool_eval = watch_def enqueue_spooled_sync_task_def sync_task_spec_from_mode_def enqueue_job_def
  spool_transaction_def enqueue_job_body_def sql_i64_def load_pending_deduped_job_def new_job_def spool_cfg_def
  spool_task_dedupe_key_def Let_def claim_at_def claim_next_producer_spool_jobs_excluding_def claim_body_def
  prune_excluded_pending_producer_spool_jobs_def prune_row_def include_all_def keep_included_def
  prune_excluded_paths_from_payload_def claimable_rows_def load_running_repo_ids_def claim_loop.simps(2)
  post_commit_derivation_is_abandoned_def post_commit_derivation_is_blocked_def claim_row_def mark_running_def
  update_rows_by_id_def CLAIM_BATCH_LIMIT_def first_min_by_def

lemma paths_xy: "normalize_paths [''x''] = [''x'']" "normalize_paths [''y''] = [''y'']"
  by code_simp+

lemma one_pending_row: "one_pending = [\<lparr>job_id = ''producer-spool-job-a'', job_repo_id = ''r'',
    job_repo_root = ''/r'', job_config_root = ''/c'', job_repo_name = ''n'', job_repo_provider = ''p'',
    job_repo_organisation = ''o'', job_repo_identity = ''i'', dedupe_key = Some ''task:watcher:sync:paths'',
    payload = TaskPayload Watcher (SyncSpec \<lparr>sync_mode = Paths [''x''], post_commit_snapshot = None\<rparr>),
    job_status = SpoolPending, attempts = 0, available_at = 1, job_submitted_at = 1, job_updated_at = 1,
    last_error = None\<rparr>]"
  by (simp add: one_pending_def spool_eval paths_xy)

lemma one_claimed_row: "one_claimed = map (claim_row 2) one_pending"
  unfolding one_claimed_def one_pending_row by (simp add: spool_eval image_iff)

lemma running_and_pending_rows: "running_and_pending = one_claimed @
    [(hd one_pending)\<lparr>job_id := ''producer-spool-job-b'',
       payload := TaskPayload Watcher (SyncSpec \<lparr>sync_mode = Paths [''y''], post_commit_snapshot = None\<rparr>),
       available_at := 3, job_submitted_at := 3, job_updated_at := 3\<rparr>]"
  unfolding running_and_pending_def one_claimed_row one_pending_row
  by (simp add: spool_eval paths_xy)

lemma reach_watch:
  "spool_reach jobs \<Longrightarrow> fresh_id uuid jobs \<Longrightarrow> spool_reach (watch now uuid paths jobs)"
  unfolding watch_def by (rule spool_reach.step [OF _ spool_step.update, OF _ spool_update.sync])

lemma reach_claim_at: "spool_reach jobs \<Longrightarrow> spool_reach (fst (claim_at now jobs))"
  unfolding claim_at_def by (rule spool_reach.step [OF _ spool_step.claim])

lemma spool_sample_reach: "spool_reach one_pending" "spool_reach one_claimed" "spool_reach running_and_pending"
proof -
  show one: "spool_reach one_pending" unfolding one_pending_def by (rule reach_watch) (auto intro: spool_reach.empty simp: fresh_id_def)
  then show two: "spool_reach one_claimed" unfolding one_claimed_def by (rule reach_claim_at)
  show "spool_reach running_and_pending"
    unfolding running_and_pending_def by (rule reach_watch [OF two]) (simp add: one_claimed_row one_pending_row claim_row_def fresh_id_def)
qed

section \<open>Properties\<close>

text \<open>C9: in every reachable table at most one job of a repository is running, and at most two rows of
  a repository carry the same deduplication key (one running, and one pending into which further
  submissions are merged), so hooks that fire while a job runs cannot make the table grow.\<close>

theorem spool_table_bounded:
  assumes "spool_reach jobs"
  shows "length (filter (\<lambda>j. job_status j = SpoolRunning \<and> job_repo_id j = repo) jobs) \<le> 1 \<and>
    length (filter (\<lambda>j. job_repo_id j = repo \<and> dedupe_key j = Some k) jobs) \<le> 2"
proof -
  have inv: "spool_inv jobs" using assms by (rule spool_reach_inv)
  let ?running = "filter (\<lambda>j. job_status j = SpoolRunning \<and> job_repo_id j = repo) jobs"
  have one: "job_id j = job_id j'" if "j \<in> set ?running" "j' \<in> set ?running" for j j'
  proof -
    have "one_running_per_repo jobs" using inv by (simp add: spool_inv_def)
    then show ?thesis using that unfolding one_running_per_repo_def by simp
  qed
  have dist: "distinct (map job_id ?running)" using inv unfolding spool_inv_def by (intro distinct_map_filter) blast
  have "length ?running \<le> 1" using dist one by (rule length_le_one)
  then show ?thesis using inv by (simp add: spool_inv_def key_rows_def)
qed

theorem spool_table_bounded_witness:
  "length (filter (\<lambda>j. job_status j = SpoolRunning \<and> job_repo_id j = ''r'') running_and_pending) \<le> 1 \<and>
    length (filter (\<lambda>j. job_repo_id j = ''r'' \<and> dedupe_key j = Some ''task:watcher:sync:paths'') running_and_pending) \<le> 2"
  using spool_table_bounded [OF spool_sample_reach(3)] .

text \<open>C10: a committed claim takes exactly the first sixteen of what a simple reference selects: of the
  pending rows that are due, ordered by due time, submission, payload and identifier, those that no
  guard holds back, and of these the first of each repository.\<close>

theorem claim_takes_first_of_each_repo:
  assumes "spool_reach jobs"
    and "claim_body load_matcher prune_now now blocked running_tasks guards jobs = Inr (jobs', selected)"
  shows "let t = pruned_table load_matcher prune_now pending jobs;
      env = claim_env_of blocked running_tasks guards now t
    in selected = map (claim_row now)
        (take CLAIM_BATCH_LIMIT (first_of_each_repo {} (filter (admitted env) (claimable_rows now t))))"
proof -
  have "distinct (map job_id jobs)" using spool_reach_inv [OF assms(1)] by (simp add: spool_inv_def)
  with assms(2) show ?thesis by (rule claim_result) (simp add: Let_def to_claim_def)
qed

lemma one_pending_claim: "claim_body include_all 2 2 {} [] \<lparr>guard_blocked = {}, guard_abandoned = {}\<rparr> one_pending =
    Inr (one_claimed, map (claim_row 2) one_pending)"
  unfolding one_claimed_row unfolding one_pending_row by (simp add: spool_eval image_iff)

theorem claim_takes_first_of_each_repo_witness:
  "map (claim_row 2) one_pending = map (claim_row 2) (take CLAIM_BATCH_LIMIT (first_of_each_repo {}
     (filter (admitted (claim_env_of {} [] \<lparr>guard_blocked = {}, guard_abandoned = {}\<rparr> 2
        (pruned_table include_all 2 pending one_pending)))
       (claimable_rows 2 (pruned_table include_all 2 pending one_pending)))))"
  using claim_takes_first_of_each_repo [OF spool_sample_reach(1) one_pending_claim] by (simp add: Let_def)

text \<open>C11: a claimed job conflicts with no running task, is of no blocked repository and of none that had
  a running job, is not a derivation that is blocked or abandoned, was due, and is in the table
  afterwards as running with one attempt more; at most sixteen are claimed, of distinct repositories.\<close>

theorem claimed_jobs_admissible:
  assumes "spool_reach jobs"
    and "claim_body load_matcher prune_now now blocked running_tasks guards jobs = Inr (jobs', selected)"
    and "s \<in> set selected"
  shows "job_repo_id s \<notin> blocked \<and>
    list_all (\<lambda>t. \<not> conflicts_with_running_task (payload s) (job_repo_id s) t) running_tasks \<and>
    list_all (\<lambda>j. job_status j \<noteq> SpoolRunning \<or> job_repo_id j \<noteq> job_repo_id s) jobs \<and>
    \<not> post_commit_derivation_is_blocked s guards \<and> \<not> post_commit_derivation_is_abandoned s guards \<and>
    available_at s \<le> now \<and> length selected \<le> 16 \<and> distinct (map job_repo_id selected) \<and>
    list_ex (\<lambda>j. job_id j = job_id s \<and> job_repo_id j = job_repo_id s \<and> payload j = payload s \<and>
      job_status j = SpoolRunning \<and> attempts j = attempts s \<and> last_error j = None) jobs'"
proof -
  have inv: "spool_inv jobs" using assms(1) by (rule spool_reach_inv)
  then have dist: "distinct (map job_id jobs)" by (simp add: spool_inv_def)
  define t where "t = pruned_table load_matcher prune_now pending jobs"
  define env where "env = claim_env_of blocked running_tasks guards now t"
  from assms(2) dist obtain abandoned where
    sel: "selected = map (claim_row now) (to_claim env now t)" and
    jobs': "jobs' = map (mark_row now selected) (filter (\<lambda>j. job_id j \<notin> set abandoned) t)" and
    ab: "set abandoned \<subseteq> job_id ` {j \<in> set (claimable_rows now t). dropped env j}"
    unfolding t_def env_def by (rule claim_result)
  obtain j where j: "j \<in> set (to_claim env now t)" "s = claim_row now j" using assms(3) sel by auto
  note row = to_claim_in [OF j(1)]
  have dist_t: "distinct (map job_id t)" unfolding t_def by (rule pruned_table_distinct [OF dist])
  have "job_id j \<notin> set abandoned" using dist_t j(1) ab by (rule claimed_not_dropped)
  then have kept: "mark_row now selected j \<in> set jobs'" using row(1) by (simp add: jobs')
  have marked: "mark_row now selected j = started now (claim_row now j) j"
    unfolding sel using dist_t j(1) by (rule mark_claimed)
  have running: "job_repo_id j \<notin> load_running_repo_ids t"
    using row(4) by (simp add: admitted_def env_def claim_env_of_def)
  have no_running: "job_status u \<noteq> SpoolRunning \<or> job_repo_id u \<noteq> job_repo_id j" if "u \<in> set jobs" for u
  proof -
    have "u \<in> set t" if "job_status u = SpoolRunning"
      unfolding t_def pruned_table_set using that \<open>u \<in> set jobs\<close> by (intro bexI [of _ u]) (simp_all add: pending_def)
    then have "job_repo_id u \<in> load_running_repo_ids t" if "job_status u = SpoolRunning"
      using that by (simp add: load_running_repo_ids_def image_iff) blast
    then show ?thesis using running by metis
  qed
  have fields: "job_id s = job_id j" "job_repo_id s = job_repo_id j" "payload s = payload j" "available_at s = available_at j"
    using j(2) by (simp_all add: claim_row_def)
  have der: "post_commit_derivation_is_blocked s guards = post_commit_derivation_is_blocked j guards"
    "post_commit_derivation_is_abandoned s guards = post_commit_derivation_is_abandoned j guards"
    unfolding post_commit_derivation_is_blocked_def post_commit_derivation_is_abandoned_def fields by simp_all
  have adm: "job_repo_id j \<notin> blocked" "list_all (\<lambda>t. \<not> conflicts_with_running_task (payload j) (job_repo_id j) t) running_tasks"
    "\<not> post_commit_derivation_is_blocked j guards" "\<not> post_commit_derivation_is_abandoned j guards"
    using row(4) by (simp_all add: admitted_def env_def claim_env_of_def list_all_iff)
  have "length selected \<le> 16" using sel by (simp add: to_claim_def CLAIM_BATCH_LIMIT_def)
  moreover have "distinct (map job_repo_id selected)"
    using to_claim_distinct_repos [of env now t] sel by (simp add: claim_row_def comp_def)
  moreover have "list_ex (\<lambda>u. job_id u = job_id s \<and> job_repo_id u = job_repo_id s \<and> payload u = payload s \<and>
      job_status u = SpoolRunning \<and> attempts u = attempts s \<and> last_error u = None) jobs'"
    unfolding list_ex_iff using kept marked fields j(2)
    by (intro bexI [of _ "mark_row now selected j"]) (simp_all add: started_def)
  ultimately show ?thesis
    using adm no_running row(3) unfolding fields der by (simp add: list_all_iff)
qed

theorem claimed_jobs_admissible_witness:
  "length (map (claim_row 2) one_pending) \<le> 16 \<and>
   list_ex (\<lambda>j. job_id j = ''producer-spool-job-a'' \<and> job_status j = SpoolRunning \<and> attempts j = 1) one_claimed"
proof -
  have mem: "claim_row 2 (hd one_pending) \<in> set (map (claim_row 2) one_pending)" by (simp add: one_pending_row)
  have "attempts (claim_row 2 (hd one_pending)) = 1" "job_id (claim_row 2 (hd one_pending)) = ''producer-spool-job-a''"
    by (simp_all add: one_pending_row claim_row_def)
  then show ?thesis
    using claimed_jobs_admissible [OF spool_sample_reach(1) one_pending_claim mem] by (auto simp: list_ex_iff)
qed

text \<open>The row by row pruning of the pending jobs, which deletes and rewrites rows while it goes,
  succeeds exactly when every pending job's policy loads and its rewrite can be stamped, and then it is
  one pass over the table: each pending row is dropped, cut down to its included paths, or kept.\<close>

theorem pruning_is_one_pass:
  assumes "spool_reach jobs"
  shows "prune_excluded_pending_producer_spool_jobs load_matcher now jobs = Inr jobs' \<longleftrightarrow>
    list_all (\<lambda>j. \<not> pending j \<or> row_ok load_matcher now j) jobs \<and>
    jobs' = concat (map (\<lambda>j. if pending j then row_out load_matcher now j else [j]) jobs)"
proof -
  have "distinct (map job_id jobs)" using spool_reach_inv [OF assms] by (simp add: spool_inv_def)
  from prune_result [OF this] show ?thesis by (auto simp: pruned_table_def list_all_iff)
qed

theorem pruning_is_one_pass_witness:
  "prune_excluded_pending_producer_spool_jobs (\<lambda>_. Inr (\<lambda>p. p = ''y'')) 4 running_and_pending = Inr one_claimed"
proof -
  have "row_ok (\<lambda>_. Inr (\<lambda>p. p = ''y'')) 4 j \<and> row_out (\<lambda>_. Inr (\<lambda>p. p = ''y'')) 4 j = []"
    if "payload j = paths_payload Watcher [''y'']" for j
    using that by (simp add: row_ok_def row_out_def pruned_row_def paths_payload_def
        prune_excluded_paths_from_payload_def keep_included_def)
  then have "list_all (\<lambda>j. \<not> pending j \<or> row_ok (\<lambda>_. Inr (\<lambda>p. p = ''y'')) 4 j) running_and_pending"
    "one_claimed = concat (map (\<lambda>j. if pending j then row_out (\<lambda>_. Inr (\<lambda>p. p = ''y'')) 4 j else [j]) running_and_pending)"
    unfolding running_and_pending_rows one_claimed_row one_pending_row
    by (simp_all add: pending_def claim_row_def paths_payload_def)
  then show ?thesis using pruning_is_one_pass [OF spool_sample_reach(3)] by blast
qed



lemma row_out_available: "u \<in> set (row_out load_matcher now j) \<Longrightarrow> available_at u = available_at j"
  by (auto simp: row_out_def pruned_row_def and_then_def split: sum.splits option.splits if_splits)

lemma claimed_from_table:
  assumes "spool_inv jobs" "s \<in> set selected"
    and "claim_body load_matcher prune_now now blocked running_tasks guards jobs = Inr (jobs', selected)"
  shows "\<exists>j \<in> set jobs. job_id j = job_id s \<and> available_at j \<le> now"
proof -
  let ?t = "pruned_table load_matcher prune_now pending jobs"
  let ?env = "claim_env_of blocked running_tasks guards now ?t"
  have dist: "distinct (map job_id jobs)" using assms(1) by (simp add: spool_inv_def)
  from assms(3) dist have "selected = map (claim_row now) (to_claim ?env now ?t)" by (rule claim_result)
  then obtain u where u: "u \<in> set (to_claim ?env now ?t)" "s = claim_row now u" using assms(2) by auto
  then have "u \<in> set ?t" "available_at u \<le> now" using to_claim_in by blast+
  from \<open>u \<in> set ?t\<close> obtain j where j: "j \<in> set jobs"
    "if pending j then u \<in> set (row_out load_matcher prune_now j) else u = j"
    unfolding pruned_table_set by blast
  have "job_id u = job_id j" "available_at u = available_at j"
    using j(2) row_out_same(1) [of u load_matcher prune_now j] row_out_available [of u load_matcher prune_now j]
    by (cases "pending j"; simp add: same_row_def)+
  moreover have "job_id s = job_id u" using u(2) by (simp add: claim_row_def)
  ultimately show ?thesis using \<open>available_at u \<le> now\<close> j(1) by (intro bexI [of _ j]) simp_all
qed

text \<open>A job requeued after a failure is pending with its error, and no claim takes it during the five
  seconds of backoff.\<close>

theorem requeued_job_backs_off:
  assumes "spool_reach jobs" "now + 5 < 2 ^ 63"
    and "requeue_producer_spool_job now jid err jobs = (jobs1, r)"
    and "claim_body load_matcher prune_now later blocked running_tasks guards jobs1 = Inr (jobs2, selected)"
    and "later < now + 5"
  shows "list_all (\<lambda>s. job_id s \<noteq> jid) selected \<and>
    list_all (\<lambda>j. job_id j \<noteq> jid \<or> pending j \<and> available_at j = now + 5 \<and> last_error j = Some err) jobs1"
proof -
  have jobs1: "jobs1 = update_rows_by_id jid (\<lambda>j. j\<lparr>job_status := SpoolPending, available_at := now + 5,
      job_updated_at := now, last_error := Some err\<rparr>) jobs"
    using assms(2,3)
    by (auto simp: requeue_producer_spool_job_def spool_transaction_def sql_i64_def REQUEUE_BACKOFF_SECS_def)
  have inv: "spool_inv jobs1"
    using spool_reach.step [OF assms(1) spool_step.update, OF spool_update.requeue [of jobs now jid err]] assms(3) spool_reach_inv by simp
  have rows: "pending j \<and> available_at j = now + 5 \<and> last_error j = Some err"
    if "j \<in> set jobs1" "job_id j = jid" for j
  proof -
    from that(1) obtain old where "j = (if job_id old = jid then old\<lparr>job_status := SpoolPending,
        available_at := now + 5, job_updated_at := now, last_error := Some err\<rparr> else old)"
      unfolding jobs1 update_rows_by_id_def set_map by (rule imageE)
    then show ?thesis using that(2) by (cases "job_id old = jid") (simp_all add: pending_def)
  qed
  have "job_id s \<noteq> jid" if s: "s \<in> set selected" for s
  proof
    assume "job_id s = jid"
    then obtain j where "j \<in> set jobs1" "job_id j = jid" "available_at j \<le> later"
      using claimed_from_table [OF inv s assms(4)] by blast
    then show False using rows [of j] assms(5) by simp
  qed
  then show ?thesis using rows by (auto simp: list_all_iff)
qed

definition nothing_guarded :: claim_guards where
  "nothing_guarded = \<lparr>guard_blocked = {}, guard_abandoned = {}\<rparr>"

theorem requeued_job_backs_off_witness:
  "fst (requeue_producer_spool_job 3 ''producer-spool-job-a'' ''e'' one_claimed) \<noteq> [] \<and>
   claim_body include_all 7 7 {} [] nothing_guarded
     (fst (requeue_producer_spool_job 3 ''producer-spool-job-a'' ''e'' one_claimed)) =
   Inr (fst (requeue_producer_spool_job 3 ''producer-spool-job-a'' ''e'' one_claimed), []) \<and>
   list_all (\<lambda>j. available_at j = 8) (fst (requeue_producer_spool_job 3 ''producer-spool-job-a'' ''e'' one_claimed))"
proof -
  let ?jobs = "fst (requeue_producer_spool_job 3 ''producer-spool-job-a'' ''e'' one_claimed)"
  have row: "?jobs \<noteq> []" "list_all (\<lambda>j. job_id j = ''producer-spool-job-a'') ?jobs"
    by (simp_all add: one_claimed_row one_pending_row claim_row_def requeue_producer_spool_job_def spool_transaction_def
        sql_i64_def REQUEUE_BACKOFF_SECS_def update_rows_by_id_def)
  have claim: "claim_body include_all 7 7 {} [] nothing_guarded ?jobs = Inr (?jobs, [])"
    unfolding one_claimed_row one_pending_row
    by (simp add: spool_eval requeue_producer_spool_job_def REQUEUE_BACKOFF_SECS_def)
  have "requeue_producer_spool_job 3 ''producer-spool-job-a'' ''e'' one_claimed =
      (?jobs, snd (requeue_producer_spool_job 3 ''producer-spool-job-a'' ''e'' one_claimed))" by simp
  from requeued_job_backs_off [OF spool_sample_reach(2) _ this claim] row claim show ?thesis by (simp add: list_all_iff)
qed

text \<open>When the policy of one pending job's repository cannot be loaded, no claim takes anything, for
  whatever repository: the transaction fails and leaves the table as it was.\<close>

theorem unreadable_policy_stops_every_claim:
  assumes "spool_reach jobs" "j \<in> set jobs" "job_status j = SpoolPending" "load_matcher (job_repo_root j) = Inl e"
  shows "\<exists>e'. claim_next_producer_spool_jobs_excluding load_matcher prune_now now blocked running_tasks guards jobs =
    (jobs, Inl e')"
proof -
  have "distinct (map job_id jobs)" using spool_reach_inv [OF assms(1)] by (simp add: spool_inv_def)
  moreover have "\<not> row_ok load_matcher prune_now j" using assms(4) by (simp add: row_ok_def pruned_row_def)
  ultimately have "\<And>t. prune_excluded_pending_producer_spool_jobs load_matcher prune_now jobs \<noteq> Inr t"
    using prune_result [of jobs load_matcher prune_now] assms(2,3) by (simp add: pending_def) blast
  then obtain e' where "prune_excluded_pending_producer_spool_jobs load_matcher prune_now jobs = Inl e'"
    by (cases "prune_excluded_pending_producer_spool_jobs load_matcher prune_now jobs") auto
  then have "claim_body load_matcher prune_now now blocked running_tasks guards jobs = Inl e'"
    by (simp add: claim_body_def)
  then show ?thesis
    by (simp add: claim_next_producer_spool_jobs_excluding_def spool_transaction_def)
qed

theorem unreadable_policy_stops_every_claim_witness:
  "\<exists>e'. claim_next_producer_spool_jobs_excluding (\<lambda>_. Inl ''broken'') 5 5 {} [] nothing_guarded running_and_pending =
    (running_and_pending, Inl e')"
proof -
  let ?j = "last running_and_pending"
  have "?j \<in> set running_and_pending" "job_status ?j = SpoolPending"
    by (simp_all add: running_and_pending_rows one_pending_row)
  from unreadable_policy_stops_every_claim [OF spool_sample_reach(3) this] show ?thesis by simp
qed

end
