(* ===== verification/TaskWorker.thy ===== *)
theory TaskWorker
  imports QueueProperties SpoolProperties
begin

text \<open>
  The daemon's task worker, \<open>daemon/tasks/coordinator/worker/activation.rs\<close> and \<open>worker/spool.rs\<close>:
  the loop that claims spool jobs and starts tasks, and what a claimed job does to the queue. The
  queue and the spool are two stores with transactions of their own; the loop reads one before it
  writes the other, and hooks, finishing jobs and finishing tasks interleave between its steps.
\<close>

section \<open>Processing a job (worker/spool.rs)\<close>

text \<open>What a job needs from outside: the producer policy of a repository, its configuration, the paths of
  a refresh that are subject to analysis, the commits to backfill, and the work the inline jobs do.\<close>

record job_env =
  je_now :: nat
  je_protected :: "string set"
  je_uuid :: "nat \<Rightarrow> string"
  je_sync_enabled :: "string \<Rightarrow> (string, bool) result"
  je_ingest_enabled :: "string \<Rightarrow> (string, bool) result"
  je_resolve_backends :: "string \<Rightarrow> (string, unit) result"
  je_refresh_paths :: "devql_config \<Rightarrow> string list \<Rightarrow> string \<Rightarrow> (string, string list) result"
  je_snapshot_commit :: "devql_config \<Rightarrow> post_commit_snapshot_spec \<Rightarrow> (string, unit) result"
  je_backfill_commits :: "devql_config \<Rightarrow> string \<Rightarrow> nat \<Rightarrow> (string, string list) result"
  je_derive :: "string \<Rightarrow> string \<Rightarrow> string list \<Rightarrow> bool \<Rightarrow> (string, unit) result"
  je_push :: "string \<Rightarrow> string \<Rightarrow> string list \<Rightarrow> (string, unit) result"

definition DEFAULT_POST_MERGE_HISTORY_BACKFILL :: nat where
  "DEFAULT_POST_MERGE_HISTORY_BACKFILL = 200"

text \<open>\<open>anyhow::Context\<close>, printed with \<open>{err:#}\<close>.\<close>

definition in_context :: "string \<Rightarrow> (string, 'a) result \<Rightarrow> (string, 'a) result" where
  "in_context msg r = (case r of Inl e \<Rightarrow> Inl (msg @ '': '' @ e) | Inr x \<Rightarrow> Inr x)"

definition devql_config_from_producer_spool_job :: "job_env \<Rightarrow> spool_job \<Rightarrow> (string, devql_config) result" where
  "devql_config_from_producer_spool_job env job =
     and_then (in_context ''resolving backend config for DevQL runtime'' (je_resolve_backends env (job_config_root job)))
       (\<lambda>_. Inr \<lparr>cfg_config_root = job_config_root job, cfg_repo_root = job_repo_root job, cfg_repo_id = job_repo_id job,
          cfg_name = job_repo_name job, cfg_provider = job_repo_provider job,
          cfg_organization = job_repo_organisation job, cfg_identity = job_repo_identity job\<rparr>)"

text \<open>\<open>self.enqueue(..)?\<close>: a transaction of the queue; an error leaves the queue alone.\<close>

definition submit :: "job_env \<Rightarrow> nat \<Rightarrow> devql_config \<Rightarrow> devql_task_source \<Rightarrow> devql_task_spec
    \<Rightarrow> queue_state \<Rightarrow> queue_state \<times> (string, unit) result" where
  "submit env k cfg src sp q =
     (case enqueue (je_now env) (je_protected env) (je_uuid env k) cfg src sp q of
        Inl e \<Rightarrow> (q, Inl e)
      | Inr (q', _, _) \<Rightarrow> (q', Inr ()))"

text \<open>\<open>let x = r?;\<close> in code that changes the queue.\<close>

definition try_with :: "(string, 'a) result \<Rightarrow> queue_state \<Rightarrow> ('a \<Rightarrow> queue_state \<times> (string, unit) result)
    \<Rightarrow> queue_state \<times> (string, unit) result" where
  "try_with r q f = (case r of Inl e \<Rightarrow> (q, Inl e) | Inr x \<Rightarrow> f x)"

definition paths_spec :: "string list \<Rightarrow> post_commit_snapshot_spec option \<Rightarrow> devql_task_spec" where
  "paths_spec paths snapshot = SyncSpec \<lparr>sync_mode = Paths paths, post_commit_snapshot = snapshot\<rparr>"

text \<open>\<open>execute_devql_post_commit_refresh\<close> with \<open>run_post_commit_artefact_refresh\<close> and \<open>sync_changed_paths\<close>.\<close>

definition post_commit_refresh :: "job_env \<Rightarrow> devql_config \<Rightarrow> string \<Rightarrow> string list \<Rightarrow> queue_state
    \<Rightarrow> queue_state \<times> (string, unit) result" where
  "post_commit_refresh env cfg commit_sha changed_files q =
     try_with (in_context ''loading DevQL sync producer policy for post-commit refresh''
         (je_sync_enabled env (cfg_repo_root cfg))) q (\<lambda>enabled.
       if \<not> enabled then (q, Inr ())
       else let sha = trim commit_sha in
       if sha = [] then (q, Inr ())
       else try_with (in_context ''refreshing DevQL artefacts for post-commit files''
              (je_refresh_paths env cfg changed_files ''post-commit'')) q (\<lambda>paths.
         let snapshot = \<lparr>snap_commit_sha = sha, snap_changed_paths = paths\<rparr> in
         if paths = [] then
           try_with (in_context ''refreshing DevQL artefacts for post-commit files''
             (in_context ''snapshotting committed current rows for post-commit refresh'' (je_snapshot_commit env cfg snapshot)))
             q (\<lambda>_. (q, Inr ()))
         else (case submit env 0 cfg PostCommit (paths_spec paths (Some snapshot)) q of
             (q', r) \<Rightarrow> (q', in_context ''refreshing DevQL artefacts for post-commit files''
                          (in_context ''queueing DevQL sync for post-commit refresh'' r)))))"

text \<open>The sync part of both post-merge payloads.\<close>

definition post_merge_sync :: "job_env \<Rightarrow> nat \<Rightarrow> devql_config \<Rightarrow> string list \<Rightarrow> queue_state
    \<Rightarrow> queue_state \<times> (string, unit) result" where
  "post_merge_sync env k cfg changed_files q =
     try_with (je_refresh_paths env cfg changed_files ''post-merge'') q (\<lambda>paths.
       if paths = [] then (q, Inr ()) else submit env k cfg PostMerge (paths_spec paths None) q)"

definition task_disabled :: "job_env \<Rightarrow> string \<Rightarrow> devql_task_spec \<Rightarrow> (string, bool) result" where
  "task_disabled env root sp =
     (case sp of
        SyncSpec _ \<Rightarrow> and_then (in_context ''loading DevQL sync producer policy for spooled sync task''
          (je_sync_enabled env root)) (\<lambda>b. Inr (\<not> b))
      | IngestSpec _ \<Rightarrow> and_then (in_context ''loading DevQL ingest producer policy for spooled ingest task''
          (je_ingest_enabled env root)) (\<lambda>b. Inr (\<not> b))
      | _ \<Rightarrow> Inr False)"

definition process_producer_spool_job :: "job_env \<Rightarrow> spool_job \<Rightarrow> queue_state \<Rightarrow> queue_state \<times> (string, unit) result" where
  "process_producer_spool_job env job q =
     (let root = job_repo_root job; config = devql_config_from_producer_spool_job env job in
      case payload job of
        TaskPayload src sp \<Rightarrow>
          try_with (task_disabled env root sp) q (\<lambda>disabled.
            if disabled then (q, Inr ())
            else try_with config q (\<lambda>cfg. submit env 0 cfg src sp q))
      | PostCommitRefresh sha files \<Rightarrow>
          try_with (in_context ''loading DevQL sync producer policy for post-commit refresh''
              (je_sync_enabled env root)) q (\<lambda>enabled.
            if \<not> enabled then (q, Inr ())
            else try_with config q (\<lambda>cfg. post_commit_refresh env cfg sha files q))
      | PostCommitDerivation sha files rebasing \<Rightarrow>
          (q, if trim sha = [] then Inr () else je_derive env root (trim sha) files rebasing)
      | PostMergeRefresh _ files \<Rightarrow>
          try_with config q (\<lambda>cfg.
          try_with (in_context ''loading DevQL ingest producer policy for post-merge refresh''
              (je_ingest_enabled env root)) q (\<lambda>ingest.
            let (q, r) = (if ingest then submit env 0 cfg PostMerge
                  (IngestSpec \<lparr>ingest_commits = [], ingest_backfill = Some DEFAULT_POST_MERGE_HISTORY_BACKFILL\<rparr>) q
                else (q, Inr ()))
            in try_with r q (\<lambda>_.
            try_with (in_context ''loading DevQL sync producer policy for post-merge refresh''
                (je_sync_enabled env root)) q (\<lambda>sync.
              if sync then post_merge_sync env 1 cfg files q else (q, Inr ())))))
      | PostMergeSyncRefresh _ files _ \<Rightarrow>
          try_with (in_context ''loading DevQL sync producer policy for post-merge sync refresh''
              (je_sync_enabled env root)) q (\<lambda>enabled.
            if \<not> enabled then (q, Inr ())
            else try_with config q (\<lambda>cfg. post_merge_sync env 0 cfg files q))
      | PostMergeIngestBackfill head squash \<Rightarrow>
          if squash then (q, Inr ())
          else try_with (in_context ''loading DevQL ingest producer policy for post-merge ingest backfill''
              (je_ingest_enabled env root)) q (\<lambda>enabled.
            if \<not> enabled then (q, Inr ())
            else try_with config q (\<lambda>cfg.
              try_with (in_context (''selecting post-merge ingest commits anchored at `'' @ head @ ''`'')
                  (je_backfill_commits env cfg head DEFAULT_POST_MERGE_HISTORY_BACKFILL)) q (\<lambda>commits.
                if commits = [] then (q, Inr ())
                else submit env 0 cfg PostMerge (IngestSpec \<lparr>ingest_commits = commits, ingest_backfill = None\<rparr>) q)))
      | PrePushSync remote ls \<Rightarrow>
          try_with (in_context ''loading DevQL sync producer policy for pre-push sync'' (je_sync_enabled env root)) q
            (\<lambda>enabled. (q, if \<not> enabled then Inr () else je_push env root remote ls)))"

text \<open>\<open>run_producer_spool_job\<close>: delete the row of a job that succeeded, requeue one that failed. The deletion
  is one statement that cannot fail in the model; a failed requeue is logged.\<close>

definition run_producer_spool_job :: "job_env \<Rightarrow> spool_job \<Rightarrow> queue_state \<Rightarrow> spool_table \<Rightarrow> queue_state \<times> spool_table" where
  "run_producer_spool_job env job q jobs =
     (let (q', outcome) = process_producer_spool_job env job q in
      case outcome of
        Inr _ \<Rightarrow>
          (case delete_producer_spool_job (job_id job) jobs of
             (jobs', Inr _) \<Rightarrow> (q', jobs')
           | (jobs', Inl e) \<Rightarrow> (q', fst (requeue_producer_spool_job (je_now env) (job_id job) e jobs')))
      | Inl e \<Rightarrow> (q', fst (requeue_producer_spool_job (je_now env) (job_id job) e jobs)))"

section \<open>The loop (worker/activation.rs)\<close>

definition running_view :: "devql_task_record \<Rightarrow> spool_running_task" where
  "running_view t = \<lparr>rt_repo_id = repo_id t, rt_kind = kind t, rt_source = source t\<rparr>"

definition running_tasks_of :: "queue_state \<Rightarrow> spool_running_task list" where
  "running_tasks_of q = map running_view (filter (\<lambda>t. status t = Running) (tasks q))"

text \<open>Where the loop is: at the start of a cycle; with the queue state it has read for the claim; done with
  the spool; or with the repositories it has read for the scheduler.\<close>

datatype worker_pc =
    CycleStart
  | StateLoaded "spool_running_task list" claim_guards "string set"
  | SpoolDone
  | ReposRead "string set"

record worker_system =
  sys_queue :: queue_state
  sys_spool :: spool_table
  sys_pc :: worker_pc

inductive worker_step :: "worker_system \<Rightarrow> worker_system \<Rightarrow> bool" where
  load: "sys_pc s = CycleStart \<Longrightarrow> worker_step s
     (s\<lparr>sys_pc := StateLoaded (running_tasks_of (sys_queue s))
        (post_commit_derivation_claim_guards (sys_queue s)) lifecycle_blocked\<rparr>)"
| skip_spool: "sys_pc s = CycleStart \<Longrightarrow> worker_step s (s\<lparr>sys_pc := SpoolDone\<rparr>)"
| claim: "sys_pc s = StateLoaded running guards lifecycle_blocked \<Longrightarrow> worker_step s
     (s\<lparr>sys_spool := fst (claim_next_producer_spool_jobs_excluding load_matcher prune_now now
          lifecycle_blocked running guards (sys_spool s)), sys_pc := SpoolDone\<rparr>)"
| read_repos: "sys_pc s = SpoolDone \<Longrightarrow> worker_step s
     (s\<lparr>sys_pc := ReposRead (running_producer_spool_repo_ids (sys_spool s))\<rparr>)"
| schedule: "sys_pc s = ReposRead repos \<Longrightarrow> commits (schedule_body now repos) (sys_queue s) q \<Longrightarrow>
     worker_step s (s\<lparr>sys_queue := q, sys_pc := CycleStart\<rparr>)"
| cycle_fails: "worker_step s (s\<lparr>sys_pc := CycleStart\<rparr>)"
| queue: "queue_update (sys_queue s) q \<Longrightarrow> worker_step s (s\<lparr>sys_queue := q\<rparr>)"
| spool: "spool_update (sys_spool s) jobs \<Longrightarrow> worker_step s (s\<lparr>sys_spool := jobs\<rparr>)"

inductive worker_reach :: "worker_system \<Rightarrow> bool" where
  initial: "worker_reach \<lparr>sys_queue = queue_state_default, sys_spool = [], sys_pc = CycleStart\<rparr>"
| step: "worker_reach s \<Longrightarrow> worker_step s s' \<Longrightarrow> worker_reach s'"

end
