(* ===== verification/WorkerProperties.thy ===== *)
theory WorkerProperties
  imports TaskWorker
begin

text \<open>
  What the worker loop promises about its two stores: an invariant over the interleavings of its
  steps with everything else that writes the queue or the spool, and what a processed job leaves
  behind.
\<close>

section \<open>The invariant of the loop\<close>

definition conflicts_in :: "spool_job \<Rightarrow> devql_task_record \<Rightarrow> bool" where
  "conflicts_in j t \<longleftrightarrow> conflicts_with_running_task (payload j) (job_repo_id j) (running_view t)"

definition apart :: "queue_state \<Rightarrow> spool_table \<Rightarrow> bool" where
  "apart q jobs \<longleftrightarrow> (\<forall>j \<in> set jobs. \<forall>t \<in> set (tasks q).
     job_status j = SpoolRunning \<and> status t = Running \<longrightarrow> \<not> conflicts_in j t)"

text \<open>The entry \<open>rt\<close> of a list read earlier holds back every job that the running task \<open>t\<close> conflicts with.\<close>

definition shadows :: "spool_running_task \<Rightarrow> devql_task_record \<Rightarrow> bool" where
  "shadows rt t \<longleftrightarrow> (\<forall>p repo. conflicts_with_running_task p repo (running_view t) \<longrightarrow> conflicts_with_running_task p repo rt)"

fun pc_ok :: "queue_state \<Rightarrow> spool_table \<Rightarrow> worker_pc \<Rightarrow> bool" where
  "pc_ok q jobs (StateLoaded running _ _) \<longleftrightarrow>
     (\<forall>t \<in> set (tasks q). status t = Running \<longrightarrow> (\<exists>rt \<in> set running. shadows rt t))"
| "pc_ok q jobs (ReposRead repos) \<longleftrightarrow> running_producer_spool_repo_ids jobs \<subseteq> repos"
| "pc_ok q jobs _ \<longleftrightarrow> True"

definition worker_inv :: "worker_system \<Rightarrow> bool" where
  "worker_inv s \<longleftrightarrow> queue_inv (sys_queue s) \<and> spool_inv (sys_spool s) \<and>
     apart (sys_queue s) (sys_spool s) \<and> pc_ok (sys_queue s) (sys_spool s) (sys_pc s)"

lemma conflict_same_repo: "conflicts_with_running_task p repo rt \<Longrightarrow> rt_repo_id rt = repo"
  by (simp add: conflicts_with_running_task_def split: if_splits)

lemma shadow_view: "shadows (running_view t) t"
  by (simp add: shadows_def)

text \<open>A change that starts nothing can only make fewer jobs conflict.\<close>

lemma conflicts_before:
  assumes "starts_nothing t u" "status u = Running" "conflicts_with_running_task p repo (running_view u)"
  shows "conflicts_with_running_task p repo (running_view t)"
  using assms unfolding conflicts_with_running_task_def starts_nothing_def policy_sync_def
  by (cases "admission_class_of p") (auto simp: running_view_def split: if_splits)

lemma shadows_after: "shadows rt t \<Longrightarrow> starts_nothing t u \<Longrightarrow> status u = Running \<Longrightarrow> shadows rt u"
  using conflicts_before unfolding shadows_def by blast

lemma apart_calm: "apart q jobs \<Longrightarrow> calm q q' \<Longrightarrow> apart q' jobs"
  unfolding apart_def calm_def conflicts_in_def by (meson conflicts_before starts_nothing_def)

lemma apart_quiet: "apart q jobs \<Longrightarrow> quiet jobs jobs' \<Longrightarrow> apart q jobs'"
  unfolding apart_def quiet_def by blast

lemma pc_ok_calm: "pc_ok q jobs pc \<Longrightarrow> calm q q' \<Longrightarrow> pc_ok q' jobs pc"
  by (cases pc) (simp_all add: calm_def, meson shadows_after starts_nothing_def)

lemma running_repos_quiet: "quiet jobs jobs' \<Longrightarrow> running_producer_spool_repo_ids jobs' \<subseteq> running_producer_spool_repo_ids jobs"
  by (auto simp: running_producer_spool_repo_ids_def quiet_def)

lemma pc_ok_quiet: "pc_ok q jobs pc \<Longrightarrow> quiet jobs jobs' \<Longrightarrow> pc_ok q jobs' pc"
  using running_repos_quiet by (cases pc) (simp_all, blast)

subsection \<open>Loading and claiming\<close>

lemma loaded_ok: "pc_ok q jobs (StateLoaded (running_tasks_of q) guards blocked)"
  by (auto simp: running_tasks_of_def intro: shadow_view)

text \<open>After a claim a running row ran before, or was admitted by the guards of the claim.\<close>

lemma claim_running:
  assumes inv: "spool_inv jobs"
    and u: "u \<in> set (fst (claim_next_producer_spool_jobs_excluding load_matcher prune_now now blocked running guards jobs))"
      "job_status u = SpoolRunning"
  shows "u \<in> set jobs \<or> (\<forall>rt \<in> set running. \<not> conflicts_with_running_task (payload u) (job_repo_id u) rt)"
proof (cases "claim_body load_matcher prune_now now blocked running guards jobs")
  case (Inl e)
  then show ?thesis using u by (simp add: claim_next_producer_spool_jobs_excluding_def spool_transaction_def)
next
  case (Inr r)
  obtain jobs' selected where r: "r = (jobs', selected)" by (cases r)
  have dist: "distinct (map job_id jobs)" using inv by (simp add: spool_inv_def)
  define t where "t = pruned_table load_matcher prune_now pending jobs"
  define env where "env = claim_env_of blocked running guards now t"
  from Inr [unfolded r] dist obtain abandoned where
    sel: "selected = map (claim_row now) (to_claim env now t)" and
    jobs': "jobs' = map (mark_row now selected) (filter (\<lambda>j. job_id j \<notin> set abandoned) t)"
    unfolding t_def env_def by (rule claim_result)
  have "u \<in> set jobs'" using u(1) Inr r by (simp add: claim_next_producer_spool_jobs_excluding_def spool_transaction_def)
  then obtain j where j: "j \<in> set t" "u = mark_row now selected j" unfolding jobs' by auto
  show ?thesis
  proof (cases "find (\<lambda>s. job_id s = job_id j) selected")
    case None
    then have "u = j" using j(2) by (simp add: mark_row_def)
    then show ?thesis using pruned_table_running j(1) u(2) unfolding t_def by blast
  next
    case (Some s)
    then have "s \<in> set selected" "job_id s = job_id j" using find_SomeD [OF Some] by simp_all
    then obtain k where k: "k \<in> set (to_claim env now t)" "job_id k = job_id j" by (auto simp: sel claim_row_def)
    have "distinct (map job_id t)" unfolding t_def by (rule pruned_table_distinct [OF dist])
    then have "k = j" using by_id [of t j k] j(1) to_claim_in(1) [OF k(1)] k(2) by simp
    then have "admitted env j" using to_claim_in(4) [OF k(1)] by simp
    then show ?thesis using j(2) Some by (simp add: admitted_def env_def claim_env_of_def mark_row_def)
  qed
qed

lemma claim_apart:
  assumes "spool_inv jobs" "apart q jobs" "pc_ok q jobs (StateLoaded running guards blocked)"
  shows "apart q (fst (claim_next_producer_spool_jobs_excluding load_matcher prune_now now blocked running guards jobs))"
  unfolding apart_def
proof (intro ballI impI, elim conjE)
  fix u t
  assume u: "u \<in> set (fst (claim_next_producer_spool_jobs_excluding load_matcher prune_now now blocked running guards jobs))"
      "job_status u = SpoolRunning"
    and t: "t \<in> set (tasks q)" "status t = Running"
  from claim_running [OF assms(1) u] show "\<not> conflicts_in u t"
  proof
    assume "u \<in> set jobs"
    then show ?thesis using assms(2) u(2) t unfolding apart_def by blast
  next
    assume "\<forall>rt \<in> set running. \<not> conflicts_with_running_task (payload u) (job_repo_id u) rt"
    then show ?thesis using assms(3) t unfolding conflicts_in_def shadows_def by (metis pc_ok.simps(1) shadows_def)
  qed
qed

subsection \<open>Scheduling\<close>

lemma schedule_running:
  assumes "queue_inv q" "commits (schedule_body now repos) q q'" "u \<in> set (tasks q')" "status u = Running"
  shows "(\<exists>t \<in> set (tasks q). starts_nothing t u) \<or> repo_id u \<notin> repos"
proof -
  from assms(2) obtain now' p x changed where "mutate_state now' p (schedule_body now repos) q = Inr (q', x, changed)"
    unfolding commits_def by blast
  then obtain st where st: "schedule_body now repos q = Inr (st, x)" "q' = save_state now' p st"
    by (auto simp: mutate_state_def Let_def and_then_def split: sum.splits)
  have "queue_inv st" by (rule schedule.keeps [OF assms(1) st(1)])
  then have "calm st q'" unfolding st(2) by (intro calm_save calm_refl)
  then obtain v where v: "v \<in> set (tasks st)" "starts_nothing v u" using assms(3,4) unfolding calm_def by blast
  then obtain i where i: "i < length (tasks st)" "tasks st ! i = v" by (auto simp: in_set_conv_nth)
  note result = schedule_result [OF st(1)]
  have len: "i < length (tasks q)" using i(1) result(2) by simp
  show ?thesis
  proof (cases "i \<in> set (next_runnable_task_indexes_blocking_repo_ids q repos)")
    case True
    then have "may_start q repos (tasks q ! i)" using next_runnable_spec(1) by blast
    then have "repo_id (tasks q ! i) \<notin> repos" by (rule may_startD(2))
    moreover have "repo_id u = repo_id (tasks q ! i)"
      using v(2) result(3) [OF len] True i(2) assms(4) by (simp add: starts_nothing_def start_task_def)
    ultimately show ?thesis by simp
  next
    case False
    then show ?thesis using result(3) [OF len] i(2) v(2) nth_mem [OF len] by auto
  qed
qed

lemma schedule_apart:
  assumes "queue_inv q" "apart q jobs" "pc_ok q jobs (ReposRead repos)" "commits (schedule_body now repos) q q'"
  shows "apart q' jobs"
  unfolding apart_def
proof (intro ballI impI, elim conjE)
  fix j u assume j: "j \<in> set jobs" "job_status j = SpoolRunning" and u: "u \<in> set (tasks q')" "status u = Running"
  have "job_repo_id j \<in> repos" using assms(3) j by (auto simp: running_producer_spool_repo_ids_def)
  from schedule_running [OF assms(1,4) u] show "\<not> conflicts_in j u"
  proof
    assume "\<exists>t \<in> set (tasks q). starts_nothing t u"
    then show ?thesis
      using assms(2) j u(2) conflicts_before unfolding apart_def conflicts_in_def starts_nothing_def by meson
  next
    assume "repo_id u \<notin> repos"
    then show ?thesis using \<open>job_repo_id j \<in> repos\<close> conflict_same_repo [of "payload j" "job_repo_id j" "running_view u"]
      by (auto simp: conflicts_in_def running_view_def)
  qed
qed

lemma worker_invD:
  assumes "worker_inv s"
  shows "queue_inv (sys_queue s)" "spool_inv (sys_spool s)" "apart (sys_queue s) (sys_spool s)"
    "pc_ok (sys_queue s) (sys_spool s) (sys_pc s)"
  using assms by (simp_all add: worker_inv_def)

lemma worker_step_inv: "worker_step s s' \<Longrightarrow> worker_inv s \<Longrightarrow> worker_inv s'"
proof (induction rule: worker_step.induct)
  case (load s lifecycle_blocked)
  then show ?case using loaded_ok by (simp add: worker_inv_def)
next
  case (claim s running guards lifecycle_blocked load_matcher prune_now now)
  note inv = worker_invD [OF claim.prems]
  define jobs where "jobs = fst (claim_next_producer_spool_jobs_excluding load_matcher prune_now now
      lifecycle_blocked running guards (sys_spool s))"
  have "spool_inv jobs" unfolding jobs_def by (rule spool_step_inv [OF spool_step.claim inv(2)])
  moreover have "apart (sys_queue s) jobs"
    unfolding jobs_def by (rule claim_apart [OF inv(2,3) inv(4) [unfolded claim.hyps]])
  ultimately have "worker_inv (s\<lparr>sys_spool := jobs, sys_pc := SpoolDone\<rparr>)"
    using inv(1) unfolding worker_inv_def by simp
  then show ?case unfolding jobs_def .
next
  case (schedule s repos now q)
  note inv = worker_invD [OF schedule.prems]
  have "queue_inv q" by (rule queue_step_inv [OF queue_step.schedule [OF schedule.hyps(2)] inv(1)])
  moreover have "apart q (sys_spool s)"
    by (rule schedule_apart [OF inv(1,3) inv(4) [unfolded schedule.hyps(1)] schedule.hyps(2)])
  ultimately show ?case using inv(2) unfolding worker_inv_def by simp
next
  case (queue s q)
  note inv = worker_invD [OF queue.prems]
  have calm: "calm (sys_queue s) q" by (rule queue_update_calm [OF queue.hyps inv(1)])
  then have "queue_inv q" by (simp add: calm_def)
  moreover have "apart q (sys_spool s)" by (rule apart_calm [OF inv(3) calm])
  moreover have "pc_ok q (sys_spool s) (sys_pc s)" by (rule pc_ok_calm [OF inv(4) calm])
  ultimately show ?case using inv(2) unfolding worker_inv_def by simp
next
  case (spool s jobs)
  note inv = worker_invD [OF spool.prems]
  have keeps: "spool_inv jobs" "quiet (sys_spool s) jobs"
    using spool_update_keeps [OF spool.hyps inv(2)] by simp_all
  have "apart (sys_queue s) jobs" by (rule apart_quiet [OF inv(3) keeps(2)])
  moreover have "pc_ok (sys_queue s) jobs (sys_pc s)" by (rule pc_ok_quiet [OF inv(4) keeps(2)])
  ultimately show ?case using inv(1) keeps(1) unfolding worker_inv_def by simp
qed (simp_all add: worker_inv_def)

lemma worker_reach_inv: "worker_reach s \<Longrightarrow> worker_inv s"
proof (induction rule: worker_reach.induct)
  case initial
  have "queue_inv queue_state_default" by (rule queue_reach_inv [OF queue_reach.initial])
  moreover have "spool_inv []" by (rule spool_reach_inv [OF spool_reach.empty])
  ultimately show ?case by (simp add: worker_inv_def apart_def)
qed (rule worker_step_inv)

section \<open>Processing a job\<close>


section \<open>Guards of derivations\<close>

definition guarded :: "claim_guards \<Rightarrow> (string \<times> string) set" where
  "guarded g = guard_blocked g \<union> guard_abandoned g"

lemma guard_step_grows: "guarded g \<subseteq> guarded (guard_step g t)"
  by (auto simp: guarded_def guard_step_def Let_def split: option.splits devql_task_status.splits)

lemma guards_grow: "guarded g \<subseteq> guarded (foldl guard_step g ts)"
  using guard_step_grows by (induction ts arbitrary: g) (simp, fastforce)

lemma guards_collect:
  assumes "t \<in> set ts" "kind t = Sync" "source t = PostCommit" "status t \<noteq> Completed"
    and "Option.bind (sync_spec t) post_commit_snapshot = Some snapshot"
    and "repo = repo_id t" "sha = snap_commit_sha snapshot"
  shows "(repo, sha) \<in> guarded (foldl guard_step g ts)"
proof -
  obtain us vs where ts: "ts = us @ t # vs" using assms(1) by (auto simp: in_set_conv_decomp)
  have "(repo, sha) \<in> guarded (guard_step (foldl guard_step g us) t)"
    using assms(2-) by (cases "status t") (simp_all add: guard_step_def guarded_def Let_def)
  then show ?thesis using guards_grow unfolding ts by (simp, blast)
qed

section \<open>Sample runs\<close>

text \<open>A bootstrap task is started, then a sync job of the same repository is claimed beside it.\<close>

definition bootstrap_queued :: queue_state where
  "bootstrap_queued = after (enqueue_body 1 ''u1'' sample_cfg ManualCli bootstrap_of None) queue_state_default"

definition bootstrap_running :: queue_state where
  "bootstrap_running = after (schedule_body 2 {}) bootstrap_queued"

definition no_guards :: claim_guards where
  "no_guards = \<lparr>guard_blocked = {}, guard_abandoned = {}\<rparr>"

definition bootstrap_view :: "spool_running_task list" where
  "bootstrap_view = [\<lparr>rt_repo_id = ''r'', rt_kind = EmbeddingsBootstrap, rt_source = ManualCli\<rparr>]"

definition system :: "queue_state \<Rightarrow> spool_table \<Rightarrow> worker_pc \<Rightarrow> worker_system" where
  "system q jobs pc = \<lparr>sys_queue = q, sys_spool = jobs, sys_pc = pc\<rparr>"

lemma bootstrap_views:
  "running_tasks_of bootstrap_running = bootstrap_view"
  "post_commit_derivation_claim_guards bootstrap_running = no_guards"
  "running_tasks_of queue_state_default = []"
  "post_commit_derivation_claim_guards queue_state_default = no_guards"
  by code_simp+

lemma reach_initial: "worker_reach (system queue_state_default [] CycleStart)"
  unfolding system_def by (rule worker_reach.initial)

lemma reach_enqueue_task:
  "worker_reach (system q jobs pc) \<Longrightarrow>
   worker_reach (system (after (enqueue_body now uuid cfg src sp init) q) jobs pc)"
proof -
  assume r: "worker_reach (system q jobs pc)"
  obtain x where "enqueue_body now uuid cfg src sp init q = Inr x" using enqueue_total by blast
  from queue_update.enqueue [OF commits_after [where body = "enqueue_body now uuid cfg src sp init", OF this]]
  show ?thesis using worker_reach.step [OF r worker_step.queue] by (simp add: system_def)
qed

lemma reach_schedule_tasks:
  assumes "worker_reach (system q jobs CycleStart)"
  shows "worker_reach (system (after (schedule_body now (running_producer_spool_repo_ids jobs)) q) jobs CycleStart)"
proof -
  let ?repos = "running_producer_spool_repo_ids jobs"
  have "worker_reach (system q jobs SpoolDone)"
    using worker_reach.step [OF assms worker_step.skip_spool] by (simp add: system_def)
  then have r: "worker_reach (system q jobs (ReposRead ?repos))"
    using worker_reach.step [OF _ worker_step.read_repos, of "system q jobs SpoolDone"] by (simp add: system_def)
  obtain x where "schedule_body now ?repos q = Inr x" using schedule_total by blast
  from commits_after [where body = "schedule_body now ?repos", OF this]
  show ?thesis using worker_reach.step [OF r worker_step.schedule] by (simp add: system_def)
qed

lemma reach_spool_update:
  "worker_reach (system q jobs pc) \<Longrightarrow> spool_update jobs jobs' \<Longrightarrow> worker_reach (system q jobs' pc)"
  using worker_reach.step [OF _ worker_step.spool, of "system q jobs pc" jobs'] by (simp add: system_def)

lemma reach_claim:
  assumes "worker_reach (system q jobs CycleStart)"
  shows "worker_reach (system q (fst (claim_next_producer_spool_jobs_excluding include_all now now {}
    (running_tasks_of q) (post_commit_derivation_claim_guards q) jobs)) SpoolDone)"
proof -
  have "worker_reach (system q jobs (StateLoaded (running_tasks_of q) (post_commit_derivation_claim_guards q) {}))"
    using worker_reach.step [OF assms worker_step.load, of "{}"] by (simp add: system_def)
  from worker_reach.step [OF this worker_step.claim]
  show ?thesis by (simp add: system_def)
qed

lemma beside_claimed:
  "fst (claim_next_producer_spool_jobs_excluding include_all 2 2 {} bootstrap_view no_guards one_pending) = one_claimed"
  unfolding one_claimed_row unfolding one_pending_row
  by (simp add: spool_eval image_iff no_guards_def bootstrap_view_def conflicts_with_running_task_def)

lemma reach_beside: "worker_reach (system bootstrap_running one_claimed SpoolDone)"
proof -
  have "worker_reach (system bootstrap_queued [] CycleStart)"
    unfolding bootstrap_queued_def by (rule reach_enqueue_task [OF reach_initial])
  then have "worker_reach (system bootstrap_running [] CycleStart)"
    using reach_schedule_tasks [of bootstrap_queued "[]" 2]
    by (simp add: bootstrap_running_def running_producer_spool_repo_ids_def)
  then have "worker_reach (system bootstrap_running one_pending CycleStart)"
    unfolding one_pending_def watch_def
    by (rule reach_spool_update) (rule spool_update.sync, simp add: fresh_id_def)
  from reach_claim [OF this, of 2] show ?thesis unfolding bootstrap_views beside_claimed .
qed

lemma reach_restart: "worker_reach (system q jobs pc) \<Longrightarrow> worker_reach (system q jobs CycleStart)"
  using worker_reach.step [OF _ worker_step.cycle_fails] by (fastforce simp: system_def)

text \<open>The two jobs of one commit: the refresh is claimed, fails and waits for its retry.\<close>

definition refresh_row :: spool_job where
  "refresh_row = new_job 1 ''a'' spool_cfg
     \<lparr>insert_dedupe_key = Some ''post_commit:c'', insert_payload = PostCommitRefresh ''c'' [''x'']\<rparr>"

definition derivation_row :: spool_job where
  "derivation_row = new_job 1 ''b'' spool_cfg
     \<lparr>insert_dedupe_key = Some ''post_commit_derivation:c'', insert_payload = PostCommitDerivation ''c'' [''x''] False\<rparr>"

definition refresh_retry :: spool_job where
  "refresh_retry = refresh_row\<lparr>attempts := 1, available_at := 8, job_updated_at := 3, last_error := Some ''e''\<rparr>"

lemmas commit_rows = refresh_row_def derivation_row_def refresh_retry_def

lemma trim_c: "trim ''c'' = ''c''"
  by code_simp

lemma commit_refresh: "fst (enqueue_spooled_post_commit_refresh 1 ''a'' spool_cfg ''c'' [''x''] []) = [refresh_row]"
  by (simp add: enqueue_spooled_post_commit_refresh_def spool_eval commit_rows paths_xy trim_c)

lemma commit_derivation:
  "fst (enqueue_spooled_post_commit_derivation 1 ''b'' spool_cfg ''c'' [''x''] False [refresh_row]) = [refresh_row, derivation_row]"
  by (simp add: enqueue_spooled_post_commit_derivation_def spool_eval commit_rows paths_xy trim_c)

lemma claim_refresh: "fst (claim_next_producer_spool_jobs_excluding include_all 2 2 {} [] no_guards [refresh_row, derivation_row]) =
    [claim_row 2 refresh_row, derivation_row]"
  by (simp add: spool_eval image_iff no_guards_def commit_rows producer_spool_claim_sort_key_def
      producer_spool_payload_priority_def) auto

lemma requeue_refresh: "fst (requeue_producer_spool_job 3 ''producer-spool-job-a'' ''e'' [claim_row 2 refresh_row, derivation_row]) =
    [refresh_retry, derivation_row]"
  by (simp add: requeue_producer_spool_job_def REQUEUE_BACKOFF_SECS_def spool_eval commit_rows)

lemma claim_derivation: "fst (claim_next_producer_spool_jobs_excluding include_all 3 3 {} [] no_guards [refresh_retry, derivation_row]) =
    [refresh_retry, claim_row 3 derivation_row]"
  by (simp add: spool_eval image_iff no_guards_def commit_rows) auto

definition finished_sync :: devql_task_record where
  "finished_sync = (hd (tasks bootstrap_running))\<lparr>repo_id := ''r'', kind := Sync, source := PostCommit,
     spec := SyncSpec \<lparr>sync_mode = Paths [''x''],
       post_commit_snapshot = Some \<lparr>snap_commit_sha = ''c'', snap_changed_paths = [''x'']\<rparr>\<rparr>,
     status := Completed\<rparr>"


section \<open>Properties\<close>

text \<open>C8: in every state the daemon can reach, however its loop interleaves with hooks, finishing jobs,
  finishing tasks and failing cycles, a running spool job and a running task of its repository do
  not conflict: the task does not apply a repository policy, the job is none of the inline ones, and
  it submits no task of the kind that is running.\<close>

theorem running_job_avoids_running_tasks:
  assumes "worker_reach s" "j \<in> set (sys_spool s)" "job_status j = SpoolRunning"
    and "t \<in> set (tasks (sys_queue s))" "status t = Running" "repo_id t = job_repo_id j"
  shows "\<not> policy_sync t \<and>
    (case payload j of
       TaskPayload _ sp \<Rightarrow> kind t \<noteq> task_kind_from_spec sp
     | PostCommitRefresh _ _ \<Rightarrow> kind t \<noteq> Sync
     | PostMergeSyncRefresh _ _ _ \<Rightarrow> kind t \<noteq> Sync
     | PostMergeIngestBackfill _ _ \<Rightarrow> kind t \<noteq> Ingest
     | PostMergeRefresh _ _ \<Rightarrow> kind t \<noteq> Sync \<and> kind t \<noteq> Ingest
     | PostCommitDerivation _ _ _ \<Rightarrow> False
     | PrePushSync _ _ \<Rightarrow> False)"
proof -
  have "apart (sys_queue s) (sys_spool s)" by (rule worker_invD(3) [OF worker_reach_inv [OF assms(1)]])
  then have "\<not> conflicts_in j t" using assms unfolding apart_def by blast
  then show ?thesis using assms(6)
    by (cases "payload j") (auto simp: conflicts_in_def conflicts_with_running_task_def running_view_def policy_sync_def
      split: if_splits)
qed

theorem running_job_avoids_running_tasks_witness:
  "status (hd (tasks bootstrap_running)) = Running \<and> kind (hd (tasks bootstrap_running)) \<noteq> Sync \<and>
   payload (hd one_claimed) = TaskPayload Watcher (SyncSpec \<lparr>sync_mode = Paths [''x''], post_commit_snapshot = None\<rparr>)"
proof -
  let ?t = "hd (tasks bootstrap_running)" and ?j = "hd one_claimed"
  have t: "?t \<in> set (tasks bootstrap_running)" "status ?t = Running" "repo_id ?t = ''r''" by code_simp+
  have j: "?j \<in> set one_claimed" "job_status ?j = SpoolRunning" "job_repo_id ?j = ''r''"
    "payload ?j = TaskPayload Watcher (SyncSpec \<lparr>sync_mode = Paths [''x''], post_commit_snapshot = None\<rparr>)"
    by (simp_all add: one_claimed_row one_pending_row claim_row_def)
  show ?thesis using running_job_avoids_running_tasks [OF reach_beside, of ?j ?t] t j by (simp add: system_def)
qed

text \<open>C13: a derivation is claimed only when no sync that its commit asked for is waiting, running, failed
  or cancelled in the queue state the guards were computed from.\<close>

theorem claimed_derivation_has_finished_syncs:
  assumes "spool_reach jobs"
    and "claim_body load_matcher prune_now now blocked running (post_commit_derivation_claim_guards q) jobs
      = Inr (jobs', selected)"
    and "j \<in> set selected" "payload j = PostCommitDerivation sha files rebasing"
    and "t \<in> set (tasks q)" "kind t = Sync" "source t = PostCommit" "repo_id t = job_repo_id j"
    and "spec t = SyncSpec sp" "post_commit_snapshot sp = Some snapshot" "snap_commit_sha snapshot = sha"
  shows "status t = Completed"
proof (rule ccontr)
  assume "status t \<noteq> Completed"
  then have key: "(job_repo_id j, sha) \<in> guarded (post_commit_derivation_claim_guards q)"
    using assms unfolding post_commit_derivation_claim_guards_def
    by (intro guards_collect [of t _ snapshot]) (simp_all add: sync_spec_def)
  have dist: "distinct (map job_id jobs)" using spool_reach_inv [OF assms(1)] by (simp add: spool_inv_def)
  from assms(2) dist obtain abandoned where
    "selected = map (claim_row now) (to_claim (claim_env_of blocked running (post_commit_derivation_claim_guards q) now
      (pruned_table load_matcher prune_now pending jobs)) now (pruned_table load_matcher prune_now pending jobs))"
    by (rule claim_result)
  then obtain k where k: "k \<in> set (to_claim (claim_env_of blocked running (post_commit_derivation_claim_guards q) now
      (pruned_table load_matcher prune_now pending jobs)) now (pruned_table load_matcher prune_now pending jobs))"
    "j = claim_row now k" using assms(3) by auto
  have "payload k = payload j" "job_repo_id k = job_repo_id j" using k(2) by (simp_all add: claim_row_def)
  then show False using to_claim_in(4) [OF k(1)] key assms(4)
    by (auto simp: admitted_def claim_env_of_def guarded_def post_commit_derivation_is_blocked_def
        post_commit_derivation_is_abandoned_def)
qed

theorem claimed_derivation_has_finished_syncs_witness:
  "status finished_sync = Completed"
proof -
  let ?q = "queue_state_default\<lparr>tasks := [finished_sync]\<rparr>"
  have guards: "post_commit_derivation_claim_guards ?q = no_guards" by code_simp
  have "spool_reach [refresh_row]" unfolding commit_refresh [symmetric]
    by (rule spool_reach.step [OF spool_reach.empty spool_step.update [OF spool_update.refresh]]) (simp add: fresh_id_def)
  then have "spool_reach [refresh_row, derivation_row]" unfolding commit_derivation [symmetric]
    by (rule spool_reach.step [OF _ spool_step.update [OF spool_update.derivation]])
      (simp add: fresh_id_def refresh_row_def new_job_def)
  then have reach: "spool_reach [derivation_row]"
    using spool_reach.step [OF _ spool_step.update [OF spool_update.delete], of _ "job_id refresh_row"]
    by (fastforce simp: delete_producer_spool_job_def spool_transaction_def delete_rows_def commit_rows new_job_def)
  have claim: "claim_body include_all 3 3 {} [] no_guards [derivation_row] =
      Inr ([claim_row 3 derivation_row], [claim_row 3 derivation_row])"
    by (simp add: spool_eval image_iff no_guards_def commit_rows)
  have "payload (claim_row 3 derivation_row) = PostCommitDerivation ''c'' [''x''] False"
    "job_repo_id (claim_row 3 derivation_row) = ''r''"
    by (simp_all add: claim_row_def commit_rows new_job_def spool_cfg_def)
  then show ?thesis
    using claimed_derivation_has_finished_syncs [OF reach claim [folded guards], of _ "''c''" "[''x'']" False finished_sync]
    by (simp add: finished_sync_def)
qed



text \<open>A derivation can run before the sync of its commit is even queued: when the refresh job of the
  commit fails, its retry waits for the backoff, and meanwhile nothing in the queue holds the
  derivation back.\<close>

theorem derivation_overtakes_failed_refresh:
  "\<exists>s. worker_reach s \<and>
    (\<exists>d \<in> set (sys_spool s). \<exists>r \<in> set (sys_spool s). job_repo_id d = job_repo_id r \<and>
       job_status d = SpoolRunning \<and> payload d = PostCommitDerivation ''c'' [''x''] False \<and>
       job_status r = SpoolPending \<and> payload r = PostCommitRefresh ''c'' [''x''] \<and> attempts r = 1)"
proof -
  have "worker_reach (system queue_state_default [refresh_row] CycleStart)"
    using reach_spool_update [OF reach_initial spool_update.refresh, of "''a''" 1 spool_cfg "''c''" "[''x'']"]
    unfolding commit_refresh by (simp add: fresh_id_def)
  then have "worker_reach (system queue_state_default [refresh_row, derivation_row] CycleStart)"
    using reach_spool_update [OF _ spool_update.derivation, of queue_state_default "[refresh_row]" CycleStart
        "''b''" 1 spool_cfg "''c''" "[''x'']" False]
    unfolding commit_derivation by (simp add: fresh_id_def refresh_row_def new_job_def)
  from reach_restart [OF reach_claim [OF this, of 2]]
  have "worker_reach (system queue_state_default [claim_row 2 refresh_row, derivation_row] CycleStart)"
    unfolding bootstrap_views claim_refresh .
  from reach_spool_update [OF this spool_update.requeue, of 3 "''producer-spool-job-a''" "''e''"]
  have "worker_reach (system queue_state_default [refresh_retry, derivation_row] CycleStart)"
    unfolding requeue_refresh .
  from reach_claim [OF this, of 3]
  have "worker_reach (system queue_state_default [refresh_retry, claim_row 3 derivation_row] SpoolDone)"
    unfolding bootstrap_views claim_derivation .
  moreover have "job_status refresh_retry = SpoolPending" "payload refresh_retry = PostCommitRefresh ''c'' [''x'']"
    "attempts refresh_retry = 1" "job_repo_id refresh_retry = ''r''"
    "job_status (claim_row 3 derivation_row) = SpoolRunning" "job_repo_id (claim_row 3 derivation_row) = ''r''"
    "payload (claim_row 3 derivation_row) = PostCommitDerivation ''c'' [''x''] False"
    by (simp_all add: claim_row_def commit_rows new_job_def spool_cfg_def)
  ultimately show ?thesis
    by (intro exI [of _ "system queue_state_default [refresh_retry, claim_row 3 derivation_row] SpoolDone"])
      (simp add: system_def)
qed

end
