(* ===== verification/SyncManifest.thy ===== *)
theory SyncManifest
  imports OrdMap
begin

text \<open>
  What a DevQL sync wants stored and how it compares with what is, \<open>host/devql/sync/\<close>: the reading of
  git's listings (\<open>workspace_state.rs\<close>), the state each path should have (\<open>manifest.rs\<close>) and the
  classification of the paths. Git, the file system, the hash and the classifier of the project are
  arguments; a \<open>HashMap\<close> whose iteration order is not used is an association list in key order.
\<close>

section \<open>Data (sync/types.rs, classification/types.rs)\<close>

datatype analysis_mode = CodeMode | TextMode | TrackOnlyMode | ExcludedMode

fun analysis_mode_as_str :: "analysis_mode \<Rightarrow> string" where
  "analysis_mode_as_str CodeMode = ''code''"
| "analysis_mode_as_str TextMode = ''text''"
| "analysis_mode_as_str TrackOnlyMode = ''track_only''"
| "analysis_mode_as_str ExcludedMode = ''excluded''"

datatype file_role = SourceCode | ProjectManifest | ContextSeed | Configuration | Documentation | Lockfile
  | Generated | DependencyTree | OtherRole

fun file_role_as_str :: "file_role \<Rightarrow> string" where
  "file_role_as_str SourceCode = ''source_code''"
| "file_role_as_str ProjectManifest = ''project_manifest''"
| "file_role_as_str ContextSeed = ''context_seed''"
| "file_role_as_str Configuration = ''configuration''"
| "file_role_as_str Documentation = ''documentation''"
| "file_role_as_str Lockfile = ''lockfile''"
| "file_role_as_str Generated = ''generated''"
| "file_role_as_str DependencyTree = ''dependency_tree''"
| "file_role_as_str OtherRole = ''other''"

datatype text_index_mode = EmbedText | StoreOnlyText | NoText

fun text_index_mode_as_str :: "text_index_mode \<Rightarrow> string" where
  "text_index_mode_as_str EmbedText = ''embed''"
| "text_index_mode_as_str StoreOnlyText = ''store_only''"
| "text_index_mode_as_str NoText = ''none''"

record file_classification =
  fc_analysis_mode :: analysis_mode
  fc_file_role :: file_role
  fc_text_index_mode :: text_index_mode
  fc_language :: string
  fc_resolved_language :: string
  fc_dialect :: "string option"
  fc_primary_context_id :: "string option"
  fc_secondary_context_ids :: "string list"
  fc_frameworks :: "string list"
  fc_runtime_profile :: "string option"
  fc_classification_reason :: string
  fc_context_fingerprint :: "string option"
  fc_extraction_fingerprint :: string
  fc_excluded_by_policy :: bool

definition should_persist_current_state :: "file_classification \<Rightarrow> bool" where
  "should_persist_current_state c \<longleftrightarrow> fc_analysis_mode c \<noteq> ExcludedMode"

datatype effective_source = HeadSource | IndexSource | WorktreeSource

fun effective_source_as_str :: "effective_source \<Rightarrow> string" where
  "effective_source_as_str HeadSource = ''head''"
| "effective_source_as_str IndexSource = ''index''"
| "effective_source_as_str WorktreeSource = ''worktree''"

text \<open>The fields a classification and the effective content fix, shared by the desired and the stored
  state of a path.\<close>

record desired_file_state =
  df_path :: string
  df_analysis_mode :: analysis_mode
  df_file_role :: file_role
  df_text_index_mode :: text_index_mode
  df_language :: string
  df_resolved_language :: string
  df_dialect :: "string option"
  df_primary_context_id :: "string option"
  df_secondary_context_ids :: "string list"
  df_frameworks :: "string list"
  df_runtime_profile :: "string option"
  df_classification_reason :: string
  df_context_fingerprint :: "string option"
  df_extraction_fingerprint :: string
  df_head_content_id :: "string option"
  df_index_content_id :: "string option"
  df_worktree_content_id :: "string option"
  df_effective_content_id :: string
  df_effective_source :: effective_source
  df_exists_in_head :: bool
  df_exists_in_index :: bool
  df_exists_in_worktree :: bool

record stored_file_state =
  sf_path :: string
  sf_analysis_mode :: analysis_mode
  sf_file_role :: file_role
  sf_text_index_mode :: text_index_mode
  sf_language :: string
  sf_resolved_language :: string
  sf_dialect :: "string option"
  sf_primary_context_id :: "string option"
  sf_secondary_context_ids :: "string list"
  sf_frameworks :: "string list"
  sf_runtime_profile :: "string option"
  sf_classification_reason :: string
  sf_context_fingerprint :: "string option"
  sf_extraction_fingerprint :: string
  sf_effective_content_id :: string
  sf_effective_source :: effective_source
  sf_parser_version :: string
  sf_extractor_version :: string

datatype path_action = PathUnchanged | PathAdded | PathChanged | PathRemoved

record classified_path =
  cp_path :: string
  cp_action :: path_action
  cp_desired :: "desired_file_state option"

type_synonym desired_manifest = "(string, desired_file_state) btree"
type_synonym stored_manifest = "(string, stored_file_state) btree"

section \<open>The workspace (sync/workspace_state.rs)\<close>

datatype staged_change = StagedAdded string | StagedModified string | StagedDeleted

record workspace_state =
  ws_head_commit_sha :: "string option"
  ws_head_tree_sha :: "string option"
  ws_active_branch :: "string option"
  ws_head_tree :: "(string, string) btree"
  ws_staged_changes :: "(string, staged_change) btree"
  ws_dirty_files :: "string list"
  ws_untracked_files :: "string list"

text \<open>What the file system has at a path: nothing, metadata that cannot be read, a symbolic link, a
  regular file whose reading may fail, or something else.\<close>

datatype fs_entry = NoFile | MetadataError string | Symlink | RegularFile "(string, string) result" | OtherFile

definition NUL :: char where
  "NUL = CHR 0x00"

definition TAB :: char where
  "TAB = CHR 0x09"

text \<open>\<open>output.split('\0').filter(|value| !value.is_empty())\<close>\<close>

definition nul_records :: "string \<Rightarrow> string list" where
  "nul_records output = filter (\<lambda>v. v \<noteq> []) (split_on NUL output)"

text \<open>\<open>s.split_once(c)\<close>\<close>

fun split_once :: "char \<Rightarrow> string \<Rightarrow> (string \<times> string) option" where
  "split_once d [] = None"
| "split_once d (c # s) = (if c = d then Some ([], s) else map_option (\<lambda>(a, b). (c # a, b)) (split_once d s))"

text \<open>\<open>s.split_whitespace()\<close>: the maximal runs of characters that are not white space.\<close>

fun whitespace_runs :: "string \<Rightarrow> string list" where
  "whitespace_runs [] = [[]]"
| "whitespace_runs (c # s) =
     (if is_ws c then [] # whitespace_runs s
      else (case whitespace_runs s of [] \<Rightarrow> [[c]] | p # ps \<Rightarrow> (c # p) # ps))"

definition split_whitespace :: "string \<Rightarrow> string list" where
  "split_whitespace s = filter (\<lambda>p. p \<noteq> []) (whitespace_runs s)"

definition should_skip_git_entry :: "string \<Rightarrow> string \<Rightarrow> bool" where
  "should_skip_git_entry mode object_type \<longleftrightarrow> mode = ''120000'' \<or> mode = ''160000'' \<or> object_type \<noteq> ''blob''"

definition head_tree_record :: "(string, string) btree \<Rightarrow> string \<Rightarrow> (string, string) btree" where
  "head_tree_record entries r =
     (case split_once TAB r of
        None \<Rightarrow> entries
      | Some (metadata, raw_path) \<Rightarrow>
          (case split_whitespace metadata of
             mode # object_type # oid # _ \<Rightarrow>
               if should_skip_git_entry mode object_type then entries
               else if raw_path = [] then entries
               else bt_insert raw_path oid entries
           | _ \<Rightarrow> entries))"

definition parse_head_tree :: "string \<Rightarrow> (string, string) btree" where
  "parse_head_tree output = foldl head_tree_record [] (nul_records output)"

text \<open>Metadata and path alternate; an odd record at the end is dropped.\<close>

definition diff_index_record :: "string \<Rightarrow> string \<Rightarrow> (string, staged_change) btree \<Rightarrow> (string, staged_change) btree" where
  "diff_index_record metadata path changes =
     (case split_whitespace metadata of
        old_mode # new_mode # old_sha # new_sha # status # _ \<Rightarrow>
          if should_skip_git_entry new_mode ''blob'' \<and> status \<noteq> ''D'' then changes
          else if status = ''A'' then bt_insert path (StagedAdded new_sha) changes
          else if status = ''M'' then bt_insert path (StagedModified new_sha) changes
          else if status = ''D'' then bt_insert path StagedDeleted changes
          else changes
      | _ \<Rightarrow> changes)"

fun diff_index_records :: "string list \<Rightarrow> (string, staged_change) btree \<Rightarrow> (string, staged_change) btree" where
  "diff_index_records (metadata # path # parts) changes = diff_index_records parts (diff_index_record metadata path changes)"
| "diff_index_records _ changes = changes"

definition parse_staged_changes_from_diff_index :: "string \<Rightarrow> (string, staged_change) btree" where
  "parse_staged_changes_from_diff_index output = diff_index_records (nul_records output) []"

definition ls_files_record :: "(string, staged_change) btree \<Rightarrow> string \<Rightarrow> (string, staged_change) btree" where
  "ls_files_record changes r =
     (case split_once TAB r of
        None \<Rightarrow> changes
      | Some (metadata, path) \<Rightarrow>
          if path = [] then changes
          else (case split_whitespace metadata of
             mode # sha # stage # _ \<Rightarrow>
               if stage \<noteq> ''0'' \<or> should_skip_git_entry mode ''blob'' then changes
               else bt_insert path (StagedAdded sha) changes
           | _ \<Rightarrow> changes))"

definition parse_staged_changes_from_ls_files :: "string \<Rightarrow> (string, staged_change) btree" where
  "parse_staged_changes_from_ls_files output = foldl ls_files_record [] (nul_records output)"

definition should_skip_workspace_path :: "(string \<Rightarrow> fs_entry) \<Rightarrow> string \<Rightarrow> bool \<Rightarrow> (string, bool) result" where
  "should_skip_workspace_path fs path require_existing_file =
     (case fs path of
        NoFile \<Rightarrow> Inr False
      | MetadataError e \<Rightarrow> Inl (''reading metadata for `'' @ path @ ''`: '' @ e)
      | Symlink \<Rightarrow> Inr True
      | RegularFile _ \<Rightarrow> Inr False
      | OtherFile \<Rightarrow> Inr require_existing_file)"

definition collect_paths :: "(string \<Rightarrow> fs_entry) \<Rightarrow> string \<Rightarrow> bool \<Rightarrow> (string, string list) result" where
  "collect_paths fs output require_existing_file =
     and_then (fold_result (\<lambda>raw_path paths.
         and_then (should_skip_workspace_path fs raw_path require_existing_file)
           (\<lambda>skip. Inr (if skip then paths else paths @ [raw_path]))) (nul_records output) [])
       (\<lambda>paths. Inr (remdups_adj (sort paths)))"

text \<open>\<open>git\<close> runs a command in the repository; \<open>requested\<close> is the set of paths a sync was asked for, as a list.\<close>

type_synonym git_runner = "string list \<Rightarrow> (string, string) result"

definition is_missing_head_error :: "string \<Rightarrow> bool" where
  "is_missing_head_error msg \<longleftrightarrow> contains_str (''ambiguous argument '' @ [CHR 0x27] @ ''HEAD'' @ [CHR 0x27]) msg
     \<or> contains_str ''unknown revision or path not in the working tree'' msg
     \<or> contains_str ''Needed a single revision'' msg"

definition try_head_hash :: "git_runner \<Rightarrow> (string, string option) result" where
  "try_head_hash git =
     (case git [''rev-parse'', ''HEAD''] of
        Inr h \<Rightarrow> Inr (Some h)
      | Inl e \<Rightarrow> if is_missing_head_error e then Inr None else Inl e)"

definition run_git_with_optional_paths :: "git_runner \<Rightarrow> string list \<Rightarrow> string list option \<Rightarrow> (string, string) result" where
  "run_git_with_optional_paths git base_args requested =
     (case requested of
        None \<Rightarrow> git base_args
      | Some [] \<Rightarrow> Inr []
      | Some paths \<Rightarrow> git (base_args @ [''--''] @ sort paths))"

definition read_active_branch :: "git_runner \<Rightarrow> (string, string option) result" where
  "read_active_branch git =
     and_then (git [''branch'', ''--show-current'']) (\<lambda>branch. Inr (if branch = [] then None else Some branch))"

definition read_head_tree :: "git_runner \<Rightarrow> string list option \<Rightarrow> (string, (string, string) btree) result" where
  "read_head_tree git requested =
     (case run_git_with_optional_paths git [''ls-tree'', ''-rz'', ''--full-tree'', ''HEAD''] requested of
        Inr output \<Rightarrow> Inr (parse_head_tree output)
      | Inl e \<Rightarrow> if is_missing_head_error e then Inr [] else Inl e)"

definition read_staged_changes :: "git_runner \<Rightarrow> bool \<Rightarrow> string list option
    \<Rightarrow> (string, (string, staged_change) btree) result" where
  "read_staged_changes git has_head requested =
     (if has_head then
        and_then (run_git_with_optional_paths git [''diff-index'', ''--cached'', ''--raw'', ''--no-renames'',
            ''--diff-filter=ADM'', ''-z'', ''HEAD''] requested)
          (\<lambda>output. Inr (parse_staged_changes_from_diff_index output))
      else
        and_then (run_git_with_optional_paths git [''ls-files'', ''--stage'', ''-z''] requested)
          (\<lambda>output. Inr (parse_staged_changes_from_ls_files output)))"

definition inspect_workspace_for_paths :: "git_runner \<Rightarrow> (string \<Rightarrow> fs_entry) \<Rightarrow> string list option
    \<Rightarrow> (string, workspace_state) result" where
  "inspect_workspace_for_paths git fs requested =
     and_then (try_head_hash git) (\<lambda>head_commit_sha.
     let has_head = head_commit_sha \<noteq> None in
     and_then (if has_head then and_then (git [''rev-parse'', ''HEAD^{tree}'']) (\<lambda>t. Inr (Some t)) else Inr None)
       (\<lambda>head_tree_sha.
     and_then (if head_tree_sha \<noteq> None then read_head_tree git requested else Inr []) (\<lambda>head_tree.
     and_then (read_active_branch git) (\<lambda>active_branch.
     and_then (read_staged_changes git has_head requested) (\<lambda>staged_changes.
     and_then (and_then (run_git_with_optional_paths git [''diff'', ''--name-only'', ''-z''] requested)
         (\<lambda>output. collect_paths fs output False)) (\<lambda>dirty_files.
     and_then (and_then (run_git_with_optional_paths git [''ls-files'', ''--others'', ''--exclude-standard'', ''-z''] requested)
         (\<lambda>output. collect_paths fs output True)) (\<lambda>untracked_files.
       Inr \<lparr>ws_head_commit_sha = head_commit_sha, ws_head_tree_sha = head_tree_sha, ws_active_branch = active_branch,
         ws_head_tree = head_tree, ws_staged_changes = staged_changes, ws_dirty_files = dirty_files,
         ws_untracked_files = untracked_files\<rparr>)))))))"

section \<open>The desired state of a path (sync/content_identity.rs, sync/manifest.rs)\<close>

definition compute_blob_oid :: "(string \<Rightarrow> string) \<Rightarrow> string \<Rightarrow> string" where
  "compute_blob_oid sha1_hex content = sha1_hex (''blob '' @ dec (length content) @ [NUL] @ content)"

definition read_worktree_content_id :: "(string \<Rightarrow> string) \<Rightarrow> (string \<Rightarrow> fs_entry) \<Rightarrow> string \<Rightarrow> bool \<Rightarrow> string option
    \<Rightarrow> (string, string option \<times> bool) result" where
  "read_worktree_content_id sha1_hex fs path needs_disk_read index_content_id =
     (case fs path of
        NoFile \<Rightarrow> Inr (None, False)
      | MetadataError e \<Rightarrow> Inl (''reading metadata for `'' @ path @ ''`: '' @ e)
      | RegularFile contents \<Rightarrow>
          if \<not> needs_disk_read \<and> index_content_id \<noteq> None then Inr (index_content_id, True)
          else (case contents of
              Inl e \<Rightarrow> Inl (''reading `'' @ path @ ''` from worktree: '' @ e)
            | Inr content \<Rightarrow> Inr (Some (compute_blob_oid sha1_hex content), True))
      | _ \<Rightarrow> Inr (None, False))"

text \<open>The content identifier and the layer it is attributed to. A layer exists exactly when it has a
  content identifier, so the calls of \<open>expect\<close> in the code cannot fail.\<close>

definition effective_content :: "string option \<Rightarrow> string option \<Rightarrow> string option \<Rightarrow> (string \<times> effective_source) option" where
  "effective_content head_content_id index_content_id worktree_content_id =
     (case worktree_content_id of
        Some w \<Rightarrow>
          (if index_content_id \<noteq> Some w then Some (w, WorktreeSource)
           else if head_content_id \<noteq> Some w then Some (w, IndexSource) else Some (w, HeadSource))
      | None \<Rightarrow>
          (case index_content_id of
             Some i \<Rightarrow> if head_content_id \<noteq> Some i then Some (i, IndexSource) else Some (i, HeadSource)
           | None \<Rightarrow> map_option (\<lambda>h. (h, HeadSource)) head_content_id))"

definition index_entry :: "workspace_state \<Rightarrow> string \<Rightarrow> string option \<times> bool" where
  "index_entry ws path =
     (case bt_get (ws_staged_changes ws) path of
        Some (StagedAdded content_id) \<Rightarrow> (Some content_id, False)
      | Some (StagedModified content_id) \<Rightarrow> (Some content_id, False)
      | Some StagedDeleted \<Rightarrow> (None, True)
      | None \<Rightarrow> (bt_get (ws_head_tree ws) path, False))"

definition build_desired_file_state :: "(string \<Rightarrow> string) \<Rightarrow> (string \<Rightarrow> fs_entry) \<Rightarrow> string \<Rightarrow> file_classification
    \<Rightarrow> workspace_state \<Rightarrow> (string, desired_file_state option) result" where
  "build_desired_file_state sha1_hex fs path c ws =
     (let head_content_id = bt_get (ws_head_tree ws) path;
          (index_content_id, index_deleted) = index_entry ws path;
          path_is_dirty = path \<in> set (ws_dirty_files ws);
          path_is_untracked = path \<in> set (ws_untracked_files ws)
      in and_then (read_worktree_content_id sha1_hex fs path (path_is_dirty \<or> path_is_untracked) index_content_id)
         (\<lambda>(worktree_content_id, exists_in_worktree).
           if (path_is_dirty \<and> \<not> exists_in_worktree) \<or> (index_deleted \<and> \<not> exists_in_worktree) then Inr None
           else (case effective_content head_content_id index_content_id worktree_content_id of
               None \<Rightarrow> Inr None
             | Some (effective_content_id, effective_source) \<Rightarrow>
                 Inr (Some \<lparr>df_path = path, df_analysis_mode = fc_analysis_mode c, df_file_role = fc_file_role c,
                   df_text_index_mode = fc_text_index_mode c, df_language = fc_language c,
                   df_resolved_language = fc_resolved_language c, df_dialect = fc_dialect c,
                   df_primary_context_id = fc_primary_context_id c,
                   df_secondary_context_ids = fc_secondary_context_ids c, df_frameworks = fc_frameworks c,
                   df_runtime_profile = fc_runtime_profile c, df_classification_reason = fc_classification_reason c,
                   df_context_fingerprint = fc_context_fingerprint c,
                   df_extraction_fingerprint = fc_extraction_fingerprint c,
                   df_head_content_id = head_content_id, df_index_content_id = index_content_id,
                   df_worktree_content_id = worktree_content_id, df_effective_content_id = effective_content_id,
                   df_effective_source = effective_source, df_exists_in_head = (head_content_id \<noteq> None),
                   df_exists_in_index = (index_content_id \<noteq> None),
                   df_exists_in_worktree = exists_in_worktree\<rparr>))))"

definition collect_candidate_paths :: "workspace_state \<Rightarrow> string list" where
  "collect_candidate_paths ws =
     bs_of_list (bt_keys (ws_head_tree ws) @ bt_keys (ws_staged_changes ws) @ ws_dirty_files ws @ ws_untracked_files ws)"

definition manifest_path :: "(string \<Rightarrow> string) \<Rightarrow> (string \<Rightarrow> fs_entry)
    \<Rightarrow> (string \<Rightarrow> (string, file_classification option) result) \<Rightarrow> workspace_state \<Rightarrow> string
    \<Rightarrow> (string, desired_file_state option) result" where
  "manifest_path sha1_hex fs classifier ws path =
     and_then (classifier path) (\<lambda>classification.
       case classification of
         None \<Rightarrow> Inr None
       | Some c \<Rightarrow> build_desired_file_state sha1_hex fs path c ws)"

definition build_desired_manifest :: "(string \<Rightarrow> string) \<Rightarrow> (string \<Rightarrow> fs_entry)
    \<Rightarrow> (string \<Rightarrow> (string, file_classification option) result) \<Rightarrow> workspace_state \<Rightarrow> (string, desired_manifest) result" where
  "build_desired_manifest sha1_hex fs classifier ws =
     fold_result (\<lambda>path manifest.
         and_then (manifest_path sha1_hex fs classifier ws path) (\<lambda>state.
           Inr (case state of None \<Rightarrow> manifest | Some d \<Rightarrow> bt_insert path d manifest)))
       (collect_candidate_paths ws) []"

section \<open>Classification (sync/manifest.rs)\<close>

definition up_to_date :: "desired_file_state \<Rightarrow> stored_file_state \<Rightarrow> string \<Rightarrow> string \<Rightarrow> bool" where
  "up_to_date d s parser_version extractor_version \<longleftrightarrow>
     df_effective_content_id d = sf_effective_content_id s \<and> df_analysis_mode d = sf_analysis_mode s \<and>
     df_file_role d = sf_file_role s \<and> df_text_index_mode d = sf_text_index_mode s \<and>
     df_language d = sf_language s \<and> df_resolved_language d = sf_resolved_language s \<and>
     df_dialect d = sf_dialect s \<and> df_primary_context_id d = sf_primary_context_id s \<and>
     df_secondary_context_ids d = sf_secondary_context_ids s \<and> df_frameworks d = sf_frameworks s \<and>
     df_runtime_profile d = sf_runtime_profile s \<and> df_classification_reason d = sf_classification_reason s \<and>
     df_context_fingerprint d = sf_context_fingerprint s \<and>
     df_extraction_fingerprint d = sf_extraction_fingerprint s \<and>
     df_effective_source d = sf_effective_source s \<and>
     sf_parser_version s = parser_version \<and> sf_extractor_version s = extractor_version"

definition classify_action :: "desired_file_state option \<Rightarrow> stored_file_state option \<Rightarrow> string \<Rightarrow> string \<Rightarrow> bool
    \<Rightarrow> path_action option" where
  "classify_action d s parser_version extractor_version repair =
     (case (d, s) of
        (Some _, None) \<Rightarrow> Some PathAdded
      | (None, Some _) \<Rightarrow> Some PathRemoved
      | (Some d, Some s) \<Rightarrow>
          (if repair then Some PathChanged
           else if up_to_date d s parser_version extractor_version then Some PathUnchanged
           else Some PathChanged)
      | (None, None) \<Rightarrow> None)"

definition classify_paths :: "desired_manifest \<Rightarrow> stored_manifest \<Rightarrow> string \<Rightarrow> string \<Rightarrow> bool \<Rightarrow> classified_path list" where
  "classify_paths desired stored parser_version extractor_version repair =
     List.map_filter (\<lambda>path. map_option (\<lambda>action. \<lparr>cp_path = path, cp_action = action, cp_desired = bt_get desired path\<rparr>)
         (classify_action (bt_get desired path) (bt_get stored path) parser_version extractor_version repair))
       (bs_of_list (bt_keys desired @ bt_keys stored))"

end
