(* ===== verification/SyncRun.thy ===== *)
theory SyncRun
  imports SyncManifest TaskQueue
begin

text \<open>
  One DevQL sync of a repository, \<open>host/devql/commands_sync/\<close>: the rows it compares with and writes
  (\<open>shared.rs\<close>, \<open>sqlite_writer.rs\<close>, \<open>materializer/persist/current_state.rs\<close>), the preparation of a path,
  the batches of the writer, the progress it reports and the difference it returns. Preparations run
  in worker tasks that finish in any order, and batches are flushed by size or by time: an execution
  is a list of events. Cache entries and dependency edges are not modelled.
\<close>

section \<open>Modes and ignored paths (shared.rs, progress_helpers.rs)\<close>

fun sync_reason :: "host_sync_mode \<Rightarrow> string" where
  "sync_reason HostAuto = ''full''"
| "sync_reason HostFull = ''full''"
| "sync_reason (HostPaths _) = ''paths''"
| "sync_reason HostRepair = ''repair''"
| "sync_reason HostValidate = ''validate''"

definition requested_paths :: "host_sync_mode \<Rightarrow> string list option" where
  "requested_paths mode =
     (case mode of
        HostPaths paths \<Rightarrow> Some (bs_of_list (filter (\<lambda>p. p \<noteq> []) (map trim paths)))
      | _ \<Rightarrow> None)"

definition is_sync_internal_ignored_path :: "string list \<Rightarrow> string \<Rightarrow> bool" where
  "is_sync_internal_ignored_path ignored path \<longleftrightarrow>
     list_ex (\<lambda>base. path = base \<or> starts_with (base @ ''-'') path) ignored"

definition retain_workspace :: "(string \<Rightarrow> bool) \<Rightarrow> workspace_state \<Rightarrow> workspace_state" where
  "retain_workspace keep ws = ws
     \<lparr>ws_head_tree := filter (keep \<circ> fst) (ws_head_tree ws),
      ws_staged_changes := filter (keep \<circ> fst) (ws_staged_changes ws),
      ws_dirty_files := filter keep (ws_dirty_files ws),
      ws_untracked_files := filter keep (ws_untracked_files ws)\<rparr>"

definition sat64 :: "nat \<Rightarrow> nat" where
  "sat64 n = min (2 ^ 64 - 1) n"

definition estimate_sync_progress_paths_completed :: "nat \<Rightarrow> nat \<Rightarrow> nat \<Rightarrow> nat \<Rightarrow> nat \<Rightarrow> nat" where
  "estimate_sync_progress_paths_completed unchanged_total removed_completed transform_paths_total
      extracted_completed materialized_completed =
     (let transform_units_total = sat64 (transform_paths_total * 2);
          transform_units_completed = min (sat64 (extracted_completed + materialized_completed)) transform_units_total;
          transform_credit = min (sat64 (transform_units_completed + 1) div 2) transform_paths_total
      in sat64 (sat64 (unchanged_total + removed_completed) + transform_credit))"

section \<open>The stored rows (shared.rs, materializer/persist/current_state.rs)\<close>

text \<open>A row of \<open>current_file_state\<close>, with \<open>None\<close> for NULL. The two JSON columns hold the lists themselves.\<close>

record current_file_row =
  rw_path :: string
  rw_analysis_mode :: "string option"
  rw_file_role :: "string option"
  rw_text_index_mode :: "string option"
  rw_language :: "string option"
  rw_resolved_language :: "string option"
  rw_dialect :: "string option"
  rw_primary_context_id :: "string option"
  rw_secondary_context_ids :: "string list"
  rw_frameworks :: "string list"
  rw_runtime_profile :: "string option"
  rw_classification_reason :: "string option"
  rw_context_fingerprint :: "string option"
  rw_extraction_fingerprint :: "string option"
  rw_effective_content_id :: "string option"
  rw_effective_source :: "string option"
  rw_parser_version :: "string option"
  rw_extractor_version :: "string option"

definition parse_effective_source :: "string \<Rightarrow> effective_source option" where
  "parse_effective_source s =
     (if s = ''head'' then Some HeadSource else if s = ''index'' then Some IndexSource
      else if s = ''worktree'' then Some WorktreeSource else None)"

definition parse_analysis_mode :: "string \<Rightarrow> analysis_mode option" where
  "parse_analysis_mode s =
     (if s = ''code'' then Some CodeMode else if s = ''text'' then Some TextMode
      else if s = ''track_only'' then Some TrackOnlyMode else if s = ''excluded'' then Some ExcludedMode else None)"

definition parse_file_role :: "string \<Rightarrow> file_role option" where
  "parse_file_role s =
     (if s = ''source_code'' then Some SourceCode else if s = ''project_manifest'' then Some ProjectManifest
      else if s = ''context_seed'' then Some ContextSeed else if s = ''configuration'' then Some Configuration
      else if s = ''documentation'' then Some Documentation else if s = ''lockfile'' then Some Lockfile
      else if s = ''generated'' then Some Generated else if s = ''dependency_tree'' then Some DependencyTree
      else if s = ''other'' then Some OtherRole else None)"

definition parse_text_index_mode :: "string \<Rightarrow> text_index_mode option" where
  "parse_text_index_mode s =
     (if s = ''embed'' then Some EmbedText else if s = ''store_only'' then Some StoreOnlyText
      else if s = ''none'' then Some NoText else None)"

definition stored_manifest_row :: "current_file_row \<Rightarrow> stored_file_state option" where
  "stored_manifest_row row =
     Option.bind (rw_effective_content_id row) (\<lambda>effective_content_id.
     Option.bind (Option.bind (rw_effective_source row) parse_effective_source) (\<lambda>effective_source.
     Option.bind (Option.bind (rw_analysis_mode row) parse_analysis_mode) (\<lambda>analysis_mode.
     Option.bind (parse_file_role (unwrap_or (rw_file_role row) ''source_code'')) (\<lambda>file_role.
     Option.bind (parse_text_index_mode (unwrap_or (rw_text_index_mode row) ''none'')) (\<lambda>text_index_mode.
       Some \<lparr>sf_path = rw_path row, sf_analysis_mode = analysis_mode, sf_file_role = file_role,
         sf_text_index_mode = text_index_mode, sf_language = unwrap_or (rw_language row) [],
         sf_resolved_language = unwrap_or (rw_resolved_language row) [], sf_dialect = rw_dialect row,
         sf_primary_context_id = rw_primary_context_id row,
         sf_secondary_context_ids = rw_secondary_context_ids row, sf_frameworks = rw_frameworks row,
         sf_runtime_profile = rw_runtime_profile row,
         sf_classification_reason = unwrap_or (rw_classification_reason row) [],
         sf_context_fingerprint = rw_context_fingerprint row,
         sf_extraction_fingerprint = unwrap_or (rw_extraction_fingerprint row) [],
         sf_effective_content_id = effective_content_id, sf_effective_source = effective_source,
         sf_parser_version = unwrap_or (rw_parser_version row) [],
         sf_extractor_version = unwrap_or (rw_extractor_version row) []\<rparr>)))))"

text \<open>The row the upsert writes.\<close>

definition current_file_row_of :: "string \<Rightarrow> string \<Rightarrow> desired_file_state \<Rightarrow> current_file_row" where
  "current_file_row_of parser_version extractor_version d =
     \<lparr>rw_path = df_path d, rw_analysis_mode = Some (analysis_mode_as_str (df_analysis_mode d)),
      rw_file_role = Some (file_role_as_str (df_file_role d)),
      rw_text_index_mode = Some (text_index_mode_as_str (df_text_index_mode d)),
      rw_language = Some (df_language d), rw_resolved_language = Some (df_resolved_language d),
      rw_dialect = df_dialect d, rw_primary_context_id = df_primary_context_id d,
      rw_secondary_context_ids = df_secondary_context_ids d, rw_frameworks = df_frameworks d,
      rw_runtime_profile = df_runtime_profile d,
      rw_classification_reason = Some (df_classification_reason d),
      rw_context_fingerprint = df_context_fingerprint d,
      rw_extraction_fingerprint = Some (df_extraction_fingerprint d),
      rw_effective_content_id = Some (df_effective_content_id d),
      rw_effective_source = Some (effective_source_as_str (df_effective_source d)),
      rw_parser_version = Some parser_version, rw_extractor_version = Some extractor_version\<rparr>"

record artefact_row =
  ar_path :: string
  ar_symbol_id :: string
  ar_artefact_id :: string
  ar_canonical_kind :: "string option"
  ar_symbol_fqn :: string

text \<open>The rows of one repository: its files by path, and its artefacts.\<close>

record sync_store =
  st_files :: "(string, current_file_row) btree"
  st_artefacts :: "artefact_row list"

definition load_stored_manifest_for_paths :: "string list option \<Rightarrow> sync_store \<Rightarrow> stored_manifest" where
  "load_stored_manifest_for_paths requested store =
     (let rows = filter (\<lambda>row. case requested of None \<Rightarrow> True | Some paths \<Rightarrow> rw_path row \<in> set paths)
            (bt_values (st_files store))
      in bt_of_list (map (\<lambda>s. (sf_path s, s)) (List.map_filter stored_manifest_row rows)))"

text \<open>\<open>PRIMARY KEY (repo_id, path, symbol_id)\<close> and \<open>UNIQUE (repo_id, artefact_id)\<close>.\<close>

definition insert_artefact :: "artefact_row \<Rightarrow> artefact_row list \<Rightarrow> (string, artefact_row list) result" where
  "insert_artefact a rows =
     (if list_ex (\<lambda>r. ar_path r = ar_path a \<and> ar_symbol_id r = ar_symbol_id a \<or> ar_artefact_id r = ar_artefact_id a) rows
      then Inl ''inserting current artefact row'' else Inr (rows @ [a]))"

definition persist_prepared_materialisation_tx :: "string \<Rightarrow> string \<Rightarrow> desired_file_state \<Rightarrow> artefact_row list
    \<Rightarrow> sync_store \<Rightarrow> (string, sync_store) result" where
  "persist_prepared_materialisation_tx parser_version extractor_version d materialized_artefacts store =
     and_then (fold_result insert_artefact (map (\<lambda>a. a\<lparr>ar_path := df_path d\<rparr>) materialized_artefacts)
         (filter (\<lambda>a. ar_path a \<noteq> df_path d) (st_artefacts store)))
       (\<lambda>rows. Inr (store\<lparr>st_artefacts := rows,
         st_files := bt_insert (df_path d) (current_file_row_of parser_version extractor_version d) (st_files store)\<rparr>))"

definition remove_paths_tx :: "string list \<Rightarrow> sync_store \<Rightarrow> sync_store" where
  "remove_paths_tx paths store = store
     \<lparr>st_artefacts := filter (\<lambda>a. ar_path a \<notin> set paths) (st_artefacts store),
      st_files := filter (\<lambda>(p, _). p \<notin> set paths) (st_files store)\<rparr>"

section \<open>The difference (diff_collector.rs, capability_host/events.rs)\<close>

record diff_artefact =
  da_path :: string
  da_artefact_id :: string
  da_symbol_id :: string
  da_canonical_kind :: "string option"
  da_name :: string

record changed_file =
  cf_path :: string
  cf_language :: string
  cf_content_id :: string

record sync_file_diff =
  fd_added :: "changed_file list"
  fd_changed :: "changed_file list"
  fd_removed :: "string list"

record changed_artefact =
  ca_artefact_id :: string
  ca_symbol_id :: string
  ca_path :: string
  ca_canonical_kind :: "string option"
  ca_name :: string

record removed_artefact =
  ra_artefact_id :: string
  ra_symbol_id :: string
  ra_path :: string

record sync_artefact_diff =
  ad_added :: "changed_artefact list"
  ad_changed :: "changed_artefact list"
  ad_removed :: "removed_artefact list"

record diff_collector =
  dc_files :: sync_file_diff
  dc_pre :: "(string, diff_artefact list) btree"
  dc_post :: "(string, diff_artefact list) btree"

definition diff_collector_new :: diff_collector where
  "diff_collector_new = \<lparr>dc_files = \<lparr>fd_added = [], fd_changed = [], fd_removed = []\<rparr>, dc_pre = [], dc_post = []\<rparr>"

definition record_artefacts :: "string \<Rightarrow> diff_artefact list \<Rightarrow> (string, diff_artefact list) btree
    \<Rightarrow> (string, diff_artefact list) btree" where
  "record_artefacts path artefacts m = bt_upsert path [] (\<lambda>old. old @ artefacts) m"

text \<open>\<open>rsplit("::").next()\<close>: what follows the last double colon.\<close>

fun after_last_colons :: "string \<Rightarrow> string option" where
  "after_last_colons [] = None"
| "after_last_colons (c # s) =
     opt_or (after_last_colons s) (strip_prefix ''::'' (c # s))"

definition symbol_name_from_fqn :: "string \<Rightarrow> string" where
  "symbol_name_from_fqn s = unwrap_or (after_last_colons s) s"

definition query_current_artefacts_for_path_tx :: "string \<Rightarrow> sync_store \<Rightarrow> diff_artefact list" where
  "query_current_artefacts_for_path_tx path store =
     map (\<lambda>a. \<lparr>da_path = path, da_artefact_id = ar_artefact_id a, da_symbol_id = ar_symbol_id a,
           da_canonical_kind = ar_canonical_kind a, da_name = symbol_name_from_fqn (ar_symbol_fqn a)\<rparr>)
       (sort_key ar_symbol_id (filter (\<lambda>a. ar_path a = path) (st_artefacts store)))"

definition by_symbol_id :: "diff_artefact list \<Rightarrow> (string, diff_artefact) btree" where
  "by_symbol_id artefacts = bt_of_list (map (\<lambda>a. (da_symbol_id a, a)) artefacts)"

definition changed_artefact_of :: "diff_artefact \<Rightarrow> changed_artefact" where
  "changed_artefact_of a = \<lparr>ca_artefact_id = da_artefact_id a, ca_symbol_id = da_symbol_id a, ca_path = da_path a,
     ca_canonical_kind = da_canonical_kind a, ca_name = da_name a\<rparr>"

text \<open>The symbols of one path: added, changed and removed.\<close>

definition artefacts_added :: "(string, diff_artefact) btree \<Rightarrow> (string, diff_artefact) btree \<Rightarrow> changed_artefact list" where
  "artefacts_added pre post =
     map (changed_artefact_of \<circ> snd) (filter (\<lambda>(symbol, _). bt_get pre symbol = None) post)"

definition artefacts_changed :: "(string, diff_artefact) btree \<Rightarrow> (string, diff_artefact) btree \<Rightarrow> changed_artefact list" where
  "artefacts_changed pre post =
     map (changed_artefact_of \<circ> snd) (filter (\<lambda>(symbol, a).
       case bt_get pre symbol of None \<Rightarrow> False | Some old \<Rightarrow> da_artefact_id old \<noteq> da_artefact_id a) post)"

definition artefacts_removed :: "(string, diff_artefact) btree \<Rightarrow> (string, diff_artefact) btree \<Rightarrow> removed_artefact list" where
  "artefacts_removed pre post =
     map (\<lambda>(_, a). \<lparr>ra_artefact_id = da_artefact_id a, ra_symbol_id = da_symbol_id a, ra_path = da_path a\<rparr>)
       (filter (\<lambda>(symbol, _). \<not> bt_contains post symbol) pre)"

definition into_diffs :: "diff_collector \<Rightarrow> sync_file_diff \<times> sync_artefact_diff" where
  "into_diffs c =
     (let files = dc_files c;
          paths = bs_of_list (bt_keys (dc_pre c) @ bt_keys (dc_post c));
          sides = map (\<lambda>p. (by_symbol_id (unwrap_or (bt_get (dc_pre c) p) []),
                            by_symbol_id (unwrap_or (bt_get (dc_post c) p) []))) paths
      in (\<lparr>fd_added = sort_key cf_path (fd_added files), fd_changed = sort_key cf_path (fd_changed files),
           fd_removed = sort (fd_removed files)\<rparr>,
          \<lparr>ad_added = sort_key (\<lambda>a. (ca_path a, ca_symbol_id a)) (concat (map (\<lambda>(pre, post). artefacts_added pre post) sides)),
           ad_changed = sort_key (\<lambda>a. (ca_path a, ca_symbol_id a)) (concat (map (\<lambda>(pre, post). artefacts_changed pre post) sides)),
           ad_removed = sort_key (\<lambda>a. (ra_path a, ra_symbol_id a)) (concat (map (\<lambda>(pre, post). artefacts_removed pre post) sides))\<rparr>))"

section \<open>Preparing a path (sqlite_writer.rs)\<close>

text \<open>Numbers of distinct rows stand for the parts of an extraction that are only counted here.\<close>

record cached_extraction =
  ex_parse_status :: string
  ex_artefacts :: nat
  ex_edges :: nat

record decoded_content =
  dec_text :: "string option"
  dec_degraded :: bool
  dec_nul :: bool

record prepared_rows =
  pr_artefacts :: "artefact_row list"
  pr_edges :: nat

record prepared_item =
  pi_index :: nat
  pi_desired :: desired_file_state
  pi_extraction :: cached_extraction
  pi_rows :: prepared_rows
  pi_cache_store :: "string option"

record prepared_outcome =
  po_path :: string
  po_item :: "prepared_item option"
  po_cache_hit :: bool
  po_cache_miss :: bool
  po_parse_error :: bool
  po_error_message :: "string option"

text \<open>What a preparation gets from the cache, the blobs and the language packs.\<close>

record prepare_env =
  pe_lookup :: "desired_file_state \<Rightarrow> (string, cached_extraction option) result"
  pe_content :: "desired_file_state \<Rightarrow> (string, decoded_content) result"
  pe_extract :: "desired_file_state \<Rightarrow> string \<Rightarrow> (string, cached_extraction option) result"
  pe_file_only :: "desired_file_state \<Rightarrow> string \<Rightarrow> cached_extraction"
  pe_materialise :: "desired_file_state \<Rightarrow> cached_extraction \<Rightarrow> (string, prepared_rows) result"

definition rows_operation_estimate :: "prepared_rows \<Rightarrow> nat" where
  "rows_operation_estimate r = 3 + length (pr_artefacts r) + pr_edges r"

definition row_operation_estimate :: "prepared_item \<Rightarrow> nat" where
  "row_operation_estimate i = rows_operation_estimate (pi_rows i) +
     (if pi_cache_store i \<noteq> None then 3 + ex_artefacts (pi_extraction i) + ex_edges (pi_extraction i) else 0)"

definition determine_retention_class :: "desired_file_state \<Rightarrow> string" where
  "determine_retention_class d =
     (case df_effective_source d of WorktreeSource \<Rightarrow> ''worktree_only'' | _ \<Rightarrow> ''git_backed'')"

definition parse_status_counts_as_parse_error :: "string \<Rightarrow> bool" where
  "parse_status_counts_as_parse_error s \<longleftrightarrow> s = ''parse_error'' \<or> s = ''decode_error'' \<or> s = ''degraded_file_only''"

definition build_code_file_only_fallback_extraction :: "prepare_env \<Rightarrow> desired_file_state \<Rightarrow> decoded_content
    \<Rightarrow> cached_extraction option" where
  "build_code_file_only_fallback_extraction env d content =
     (if df_analysis_mode d \<noteq> CodeMode then None
      else if dec_degraded content then Some (pe_file_only env d ''decode_error'')
      else if dec_nul content then Some (pe_file_only env d ''degraded_file_only'')
      else None)"

definition prepared :: "nat \<Rightarrow> desired_file_state \<Rightarrow> cached_extraction \<Rightarrow> prepared_rows \<Rightarrow> string option
    \<Rightarrow> bool \<Rightarrow> bool \<Rightarrow> bool \<Rightarrow> prepared_outcome" where
  "prepared index d extraction rows cache_store hit miss parse_error =
     \<lparr>po_path = df_path d, po_item = Some \<lparr>pi_index = index, pi_desired = d, pi_extraction = extraction,
        pi_rows = rows, pi_cache_store = cache_store\<rparr>,
      po_cache_hit = hit, po_cache_miss = miss, po_parse_error = parse_error, po_error_message = None\<rparr>"

definition prepare_sync_item_with_connection :: "prepare_env \<Rightarrow> nat \<Rightarrow> desired_file_state
    \<Rightarrow> (string, prepared_outcome) result" where
  "prepare_sync_item_with_connection env index d =
     (let retention_class = determine_retention_class d;
          materialise = (\<lambda>extraction cache_store hit miss parse_error.
            and_then (pe_materialise env d extraction)
              (\<lambda>rows. Inr (prepared index d extraction rows cache_store hit miss parse_error)))
      in if df_analysis_mode d = TrackOnlyMode then
           materialise \<lparr>ex_parse_status = ''ok'', ex_artefacts = 0, ex_edges = 0\<rparr> None False False False
         else
           and_then (pe_lookup env d) (\<lambda>cached.
           and_then (pe_content env d) (\<lambda>content.
             let from_cache = (\<lambda>c. materialise c None True False (parse_status_counts_as_parse_error (ex_parse_status c)))
             in case (cached, build_code_file_only_fallback_extraction env d content) of
               (Some c, Some e) \<Rightarrow>
                 if ex_parse_status c = ''decode_error'' \<or> ex_parse_status c = ''degraded_file_only'' then from_cache c
                 else materialise e (Some retention_class) False True True
             | (None, Some e) \<Rightarrow> materialise e (Some retention_class) False True True
             | (Some c, None) \<Rightarrow> from_cache c
             | (None, None) \<Rightarrow>
                 and_then (case dec_text content of
                     None \<Rightarrow> Inr None
                   | Some text \<Rightarrow>
                       (case pe_extract env d text of
                          Inr extraction \<Rightarrow> Inr extraction
                        | Inl e \<Rightarrow>
                            if df_analysis_mode d = CodeMode then Inr (Some (pe_file_only env d ''degraded_file_only''))
                            else Inl e))
                   (\<lambda>extraction. case extraction of
                      None \<Rightarrow> Inr \<lparr>po_path = df_path d, po_item = None, po_cache_hit = False, po_cache_miss = True,
                        po_parse_error = True, po_error_message = None\<rparr>
                    | Some e \<Rightarrow> materialise e (Some retention_class) False True
                        (parse_status_counts_as_parse_error (ex_parse_status e))))))"

definition prepare_failure_outcome :: "string \<Rightarrow> string \<Rightarrow> prepared_outcome" where
  "prepare_failure_outcome path err = \<lparr>po_path = path, po_item = None, po_cache_hit = False, po_cache_miss = True,
     po_parse_error = True, po_error_message = Some err\<rparr>"

definition prepare_sync_item :: "prepare_env \<Rightarrow> nat \<Rightarrow> desired_file_state \<Rightarrow> prepared_outcome" where
  "prepare_sync_item env index d =
     (case prepare_sync_item_with_connection env index d of
        Inr outcome \<Rightarrow> outcome
      | Inl err \<Rightarrow> prepare_failure_outcome (df_path d) err)"

section \<open>The run (orchestrator.rs, progress_helpers.rs, sqlite_writer.rs)\<close>

record sync_counters =
  sc_paths_unchanged :: nat
  sc_paths_added :: nat
  sc_paths_changed :: nat
  sc_paths_removed :: nat
  sc_cache_hits :: nat
  sc_cache_misses :: nat
  sc_parse_errors :: nat

definition sync_counters_default :: sync_counters where
  "sync_counters_default = \<lparr>sc_paths_unchanged = 0, sc_paths_added = 0, sc_paths_changed = 0, sc_paths_removed = 0,
     sc_cache_hits = 0, sc_cache_misses = 0, sc_parse_errors = 0\<rparr>"

definition emit_progress :: "sync_progress_phase \<Rightarrow> string option \<Rightarrow> sync_counters \<Rightarrow> nat \<Rightarrow> nat \<Rightarrow> sync_progress_update" where
  "emit_progress phase current_path c paths_total paths_completed =
     \<lparr>sp_phase = phase, sp_current_path = current_path, sp_paths_total = paths_total,
      sp_paths_completed = paths_completed, sp_paths_remaining = paths_total - paths_completed,
      sp_paths_unchanged = sc_paths_unchanged c, sp_paths_added = sc_paths_added c,
      sp_paths_changed = sc_paths_changed c, sp_paths_removed = sc_paths_removed c,
      sp_cache_hits = sc_cache_hits c, sp_cache_misses = sc_cache_misses c, sp_parse_errors = sc_parse_errors c\<rparr>"

text \<open>The totals the progress is computed from, fixed before the first preparation.\<close>

record sync_totals =
  tt_paths :: nat
  tt_unchanged :: nat
  tt_removed :: nat
  tt_transform :: nat

record sync_run =
  sr_counters :: sync_counters
  sr_store :: sync_store
  sr_batch :: "prepared_item list"
  sr_collector :: diff_collector
  sr_extracted :: nat
  sr_materialized :: nat
  sr_completed :: nat
  sr_touched :: "string set"
  sr_progress :: "sync_progress_update list"

definition completed_paths :: "sync_totals \<Rightarrow> sync_run \<Rightarrow> nat" where
  "completed_paths tot r = estimate_sync_progress_paths_completed (tt_unchanged tot) (tt_removed tot) (tt_transform tot)
     (sr_extracted r) (sr_materialized r)"

definition report :: "sync_totals \<Rightarrow> sync_progress_phase \<Rightarrow> string \<Rightarrow> sync_run \<Rightarrow> sync_run" where
  "report tot phase path r =
     (let completed = completed_paths tot r in
      r\<lparr>sr_completed := completed,
        sr_progress := sr_progress r @ [emit_progress phase (Some path) (sr_counters r) (tt_paths tot) completed]\<rparr>)"

definition handle_prepared_outcome :: "sync_totals \<Rightarrow> prepared_outcome \<Rightarrow> sync_run \<Rightarrow> sync_run" where
  "handle_prepared_outcome tot out r =
     (let c = sr_counters r;
          c = c\<lparr>sc_cache_hits := sc_cache_hits c + of_bool (po_cache_hit out),
                sc_cache_misses := sc_cache_misses c + of_bool (po_cache_miss out),
                sc_parse_errors := sc_parse_errors c + of_bool (po_parse_error out)\<rparr>;
          r = r\<lparr>sr_counters := c, sr_extracted := sr_extracted r + 1,
                sr_materialized := sr_materialized r + of_bool (po_item out = None \<and> po_parse_error out)\<rparr>;
          r = report tot ExtractingPaths (po_path out) r
      in case po_item out of None \<Rightarrow> r | Some item \<Rightarrow> r\<lparr>sr_batch := sr_batch r @ [item]\<rparr>)"

definition BATCH_FILE_LIMIT :: nat where "BATCH_FILE_LIMIT = 32"
definition BATCH_ROW_LIMIT :: nat where "BATCH_ROW_LIMIT = 4000"

definition should_flush :: "bool \<Rightarrow> prepared_item list \<Rightarrow> bool" where
  "should_flush aged batch \<longleftrightarrow> length batch \<ge> BATCH_FILE_LIMIT
     \<or> sum_list (map row_operation_estimate batch) \<ge> BATCH_ROW_LIMIT \<or> (batch \<noteq> [] \<and> aged)"

text \<open>One item of a batch, with the artefacts of its path before and after.\<close>

definition flush_item :: "string \<Rightarrow> string \<Rightarrow> prepared_item \<Rightarrow> sync_store \<times> diff_artefact list \<times> diff_artefact list
    \<Rightarrow> (string, sync_store \<times> diff_artefact list \<times> diff_artefact list) result" where
  "flush_item parser_version extractor_version item = (\<lambda>(store, pre, post).
     let path = df_path (pi_desired item) in
     and_then (persist_prepared_materialisation_tx parser_version extractor_version (pi_desired item)
         (pr_artefacts (pi_rows item)) store)
       (\<lambda>store'. Inr (store', pre @ query_current_artefacts_for_path_tx path store,
                      post @ query_current_artefacts_for_path_tx path store')))"

definition record_each :: "diff_artefact list \<Rightarrow> (string, diff_artefact list) btree \<Rightarrow> (string, diff_artefact list) btree" where
  "record_each artefacts m = foldl (\<lambda>m a. record_artefacts (da_path a) [a] m) m artefacts"

definition materialise_path :: "sync_totals \<Rightarrow> sync_run \<Rightarrow> string \<Rightarrow> sync_run" where
  "materialise_path tot r path =
     report tot MaterialisingPaths path
       (r\<lparr>sr_touched := insert path (sr_touched r), sr_materialized := sr_materialized r + 1\<rparr>)"

text \<open>\<open>flush_pending_materialisations\<close> with the writer's \<open>flush\<close>: one transaction; an error ends the sync and
  comes with the store committed so far.\<close>

definition flush_pending_materialisations :: "string \<Rightarrow> string \<Rightarrow> sync_totals \<Rightarrow> sync_run
    \<Rightarrow> (string \<times> sync_store, sync_run) result" where
  "flush_pending_materialisations parser_version extractor_version tot r =
     (if sr_batch r = [] then Inr r
      else
        let items = sort_key pi_index (sr_batch r) in
        (case fold_result (flush_item parser_version extractor_version) items (sr_store r, [], []) of
           Inl e \<Rightarrow> Inl (e, sr_store r)
         | Inr (store, pre, post) \<Rightarrow>
             let collector = sr_collector r;
                 collector = collector\<lparr>dc_pre := record_each pre (dc_pre collector),
                                       dc_post := record_each post (dc_post collector)\<rparr>
             in Inr (foldl (materialise_path tot) (r\<lparr>sr_store := store, sr_batch := [], sr_collector := collector\<rparr>)
                  (map (\<lambda>i. df_path (pi_desired i)) items))))"

text \<open>A preparation finishes, with the batch then older than its limit or not; or the deadline of the batch
  passes first.\<close>

datatype sync_event = Prepared prepared_outcome bool | DeadlinePassed

definition sync_event_step :: "string \<Rightarrow> string \<Rightarrow> sync_totals \<Rightarrow> sync_event \<Rightarrow> sync_run
    \<Rightarrow> (string \<times> sync_store, sync_run) result" where
  "sync_event_step parser_version extractor_version tot ev r =
     (case ev of
        Prepared out aged \<Rightarrow>
          (let r = handle_prepared_outcome tot out r in
           if should_flush aged (sr_batch r) then flush_pending_materialisations parser_version extractor_version tot r
           else Inr r)
      | DeadlinePassed \<Rightarrow> flush_pending_materialisations parser_version extractor_version tot r)"

definition count_action :: "sync_counters \<Rightarrow> classified_path \<Rightarrow> sync_counters" where
  "count_action c p =
     (case cp_action p of
        PathUnchanged \<Rightarrow> c\<lparr>sc_paths_unchanged := sc_paths_unchanged c + 1\<rparr>
      | PathAdded \<Rightarrow> c\<lparr>sc_paths_added := sc_paths_added c + 1\<rparr>
      | PathChanged \<Rightarrow> c\<lparr>sc_paths_changed := sc_paths_changed c + 1\<rparr>
      | PathRemoved \<Rightarrow> c\<lparr>sc_paths_removed := sc_paths_removed c + 1\<rparr>)"

definition record_action :: "sync_file_diff \<Rightarrow> classified_path \<Rightarrow> sync_file_diff" where
  "record_action f p =
     (let entry = (\<lambda>d. \<lparr>cf_path = cp_path p, cf_language = df_language d, cf_content_id = df_effective_content_id d\<rparr>) in
      case cp_action p of
        PathUnchanged \<Rightarrow> f
      | PathAdded \<Rightarrow> (case cp_desired p of None \<Rightarrow> f | Some d \<Rightarrow> f\<lparr>fd_added := fd_added f @ [entry d]\<rparr>)
      | PathChanged \<Rightarrow> (case cp_desired p of None \<Rightarrow> f | Some d \<Rightarrow> f\<lparr>fd_changed := fd_changed f @ [entry d]\<rparr>)
      | PathRemoved \<Rightarrow> f\<lparr>fd_removed := fd_removed f @ [cp_path p]\<rparr>)"

definition removals :: "classified_path list \<Rightarrow> string list" where
  "removals classified = map cp_path (filter (\<lambda>p. cp_action p = PathRemoved) classified)"

text \<open>The paths to prepare, with their positions; a missing desired state is an error of the code.\<close>

definition prepare_inputs :: "classified_path list \<Rightarrow> (string, (nat \<times> desired_file_state) list) result" where
  "prepare_inputs classified =
     map_result (\<lambda>(index, p). case cp_desired p of
         Some d \<Rightarrow> Inr (index, d)
       | None \<Rightarrow> Inl (''missing desired state for sync path `'' @ cp_path p @ ''`''))
       (filter (\<lambda>(_, p). cp_action p = PathAdded \<or> cp_action p = PathChanged) (enumerate 0 classified))"

definition sync_totals_of :: "classified_path list \<Rightarrow> sync_counters \<Rightarrow> sync_totals" where
  "sync_totals_of classified c =
     \<lparr>tt_paths = length classified, tt_unchanged = sc_paths_unchanged c, tt_removed = length (removals classified),
      tt_transform = sc_paths_added c + sc_paths_changed c\<rparr>"

text \<open>Classification counted and recorded, the removals committed and reported one by one.\<close>

definition start_run :: "classified_path list \<Rightarrow> sync_store \<Rightarrow> sync_run" where
  "start_run classified store =
     (let counters = foldl count_action sync_counters_default classified;
          tot = sync_totals_of classified counters;
          removed = removals classified;
          pre = concat (map (\<lambda>p. query_current_artefacts_for_path_tx p store) removed);
          estimate = (\<lambda>k. estimate_sync_progress_paths_completed (tt_unchanged tot) k (tt_transform tot) 0 0);
          emit = (\<lambda>phase p k. emit_progress phase p counters (tt_paths tot) (estimate k))
      in \<lparr>sr_counters = counters, sr_store = remove_paths_tx removed store, sr_batch = [],
          sr_collector = \<lparr>dc_files = foldl record_action (dc_files diff_collector_new) classified,
             dc_pre = record_each pre [], dc_post = []\<rparr>,
          sr_extracted = 0, sr_materialized = 0, sr_completed = estimate (length removed), sr_touched = set removed,
          sr_progress = emit ClassifyingPaths None 0
            # (if removed = [] then [] else [emit RemovingPaths (Some (hd removed)) 0])
            @ map (\<lambda>k. emit RemovingPaths (Some (removed ! k)) (Suc k)) [0..<length removed]\<rparr>)"

definition run_classified :: "string \<Rightarrow> string \<Rightarrow> classified_path list \<Rightarrow> sync_event list \<Rightarrow> sync_store
    \<Rightarrow> (string \<times> sync_store, sync_run) result" where
  "run_classified parser_version extractor_version classified events store =
     (let r = start_run classified store; tot = sync_totals_of classified (sr_counters r) in
      and_then (fold_result (sync_event_step parser_version extractor_version tot) events r)
        (flush_pending_materialisations parser_version extractor_version tot))"

text \<open>The outcomes of an execution: each path to prepare is prepared once, and finishes at some point.\<close>

fun outcomes_of :: "sync_event list \<Rightarrow> prepared_outcome list" where
  "outcomes_of [] = []"
| "outcomes_of (Prepared out _ # evs) = out # outcomes_of evs"
| "outcomes_of (DeadlinePassed # evs) = outcomes_of evs"

definition executes :: "prepare_env \<Rightarrow> classified_path list \<Rightarrow> sync_event list \<Rightarrow> bool" where
  "executes env classified evs \<longleftrightarrow>
     (case prepare_inputs classified of
        Inl _ \<Rightarrow> False
      | Inr inputs \<Rightarrow> mset (outcomes_of evs) = mset (map (\<lambda>(index, d). prepare_sync_item env index d) inputs))"

text \<open>\<open>execute_sync_inner\<close> up to the classification.\<close>

record sync_env =
  se_git :: git_runner
  se_fs :: "string \<Rightarrow> fs_entry"
  se_sha1_hex :: "string \<Rightarrow> string"
  se_excludes :: "string \<Rightarrow> bool"
  se_ignored :: "string list"
  se_classify :: "string list \<Rightarrow> string \<Rightarrow> (string, file_classification) result"
  se_parser_version :: string
  se_extractor_version :: string

definition sync_keeps :: "sync_env \<Rightarrow> string \<Rightarrow> bool" where
  "sync_keeps env path \<longleftrightarrow> \<not> se_excludes env path \<and> \<not> is_sync_internal_ignored_path (se_ignored env) path"

definition desired_for_sync :: "sync_env \<Rightarrow> string list option \<Rightarrow> (string, workspace_state \<times> desired_manifest) result" where
  "desired_for_sync env requested =
     and_then (inspect_workspace_for_paths (se_git env) (se_fs env) requested) (\<lambda>ws.
       let ws = retain_workspace (sync_keeps env) ws;
           candidates = bt_keys (ws_head_tree ws) @ bt_keys (ws_staged_changes ws) @ ws_dirty_files ws @ ws_untracked_files ws
       in and_then (build_desired_manifest (se_sha1_hex env) (se_fs env)
              (\<lambda>path. and_then (se_classify env candidates path)
                 (\<lambda>c. Inr (if should_persist_current_state c then Some c else None))) ws)
            (\<lambda>desired. Inr (ws, case requested of
                None \<Rightarrow> desired | Some paths \<Rightarrow> filter (\<lambda>(p, _). p \<in> set paths) desired)))"

definition classify_for_sync :: "sync_env \<Rightarrow> host_sync_mode \<Rightarrow> sync_store
    \<Rightarrow> (string, workspace_state \<times> classified_path list) result" where
  "classify_for_sync env mode store =
     (let requested = map_option (filter (sync_keeps env)) (requested_paths mode) in
      and_then (desired_for_sync env requested) (\<lambda>(ws, desired).
        Inr (ws, classify_paths desired (load_stored_manifest_for_paths requested store)
          (se_parser_version env) (se_extractor_version env) (mode = HostRepair))))"

definition summary_of :: "sync_env \<Rightarrow> host_sync_mode \<Rightarrow> workspace_state \<Rightarrow> sync_counters \<Rightarrow> sync_summary" where
  "summary_of env mode ws c =
     \<lparr>ss_success = True, ss_mode = sync_reason mode, ss_parser_version = se_parser_version env,
      ss_extractor_version = se_extractor_version env, ss_active_branch = ws_active_branch ws,
      ss_head_commit_sha = ws_head_commit_sha ws, ss_head_tree_sha = ws_head_tree_sha ws,
      ss_paths_unchanged = sc_paths_unchanged c, ss_paths_added = sc_paths_added c,
      ss_paths_changed = sc_paths_changed c, ss_paths_removed = sc_paths_removed c,
      ss_cache_hits = sc_cache_hits c, ss_cache_misses = sc_cache_misses c, ss_parse_errors = sc_parse_errors c,
      ss_validation = None\<rparr>"

text \<open>The whole sync: the store it leaves, the updates its observer got, and its result. The dependency edges
  and the cache, which it also maintains, are not part of the store.\<close>

record sync_outcome =
  so_store :: sync_store
  so_progress :: "sync_progress_update list"
  so_result :: "(string, sync_summary \<times> sync_file_diff \<times> sync_artefact_diff) result"

definition execute_sync_inner :: "sync_env \<Rightarrow> host_sync_mode \<Rightarrow> sync_event list \<Rightarrow> sync_store \<Rightarrow> sync_outcome" where
  "execute_sync_inner env mode events store =
     (let early = map (\<lambda>phase. emit_progress phase None sync_counters_default 0 0)
            [InspectingWorkspace, BuildingManifest, LoadingStoredState];
          fails = (\<lambda>store' progress e. \<lparr>so_store = store', so_progress = progress, so_result = Inl e\<rparr>)
      in case classify_for_sync env mode store of
           Inl e \<Rightarrow> fails store early e
         | Inr (ws, classified) \<Rightarrow>
             let start = start_run classified store in
             (case prepare_inputs classified of
                Inl e \<Rightarrow> fails (sr_store start) (early @ sr_progress start) e
              | Inr _ \<Rightarrow>
                  (case run_classified (se_parser_version env) (se_extractor_version env) classified events store of
                     Inl (e, store') \<Rightarrow> fails store' (early @ sr_progress start) e
                   | Inr r \<Rightarrow>
                       let total = length classified; (files, artefacts) = into_diffs (sr_collector r) in
                       \<lparr>so_store = sr_store r,
                        so_progress = early @ sr_progress r
                          @ [emit_progress RunningGc None (sr_counters r) total (sr_completed r),
                             emit_progress SpComplete None (sr_counters r) total total],
                        so_result = Inr (summary_of env mode ws (sr_counters r), files, artefacts)\<rparr>)))"

end
