(* ===== verification/SyncSpec.thy ===== *)
theory SyncSpec
  imports SyncRun
begin

text \<open>
  The one-pass specification of a sync run: what each path of the store holds afterwards, as a function of the
  classification and the preparations alone, and the simulation that every schedule of preparations and batches
  implements it.
\<close>

section \<open>Rows\<close>

definition stored_of :: "string \<Rightarrow> string \<Rightarrow> desired_file_state \<Rightarrow> stored_file_state" where
  "stored_of parser_version extractor_version d =
     \<lparr>sf_path = df_path d, sf_analysis_mode = df_analysis_mode d, sf_file_role = df_file_role d,
      sf_text_index_mode = df_text_index_mode d, sf_language = df_language d,
      sf_resolved_language = df_resolved_language d, sf_dialect = df_dialect d,
      sf_primary_context_id = df_primary_context_id d, sf_secondary_context_ids = df_secondary_context_ids d,
      sf_frameworks = df_frameworks d, sf_runtime_profile = df_runtime_profile d,
      sf_classification_reason = df_classification_reason d, sf_context_fingerprint = df_context_fingerprint d,
      sf_extraction_fingerprint = df_extraction_fingerprint d, sf_effective_content_id = df_effective_content_id d,
      sf_effective_source = df_effective_source d, sf_parser_version = parser_version,
      sf_extractor_version = extractor_version\<rparr>"

lemma parse_as_str [simp]:
  "parse_effective_source (effective_source_as_str s) = Some s"
  "parse_analysis_mode (analysis_mode_as_str m) = Some m"
  "parse_file_role (file_role_as_str r) = Some r"
  "parse_text_index_mode (text_index_mode_as_str t) = Some t"
proof -
  show "parse_effective_source (effective_source_as_str s) = Some s" by (cases s) (simp_all add: parse_effective_source_def)
  show "parse_analysis_mode (analysis_mode_as_str m) = Some m" by (cases m) (simp_all add: parse_analysis_mode_def)
  show "parse_file_role (file_role_as_str r) = Some r" by (cases r) (simp_all add: parse_file_role_def)
  show "parse_text_index_mode (text_index_mode_as_str t) = Some t" by (cases t) (simp_all add: parse_text_index_mode_def)
qed

lemma row_roundtrip: "stored_manifest_row (current_file_row_of pv ev d) = Some (stored_of pv ev d)"
  by (simp add: stored_manifest_row_def current_file_row_of_def stored_of_def)

lemma up_to_date_stored: "up_to_date d (stored_of pv ev d) pv ev"
  by (simp add: up_to_date_def stored_of_def)

lemma up_to_date_iff: "up_to_date d s pv ev \<and> sf_path s = df_path d \<longleftrightarrow> s = stored_of pv ev d"
  by (cases s) (auto simp: up_to_date_def stored_of_def)

section \<open>Classified paths\<close>

lemma classify_paths_eq: "classify_paths desired stored pv ev repair =
    map (\<lambda>p. \<lparr>cp_path = p, cp_action = the (classify_action (bt_get desired p) (bt_get stored p) pv ev repair),
        cp_desired = bt_get desired p\<rparr>) (bs_of_list (bt_keys desired @ bt_keys stored))"
  unfolding classify_paths_def
proof (rule map_filter_total)
  fix p assume "p \<in> set (bs_of_list (bt_keys desired @ bt_keys stored))"
  then have "classify_action (bt_get desired p) (bt_get stored p) pv ev repair \<noteq> None"
    by (auto simp: bt_keys_get classify_action_def split: option.splits)
  then show "map_option (\<lambda>action. \<lparr>cp_path = p, cp_action = action, cp_desired = bt_get desired p\<rparr>)
      (classify_action (bt_get desired p) (bt_get stored p) pv ev repair) =
    Some \<lparr>cp_path = p, cp_action = the (classify_action (bt_get desired p) (bt_get stored p) pv ev repair),
      cp_desired = bt_get desired p\<rparr>"
    by auto
qed

lemma classify_paths_sorted: "sorted_wrt (<) (map cp_path (classify_paths desired stored pv ev repair))"
  by (simp add: classify_paths_eq comp_def)

lemma classify_paths_mem: "c \<in> set (classify_paths desired stored pv ev repair) \<longleftrightarrow>
    classify_action (bt_get desired (cp_path c)) (bt_get stored (cp_path c)) pv ev repair = Some (cp_action c) \<and>
    cp_desired c = bt_get desired (cp_path c)"
proof -
  have "p \<in> set (bt_keys desired) \<union> set (bt_keys stored)"
    if "classify_action (bt_get desired p) (bt_get stored p) pv ev repair = Some x" for p x
    using that by (auto simp: bt_keys_get classify_action_def split: option.splits)
  moreover have "classify_action (bt_get desired p) (bt_get stored p) pv ev repair \<noteq> None"
    if "p \<in> set (bt_keys desired) \<union> set (bt_keys stored)" for p
    using that by (auto simp: bt_keys_get classify_action_def split: option.splits)
  ultimately show ?thesis by (cases c) (auto simp: classify_paths_eq image_iff)
qed

section \<open>The state of a path in the store\<close>

definition item_path :: "prepared_item \<Rightarrow> string" where
  "item_path i = df_path (pi_desired i)"

type_synonym path_state = "current_file_row option \<times> artefact_row set"

definition path_state :: "sync_store \<Rightarrow> string \<Rightarrow> path_state" where
  "path_state store p = (bt_get (st_files store) p, {a \<in> set (st_artefacts store). ar_path a = p})"

definition item_state :: "string \<Rightarrow> string \<Rightarrow> prepared_item \<Rightarrow> path_state" where
  "item_state pv ev i = (Some (current_file_row_of pv ev (pi_desired i)),
     set (map (\<lambda>a. a\<lparr>ar_path := item_path i\<rparr>) (pr_artefacts (pi_rows i))))"

definition item_at :: "prepared_item list \<Rightarrow> string \<Rightarrow> prepared_item option" where
  "item_at items = map_of (map (\<lambda>i. (item_path i, i)) items)"

text \<open>What a path holds once the items are written.\<close>

definition written :: "string \<Rightarrow> string \<Rightarrow> prepared_item list \<Rightarrow> (string \<Rightarrow> path_state) \<Rightarrow> string \<Rightarrow> path_state" where
  "written pv ev items old p = (case item_at items p of Some i \<Rightarrow> item_state pv ev i | None \<Rightarrow> old p)"

lemma written_Nil [simp]: "written pv ev [] old = old"
  by (rule ext) (simp add: written_def item_at_def)

lemma item_at_Cons: "item_at (i # items) p = (if item_path i = p then Some i else item_at items p)"
  by (simp add: item_at_def)

lemma item_at_append: "item_at (xs @ ys) p = opt_or (item_at xs p) (item_at ys p)"
  by (induction xs) (simp_all add: item_at_Cons, simp add: item_at_def)

lemma item_at_None: "item_at items p = None \<longleftrightarrow> p \<notin> item_path ` set items"
  by (simp add: item_at_def map_of_eq_None_iff comp_def image_image)

lemma item_at_Some: "distinct (map item_path items) \<Longrightarrow> item_at items p = Some i \<longleftrightarrow> i \<in> set items \<and> item_path i = p"
  unfolding item_at_def by (subst map_of_eq_Some_iff) (auto simp: comp_def)

lemma item_at_cong:
  assumes "distinct (map item_path xs)" "distinct (map item_path ys)" "set xs = set ys"
  shows "item_at xs p = item_at ys p"
proof (cases "item_at xs p")
  case (Some i)
  then have "i \<in> set ys \<and> item_path i = p" using item_at_Some [OF assms(1), of p i] assms(3) by simp
  then have "item_at ys p = Some i" using item_at_Some [OF assms(2), of p i] by blast
  then show ?thesis using Some by simp
next
  case None
  then have "item_at ys p = None" using assms(3) by (simp add: item_at_None)
  then show ?thesis using None by simp
qed

lemma insert_artefacts: "fold_result insert_artefact as rows = Inr rows' \<Longrightarrow> rows' = rows @ as"
proof (induction as arbitrary: rows)
  case (Cons a as)
  then obtain rows1 where "insert_artefact a rows = Inr rows1" "fold_result insert_artefact as rows1 = Inr rows'"
    by (simp only: fold_result.simps and_then_Inr_iff) blast
  moreover from this have "rows1 = rows @ [a]" by (simp add: insert_artefact_def split: if_splits)
  ultimately have "fold_result insert_artefact as (rows @ [a]) = Inr rows'" by simp
  then show ?case using Cons.IH by fastforce
qed simp

lemma flush_item_Inr: "flush_item pv ev i (store, pre, post) = Inr x \<longleftrightarrow>
    (\<exists>s. persist_prepared_materialisation_tx pv ev (pi_desired i) (pr_artefacts (pi_rows i)) store = Inr s \<and>
      x = (s, pre @ query_current_artefacts_for_path_tx (item_path i) store,
           post @ query_current_artefacts_for_path_tx (item_path i) s))"
  by (auto simp: flush_item_def Let_def item_path_def)

lemma persist_state:
  assumes "persist_prepared_materialisation_tx pv ev (pi_desired i) (pr_artefacts (pi_rows i)) store = Inr store'"
  shows "path_state store' p = (if p = item_path i then item_state pv ev i else path_state store p)"
proof -
  obtain rows where rows: "fold_result insert_artefact (map (\<lambda>a. a\<lparr>ar_path := df_path (pi_desired i)\<rparr>) (pr_artefacts (pi_rows i)))
      (filter (\<lambda>a. ar_path a \<noteq> df_path (pi_desired i)) (st_artefacts store)) = Inr rows"
    and store': "store' = store\<lparr>st_artefacts := rows, st_files := bt_insert (df_path (pi_desired i))
        (current_file_row_of pv ev (pi_desired i)) (st_files store)\<rparr>"
    using assms by (auto simp: persist_prepared_materialisation_tx_def)
  show ?thesis unfolding store' insert_artefacts [OF rows]
    by (auto simp: path_state_def item_state_def item_path_def bt_get_insert)
qed

lemma flush_items_state:
  assumes "fold_result (flush_item pv ev) items (store, pre, post) = Inr (store', pre', post')"
    and "distinct (map item_path items)"
  shows "path_state store' p = written pv ev items (path_state store) p"
  using assms
proof (induction items arbitrary: store pre post)
  case Nil
  then show ?case by (simp add: written_def item_at_def)
next
  case (Cons i items)
  then obtain s1 pre1 post1 where first: "persist_prepared_materialisation_tx pv ev (pi_desired i) (pr_artefacts (pi_rows i)) store = Inr s1"
    and rest: "fold_result (flush_item pv ev) items (s1, pre1, post1) = Inr (store', pre', post')"
    by (simp only: fold_result.simps and_then_Inr_iff flush_item_Inr) blast
  have "path_state store' p = written pv ev items (path_state s1) p" using Cons.IH [OF rest] Cons.prems(2) by simp
  moreover have "item_at items p = None" if "p = item_path i"
    using Cons.prems(2) that by (simp add: item_at_None)
  ultimately show ?case
    by (cases "item_at items p") (auto simp: written_def item_at_Cons persist_state [OF first])
qed

section \<open>Batches\<close>

definition run_state :: "string \<Rightarrow> string \<Rightarrow> sync_run \<Rightarrow> string \<Rightarrow> path_state" where
  "run_state pv ev r = written pv ev (sr_batch r) (path_state (sr_store r))"

definition items_of :: "prepared_outcome list \<Rightarrow> prepared_item list" where
  "items_of outcomes = List.map_filter po_item outcomes"

lemma items_of_simps [simp]: "items_of [] = []"
  "items_of (out # outs) = (case po_item out of None \<Rightarrow> items_of outs | Some i \<Rightarrow> i # items_of outs)"
  by (simp_all add: items_of_def List.map_filter_def split: option.splits)

lemma report_fields [simp]: "sr_store (report tot phase path r) = sr_store r" "sr_batch (report tot phase path r) = sr_batch r"
  "sr_collector (report tot phase path r) = sr_collector r" "sr_counters (report tot phase path r) = sr_counters r"
  "sr_extracted (report tot phase path r) = sr_extracted r" "sr_materialized (report tot phase path r) = sr_materialized r"
  by (simp_all add: report_def Let_def)

lemma materialise_paths_fields [simp]:
  "sr_store (foldl (materialise_path tot) r ps) = sr_store r" "sr_batch (foldl (materialise_path tot) r ps) = sr_batch r"
  "sr_collector (foldl (materialise_path tot) r ps) = sr_collector r" "sr_counters (foldl (materialise_path tot) r ps) = sr_counters r"
  "sr_extracted (foldl (materialise_path tot) r ps) = sr_extracted r"
  "sr_materialized (foldl (materialise_path tot) r ps) = sr_materialized r + length ps"
  by (induction ps arbitrary: r) (simp_all add: materialise_path_def)

lemma handle_fields [simp]:
  "sr_store (handle_prepared_outcome tot out r) = sr_store r"
  "sr_batch (handle_prepared_outcome tot out r) = sr_batch r @ items_of [out]"
  by (simp_all add: handle_prepared_outcome_def Let_def split: option.splits)

lemma flush_state:
  assumes "flush_pending_materialisations pv ev tot r = Inr r'" "distinct (map item_path (sr_batch r))"
  shows "sr_batch r' = [] \<and> path_state (sr_store r') p = run_state pv ev r p"
proof (cases "sr_batch r = []")
  case True
  then show ?thesis using assms by (simp add: flush_pending_materialisations_def run_state_def written_def item_at_def)
next
  case False
  let ?items = "sort_key pi_index (sr_batch r)"
  obtain store pre post where fold: "fold_result (flush_item pv ev) ?items (sr_store r, [], []) = Inr (store, pre, post)"
    and r': "sr_batch r' = []" "sr_store r' = store"
    using assms(1) False
    by (auto simp: flush_pending_materialisations_def Let_def split: sum.splits)
  have "mset (map item_path ?items) = mset (map item_path (sr_batch r))" by simp
  then have dist: "distinct (map item_path ?items)" using assms(2) mset_eq_imp_distinct_iff by blast
  have "item_at ?items p = item_at (sr_batch r) p" by (rule item_at_cong [OF dist assms(2)]) simp
  then show ?thesis using flush_items_state [OF fold dist, of p] r' by (simp add: run_state_def written_def)
qed

lemma event_state:
  assumes "sync_event_step pv ev tot e r = Inr r'" "distinct (map item_path (sr_batch r @ items_of (outcomes_of [e])))"
  shows "run_state pv ev r' p = written pv ev (items_of (outcomes_of [e])) (run_state pv ev r) p \<and>
    (sr_batch r' = [] \<or> sr_batch r' = sr_batch r @ items_of (outcomes_of [e]))"
proof -
  have flushed: "run_state pv ev r2 p = run_state pv ev r1 p \<and> sr_batch r2 = []"
    if "flush_pending_materialisations pv ev tot r1 = Inr r2" "distinct (map item_path (sr_batch r1))" for r1 r2
    using flush_state [OF that] by (simp add: run_state_def written_def item_at_def)
  show ?thesis
  proof (cases e)
    case DeadlinePassed
    then show ?thesis using flushed [of r r'] assms by (simp add: sync_event_step_def written_def item_at_def)
  next
    case (Prepared out aged)
    let ?r = "handle_prepared_outcome tot out r"
    have dist: "distinct (map item_path (sr_batch r @ items_of [out]))" using assms(2) Prepared by simp
    have "item_at (sr_batch r @ items_of [out]) p = opt_or (item_at (items_of [out]) p) (item_at (sr_batch r) p)"
      unfolding item_at_append [symmetric] using dist by (intro item_at_cong) auto
    then have handled: "run_state pv ev ?r p = written pv ev (items_of [out]) (run_state pv ev r) p"
      by (cases "item_at (items_of [out]) p") (simp_all add: run_state_def written_def)
    show ?thesis
    proof (cases "should_flush aged (sr_batch ?r)")
      case True
      then have "flush_pending_materialisations pv ev tot ?r = Inr r'"
        using assms(1) Prepared by (simp add: sync_event_step_def Let_def)
      then show ?thesis using flushed [of ?r r'] dist handled Prepared by simp
    next
      case False
      then have "r' = ?r" using assms(1) Prepared by (simp add: sync_event_step_def Let_def)
      then show ?thesis using handled Prepared by simp
    qed
  qed
qed

lemma outcomes_of_Cons: "outcomes_of (e # evs) = outcomes_of [e] @ outcomes_of evs"
  by (cases e) simp_all

lemma items_of_append: "items_of (xs @ ys) = items_of xs @ items_of ys"
  by (simp add: items_of_def List.map_filter_def)

lemma events_state:
  assumes "fold_result (sync_event_step pv ev tot) evs r = Inr r'"
    and "distinct (map item_path (sr_batch r @ items_of (outcomes_of evs)))"
  shows "run_state pv ev r' p = written pv ev (items_of (outcomes_of evs)) (run_state pv ev r) p \<and>
    distinct (map item_path (sr_batch r'))"
  using assms
proof (induction evs arbitrary: r)
  case Nil
  then show ?case by (simp add: written_def item_at_def)
next
  case (Cons e evs)
  let ?now = "items_of (outcomes_of [e])" and ?later = "items_of (outcomes_of evs)"
  obtain r1 where r1: "sync_event_step pv ev tot e r = Inr r1" "fold_result (sync_event_step pv ev tot) evs r1 = Inr r'"
    using Cons.prems(1) by (simp only: fold_result.simps and_then_Inr_iff) blast
  have all: "items_of (outcomes_of (e # evs)) = ?now @ ?later"
    unfolding outcomes_of_Cons [of e evs] items_of_append ..
  have dist: "distinct (map item_path ((sr_batch r @ ?now) @ ?later))" using Cons.prems(2) unfolding all by simp
  then have dist1: "distinct (map item_path (sr_batch r @ ?now))" by auto
  have step: "run_state pv ev r1 p = written pv ev ?now (run_state pv ev r) p"
    "sr_batch r1 = [] \<or> sr_batch r1 = sr_batch r @ ?now"
    using event_state [OF r1(1) dist1, of p] by blast+
  have "distinct (map item_path (sr_batch r1 @ ?later))"
    using step(2)
  proof
    assume "sr_batch r1 = []"
    then show ?thesis using dist by simp
  next
    assume "sr_batch r1 = sr_batch r @ ?now"
    then show ?thesis using dist by (simp only:)
  qed
  note rest = Cons.IH [OF r1(2) this]
  have "item_at (?now @ ?later) p = opt_or (item_at ?later p) (item_at ?now p)"
    unfolding item_at_append [symmetric] using dist by (intro item_at_cong) auto
  then have "written pv ev ?later (run_state pv ev r1) p = written pv ev (?now @ ?later) (run_state pv ev r) p"
    using step(1) by (cases "item_at ?later p") (simp_all add: written_def)
  then show ?case using rest unfolding all by simp
qed

section \<open>The specification of a run\<close>

text \<open>What a path holds afterwards: nothing when it was removed, the new row and artefacts when it was prepared,
  and what it held before when it was unchanged or could not be prepared.\<close>

definition path_result :: "string \<Rightarrow> string \<Rightarrow> prepare_env \<Rightarrow> classified_path list \<Rightarrow> sync_store \<Rightarrow> string \<Rightarrow> path_state" where
  "path_result pv ev penv classified store p =
     (case find (\<lambda>(_, c). cp_path c = p) (enumerate 0 classified) of
        None \<Rightarrow> path_state store p
      | Some (k, c) \<Rightarrow>
          (case cp_action c of
             PathUnchanged \<Rightarrow> path_state store p
           | PathRemoved \<Rightarrow> (None, {})
           | _ \<Rightarrow> (case Option.bind (cp_desired c) (\<lambda>d. po_item (prepare_sync_item penv k d)) of
                Some i \<Rightarrow> item_state pv ev i
              | None \<Rightarrow> path_state store p)))"

text \<open>A classification as the code makes it: each path once, a desired state of that path where there is
  something to prepare.\<close>

definition classification_ok :: "classified_path list \<Rightarrow> bool" where
  "classification_ok classified \<longleftrightarrow> distinct (map cp_path classified) \<and>
     (\<forall>c \<in> set classified. cp_action c = PathAdded \<or> cp_action c = PathChanged \<longrightarrow>
        (case cp_desired c of None \<Rightarrow> False | Some d \<Rightarrow> df_path d = cp_path c))"

definition prepared_form :: "nat \<Rightarrow> desired_file_state \<Rightarrow> prepared_outcome \<Rightarrow> bool" where
  "prepared_form k d out \<longleftrightarrow> po_path out = df_path d \<and>
     (case po_item out of None \<Rightarrow> po_parse_error out | Some i \<Rightarrow> pi_index i = k \<and> pi_desired i = d)"

lemma prepare_with_connection_form:
  assumes "prepare_sync_item_with_connection penv k d = Inr out"
  shows "prepared_form k d out"
proof -
  have made: "prepared_form k d out" if "and_then (pe_materialise penv d e) (\<lambda>rows. Inr (prepared k d e rows st h m x)) = Inr out"
    for e st h m x
    using that by (auto simp: prepared_form_def prepared_def)
  note body = assms [unfolded prepare_sync_item_with_connection_def Let_def]
  show ?thesis
  proof (cases "df_analysis_mode d = TrackOnlyMode")
    case True
    show ?thesis by (rule made [OF body [unfolded if_P [OF True]]])
  next
    case False
    then obtain cached content where c: "pe_lookup penv d = Inr cached" "pe_content penv d = Inr content"
      using body by (auto simp: and_then_def split: sum.splits)
    note body = body [unfolded c and_then_simps if_not_P [OF False]]
    show ?thesis
    proof (cases "build_code_file_only_fallback_extraction penv d content")
      case (Some e)
      then show ?thesis using body made by (cases cached) (simp_all only: option.case prod.case split: if_splits)
    next
      case None
      show ?thesis
      proof (cases cached)
        case (Some c)
        then show ?thesis using body made None by (simp only: option.case prod.case)
      next
        case no_cache: None
        note body = body [unfolded None no_cache option.case prod.case]
        then obtain ex where ex: "(case ex of
               None \<Rightarrow> Inr \<lparr>po_path = df_path d, po_item = None, po_cache_hit = False, po_cache_miss = True,
                 po_parse_error = True, po_error_message = None\<rparr>
             | Some e \<Rightarrow> and_then (pe_materialise penv d e) (\<lambda>rows. Inr (prepared k d e rows (Some (determine_retention_class d))
                 False True (parse_status_counts_as_parse_error (ex_parse_status e))))) = Inr out"
          by (simp only: and_then_Inr_iff) blast
        show ?thesis
        proof (cases ex)
          case None
          then show ?thesis using ex by (auto simp: prepared_form_def)
        next
          case (Some e)
          then show ?thesis using ex made by (simp only: option.case)
        qed
      qed
    qed
  qed
qed

lemma prepare_form: "prepared_form k d (prepare_sync_item penv k d)"
  using prepare_with_connection_form [of penv k d]
  by (cases "prepare_sync_item_with_connection penv k d")
    (simp_all add: prepare_sync_item_def prepare_failure_outcome_def prepared_form_def)

lemma prepare_item:
  assumes "po_item (prepare_sync_item penv k d) = Some i"
  shows "pi_index i = k \<and> pi_desired i = d"
  using prepare_form [of k d penv] assms by (simp add: prepared_form_def)

lemma prepare_path: "po_item (prepare_sync_item penv k d) = Some i \<Longrightarrow> item_path i = df_path d"
  using prepare_item [of penv k d i] by (simp add: item_path_def)

definition to_prepare :: "classified_path \<Rightarrow> bool" where
  "to_prepare c \<longleftrightarrow> cp_action c = PathAdded \<or> cp_action c = PathChanged"

lemma prepare_inputs_total:
  assumes "classification_ok classified"
  shows "prepare_inputs classified =
    Inr (map (\<lambda>(k, c). (k, the (cp_desired c))) (filter (to_prepare \<circ> snd) (enumerate 0 classified)))"
proof -
  have "filter (\<lambda>(_, p). cp_action p = PathAdded \<or> cp_action p = PathChanged) (enumerate 0 classified) =
      filter (to_prepare \<circ> snd) (enumerate 0 classified)"
    by (intro filter_cong) (auto simp: to_prepare_def)
  moreover have "(case cp_desired c of Some d \<Rightarrow> Inr (k, d)
      | None \<Rightarrow> Inl (''missing desired state for sync path `'' @ cp_path c @ ''`'')) = Inr (k, the (cp_desired c))"
    if "(k, c) \<in> set (filter (to_prepare \<circ> snd) (enumerate 0 classified))" for k c
  proof -
    have "c \<in> set classified" "to_prepare c" using that by (auto simp: in_set_enumerate_eq)
    then show ?thesis using assms by (auto simp: classification_ok_def to_prepare_def split: option.splits)
  qed
  ultimately show ?thesis unfolding prepare_inputs_def
    by (subst map_result_Inr [where g = "\<lambda>(k, c). (k, the (cp_desired c))"]) auto
qed

lemma removals_mem: "p \<in> set (removals classified) \<longleftrightarrow> (\<exists>c \<in> set classified. cp_path c = p \<and> cp_action c = PathRemoved)"
  by (auto simp: removals_def)

lemma removed_state: "path_state (remove_paths_tx ps store) p = (if p \<in> set ps then (None, {}) else path_state store p)"
proof -
  have "bt_get (filter (\<lambda>(p, _). p \<notin> set ps) m) p = (if p \<in> set ps then None else bt_get m p)" for m :: "(string, current_file_row) btree"
    by (induction m) (auto split: if_splits)
  then show ?thesis by (auto simp: path_state_def remove_paths_tx_def)
qed

lemma start_state: "path_state (sr_store (start_run classified store)) p =
    (if p \<in> set (removals classified) then (None, {}) else path_state store p)"
  by (simp add: start_run_def Let_def removed_state)

lemma start_batch [simp]: "sr_batch (start_run classified store) = []"
  by (simp add: start_run_def Let_def)

text \<open>The items of an execution, in whatever order the preparations finished.\<close>

lemma mset_map_filter: "mset xs = mset ys \<Longrightarrow> mset (List.map_filter f xs) = mset (List.map_filter f ys)"
  by (simp add: List.map_filter_def)

definition items_to_write :: "prepare_env \<Rightarrow> classified_path list \<Rightarrow> prepared_item list" where
  "items_to_write penv classified =
     List.map_filter (\<lambda>(k, c). po_item (prepare_sync_item penv k (the (cp_desired c))))
       (filter (to_prepare \<circ> snd) (enumerate 0 classified))"

lemma executed_items:
  assumes "classification_ok classified" "executes penv classified evs"
  shows "mset (items_of (outcomes_of evs)) = mset (items_to_write penv classified)"
proof -
  let ?inputs = "filter (to_prepare \<circ> snd) (enumerate 0 classified)"
  let ?outs = "map (\<lambda>(k, c). prepare_sync_item penv k (the (cp_desired c))) ?inputs"
  have "mset (outcomes_of evs) = mset ?outs"
    using assms(2) by (simp add: executes_def prepare_inputs_total [OF assms(1)] comp_def case_prod_unfold)
  then have "mset (items_of (outcomes_of evs)) = mset (items_of ?outs)" unfolding items_of_def by (rule mset_map_filter)
  also have "items_of ?outs = items_to_write penv classified"
    by (simp add: items_of_def items_to_write_def List.map_filter_def filter_map comp_def case_prod_unfold)
  finally show ?thesis .
qed

lemma set_map_filter: "set (List.map_filter f xs) = {y. \<exists>x \<in> set xs. f x = Some y}"
  by (force simp: List.map_filter_def)

lemma to_write_mem: "i \<in> set (items_to_write penv classified) \<longleftrightarrow>
    (\<exists>k < length classified. to_prepare (classified ! k) \<and>
      po_item (prepare_sync_item penv k (the (cp_desired (classified ! k)))) = Some i)"
  unfolding items_to_write_def set_map_filter by (auto simp: in_set_enumerate_eq)

lemma item_of_path:
  assumes "classification_ok classified" "k < length classified" "to_prepare (classified ! k)"
    and "po_item (prepare_sync_item penv k (the (cp_desired (classified ! k)))) = Some i"
  shows "item_path i = cp_path (classified ! k)"
proof -
  have "classified ! k \<in> set classified" using assms(2) by simp
  then have "df_path (the (cp_desired (classified ! k))) = cp_path (classified ! k)"
    using assms(1,3) by (auto simp: classification_ok_def to_prepare_def split: option.splits)
  then show ?thesis using prepare_path [OF assms(4)] by simp
qed

lemma to_write_distinct:
  assumes "classification_ok classified"
  shows "distinct (map item_path (items_to_write penv classified))"
proof -
  let ?f = "\<lambda>(k, c). po_item (prepare_sync_item penv k (the (cp_desired c)))"
  have "distinct (map item_path (List.map_filter ?f (filter (to_prepare \<circ> snd) (enumerate n cs)))) \<and>
      item_path ` set (List.map_filter ?f (filter (to_prepare \<circ> snd) (enumerate n cs))) \<subseteq> cp_path ` set cs"
    if "classification_ok cs" for n cs
    using that
  proof (induction cs arbitrary: n)
    case (Cons c cs)
    have rest: "classification_ok cs" "cp_path c \<notin> cp_path ` set cs" using Cons.prems by (auto simp: classification_ok_def)
    have "item_path i = cp_path c" if "to_prepare c" "?f (n, c) = Some i" for i
    proof -
      have "df_path (the (cp_desired c)) = cp_path c"
        using Cons.prems that(1) by (auto simp: classification_ok_def to_prepare_def split: option.splits)
      then show ?thesis using prepare_path [of penv n "the (cp_desired c)" i] that(2) by simp
    qed
    then show ?case using Cons.IH [OF rest(1), of "Suc n"] rest(2)
      by (cases "?f (n, c)") (auto simp: List.map_filter_simps split: if_splits)
  qed (simp add: List.map_filter_def)
  then show ?thesis using assms unfolding items_to_write_def by blast
qed

lemma find_index_path:
  assumes "distinct (map cp_path classified)" "k < length classified"
  shows "find (\<lambda>(_, c). cp_path c = cp_path (classified ! k)) (enumerate 0 classified) = Some (k, classified ! k)"
proof -
  have "\<forall>j < k. cp_path (classified ! j) \<noteq> cp_path (classified ! k)"
    using assms nth_eq_iff_index_eq [OF assms(1)] by fastforce
  then show ?thesis using assms(2) by (auto simp: find_Some_iff nth_enumerate_eq intro!: exI [of _ k])
qed

lemma written_result:
  assumes ok: "classification_ok classified"
  shows "written pv ev (items_to_write penv classified) (path_state (sr_store (start_run classified store))) p =
    path_result pv ev penv classified store p"
proof (cases "p \<in> cp_path ` set classified")
  case False
  then have "find (\<lambda>(_, c). cp_path c = p) (enumerate 0 classified) = None"
    by (auto simp: find_None_iff in_set_enumerate_eq)
  moreover have "item_at (items_to_write penv classified) p = None"
    using False item_of_path [OF ok] by (auto simp: item_at_None to_write_mem)
  moreover have "p \<notin> set (removals classified)" using False by (auto simp: removals_mem)
  ultimately show ?thesis by (simp add: path_result_def written_def start_state)
next
  case True
  then obtain k where k: "k < length classified" "p = cp_path (classified ! k)" by (auto simp: in_set_conv_nth)
  let ?c = "classified ! k"
  have dist: "distinct (map cp_path classified)" using ok by (simp add: classification_ok_def)
  have same: "j = k" if "j < length classified" "cp_path (classified ! j) = p" for j
    using nth_eq_iff_index_eq [OF dist] that k by simp
  have found: "find (\<lambda>(_, c). cp_path c = p) (enumerate 0 classified) = Some (k, ?c)"
    unfolding k(2) by (rule find_index_path [OF dist k(1)])
  have removed: "p \<in> set (removals classified) \<longleftrightarrow> cp_action ?c = PathRemoved"
    unfolding removals_mem using k nth_mem [OF k(1)] same by (metis in_set_conv_nth)
  have item: "item_at (items_to_write penv classified) p =
      (if to_prepare ?c then po_item (prepare_sync_item penv k (the (cp_desired ?c))) else None)"
  proof (cases "to_prepare ?c \<and> po_item (prepare_sync_item penv k (the (cp_desired ?c))) \<noteq> None")
    case True
    then obtain i where i: "po_item (prepare_sync_item penv k (the (cp_desired ?c))) = Some i" by blast
    then have "i \<in> set (items_to_write penv classified)" "item_path i = p"
      using True k item_of_path [OF ok k(1)] by (auto simp: to_write_mem)
    then show ?thesis using True i item_at_Some [OF to_write_distinct [OF ok]] by simp
  next
    case False
    then have "p \<notin> item_path ` set (items_to_write penv classified)"
      using same item_of_path [OF ok] by (fastforce simp: to_write_mem)
    then show ?thesis using False by (auto simp: item_at_None [symmetric])
  qed
  have desired: "cp_desired ?c \<noteq> None" if "to_prepare ?c"
    using ok k(1) that nth_mem [OF k(1)] by (auto simp: classification_ok_def to_prepare_def split: option.splits)
  show ?thesis
  proof (cases "to_prepare ?c")
    case True
    then obtain d where "cp_desired ?c = Some d" using desired by blast
    then show ?thesis using True removed item found
      by (auto simp: written_def path_result_def start_state to_prepare_def split: option.splits)
  next
    case False
    then show ?thesis using removed item found
      by (cases "cp_action ?c") (simp_all add: written_def path_result_def start_state to_prepare_def)
  qed
qed

text \<open>A run that commits leaves each path as the specification says.\<close>

lemma run_result:
  assumes ok: "classification_ok classified" and exec: "executes penv classified evs"
    and run: "run_classified pv ev classified evs store = Inr r"
  shows "path_state (sr_store r) p = path_result pv ev penv classified store p"
proof -
  let ?start = "start_run classified store"
  let ?tot = "sync_totals_of classified (sr_counters ?start)"
  let ?items = "items_of (outcomes_of evs)"
  obtain r1 where r1: "fold_result (sync_event_step pv ev ?tot) evs ?start = Inr r1"
    "flush_pending_materialisations pv ev ?tot r1 = Inr r"
    using run by (auto simp: run_classified_def Let_def)
  note perm = executed_items [OF ok exec]
  have dist: "distinct (map item_path ?items)"
    using to_write_distinct [OF ok, of penv] perm by (metis mset_eq_imp_distinct_iff mset_map)
  have events: "run_state pv ev r1 p = written pv ev ?items (run_state pv ev ?start) p" "distinct (map item_path (sr_batch r1))"
    using events_state [OF r1(1), of p] dist by simp_all
  have "path_state (sr_store r) p = run_state pv ev r1 p" using flush_state [OF r1(2) events(2), of p] by simp
  also have "\<dots> = written pv ev ?items (path_state (sr_store ?start)) p"
    unfolding events(1) by (simp add: run_state_def)
  also have "\<dots> = written pv ev (items_to_write penv classified) (path_state (sr_store ?start)) p"
    using item_at_cong [OF dist to_write_distinct [OF ok, of penv], of p] mset_eq_setD [OF perm] by (simp add: written_def)
  also have "\<dots> = path_result pv ev penv classified store p"
    by (rule written_result [OF ok])
  finally show ?thesis .
qed

end
