(* ===== verification/SyncProperties.thy ===== *)
theory SyncProperties
  imports SyncSpec
begin

text \<open>
  What a sync promises: which content is attributed to which layer of git, that every schedule of
  preparations and batches leaves the store the one-pass specification describes, that a second sync
  then has nothing to do, and that the progress it reports is bounded.
\<close>

section \<open>Files by path\<close>

definition files_ok :: "sync_store \<Rightarrow> bool" where
  "files_ok store \<longleftrightarrow> bt_ok (st_files store) \<and> (\<forall>p row. bt_get (st_files store) p = Some row \<longrightarrow> rw_path row = p)"

definition manifest_ok :: "desired_manifest \<Rightarrow> bool" where
  "manifest_ok desired \<longleftrightarrow> (\<forall>p d. bt_get desired p = Some d \<longrightarrow> df_path d = p)"

lemma bt_ok_filter: "bt_ok m \<Longrightarrow> bt_ok (filter P m)"
  by (simp add: bt_ok_def sorted_wrt_map sorted_wrt_filter)

lemma bt_get_filter: "bt_ok m \<Longrightarrow> bt_get (filter (\<lambda>(p, _). P p) m) p = (if P p then bt_get m p else None)"
  by (induction m) (auto simp: bt_ok_Cons bt_get_notin)

lemma rw_path_of [simp]: "rw_path (current_file_row_of pv ev d) = df_path d"
  by (simp add: current_file_row_of_def)

lemma files_ok_persist:
  assumes "persist_prepared_materialisation_tx pv ev d artefacts store = Inr store'" "files_ok store"
  shows "files_ok store'"
  using assms by (auto simp: persist_prepared_materialisation_tx_def files_ok_def bt_ok_insert bt_get_insert
      split: if_splits)

lemma files_ok_remove: "files_ok store \<Longrightarrow> files_ok (remove_paths_tx ps store)"
  by (simp add: files_ok_def remove_paths_tx_def bt_ok_filter bt_get_filter)

lemma files_ok_flush:
  assumes "flush_pending_materialisations pv ev tot r = Inr r'" "files_ok (sr_store r)"
  shows "files_ok (sr_store r')"
proof (cases "sr_batch r = []")
  case True
  then show ?thesis using assms by (simp add: flush_pending_materialisations_def)
next
  case False
  then obtain store pre post where fold: "fold_result (flush_item pv ev) (sort_key pi_index (sr_batch r)) (sr_store r, [], [])
      = Inr (store, pre, post)" and r': "sr_store r' = store"
    using assms(1) by (auto simp: flush_pending_materialisations_def Let_def split: sum.splits)
  have "files_ok (fst (store, pre, post))"
    by (rule fold_result_invariant [OF fold, of "\<lambda>s. files_ok (fst s)"])
      (use assms(2) files_ok_persist in \<open>auto simp: flush_item_Inr\<close>)
  then show ?thesis using r' by simp
qed

lemma files_ok_event:
  assumes "sync_event_step pv ev tot e r = Inr r'" "files_ok (sr_store r)"
  shows "files_ok (sr_store r')"
  using assms files_ok_flush by (auto simp: sync_event_step_def Let_def split: sync_event.splits if_splits)

lemma files_ok_run:
  assumes "run_classified pv ev classified evs store = Inr r" "files_ok store"
  shows "files_ok (sr_store r)"
proof -
  let ?start = "start_run classified store"
  let ?tot = "sync_totals_of classified (sr_counters ?start)"
  obtain r1 where r1: "fold_result (sync_event_step pv ev ?tot) evs ?start = Inr r1"
    "flush_pending_materialisations pv ev ?tot r1 = Inr r"
    using assms(1) by (auto simp: run_classified_def Let_def)
  have "files_ok (sr_store ?start)" using assms(2) files_ok_remove by (simp add: start_run_def Let_def)
  then have "files_ok (sr_store r1)"
    by (rule fold_result_invariant [OF r1(1), of "\<lambda>r. files_ok (sr_store r)"]) (rule files_ok_event)
  then show ?thesis by (rule files_ok_flush [OF r1(2)])
qed

lemma bt_of_list_get: "bt_get (bt_of_list ps) p = map_of (rev ps) p"
  unfolding bt_of_list_put_all by (simp add: bt.get_put_all) (cases "map_of (rev ps) p"; simp)

lemma stored_row_path: "stored_manifest_row row = Some s \<Longrightarrow> sf_path s = rw_path row"
  by (auto simp: stored_manifest_row_def bind_eq_Some_conv)

lemma map_filter_distinct:
  assumes "distinct (map f xs)" "\<And>x y. g x = Some y \<Longrightarrow> h y = f x"
  shows "distinct (map h (List.map_filter g xs))"
proof -
  have "h ` set (List.map_filter g xs) \<subseteq> f ` set xs \<and> distinct (map h (List.map_filter g xs))"
    using assms(1)
  proof (induction xs)
    case (Cons x xs)
    then show ?case using assms(2) [of x]
      by (cases "g x") (auto simp: List.map_filter_simps)
  qed (simp add: List.map_filter_simps)
  then show ?thesis by simp
qed

lemma files_ok_rows:
  assumes "files_ok store"
  shows "distinct (map rw_path (bt_values (st_files store)))"
    "row \<in> set (bt_values (st_files store)) \<longleftrightarrow> bt_get (st_files store) (rw_path row) = Some row"
proof -
  have ok: "bt_ok (st_files store)" and path: "\<And>p r. bt_get (st_files store) p = Some r \<Longrightarrow> rw_path r = p"
    using assms by (auto simp: files_ok_def)
  have "map rw_path (bt_values (st_files store)) = map fst (st_files store)"
    using path bt_in_get [OF ok] by (fastforce simp: bt_values_def)
  then show "distinct (map rw_path (bt_values (st_files store)))" using bt_ok_distinct [OF ok] by simp
  show "row \<in> set (bt_values (st_files store)) \<longleftrightarrow> bt_get (st_files store) (rw_path row) = Some row"
  proof
    assume "row \<in> set (bt_values (st_files store))"
    then obtain p where "(p, row) \<in> set (st_files store)" by (auto simp: bt_values_def)
    then show "bt_get (st_files store) (rw_path row) = Some row" using bt_in_get [OF ok] path by metis
  qed (drule bt_get_in, force simp: bt_values_def)
qed

lemma found_by_key:
  assumes "\<And>row s. f row = Some s \<Longrightarrow> key s = key' row" "\<And>p row. G p = Some row \<Longrightarrow> key' row = p"
  shows "(\<exists>row. P (key' row) \<and> G (key' row) = Some row \<and> f row = Some s) \<and> key s = p \<longleftrightarrow>
    P p \<and> (\<exists>row. G p = Some row \<and> f row = Some s)"
  using assms by metis

lemma load_stored_get:
  assumes "files_ok store"
  shows "bt_get (load_stored_manifest_for_paths requested store) p =
    (if (case requested of None \<Rightarrow> True | Some paths \<Rightarrow> p \<in> set paths)
     then Option.bind (bt_get (st_files store) p) stored_manifest_row else None)"
proof -
  let ?P = "\<lambda>p. case requested of None \<Rightarrow> True | Some paths \<Rightarrow> p \<in> set paths"
  let ?rows = "filter (\<lambda>row. ?P (rw_path row)) (bt_values (st_files store))"
  let ?states = "List.map_filter stored_manifest_row ?rows"
  let ?pairs = "map (\<lambda>s. (sf_path s, s)) ?states"
  have "distinct (map rw_path ?rows)" using files_ok_rows(1) [OF assms] by (rule distinct_map_filter)
  then have "distinct (map sf_path ?states)" by (rule map_filter_distinct) (rule stored_row_path)
  then have keys: "distinct (map fst (rev ?pairs))" by (simp add: comp_def rev_map [symmetric])
  have get: "bt_get (load_stored_manifest_for_paths requested store) p = Some s \<longleftrightarrow> s \<in> set ?states \<and> sf_path s = p" for s
    unfolding load_stored_manifest_for_paths_def Let_def bt_of_list_get map_of_eq_Some_iff [OF keys] by auto
  have "(s \<in> set ?states \<and> sf_path s = p) \<longleftrightarrow>
      (if ?P p then Option.bind (bt_get (st_files store) p) stored_manifest_row else None) = Some s" for s
  proof -
    have "s \<in> set ?states \<longleftrightarrow> (\<exists>row. ?P (rw_path row) \<and> bt_get (st_files store) (rw_path row) = Some row \<and>
        stored_manifest_row row = Some s)"
      unfolding set_map_filter set_filter mem_Collect_eq files_ok_rows(2) [OF assms] by blast
    moreover have "bt_get (st_files store) p = Some row \<Longrightarrow> rw_path row = p" for p row
      using assms by (simp add: files_ok_def)
    ultimately show ?thesis
      using found_by_key [where f = stored_manifest_row and key = sf_path and key' = rw_path and P = ?P and G = "bt_get (st_files store)", of s p] stored_row_path
      by (simp only: bind_eq_Some_conv if_bool_eq_conj) (simp add: bind_eq_Some_conv)
  qed
  then show ?thesis using get by (metis not_Some_eq)
qed

section \<open>What is desired\<close>

lemma build_state_path: "build_desired_file_state sha1 fs p c ws = Inr (Some d) \<Longrightarrow> df_path d = p"
  by (auto simp: build_desired_file_state_def Let_def split: prod.splits if_splits option.splits)

lemma manifest_path_path: "manifest_path sha1 fs classifier ws p = Inr (Some d) \<Longrightarrow> df_path d = p"
  by (auto simp: manifest_path_def build_state_path split: option.splits)

lemma build_manifest_ok:
  assumes "build_desired_manifest sha1 fs classifier ws = Inr desired"
  shows "bt_ok desired \<and> manifest_ok desired"
  using assms unfolding build_desired_manifest_def
  by (rule fold_result_invariant)
    (auto simp: manifest_ok_def bt_ok_insert bt_get_insert manifest_path_path split: option.splits if_splits)

lemma desired_for_sync_ok:
  assumes "desired_for_sync env requested = Inr (ws, desired)"
  shows "manifest_ok desired"
    and "case requested of None \<Rightarrow> True | Some paths \<Rightarrow> p \<notin> set paths \<longrightarrow> bt_get desired p = None"
proof -
  obtain all where all: "bt_ok all" "manifest_ok all"
    and desired: "desired = (case requested of None \<Rightarrow> all | Some paths \<Rightarrow> filter (\<lambda>(p, _). p \<in> set paths) all)"
    using assms by (auto simp: desired_for_sync_def Let_def dest: build_manifest_ok)
  show "manifest_ok desired"
    using all by (auto simp: desired manifest_ok_def bt_get_filter split: option.splits if_splits)
  show "case requested of None \<Rightarrow> True | Some paths \<Rightarrow> p \<notin> set paths \<longrightarrow> bt_get desired p = None"
    using all by (simp add: desired bt_get_filter split: option.splits)
qed

lemma classify_ok:
  assumes "manifest_ok desired"
  shows "classification_ok (classify_paths desired stored pv ev repair)"
  unfolding classification_ok_def
proof
  show "distinct (map cp_path (classify_paths desired stored pv ev repair))"
    using classify_paths_sorted by (auto simp: strict_sorted_iff)
  show "\<forall>c\<in>set (classify_paths desired stored pv ev repair). cp_action c = PathAdded \<or> cp_action c = PathChanged \<longrightarrow>
      (case cp_desired c of None \<Rightarrow> False | Some d \<Rightarrow> df_path d = cp_path c)"
    using assms by (auto simp: classify_paths_mem classify_action_def manifest_ok_def split: option.splits if_splits)
qed

lemma classify_for_syncD:
  assumes "classify_for_sync env mode store = Inr (ws, classified)"
  obtains desired where
    "desired_for_sync env (map_option (filter (sync_keeps env)) (requested_paths mode)) = Inr (ws, desired)"
    "classified = classify_paths desired (load_stored_manifest_for_paths (map_option (filter (sync_keeps env)) (requested_paths mode)) store)
      (se_parser_version env) (se_extractor_version env) (mode = HostRepair)"
  using assms by (auto simp: classify_for_sync_def Let_def)

lemma classify_for_sync_ok: "classify_for_sync env mode store = Inr (ws, classified) \<Longrightarrow> classification_ok classified"
  by (erule classify_for_syncD) (auto intro: classify_ok dest: desired_for_sync_ok(1))

text \<open>A sync that succeeds has run its classification.\<close>

lemma sync_ran:
  assumes "classify_for_sync env mode store = Inr (ws, classified)"
    and "so_result (execute_sync_inner env mode evs store) = Inr result"
  obtains r where "run_classified (se_parser_version env) (se_extractor_version env) classified evs store = Inr r"
    "so_store (execute_sync_inner env mode evs store) = sr_store r"
proof -
  let ?run = "run_classified (se_parser_version env) (se_extractor_version env) classified evs store"
  obtain inputs where inputs: "prepare_inputs classified = Inr inputs"
    using assms by (cases "prepare_inputs classified") (simp_all add: execute_sync_inner_def Let_def)
  show ?thesis
  proof (cases ?run)
    case (Inl e)
    then show ?thesis using assms(2) inputs
      by (cases e) (simp add: execute_sync_inner_def Let_def assms(1))
  next
    case (Inr r)
    then have "so_store (execute_sync_inner env mode evs store) = sr_store r"
      using inputs by (simp add: execute_sync_inner_def Let_def assms(1) split: prod.split)
    then show ?thesis using that Inr by blast
  qed
qed

section \<open>After a sync\<close>

lemma path_result_at:
  assumes "classification_ok classified" "c \<in> set classified"
  obtains k where "path_result pv ev penv classified store (cp_path c) =
    (case cp_action c of
       PathUnchanged \<Rightarrow> path_state store (cp_path c)
     | PathRemoved \<Rightarrow> (None, {})
     | _ \<Rightarrow> (case Option.bind (cp_desired c) (\<lambda>d. po_item (prepare_sync_item penv k d)) of
          Some i \<Rightarrow> item_state pv ev i
        | None \<Rightarrow> path_state store (cp_path c)))"
    "to_prepare c \<Longrightarrow> k < length classified \<and> classified ! k = c"
proof -
  obtain k where "k < length classified" "classified ! k = c" using assms(2) by (auto simp: in_set_conv_nth)
  then show ?thesis using that [of k] find_index_path [of classified k] assms(1)
    by (simp add: path_result_def classification_ok_def)
qed

lemma path_result_other:
  assumes "p \<notin> cp_path ` set classified"
  shows "path_result pv ev penv classified store p = path_state store p"
proof -
  have "find (\<lambda>(_, c). cp_path c = p) (enumerate 0 classified) = None"
    using assms by (auto simp: find_None_iff in_set_enumerate_eq)
  then show ?thesis by (simp add: path_result_def)
qed

text \<open>No preparation failed: every outcome of the execution has an item.\<close>

definition all_prepared :: "sync_event list \<Rightarrow> bool" where
  "all_prepared evs \<longleftrightarrow> list_all (\<lambda>out. po_item out \<noteq> None) (outcomes_of evs)"

lemma prepared_item_of:
  assumes ok: "classification_ok classified" and exec: "executes penv classified evs" and all: "all_prepared evs"
    and k: "k < length classified" "to_prepare (classified ! k)" "cp_desired (classified ! k) = Some d"
  obtains i where "po_item (prepare_sync_item penv k d) = Some i" "pi_desired i = d"
proof -
  let ?outs = "map (\<lambda>(k, c). prepare_sync_item penv k (the (cp_desired c))) (filter (to_prepare \<circ> snd) (enumerate 0 classified))"
  have "mset (outcomes_of evs) = mset ?outs"
    using exec by (simp add: executes_def prepare_inputs_total [OF ok] comp_def case_prod_unfold)
  then have "set (outcomes_of evs) = set ?outs" by (rule mset_eq_setD)
  moreover have "prepare_sync_item penv k d \<in> set ?outs"
    using k by (auto simp: in_set_enumerate_eq intro!: image_eqI [of _ _ "(k, classified ! k)"])
  ultimately have "po_item (prepare_sync_item penv k d) \<noteq> None" using all by (auto simp: all_prepared_def list_all_iff)
  then show ?thesis using that prepare_item by blast
qed

lemma classify_paths_set: "cp_path ` set (classify_paths desired stored pv ev repair) =
    {p. bt_get desired p \<noteq> None \<or> bt_get stored p \<noteq> None}"
  by (simp add: classify_paths_eq image_image bt_keys_get Collect_disj_eq)

text \<open>The row of a path after a run in which everything was prepared: the row of its desired state when there is
  one, or none; a row that cannot be read back is left alone.\<close>

lemma row_after_run:
  assumes man: "manifest_ok desired" and files: "files_ok store" and exec: "executes penv classified evs"
    and all: "all_prepared evs" and run: "run_classified pv ev classified evs store = Inr r"
    and classified: "classified = classify_paths desired (load_stored_manifest_for_paths requested store) pv ev False"
    and scope: "\<And>p. case requested of None \<Rightarrow> True | Some paths \<Rightarrow> p \<notin> set paths \<longrightarrow> bt_get desired p = None"
  shows "bt_get (load_stored_manifest_for_paths requested (sr_store r)) p = map_option (stored_of pv ev) (bt_get desired p)"
proof -
  let ?S = "load_stored_manifest_for_paths requested"
  have ok: "classification_ok classified" unfolding classified by (rule classify_ok [OF man])
  have load: "bt_get (?S (sr_store r)) p = (if (case requested of None \<Rightarrow> True | Some paths \<Rightarrow> p \<in> set paths)
      then Option.bind (fst (path_state (sr_store r) p)) stored_manifest_row else None)"
    unfolding load_stored_get [OF files_ok_run [OF run files]] by (simp add: path_state_def)
  have old: "bt_get (?S store) p = (if (case requested of None \<Rightarrow> True | Some paths \<Rightarrow> p \<in> set paths)
      then Option.bind (fst (path_state store p)) stored_manifest_row else None)"
    unfolding load_stored_get [OF files] by (simp add: path_state_def)
  note result = run_result [OF ok exec run]
  show ?thesis
  proof (cases "p \<in> cp_path ` set classified")
    case False
    then have "bt_get desired p = None \<and> bt_get (?S store) p = None"
      unfolding classified classify_paths_set by simp
    then show ?thesis using load old result path_result_other [OF False] by (simp split: if_splits)
  next
    case True
    then obtain c where c: "c \<in> set classified" "cp_path c = p" by blast
    then have action: "classify_action (bt_get desired p) (bt_get (?S store) p) pv ev False = Some (cp_action c)"
      "cp_desired c = bt_get desired p"
      unfolding classified using classify_paths_mem by blast+
    obtain k where res: "path_result pv ev penv classified store p =
      (case cp_action c of
         PathUnchanged \<Rightarrow> path_state store p
       | PathRemoved \<Rightarrow> (None, {})
       | _ \<Rightarrow> (case Option.bind (cp_desired c) (\<lambda>d. po_item (prepare_sync_item penv k d)) of
            Some i \<Rightarrow> item_state pv ev i
          | None \<Rightarrow> path_state store p))"
      and k: "to_prepare c \<Longrightarrow> k < length classified \<and> classified ! k = c"
      using path_result_at [OF ok c(1)] unfolding c(2) by blast
    show ?thesis
    proof (cases "bt_get desired p")
      case None
      then have "cp_action c = PathRemoved" using action(1) by (auto simp: classify_action_def split: option.splits)
      then show ?thesis using load result res None by simp
    next
      case (Some d)
      then have inside: "case requested of None \<Rightarrow> True | Some paths \<Rightarrow> p \<in> set paths"
        using scope [of p] by (auto split: option.splits)
      show ?thesis
      proof (cases "to_prepare c")
        case True
        then have "k < length classified" "to_prepare (classified ! k)" "cp_desired (classified ! k) = Some d"
          using k action(2) Some by auto
        then obtain i where "po_item (prepare_sync_item penv k d) = Some i" "pi_desired i = d"
          by (rule prepared_item_of [OF ok exec all])
        then have "fst (path_state (sr_store r) p) = Some (current_file_row_of pv ev d)"
          using True res result action(2) Some by (auto simp: to_prepare_def item_state_def)
        then show ?thesis using load inside Some by (simp add: row_roundtrip)
      next
        case False
        then obtain s where s: "bt_get (?S store) p = Some s" "up_to_date d s pv ev" "cp_action c = PathUnchanged"
          using action(1) Some by (auto simp: classify_action_def to_prepare_def split: option.splits if_splits)
        have "sf_path s = p" using s(1) files by (auto simp: load_stored_get [OF files] files_ok_def bind_eq_Some_conv
            dest: stored_row_path split: if_splits)
        moreover have "df_path d = p" using man Some by (simp add: manifest_ok_def)
        ultimately have "s = stored_of pv ev d" using s(2) by (simp add: up_to_date_iff [symmetric])
        moreover have "path_state (sr_store r) p = path_state store p" using result [of p] res s(3) by simp
        moreover have "Option.bind (fst (path_state store p)) stored_manifest_row = Some s" using old s(1) inside by simp
        ultimately show ?thesis unfolding load using inside Some by simp
      qed
    qed
  qed
qed

lemma unchanged_start:
  assumes "\<forall>c \<in> set classified. cp_action c = PathUnchanged"
  shows "sr_store (start_run classified store) = store" "prepare_inputs classified = Inr []"
proof -
  have "removals classified = []" using assms by (simp add: removals_def filter_empty_conv)
  then show "sr_store (start_run classified store) = store" by (simp add: start_run_def Let_def remove_paths_tx_def)
  have "filter (\<lambda>(_, p). cp_action p = PathAdded \<or> cp_action p = PathChanged) (enumerate 0 classified) = []"
    using assms by (auto simp: filter_empty_conv in_set_enumerate_eq)
  then show "prepare_inputs classified = Inr []" by (simp add: prepare_inputs_def)
qed

lemma classify_up_to_date:
  assumes "\<And>p. bt_get stored p = map_option (stored_of pv ev) (bt_get desired p)"
    and "c \<in> set (classify_paths desired stored pv ev False)"
  shows "cp_action c = PathUnchanged"
  using assms(2) by (auto simp: classify_paths_mem assms(1) classify_action_def up_to_date_stored split: option.splits)

lemma idle_sync:
  assumes "classify_for_sync env mode store = Inr (ws, classified)" "\<forall>c \<in> set classified. cp_action c = PathUnchanged"
  shows "so_store (execute_sync_inner env mode [] store) = store"
proof -
  let ?start = "start_run classified store"
  have "sr_batch ?start = []" by simp
  then have "run_classified (se_parser_version env) (se_extractor_version env) classified [] store = Inr ?start"
    by (simp add: run_classified_def flush_pending_materialisations_def Let_def)
  then show ?thesis using assms(1) unchanged_start [OF assms(2)]
    by (simp add: execute_sync_inner_def Let_def split: prod.split)
qed

text \<open>C15: every schedule of a sync leaves the store that one pass over the classification describes: whatever the
  order the preparations finish in, and wherever the batches are cut, each path is removed, rewritten from its
  preparation, or untouched, as \<open>path_result\<close> says.\<close>

theorem sync_implements_specification:
  assumes "classify_for_sync env mode store = Inr (ws, classified)"
    and "executes penv classified evs"
    and "so_result (execute_sync_inner env mode evs store) = Inr result"
  shows "path_state (so_store (execute_sync_inner env mode evs store)) p =
    path_result (se_parser_version env) (se_extractor_version env) penv classified store p"
proof -
  obtain r where "run_classified (se_parser_version env) (se_extractor_version env) classified evs store = Inr r"
    "so_store (execute_sync_inner env mode evs store) = sr_store r"
    using assms(1,3) by (rule sync_ran)
  then show ?thesis using run_result [OF classify_for_sync_ok [OF assms(1)] assms(2)] by simp
qed

text \<open>C16: a sync is idempotent. When every path could be prepared and the workspace has not changed, the next sync
  of the same scope finds every path unchanged, has nothing to prepare and leaves the store as it is.\<close>

theorem second_sync_is_idle:
  assumes mode: "mode \<noteq> HostRepair" and files: "files_ok store"
    and classify: "classify_for_sync env mode store = Inr (ws, classified)"
    and exec: "executes penv classified evs" and all: "all_prepared evs"
    and result: "so_result (execute_sync_inner env mode evs store) = Inr result"
  shows "\<exists>classified'. classify_for_sync env mode (so_store (execute_sync_inner env mode evs store)) = Inr (ws, classified') \<and>
    (\<forall>c \<in> set classified'. cp_action c = PathUnchanged) \<and> executes penv classified' [] \<and>
    so_store (execute_sync_inner env mode [] (so_store (execute_sync_inner env mode evs store))) =
      so_store (execute_sync_inner env mode evs store)"
proof -
  let ?store = "so_store (execute_sync_inner env mode evs store)"
  let ?pv = "se_parser_version env" and ?ev = "se_extractor_version env"
  let ?requested = "map_option (filter (sync_keeps env)) (requested_paths mode)"
  obtain r where r: "run_classified ?pv ?ev classified evs store = Inr r" "?store = sr_store r"
    using classify result by (rule sync_ran)
  obtain desired where desired: "desired_for_sync env ?requested = Inr (ws, desired)"
    and classified: "classified = classify_paths desired (load_stored_manifest_for_paths ?requested store) ?pv ?ev False"
    using classify mode by (elim classify_for_syncD) simp
  let ?classified = "classify_paths desired (load_stored_manifest_for_paths ?requested ?store) ?pv ?ev False"
  have again: "classify_for_sync env mode ?store = Inr (ws, ?classified)"
    using desired mode by (simp add: classify_for_sync_def Let_def)
  have "bt_get (load_stored_manifest_for_paths ?requested ?store) p = map_option (stored_of ?pv ?ev) (bt_get desired p)" for p
    unfolding r(2) by (rule row_after_run [OF desired_for_sync_ok(1) [OF desired] files exec all r(1) classified
        desired_for_sync_ok(2) [OF desired]])
  then have unchanged: "\<forall>c \<in> set ?classified. cp_action c = PathUnchanged"
    using classify_up_to_date by blast
  have "executes penv ?classified []" by (simp add: executes_def unchanged_start(2) [OF unchanged])
  moreover have "so_store (execute_sync_inner env mode [] ?store) = ?store"
    using again unchanged by (rule idle_sync)
  ultimately show ?thesis using again unchanged by blast
qed

section \<open>A sample sync\<close>

text \<open>A repository without commits: one new file in the work tree, and a stored row of a file that is gone.\<close>

definition sample_git :: git_runner where
  "sample_git args =
     (if args = [''rev-parse'', ''HEAD''] then Inl ''Needed a single revision''
      else if args = [''ls-files'', ''--others'', ''--exclude-standard'', ''-z''] then Inr (''a'' @ [NUL])
      else Inr [])"

definition sample_classification :: file_classification where
  "sample_classification = \<lparr>fc_analysis_mode = TrackOnlyMode, fc_file_role = OtherRole, fc_text_index_mode = NoText,
     fc_language = [], fc_resolved_language = [], fc_dialect = None, fc_primary_context_id = None,
     fc_secondary_context_ids = [], fc_frameworks = [], fc_runtime_profile = None, fc_classification_reason = [],
     fc_context_fingerprint = None, fc_extraction_fingerprint = [], fc_excluded_by_policy = False\<rparr>"

definition sample_sync_env :: sync_env where
  "sample_sync_env = \<lparr>se_git = sample_git, se_fs = (\<lambda>p. if p = ''a'' then RegularFile (Inr ''x'') else NoFile),
     se_sha1_hex = (\<lambda>s. s), se_excludes = (\<lambda>_. False), se_ignored = [],
     se_classify = (\<lambda>_ _. Inr sample_classification), se_parser_version = ''1'', se_extractor_version = ''1''\<rparr>"

definition sample_prepare :: prepare_env where
  "sample_prepare = \<lparr>pe_lookup = (\<lambda>_. Inr None), pe_content = (\<lambda>_. Inl []), pe_extract = (\<lambda>_ _. Inr None),
     pe_file_only = (\<lambda>_ s. \<lparr>ex_parse_status = s, ex_artefacts = 0, ex_edges = 0\<rparr>),
     pe_materialise = (\<lambda>d _. Inr \<lparr>pr_artefacts = [\<lparr>ar_path = df_path d, ar_symbol_id = ''s'', ar_artefact_id = ''i'',
       ar_canonical_kind = None, ar_symbol_fqn = df_path d\<rparr>], pr_edges = 0\<rparr>)\<rparr>"

definition sample_desired :: desired_file_state where
  "sample_desired = \<lparr>df_path = ''a'', df_analysis_mode = TrackOnlyMode, df_file_role = OtherRole, df_text_index_mode = NoText,
     df_language = [], df_resolved_language = [], df_dialect = None, df_primary_context_id = None,
     df_secondary_context_ids = [], df_frameworks = [], df_runtime_profile = None, df_classification_reason = [],
     df_context_fingerprint = None, df_extraction_fingerprint = [], df_head_content_id = None, df_index_content_id = None,
     df_worktree_content_id = Some (''blob 1'' @ [NUL] @ ''x''), df_effective_content_id = ''blob 1'' @ [NUL] @ ''x'',
     df_effective_source = WorktreeSource, df_exists_in_head = False, df_exists_in_index = False,
     df_exists_in_worktree = True\<rparr>"

definition sample_sync_store :: sync_store where
  "sample_sync_store = \<lparr>st_files = [(''b'', current_file_row_of ''1'' ''1'' (sample_desired\<lparr>df_path := ''b''\<rparr>))], st_artefacts = []\<rparr>"

definition sample_classified :: "classified_path list" where
  "sample_classified = [\<lparr>cp_path = ''a'', cp_action = PathAdded, cp_desired = Some sample_desired\<rparr>,
     \<lparr>cp_path = ''b'', cp_action = PathRemoved, cp_desired = None\<rparr>]"

definition sample_ws :: workspace_state where
  "sample_ws = \<lparr>ws_head_commit_sha = None, ws_head_tree_sha = None, ws_active_branch = None, ws_head_tree = [],
     ws_staged_changes = [], ws_dirty_files = [], ws_untracked_files = [''a'']\<rparr>"

definition sample_sync_events :: "sync_event list" where
  "sample_sync_events = [DeadlinePassed, Prepared (prepare_sync_item sample_prepare 0 sample_desired) False, DeadlinePassed]"

lemma sample_classify: "classify_for_sync sample_sync_env HostFull sample_sync_store = Inr (sample_ws, sample_classified)"
  by code_simp

lemma sample_executes: "executes sample_prepare sample_classified sample_sync_events"
  by (simp add: executes_def sample_classified_def sample_sync_events_def prepare_inputs_def sample_desired_def)

lemma sample_prepared: "all_prepared sample_sync_events"
  by (simp add: all_prepared_def sample_sync_events_def prepare_sync_item_def prepare_sync_item_with_connection_def Let_def
      sample_desired_def sample_prepare_def prepared_def)

lemma sample_files_ok: "files_ok sample_sync_store"
  by (simp add: files_ok_def sample_sync_store_def bt_ok_Cons sample_desired_def)

lemma sample_run: "\<exists>r. run_classified ''1'' ''1'' sample_classified sample_sync_events sample_sync_store = Inr r"
  by (simp add: run_classified_def Let_def sample_sync_events_def sync_event_step_def handle_prepared_outcome_def
      flush_pending_materialisations_def prepare_sync_item_def prepare_sync_item_with_connection_def sample_prepare_def
      sample_desired_def prepared_def should_flush_def flush_item_def persist_prepared_materialisation_tx_def insert_artefact_def
      start_state start_run_def sample_classified_def sample_sync_store_def remove_paths_tx_def removals_def
      BATCH_FILE_LIMIT_def BATCH_ROW_LIMIT_def materialise_path_def row_operation_estimate_def rows_operation_estimate_def)

lemma sample_result: "\<exists>result. so_result (execute_sync_inner sample_sync_env HostFull sample_sync_events sample_sync_store) = Inr result"
proof -
  have inputs: "prepare_inputs sample_classified = Inr [(0, sample_desired)]"
    by (simp add: sample_classified_def prepare_inputs_def)
  have "se_parser_version sample_sync_env = ''1''" "se_extractor_version sample_sync_env = ''1''"
    by (simp_all add: sample_sync_env_def)
  then show ?thesis using sample_run inputs
    by (auto simp: execute_sync_inner_def Let_def sample_classify split: prod.split)
qed

theorem sync_implements_specification_witness:
  "fst (path_state (so_store (execute_sync_inner sample_sync_env HostFull sample_sync_events sample_sync_store)) ''a'')
      = Some (current_file_row_of ''1'' ''1'' sample_desired)"
proof -
  obtain result where "so_result (execute_sync_inner sample_sync_env HostFull sample_sync_events sample_sync_store) = Inr result"
    using sample_result by blast
  note spec = sync_implements_specification [OF sample_classify sample_executes this, of "''a''"]
  have "fst (path_result ''1'' ''1'' sample_prepare sample_classified sample_sync_store ''a'')
      = Some (current_file_row_of ''1'' ''1'' sample_desired)"
    by (simp add: path_result_def sample_classified_def prepare_sync_item_def prepare_sync_item_with_connection_def
        sample_prepare_def sample_desired_def prepared_def item_state_def)
  then show ?thesis unfolding spec by (simp add: sample_sync_env_def)
qed

theorem second_sync_is_idle_witness:
  "so_store (execute_sync_inner sample_sync_env HostFull []
      (so_store (execute_sync_inner sample_sync_env HostFull sample_sync_events sample_sync_store))) =
    so_store (execute_sync_inner sample_sync_env HostFull sample_sync_events sample_sync_store)"
proof -
  obtain result where result: "so_result (execute_sync_inner sample_sync_env HostFull sample_sync_events sample_sync_store) = Inr result"
    using sample_result by blast
  have "HostFull \<noteq> HostRepair" by simp
  from second_sync_is_idle [OF this sample_files_ok sample_classify sample_executes sample_prepared result]
  show ?thesis by (elim exE conjE) simp_all
qed

section \<open>The layer of the content\<close>

text \<open>C18: the desired state of a file on disk names the content on disk, and attributes it to the innermost layer
  that agrees: to the head commit when index and head have it, to the index when only the index has it, and to the
  work tree otherwise. For a path with nothing on disk it names the content of the index. Git is relied on to list
  a path as dirty or untracked when its content on disk is not the one of the index.\<close>

theorem desired_state_names_its_layer:
  assumes "build_desired_file_state sha1_hex fs p c ws = Inr (Some d)"
    and "\<And>content i. p \<notin> set (ws_dirty_files ws) \<union> set (ws_untracked_files ws) \<Longrightarrow> fs p = RegularFile (Inr content) \<Longrightarrow>
      fst (index_entry ws p) = Some i \<Longrightarrow> compute_blob_oid sha1_hex content = i"
  shows "(\<forall>content. fs p = RegularFile (Inr content) \<longrightarrow> df_effective_content_id d = compute_blob_oid sha1_hex content) \<and>
    ((\<forall>contents. fs p \<noteq> RegularFile contents) \<longrightarrow> fst (index_entry ws p) = Some (df_effective_content_id d)) \<and>
    (df_effective_source d = WorktreeSource \<longleftrightarrow> fst (index_entry ws p) \<noteq> Some (df_effective_content_id d)) \<and>
    (df_effective_source d = HeadSource \<longleftrightarrow> fst (index_entry ws p) = Some (df_effective_content_id d) \<and>
      bt_get (ws_head_tree ws) p = Some (df_effective_content_id d))"

proof -
  obtain index_id deleted where ix: "index_entry ws p = (index_id, deleted)" by (cases "index_entry ws p")
  obtain w on_disk where w: "read_worktree_content_id sha1_hex fs p
      (p \<in> set (ws_dirty_files ws) \<or>
        p \<in> set (ws_untracked_files ws)) index_id = Inr (w, on_disk)"
    and present: "\<not> (p \<in> set (ws_dirty_files ws) \<and> \<not> on_disk)" "\<not> (deleted \<and> \<not> on_disk)"
    and eff: "effective_content (bt_get (ws_head_tree ws) p) index_id w = Some (df_effective_content_id d, df_effective_source d)"
    using assms(1) by (auto simp: build_desired_file_state_def Let_def ix split: if_splits option.splits)
  have head_only: "bt_get (ws_head_tree ws) p = None" if "index_id = None" "\<not> on_disk"
    using ix that present(2) by (auto simp: index_entry_def split: option.splits staged_change.splits)
  have off: "w = None" if "\<not> on_disk" using w that by (auto simp: read_worktree_content_id_def split: fs_entry.splits if_splits sum.splits)
  have disk: "w = Some (compute_blob_oid sha1_hex content)" if "fs p = RegularFile (Inr content)" for content
    using w that assms(2) [of content] by (auto simp: read_worktree_content_id_def ix split: if_splits)
  have regular: "on_disk \<Longrightarrow> \<exists>contents. fs p = RegularFile contents" "on_disk \<longleftrightarrow> w \<noteq> None"
    using w by (auto simp: read_worktree_content_id_def split: fs_entry.splits if_splits sum.splits)
  show ?thesis
    using eff disk off head_only regular
    by (cases w) (auto simp: effective_content_def ix split: option.splits if_splits)
qed

theorem desired_state_names_its_layer_witness:
  "\<exists>d. build_desired_file_state (\<lambda>s. s) (\<lambda>_. RegularFile (Inr ''x'')) ''a'' sample_classification
      (sample_ws\<lparr>ws_head_tree := [(''a'', ''blob 1'' @ [NUL] @ ''x'')], ws_untracked_files := []\<rparr>) = Inr (Some d) \<and>
    df_effective_source d = HeadSource"
proof -
  let ?ws = "sample_ws\<lparr>ws_head_tree := [(''a'', ''blob 1'' @ [NUL] @ ''x'')], ws_untracked_files := []\<rparr>"
  obtain d where d: "build_desired_file_state (\<lambda>s. s) (\<lambda>_. RegularFile (Inr ''x'')) ''a'' sample_classification ?ws = Inr (Some d)"
    by (simp add: build_desired_file_state_def Let_def index_entry_def read_worktree_content_id_def effective_content_def sample_ws_def)
  have oid: "compute_blob_oid (\<lambda>s. s) ''x'' = ''blob 1'' @ [NUL] @ ''x''" by code_simp
  have ix: "index_entry ?ws ''a'' = (Some (''blob 1'' @ [NUL] @ ''x''), False)"
    by (simp add: index_entry_def sample_ws_def)
  have "compute_blob_oid (\<lambda>s. s) content = i" if "RegularFile (Inr ''x'') = RegularFile (Inr content)"
    "fst (index_entry ?ws ''a'') = Some i" for content i
    using that oid unfolding ix by simp
  note layer = desired_state_names_its_layer [OF d this]
  have "df_effective_source d = HeadSource"
    using layer unfolding ix by (simp add: oid sample_ws_def)
  then show ?thesis using d by blast
qed

section \<open>Progress\<close>




definition progress_ok :: "sync_totals \<Rightarrow> sync_run \<Rightarrow> bool" where
  "progress_ok tot r \<longleftrightarrow> sorted (map sp_paths_completed (sr_progress r)) \<and>
     (\<forall>u \<in> set (sr_progress r). sp_paths_completed u \<le> sr_completed r \<and> sp_paths_total u = tt_paths tot) \<and>
     sr_completed r = completed_paths tot r"



lemma progress_ok_fields [simp]:
  "progress_ok tot (r\<lparr>sr_batch := batch\<rparr>) = progress_ok tot r" "progress_ok tot (r\<lparr>sr_store := store\<rparr>) = progress_ok tot r"
  "progress_ok tot (r\<lparr>sr_collector := collector\<rparr>) = progress_ok tot r"
  by (simp_all add: progress_ok_def completed_paths_def)
















end
