(* ===== verification/CapabilityEvents.thy ===== *)
theory CapabilityEvents
  imports SyncRun
begin

text \<open>
  The delivery of sync results to the capabilities, \<open>daemon/capability_events/\<close>: each successful sync is a
  generation of the repository, with the files and artefacts it changed; a consumer has a cursor, the last
  generation it has applied, and runs that bring it up to date, either with the merged changes since the cursor or
  by a full reconcile (\<open>queue.rs\<close>, \<open>plan.rs\<close>, \<open>coordinator/\<close>). The tables of the workplane database are lists of
  rows in insertion order, a transaction is one step, and a query without a complete order takes the rows in
  insertion order. The capabilities themselves, the clock and fresh run identifiers are arguments.
\<close>

section \<open>Data (types/capability_events.rs, queue.rs, capability_host/events.rs)\<close>

datatype event_run_status = EvQueued | EvRunning | EvCompleted | EvFailed | EvCancelled

record event_run =
  er_run_id :: string
  er_repo_id :: string
  er_capability_id :: string
  er_init_session_id :: "string option"
  er_consumer_id :: string
  er_handler_id :: string
  er_from_generation_seq :: nat
  er_to_generation_seq :: nat
  er_reconcile_mode :: string
  er_event_kind :: string
  er_lane_key :: string
  er_event_payload_json :: string
  er_status :: event_run_status
  er_attempts :: nat
  er_submitted_at_unix :: nat
  er_started_at_unix :: "nat option"
  er_updated_at_unix :: nat
  er_completed_at_unix :: "nat option"
  er_error :: "string option"

record stored_run =
  sn_record :: event_run
  sn_repo_root :: string

record generation_row =
  gr_repo_id :: string
  gr_generation_seq :: nat
  gr_source_task_id :: "string option"
  gr_sync_mode :: string
  gr_active_branch :: "string option"
  gr_head_commit_sha :: "string option"
  gr_requires_full_reconcile :: bool
  gr_created_at_unix :: nat

record file_change_row =
  fr_repo_id :: string
  fr_generation_seq :: nat
  fr_path :: string
  fr_change_kind :: string
  fr_language :: "string option"
  fr_content_id :: "string option"

record artefact_change_row =
  cr_repo_id :: string
  cr_generation_seq :: nat
  cr_symbol_id :: string
  cr_change_kind :: string
  cr_artefact_id :: string
  cr_path :: string
  cr_canonical_kind :: "string option"
  cr_name :: string

record mailbox_row =
  mb_repo_id :: string
  mb_capability_id :: string
  mb_mailbox_name :: string
  mb_last_applied_generation_seq :: "nat option"
  mb_last_error :: "string option"
  mb_updated_at_unix :: nat

text \<open>The tables: generations, file changes, artefact changes, mailboxes and runs.\<close>

record event_db =
  db_generations :: "generation_row list"
  db_file_changes :: "file_change_row list"
  db_artefact_changes :: "artefact_change_row list"
  db_mailboxes :: "mailbox_row list"
  db_runs :: "stored_run list"

record consumer_run_request =
  cq_repo_id :: string
  cq_repo_root :: string
  cq_capability_id :: string
  cq_mailbox_name :: string
  cq_handler_id :: string
  cq_init_session_id :: "string option"
  cq_now :: nat

datatype reconcile_mode = MergedDelta | FullReconcile

record consumer_request =
  rq_run_id :: "string option"
  rq_repo_id :: string
  rq_repo_root :: string
  rq_active_branch :: "string option"
  rq_head_commit_sha :: "string option"
  rq_from_generation_seq_exclusive :: nat
  rq_to_generation_seq_inclusive :: nat
  rq_reconcile_mode :: reconcile_mode
  rq_file_upserts :: "changed_file list"
  rq_file_removals :: "string list"
  rq_affected_paths :: "string list"
  rq_artefact_upserts :: "changed_artefact list"
  rq_artefact_removals :: "removed_artefact list"

record execution_plan =
  xp_record :: event_run
  xp_repo_root :: string
  xp_request :: consumer_request

datatype merged_file_change = FileUpsert changed_file | FileRemoved string

datatype merged_artefact_change = ArtefactUpsert changed_artefact | ArtefactRemoved removed_artefact

datatype mailbox_policy = CursorMailbox | JobMailbox

datatype mailbox_handler = CurrentStateConsumer string | Ingester string

datatype mailbox_init_policy = BackgroundInit | BlocksInitCompletion

record mailbox_registration =
  mr_capability_id :: string
  mr_mailbox_name :: string
  mr_policy :: mailbox_policy
  mr_handler :: mailbox_handler
  mr_init_policy :: mailbox_init_policy

section \<open>The tables (queue.rs)\<close>

definition event_sql_i64 :: "nat \<Rightarrow> (string, nat) result" where
  "event_sql_i64 v = (if v < 2 ^ 63 then Inr v else Inl ''converting unsigned runtime value to SQLite integer'')"

definition REMOVED_ARTEFACT_PLACEHOLDER_NAME :: string where
  "REMOVED_ARTEFACT_PLACEHOLDER_NAME = ''<removed>''"

definition file_change_rows :: "string \<Rightarrow> nat \<Rightarrow> sync_file_diff \<Rightarrow> file_change_row list" where
  "file_change_rows repo seq diff =
     (let row = (\<lambda>kind path language content_id. \<lparr>fr_repo_id = repo, fr_generation_seq = seq, fr_path = path,
            fr_change_kind = kind, fr_language = language, fr_content_id = content_id\<rparr>)
      in map (\<lambda>f. row ''added'' (cf_path f) (Some (cf_language f)) (Some (cf_content_id f))) (fd_added diff)
       @ map (\<lambda>f. row ''changed'' (cf_path f) (Some (cf_language f)) (Some (cf_content_id f))) (fd_changed diff)
       @ map (\<lambda>p. row ''removed'' p None None) (fd_removed diff))"

definition insert_file_changes :: "string \<Rightarrow> nat \<Rightarrow> sync_file_diff \<Rightarrow> event_db \<Rightarrow> (string, event_db) result" where
  "insert_file_changes repo seq diff db =
     fold_result (\<lambda>row db. and_then (event_sql_i64 (fr_generation_seq row))
         (\<lambda>_. Inr (db\<lparr>db_file_changes := db_file_changes db @ [row]\<rparr>)))
       (file_change_rows repo seq diff) db"

definition artefact_change_rows :: "string \<Rightarrow> nat \<Rightarrow> sync_artefact_diff \<Rightarrow> artefact_change_row list" where
  "artefact_change_rows repo seq diff =
     (let row = (\<lambda>kind a. \<lparr>cr_repo_id = repo, cr_generation_seq = seq, cr_symbol_id = ca_symbol_id a,
            cr_change_kind = kind, cr_artefact_id = ca_artefact_id a, cr_path = ca_path a,
            cr_canonical_kind = ca_canonical_kind a, cr_name = ca_name a\<rparr>)
      in map (row ''added'') (ad_added diff) @ map (row ''changed'') (ad_changed diff)
       @ map (\<lambda>a. \<lparr>cr_repo_id = repo, cr_generation_seq = seq, cr_symbol_id = ra_symbol_id a,
            cr_change_kind = ''removed'', cr_artefact_id = ra_artefact_id a, cr_path = ra_path a,
            cr_canonical_kind = None, cr_name = REMOVED_ARTEFACT_PLACEHOLDER_NAME\<rparr>) (ad_removed diff))"

definition insert_artefact_changes :: "string \<Rightarrow> nat \<Rightarrow> sync_artefact_diff \<Rightarrow> event_db \<Rightarrow> (string, event_db) result" where
  "insert_artefact_changes repo seq diff db =
     fold_result (\<lambda>row db. and_then (event_sql_i64 (cr_generation_seq row))
         (\<lambda>_. Inr (db\<lparr>db_artefact_changes := db_artefact_changes db @ [row]\<rparr>)))
       (artefact_change_rows repo seq diff) db"

definition repo_generations :: "string \<Rightarrow> event_db \<Rightarrow> nat list" where
  "repo_generations repo db = map gr_generation_seq (filter (\<lambda>g. gr_repo_id g = repo) (db_generations db))"

definition latest_generation_seq :: "string \<Rightarrow> event_db \<Rightarrow> nat option" where
  "latest_generation_seq repo db =
     (case repo_generations repo db of [] \<Rightarrow> None | seqs \<Rightarrow> Some (Max (set seqs)))"

definition next_generation_seq :: "string \<Rightarrow> event_db \<Rightarrow> nat" where
  "next_generation_seq repo db = unwrap_or (latest_generation_seq repo db) 0 + 1"

definition is_mailbox :: "string \<Rightarrow> string \<Rightarrow> string \<Rightarrow> mailbox_row \<Rightarrow> bool" where
  "is_mailbox repo capability_id mailbox_name m \<longleftrightarrow>
     mb_repo_id m = repo \<and> mb_capability_id m = capability_id \<and> mb_mailbox_name m = mailbox_name"

definition upsert_consumer_row :: "string \<Rightarrow> string \<Rightarrow> string \<Rightarrow> nat \<Rightarrow> event_db \<Rightarrow> (string, event_db) result" where
  "upsert_consumer_row repo capability_id mailbox_name now db =
     and_then (event_sql_i64 now) (\<lambda>now. Inr (db\<lparr>db_mailboxes :=
       (if list_ex (is_mailbox repo capability_id mailbox_name) (db_mailboxes db)
        then map (\<lambda>m. if is_mailbox repo capability_id mailbox_name m then m\<lparr>mb_updated_at_unix := now\<rparr> else m)
          (db_mailboxes db)
        else db_mailboxes db @ [\<lparr>mb_repo_id = repo, mb_capability_id = capability_id, mb_mailbox_name = mailbox_name,
          mb_last_applied_generation_seq = None, mb_last_error = None, mb_updated_at_unix = now\<rparr>])\<rparr>))"

text \<open>The cursor of a mailbox: \<open>None\<close> without a row, \<open>Some None\<close> when nothing was applied yet.\<close>

definition load_consumer_cursor :: "string \<Rightarrow> string \<Rightarrow> string \<Rightarrow> event_db \<Rightarrow> nat option option" where
  "load_consumer_cursor repo capability_id mailbox_name db =
     map_option mb_last_applied_generation_seq (find (is_mailbox repo capability_id mailbox_name) (db_mailboxes db))"

definition build_lane_key :: "string \<Rightarrow> string \<Rightarrow> string" where
  "build_lane_key repo consumer_id = repo @ '':'' @ consumer_id"

text \<open>A row as \<open>load_runs\<close> reads it back: the columns that are not stored are derived.\<close>

definition load_run :: "stored_run \<Rightarrow> stored_run" where
  "load_run s = s\<lparr>sn_record := (sn_record s)
     \<lparr>er_handler_id := er_consumer_id (sn_record s), er_event_kind := ''current_state_consumer'',
      er_lane_key := build_lane_key (er_repo_id (sn_record s)) (er_consumer_id (sn_record s)),
      er_event_payload_json := []\<rparr>\<rparr>"

definition load_runs :: "(event_run \<Rightarrow> bool) \<Rightarrow> event_db \<Rightarrow> stored_run list" where
  "load_runs P db = map load_run (filter (P \<circ> sn_record) (db_runs db))"

definition is_active_run_of :: "string \<Rightarrow> string \<Rightarrow> string \<Rightarrow> event_run \<Rightarrow> bool" where
  "is_active_run_of repo capability_id mailbox_name r \<longleftrightarrow>
     er_repo_id r = repo \<and> er_capability_id r = capability_id \<and> er_consumer_id r = mailbox_name \<and>
     (er_status r = EvRunning \<or> er_status r = EvQueued)"

definition load_active_run_for_lane :: "string \<Rightarrow> string \<Rightarrow> string \<Rightarrow> event_db \<Rightarrow> stored_run option" where
  "load_active_run_for_lane repo capability_id mailbox_name db =
     (case sort_key (\<lambda>s. (if er_status (sn_record s) = EvRunning then 0 else 1 :: nat, er_submitted_at_unix (sn_record s)))
         (load_runs (is_active_run_of repo capability_id mailbox_name) db) of
        [] \<Rightarrow> None | s # _ \<Rightarrow> Some s)"

definition update_run :: "string \<Rightarrow> (event_run \<Rightarrow> event_run) \<Rightarrow> event_db \<Rightarrow> event_db" where
  "update_run rid f db = db\<lparr>db_runs := map (\<lambda>s. if er_run_id (sn_record s) = rid
     then s\<lparr>sn_record := f (sn_record s)\<rparr> else s) (db_runs db)\<rparr>"

text \<open>\<open>run_id\<close> is the primary key.\<close>

definition insert_run :: "string \<Rightarrow> stored_run \<Rightarrow> event_db \<Rightarrow> (string, event_db) result" where
  "insert_run context s db =
     (if list_ex (\<lambda>t. er_run_id (sn_record t) = er_run_id (sn_record s)) (db_runs db) then Inl context
      else Inr (db\<lparr>db_runs := db_runs db @ [s]\<rparr>))"

definition new_run :: "consumer_run_request \<Rightarrow> string \<Rightarrow> nat \<Rightarrow> nat \<Rightarrow> string \<Rightarrow> stored_run" where
  "new_run cq uuid from_seq to_seq mode =
     \<lparr>sn_record = \<lparr>er_run_id = ''current-state-consumer-run-'' @ uuid, er_repo_id = cq_repo_id cq,
        er_capability_id = cq_capability_id cq, er_init_session_id = cq_init_session_id cq,
        er_consumer_id = cq_mailbox_name cq, er_handler_id = cq_handler_id cq, er_from_generation_seq = from_seq,
        er_to_generation_seq = to_seq, er_reconcile_mode = mode, er_event_kind = ''current_state_consumer'',
        er_lane_key = build_lane_key (cq_repo_id cq) (cq_mailbox_name cq), er_event_payload_json = [],
        er_status = EvQueued, er_attempts = 0, er_submitted_at_unix = cq_now cq, er_started_at_unix = None,
        er_updated_at_unix = cq_now cq, er_completed_at_unix = None, er_error = None\<rparr>,
      sn_repo_root = cq_repo_root cq\<rparr>"

definition refresh_run :: "consumer_run_request \<Rightarrow> nat \<Rightarrow> nat \<Rightarrow> string option \<Rightarrow> event_run \<Rightarrow> event_run" where
  "refresh_run cq from_seq to_seq mode r = r
     \<lparr>er_from_generation_seq := from_seq, er_to_generation_seq := to_seq,
      er_reconcile_mode := unwrap_or mode (er_reconcile_mode r),
      er_init_session_id := opt_or (er_init_session_id r) (cq_init_session_id cq), er_updated_at_unix := cq_now cq\<rparr>"

definition ensure_consumer_run :: "consumer_run_request \<Rightarrow> string \<Rightarrow> event_db
    \<Rightarrow> (string, event_db \<times> stored_run option) result" where
  "ensure_consumer_run cq uuid db =
     (case latest_generation_seq (cq_repo_id cq) db of
        None \<Rightarrow> Inr (db, None)
      | Some latest \<Rightarrow>
          let applied = unwrap_or (Option.bind (load_consumer_cursor (cq_repo_id cq) (cq_capability_id cq) (cq_mailbox_name cq) db)
                (\<lambda>cursor. cursor)) 0;
              bounds = and_then (event_sql_i64 applied) (\<lambda>_. and_then (event_sql_i64 latest) (\<lambda>_. event_sql_i64 (cq_now cq)))
          in if latest \<le> applied then Inr (db, None)
             else (case load_active_run_for_lane (cq_repo_id cq) (cq_capability_id cq) (cq_mailbox_name cq) db of
               Some run \<Rightarrow>
                 if er_status (sn_record run) = EvQueued then
                   and_then bounds (\<lambda>_. Inr (update_run (er_run_id (sn_record run)) (refresh_run cq applied latest None) db,
                     Some (run\<lparr>sn_record := refresh_run cq applied latest None (sn_record run)\<rparr>)))
                 else Inr (db, None)
             | None \<Rightarrow>
                 let s = new_run cq uuid applied latest ''merged_delta'' in
                 and_then bounds (\<lambda>_. and_then (insert_run ''creating current-state consumer run'' s db)
                   (\<lambda>db. Inr (db, Some s)))))"

definition force_consumer_run :: "consumer_run_request \<Rightarrow> string \<Rightarrow> event_db \<Rightarrow> (string, event_db \<times> stored_run) result" where
  "force_consumer_run cq uuid db =
     (case latest_generation_seq (cq_repo_id cq) db of
        None \<Rightarrow> Inl ''run DevQL sync first before refreshing CodeCity''
      | Some latest \<Rightarrow>
          let from_seq = latest - 1;
              bounds = and_then (event_sql_i64 from_seq) (\<lambda>_. and_then (event_sql_i64 latest) (\<lambda>_. event_sql_i64 (cq_now cq)))
          in and_then (upsert_consumer_row (cq_repo_id cq) (cq_capability_id cq) (cq_mailbox_name cq) (cq_now cq) db) (\<lambda>db.
             case load_active_run_for_lane (cq_repo_id cq) (cq_capability_id cq) (cq_mailbox_name cq) db of
               Some run \<Rightarrow>
                 if er_status (sn_record run) = EvQueued then
                   and_then bounds (\<lambda>_. Inr
                     (update_run (er_run_id (sn_record run)) (refresh_run cq from_seq latest (Some ''full_reconcile'')) db,
                      run\<lparr>sn_record := refresh_run cq from_seq latest (Some ''full_reconcile'') (sn_record run)\<rparr>))
                 else Inr (db, run)
             | None \<Rightarrow>
                 let s = new_run cq uuid from_seq latest ''full_reconcile'' in
                 and_then bounds (\<lambda>_. and_then (insert_run ''creating forced current-state consumer run'' s db)
                   (\<lambda>db. Inr (db, s)))))"

text \<open>\<open>WHERE repo_id = ?1 AND generation_seq >= ?2 AND generation_seq <= ?3 ORDER BY generation_seq ASC, rowid ASC\<close>\<close>

definition rows_in_range :: "('r \<Rightarrow> string) \<Rightarrow> ('r \<Rightarrow> nat) \<Rightarrow> string \<Rightarrow> nat \<Rightarrow> nat \<Rightarrow> 'r list \<Rightarrow> 'r list" where
  "rows_in_range repo_of seq_of repo from_seq to_seq rows =
     sort_key seq_of (filter (\<lambda>r. repo_of r = repo \<and> from_seq \<le> seq_of r \<and> seq_of r \<le> to_seq) rows)"

definition load_generations :: "string \<Rightarrow> nat \<Rightarrow> nat \<Rightarrow> event_db \<Rightarrow> generation_row list" where
  "load_generations repo from_seq to_seq db = rows_in_range gr_repo_id gr_generation_seq repo from_seq to_seq (db_generations db)"

definition load_file_changes :: "string \<Rightarrow> nat \<Rightarrow> nat \<Rightarrow> event_db \<Rightarrow> file_change_row list" where
  "load_file_changes repo from_seq to_seq db = rows_in_range fr_repo_id fr_generation_seq repo from_seq to_seq (db_file_changes db)"

definition load_artefact_changes :: "string \<Rightarrow> nat \<Rightarrow> nat \<Rightarrow> event_db \<Rightarrow> artefact_change_row list" where
  "load_artefact_changes repo from_seq to_seq db =
     rows_in_range cr_repo_id cr_generation_seq repo from_seq to_seq (db_artefact_changes db)"

definition count_file_changes :: "string \<Rightarrow> nat \<Rightarrow> nat \<Rightarrow> event_db \<Rightarrow> nat" where
  "count_file_changes repo from_seq to_seq db = length (remdups (map fr_path (load_file_changes repo from_seq to_seq db)))"

definition count_artefact_changes :: "string \<Rightarrow> nat \<Rightarrow> nat \<Rightarrow> event_db \<Rightarrow> nat" where
  "count_artefact_changes repo from_seq to_seq db =
     length (remdups (map cr_symbol_id (load_artefact_changes repo from_seq to_seq db)))"

definition load_distinct_changed_paths :: "string \<Rightarrow> nat \<Rightarrow> nat \<Rightarrow> event_db \<Rightarrow> string list" where
  "load_distinct_changed_paths repo from_seq to_seq db =
     bs_of_list (map fr_path (load_file_changes repo from_seq to_seq db)
       @ map cr_path (load_artefact_changes repo from_seq to_seq db))"

definition is_terminal_status :: "event_run_status \<Rightarrow> bool" where
  "is_terminal_status s \<longleftrightarrow> s = EvCompleted \<or> s = EvFailed \<or> s = EvCancelled"

text \<open>All but the last hundred finished runs go; the newest come first in the sorted list.\<close>

definition prune_terminal_runs :: "event_db \<Rightarrow> event_db" where
  "prune_terminal_runs db =
     (let finished = filter (is_terminal_status \<circ> er_status \<circ> sn_record) (db_runs db);
          newest = sort_key (\<lambda>s. - int (unwrap_or (er_completed_at_unix (sn_record s)) (er_updated_at_unix (sn_record s)))) finished;
          old = map (er_run_id \<circ> sn_record) (drop 100 newest)
      in db\<lparr>db_runs := filter (\<lambda>s. er_run_id (sn_record s) \<notin> set old) (db_runs db)\<rparr>)"

end
