(* ===== verification/CapabilityRuns.thy ===== *)
theory CapabilityRuns
  imports CapabilityEvents
begin

text \<open>
  Planning, running and finishing the runs of the consumers (\<open>daemon/capability_events/plan.rs\<close> and
  \<open>coordinator/\<close>), and the coordinator as a state machine: its transactions interleave with the runs in flight.
\<close>

section \<open>The plan of a run (plan.rs)\<close>

definition FULL_RECONCILE_GENERATION_SPAN_THRESHOLD :: nat where "FULL_RECONCILE_GENERATION_SPAN_THRESHOLD = 64"
definition FULL_RECONCILE_FILE_CHANGE_THRESHOLD :: nat where "FULL_RECONCILE_FILE_CHANGE_THRESHOLD = 2000"
definition FULL_RECONCILE_ARTEFACT_CHANGE_THRESHOLD :: nat where "FULL_RECONCILE_ARTEFACT_CHANGE_THRESHOLD = 5000"

definition file_change_of :: "file_change_row \<Rightarrow> merged_file_change option" where
  "file_change_of row =
     (if fr_change_kind row = ''added'' \<or> fr_change_kind row = ''changed'' then
        (case (fr_language row, fr_content_id row) of
           (Some language, Some content_id) \<Rightarrow>
             Some (FileUpsert \<lparr>cf_path = fr_path row, cf_language = language, cf_content_id = content_id\<rparr>)
         | _ \<Rightarrow> None)
      else if fr_change_kind row = ''removed'' then Some (FileRemoved (fr_path row)) else None)"

definition merge_file_changes :: "file_change_row list \<Rightarrow> merged_file_change list" where
  "merge_file_changes rows = bt_values (foldl (\<lambda>merged row.
     case file_change_of row of None \<Rightarrow> merged | Some c \<Rightarrow> bt_insert (fr_path row) c merged) [] rows)"

definition artefact_change_of :: "artefact_change_row \<Rightarrow> merged_artefact_change option" where
  "artefact_change_of row =
     (if cr_change_kind row = ''added'' \<or> cr_change_kind row = ''changed'' then
        Some (ArtefactUpsert \<lparr>ca_artefact_id = cr_artefact_id row, ca_symbol_id = cr_symbol_id row, ca_path = cr_path row,
          ca_canonical_kind = cr_canonical_kind row, ca_name = cr_name row\<rparr>)
      else if cr_change_kind row = ''removed'' then
        Some (ArtefactRemoved \<lparr>ra_artefact_id = cr_artefact_id row, ra_symbol_id = cr_symbol_id row, ra_path = cr_path row\<rparr>)
      else None)"

definition merge_artefact_changes :: "artefact_change_row list \<Rightarrow> merged_artefact_change list" where
  "merge_artefact_changes rows = bt_values (foldl (\<lambda>merged row.
     case artefact_change_of row of None \<Rightarrow> merged | Some c \<Rightarrow> bt_insert (cr_symbol_id row) c merged) [] rows)"

fun partition_file_changes :: "merged_file_change list \<Rightarrow> changed_file list \<times> string list" where
  "partition_file_changes [] = ([], [])"
| "partition_file_changes (FileUpsert f # cs) = (case partition_file_changes cs of (us, rs) \<Rightarrow> (f # us, rs))"
| "partition_file_changes (FileRemoved p # cs) = (case partition_file_changes cs of (us, rs) \<Rightarrow> (us, p # rs))"

fun partition_artefact_changes :: "merged_artefact_change list \<Rightarrow> changed_artefact list \<times> removed_artefact list" where
  "partition_artefact_changes [] = ([], [])"
| "partition_artefact_changes (ArtefactUpsert a # cs) = (case partition_artefact_changes cs of (us, rs) \<Rightarrow> (a # us, rs))"
| "partition_artefact_changes (ArtefactRemoved a # cs) = (case partition_artefact_changes cs of (us, rs) \<Rightarrow> (us, a # rs))"

definition determine_reconcile_mode_with_generation_policy :: "nat option \<Rightarrow> bool \<Rightarrow> nat \<Rightarrow> nat \<Rightarrow> nat \<Rightarrow> reconcile_mode" where
  "determine_reconcile_mode_with_generation_policy last_applied requests_full latest files artefacts =
     (if last_applied = None \<or> requests_full
         \<or> latest - unwrap_or last_applied 0 > FULL_RECONCILE_GENERATION_SPAN_THRESHOLD
         \<or> files > FULL_RECONCILE_FILE_CHANGE_THRESHOLD \<or> artefacts > FULL_RECONCILE_ARTEFACT_CHANGE_THRESHOLD
      then FullReconcile else MergedDelta)"

definition architecture_graph_same_session_follow_up_delta_enabled :: "event_run \<Rightarrow> nat option \<Rightarrow> bool \<Rightarrow> bool" where
  "architecture_graph_same_session_follow_up_delta_enabled run last_applied requested_full \<longleftrightarrow>
     \<not> (requested_full \<or> er_init_session_id run = None \<or> last_applied = None) \<and>
     er_capability_id run = ''architecture_graph'' \<and>
     (er_consumer_id run = ''architecture_graph.snapshot'' \<or> er_consumer_id run = ''architecture_graph.roles.current_state'')"

fun reconcile_mode_label :: "reconcile_mode \<Rightarrow> string" where
  "reconcile_mode_label MergedDelta = ''merged_delta''"
| "reconcile_mode_label FullReconcile = ''full_reconcile''"

text \<open>The changes a request carries: a mode, the affected paths, and the upserts and removals.\<close>

record planned_changes =
  pc_mode :: reconcile_mode
  pc_affected_paths :: "string list"
  pc_files :: "changed_file list \<times> string list"
  pc_artefacts :: "changed_artefact list \<times> removed_artefact list"

definition plan_changes :: "event_db \<Rightarrow> string \<Rightarrow> nat option \<Rightarrow> bool \<Rightarrow> bool \<Rightarrow> bool \<Rightarrow> nat \<Rightarrow> nat \<Rightarrow> planned_changes" where
  "plan_changes db repo last_applied forced_full suppress requests_full from_seq latest =
     (let paths_only = (\<lambda>mode. \<lparr>pc_mode = mode, pc_affected_paths = load_distinct_changed_paths repo from_seq latest db,
            pc_files = ([], []), pc_artefacts = ([], [])\<rparr>)
      in if forced_full then paths_only FullReconcile
         else if count_file_changes repo from_seq latest db > FULL_RECONCILE_FILE_CHANGE_THRESHOLD
             \<or> count_artefact_changes repo from_seq latest db > FULL_RECONCILE_ARTEFACT_CHANGE_THRESHOLD
         then paths_only (if suppress then MergedDelta else FullReconcile)
         else
           let files = merge_file_changes (load_file_changes repo from_seq latest db);
               artefacts = merge_artefact_changes (load_artefact_changes repo from_seq latest db)
           in \<lparr>pc_mode = determine_reconcile_mode_with_generation_policy last_applied requests_full latest
                 (length files) (length artefacts),
               pc_affected_paths = [], pc_files = partition_file_changes files,
               pc_artefacts = partition_artefact_changes artefacts\<rparr>)"

text \<open>Where the run starts: a forced run at the bounds it was queued with, any other at the cursor.\<close>

definition plan_from :: "event_run \<Rightarrow> nat option \<Rightarrow> nat \<Rightarrow> nat" where
  "plan_from run last_applied latest =
     (if er_reconcile_mode run = ''full_reconcile'' then min (er_from_generation_seq run) (latest - 1)
      else unwrap_or last_applied 0)"

definition changes_for_run :: "event_db \<Rightarrow> event_run \<Rightarrow> nat option \<Rightarrow> nat \<Rightarrow> generation_row list \<Rightarrow> planned_changes" where
  "changes_for_run db run last_applied latest generations =
     (let requested_full = (er_reconcile_mode run = ''full_reconcile'');
          suppress = architecture_graph_same_session_follow_up_delta_enabled run last_applied requested_full;
          requests_full = (\<not> suppress \<and> list_ex gr_requires_full_reconcile generations);
          forced_full = (requested_full \<or> last_applied = None \<or> requests_full
            \<or> latest - unwrap_or last_applied 0 > FULL_RECONCILE_GENERATION_SPAN_THRESHOLD)
      in plan_changes db (er_repo_id run) last_applied forced_full suppress requests_full
           (plan_from run last_applied latest + 1) latest)"

definition planned_run :: "event_run \<Rightarrow> nat \<Rightarrow> nat \<Rightarrow> planned_changes \<Rightarrow> event_run" where
  "planned_run run from_exclusive latest changes = run\<lparr>er_from_generation_seq := from_exclusive,
     er_to_generation_seq := latest, er_reconcile_mode := reconcile_mode_label (pc_mode changes)\<rparr>"

definition planned_request :: "event_run \<Rightarrow> string \<Rightarrow> nat \<Rightarrow> generation_row \<Rightarrow> planned_changes \<Rightarrow> consumer_request" where
  "planned_request run root from_exclusive newest changes =
     \<lparr>rq_run_id = Some (er_run_id run), rq_repo_id = er_repo_id run, rq_repo_root = root,
      rq_active_branch = gr_active_branch newest, rq_head_commit_sha = gr_head_commit_sha newest,
      rq_from_generation_seq_exclusive = from_exclusive, rq_to_generation_seq_inclusive = gr_generation_seq newest,
      rq_reconcile_mode = pc_mode changes, rq_file_upserts = fst (pc_files changes),
      rq_file_removals = snd (pc_files changes), rq_affected_paths = pc_affected_paths changes,
      rq_artefact_upserts = fst (pc_artefacts changes), rq_artefact_removals = snd (pc_artefacts changes)\<rparr>"

definition build_execution_plan :: "nat \<Rightarrow> event_run \<Rightarrow> string \<Rightarrow> event_db
    \<Rightarrow> (string, event_db \<times> execution_plan option) result" where
  "build_execution_plan now run root db =
     (case load_consumer_cursor (er_repo_id run) (er_capability_id run) (er_consumer_id run) db of
        None \<Rightarrow> Inr (db, None)
      | Some last_applied \<Rightarrow>
     (case latest_generation_seq (er_repo_id run) db of
        None \<Rightarrow> Inr (db, None)
      | Some latest \<Rightarrow>
          let from_exclusive = plan_from run last_applied latest in
          if latest \<le> from_exclusive then Inr (db, None)
          else and_then (event_sql_i64 (from_exclusive + 1)) (\<lambda>_. and_then (event_sql_i64 latest) (\<lambda>_.
            let generations = load_generations (er_repo_id run) (from_exclusive + 1) latest db in
            if generations = [] then Inr (db, None)
            else
              let newest = last generations;
                  latest = gr_generation_seq newest;
                  changes = changes_for_run db run last_applied latest generations;
                  rec = planned_run run from_exclusive latest changes
              in and_then (event_sql_i64 from_exclusive) (\<lambda>_. and_then (event_sql_i64 now) (\<lambda>_.
                Inr (update_run (er_run_id run) (\<lambda>r. r\<lparr>er_from_generation_seq := from_exclusive,
                       er_to_generation_seq := latest, er_reconcile_mode := er_reconcile_mode rec,
                       er_updated_at_unix := now\<rparr>) db,
                  Some \<lparr>xp_record = rec, xp_repo_root = root,
                    xp_request = planned_request run root from_exclusive newest changes\<rparr>)))))))"

text \<open>The error message names the requested range.\<close>

definition validate_consumer_result :: "consumer_request \<Rightarrow> nat \<Rightarrow> (string, unit) result" where
  "validate_consumer_result request applied =
     (if applied < rq_from_generation_seq_exclusive request + 1 \<or> applied > rq_to_generation_seq_inclusive request
      then Inl (''consumer applied generation '' @ dec applied @ '' outside requested range ''
        @ dec (rq_from_generation_seq_exclusive request + 1) @ ''..='' @ dec (rq_to_generation_seq_inclusive request))
      else Inr ())"

section \<open>Claiming, finishing and recording (coordinator/)\<close>

definition MAX_RUN_ATTEMPTS :: nat where "MAX_RUN_ATTEMPTS = 5"
definition MAX_CONCURRENT_CURRENT_STATE_RUNS :: nat where "MAX_CONCURRENT_CURRENT_STATE_RUNS = 1"

datatype run_completion = NoopCompleted event_run | RunCompleted event_run nat
  | RetryableFailure event_run string | RunFailed event_run string

fun completion_run :: "run_completion \<Rightarrow> event_run" where
  "completion_run (NoopCompleted r) = r"
| "completion_run (RunCompleted r _) = r"
| "completion_run (RetryableFailure r _) = r"
| "completion_run (RunFailed r _) = r"

definition retry_backoff_seconds :: "nat \<Rightarrow> nat" where
  "retry_backoff_seconds attempts =
     (if attempts = 0 \<or> attempts = 1 then 0 else if attempts = 2 then 5 else if attempts = 3 then 15
      else if attempts = 4 then 30 else 60)"

definition terminal_or_retry :: "event_run \<Rightarrow> string \<Rightarrow> run_completion" where
  "terminal_or_retry run err = (if er_attempts run \<ge> MAX_RUN_ATTEMPTS then RunFailed run err else RetryableFailure run err)"

fun claim_lanes :: "nat \<Rightarrow> nat \<Rightarrow> string list \<Rightarrow> stored_run list \<Rightarrow> stored_run list" where
  "claim_lanes now slots lanes [] = []"
| "claim_lanes now slots lanes (s # ss) =
     (if er_lane_key (sn_record s) \<in> set lanes then claim_lanes now slots lanes ss
      else if er_updated_at_unix (sn_record s) + retry_backoff_seconds (er_attempts (sn_record s)) > now
      then claim_lanes now slots lanes ss
      else if slots \<le> 1 then [s]
      else s # claim_lanes now (slots - 1) (er_lane_key (sn_record s) # lanes) ss)"

definition load_claimable_runs :: "nat \<Rightarrow> event_db \<Rightarrow> stored_run list" where
  "load_claimable_runs now db =
     (let candidates = sort_key (er_submitted_at_unix \<circ> sn_record) (load_runs (\<lambda>r. er_status r = EvQueued) db);
          running = load_runs (\<lambda>r. er_status r = EvRunning) db;
          slots = MAX_CONCURRENT_CURRENT_STATE_RUNS - length running
      in if slots = 0 then [] else claim_lanes now slots (map (er_lane_key \<circ> sn_record) running) candidates)"

definition claimed_run :: "nat \<Rightarrow> event_run \<Rightarrow> event_run" where
  "claimed_run now r = r\<lparr>er_status := EvRunning, er_attempts := er_attempts r + 1, er_started_at_unix := Some now,
     er_updated_at_unix := now\<rparr>"

definition launch_runnable_runs :: "nat \<Rightarrow> event_db \<Rightarrow> (string, event_db \<times> stored_run list) result" where
  "launch_runnable_runs now db =
     fold_result (\<lambda>s (db, claimed). and_then (event_sql_i64 now) (\<lambda>_.
         Inr (update_run (er_run_id (sn_record s)) (\<lambda>r. r\<lparr>er_status := EvRunning,
                er_attempts := er_attempts (sn_record s) + 1, er_started_at_unix := Some now, er_updated_at_unix := now\<rparr>) db,
              claimed @ [s\<lparr>sn_record := claimed_run now (sn_record s)\<rparr>])))
       (load_claimable_runs now db) (db, [])"

definition update_mailbox :: "event_run \<Rightarrow> (mailbox_row \<Rightarrow> mailbox_row) \<Rightarrow> event_db \<Rightarrow> event_db" where
  "update_mailbox run f db = db\<lparr>db_mailboxes :=
     map (\<lambda>m. if is_mailbox (er_repo_id run) (er_capability_id run) (er_consumer_id run) m then f m else m) (db_mailboxes db)\<rparr>"

definition apply_completion :: "nat \<Rightarrow> run_completion \<Rightarrow> event_db \<Rightarrow> (string, event_db) result" where
  "apply_completion now completion db =
     and_then (event_sql_i64 now) (\<lambda>now.
     and_then (case completion of
        NoopCompleted run \<Rightarrow>
          and_then (event_sql_i64 (er_from_generation_seq run)) (\<lambda>_. and_then (event_sql_i64 (er_to_generation_seq run)) (\<lambda>_.
            Inr (update_run (er_run_id run) (\<lambda>r. r\<lparr>er_from_generation_seq := er_from_generation_seq run,
                er_to_generation_seq := er_to_generation_seq run, er_reconcile_mode := er_reconcile_mode run,
                er_status := EvCompleted, er_updated_at_unix := now, er_completed_at_unix := Some now, er_error := None\<rparr>)
              (update_mailbox run (\<lambda>m. m\<lparr>mb_last_error := None, mb_updated_at_unix := now\<rparr>) db))))
      | RunCompleted run applied \<Rightarrow>
          and_then (event_sql_i64 applied) (\<lambda>_. and_then (event_sql_i64 (er_from_generation_seq run)) (\<lambda>_.
          and_then (event_sql_i64 (er_to_generation_seq run)) (\<lambda>_.
            Inr (update_run (er_run_id run) (\<lambda>r. r\<lparr>er_from_generation_seq := er_from_generation_seq run,
                er_to_generation_seq := er_to_generation_seq run, er_reconcile_mode := er_reconcile_mode run,
                er_status := EvCompleted, er_updated_at_unix := now, er_completed_at_unix := Some now, er_error := None\<rparr>)
              (update_mailbox run (\<lambda>m. m\<lparr>mb_last_applied_generation_seq := Some applied, mb_last_error := None,
                mb_updated_at_unix := now\<rparr>) db)))))
      | RetryableFailure run err \<Rightarrow>
          Inr (update_run (er_run_id run) (\<lambda>r. r\<lparr>er_status := EvQueued, er_started_at_unix := None,
              er_updated_at_unix := now, er_completed_at_unix := None, er_error := Some err\<rparr>)
            (update_mailbox run (\<lambda>m. m\<lparr>mb_last_error := Some err, mb_updated_at_unix := now\<rparr>) db))
      | RunFailed run err \<Rightarrow>
          Inr (update_run (er_run_id run) (\<lambda>r. r\<lparr>er_status := EvFailed, er_updated_at_unix := now,
              er_completed_at_unix := Some now, er_error := Some err\<rparr>)
            (update_mailbox run (\<lambda>m. m\<lparr>mb_last_error := Some err, mb_updated_at_unix := now\<rparr>) db)))
      (\<lambda>db. Inr (prune_terminal_runs db)))"

definition recover_running_runs :: "nat \<Rightarrow> event_db \<Rightarrow> (string, event_db) result" where
  "recover_running_runs now db =
     and_then (event_sql_i64 now) (\<lambda>now. Inr (db\<lparr>db_runs := map (\<lambda>s. if er_status (sn_record s) = EvRunning
       then s\<lparr>sn_record := (sn_record s)\<lparr>er_status := EvQueued, er_started_at_unix := None, er_updated_at_unix := now\<rparr>\<rparr>
       else s) (db_runs db)\<rparr>))"

definition clear_queued_runs_for_repo :: "string \<Rightarrow> event_db \<Rightarrow> event_db \<times> nat" where
  "clear_queued_runs_for_repo repo db =
     (let gone = (\<lambda>s. er_repo_id (sn_record s) = repo \<and> er_status (sn_record s) = EvQueued)
      in (db\<lparr>db_runs := filter (\<lambda>s. \<not> gone s) (db_runs db)\<rparr>, length (filter gone (db_runs db))))"

definition count_runs_with_status :: "event_run_status \<Rightarrow> event_db \<Rightarrow> nat" where
  "count_runs_with_status st db = length (filter (\<lambda>s. er_status (sn_record s) = st) (db_runs db))"

definition load_current_repo_run :: "string \<Rightarrow> event_db \<Rightarrow> event_run option" where
  "load_current_repo_run repo db =
     (let oldest = (\<lambda>st. case sort_key (er_submitted_at_unix \<circ> sn_record)
            (load_runs (\<lambda>r. er_repo_id r = repo \<and> er_status r = st) db) of [] \<Rightarrow> None | s # _ \<Rightarrow> Some (sn_record s))
      in opt_or (oldest EvRunning) (oldest EvQueued))"

text \<open>What a sync hands over: its task, its session and its differences.\<close>

record sync_generation_input =
  gi_file_diff :: sync_file_diff
  gi_artefact_diff :: sync_artefact_diff
  gi_source_task_id :: "string option"
  gi_init_session_id :: "string option"

text \<open>The run of each registered consumer, in the order of the registrations; \<open>uuids\<close> has an identifier for each.\<close>

definition schedule_consumer :: "string \<Rightarrow> string \<Rightarrow> sync_generation_input \<Rightarrow> nat \<Rightarrow> mailbox_registration \<times> string
    \<Rightarrow> event_db \<times> event_run list \<Rightarrow> (string, event_db \<times> event_run list) result" where
  "schedule_consumer repo root input now = (\<lambda>(reg, uuid) (db, runs).
     case mr_handler reg of
       Ingester _ \<Rightarrow> Inr (db, runs)
     | CurrentStateConsumer handler \<Rightarrow>
         and_then (upsert_consumer_row repo (mr_capability_id reg) (mr_mailbox_name reg) now db) (\<lambda>db.
         and_then (ensure_consumer_run \<lparr>cq_repo_id = repo, cq_repo_root = root, cq_capability_id = mr_capability_id reg,
             cq_mailbox_name = mr_mailbox_name reg, cq_handler_id = handler,
             cq_init_session_id = (if mr_init_policy reg = BlocksInitCompletion then gi_init_session_id input else None),
             cq_now = now\<rparr> uuid db)
           (\<lambda>(db, run). Inr (db, runs @ (case run of None \<Rightarrow> [] | Some s \<Rightarrow> [sn_record s])))))"

definition record_sync_generation :: "(mailbox_registration \<times> string) list \<Rightarrow> string \<Rightarrow> string \<Rightarrow> sync_summary
    \<Rightarrow> sync_generation_input \<Rightarrow> nat \<Rightarrow> event_db \<Rightarrow> (string, event_db \<times> event_run list) result" where
  "record_sync_generation regs repo root summary input now db =
     (if \<not> ss_success summary \<or> ss_mode summary = ''validate'' then Inr (db, [])
      else
        let seq = next_generation_seq repo db in
        and_then (event_sql_i64 seq) (\<lambda>_. and_then (event_sql_i64 now) (\<lambda>_.
          let db = db\<lparr>db_generations := db_generations db @ [\<lparr>gr_repo_id = repo, gr_generation_seq = seq,
                gr_source_task_id = gi_source_task_id input, gr_sync_mode = ss_mode summary,
                gr_active_branch = ss_active_branch summary, gr_head_commit_sha = ss_head_commit_sha summary,
                gr_requires_full_reconcile = (ss_mode summary = ''full'' \<or> ss_mode summary = ''repair''),
                gr_created_at_unix = now\<rparr>]\<rparr>
          in and_then (insert_file_changes repo seq (gi_file_diff input) db) (\<lambda>db.
             and_then (insert_artefact_changes repo seq (gi_artefact_diff input) db) (\<lambda>db.
             and_then (fold_result (schedule_consumer repo root input now)
                 (filter (\<lambda>(reg, _). mr_policy reg = CursorMailbox) regs) (db, []))
               (\<lambda>(db, runs). Inr (prune_terminal_runs db, runs)))))))"

section \<open>The coordinator\<close>

text \<open>Runs are in flight from their claim to the commit of their completion.\<close>

datatype flight = Claimed stored_run | Executing execution_plan | Finished run_completion

fun flight_run :: "flight \<Rightarrow> event_run" where
  "flight_run (Claimed s) = sn_record s"
| "flight_run (Executing x) = xp_record x"
| "flight_run (Finished c) = completion_run c"

record coordinator =
  co_db :: event_db
  co_flights :: "flight list"

text \<open>The outcome of a claimed run after planning, and of an executing run. \<open>Inl\<close> is an error of the set-up, of the
  consumer or a panic.\<close>

definition plan_flight :: "nat \<Rightarrow> stored_run \<Rightarrow> event_db \<Rightarrow> event_db \<times> flight" where
  "plan_flight now s db =
     (case build_execution_plan now (sn_record s) (sn_repo_root s) db of
        Inl e \<Rightarrow> (db, Finished (terminal_or_retry (sn_record s) e))
      | Inr (db', None) \<Rightarrow> (db', Finished (NoopCompleted (sn_record s)))
      | Inr (db', Some x) \<Rightarrow> (db', Executing x))"

definition finish_flight :: "execution_plan \<Rightarrow> (string, nat) result \<Rightarrow> run_completion" where
  "finish_flight x outcome =
     (case outcome of
        Inl e \<Rightarrow> terminal_or_retry (xp_record x) e
      | Inr applied \<Rightarrow>
          (case validate_consumer_result (xp_request x) applied of
             Inl e \<Rightarrow> terminal_or_retry (xp_record x) e
           | Inr _ \<Rightarrow> RunCompleted (xp_record x) applied))"

text \<open>One step: a sync is recorded, a run is forced, the queue of a repository is cleared, the worker launches runs,
  a run in flight is planned, executed or its completion committed, or the daemon restarts. A transaction that fails
  changes nothing; a completion that cannot be committed is lost.\<close>

inductive coordinator_step :: "coordinator \<Rightarrow> coordinator \<Rightarrow> bool" where
  record_generation: "record_sync_generation regs repo root summary input now (co_db c) = Inr (db', runs) \<Longrightarrow>
    coordinator_step c (c\<lparr>co_db := db'\<rparr>)"
| force_run: "force_consumer_run cq uuid (co_db c) = Inr (db', run) \<Longrightarrow> coordinator_step c (c\<lparr>co_db := db'\<rparr>)"
| clear_queued: "coordinator_step c (c\<lparr>co_db := fst (clear_queued_runs_for_repo repo (co_db c))\<rparr>)"
| launch: "launch_runnable_runs now (co_db c) = Inr (db', claimed) \<Longrightarrow>
    coordinator_step c (c\<lparr>co_db := db', co_flights := co_flights c @ map Claimed claimed\<rparr>)"
| plan: "k < length (co_flights c) \<Longrightarrow> co_flights c ! k = Claimed s \<Longrightarrow> plan_flight now s (co_db c) = (db', f) \<Longrightarrow>
    coordinator_step c (c\<lparr>co_db := db', co_flights := (co_flights c)[k := f]\<rparr>)"
| finish: "k < length (co_flights c) \<Longrightarrow> co_flights c ! k = Executing x \<Longrightarrow>
    coordinator_step c (c\<lparr>co_flights := (co_flights c)[k := Finished (finish_flight x outcome)]\<rparr>)"
| complete: "k < length (co_flights c) \<Longrightarrow> co_flights c ! k = Finished completion \<Longrightarrow>
    apply_completion now completion (co_db c) = Inr db' \<Longrightarrow>
    coordinator_step c (c\<lparr>co_db := db', co_flights := take k (co_flights c) @ drop (Suc k) (co_flights c)\<rparr>)"
| complete_lost: "k < length (co_flights c) \<Longrightarrow> co_flights c ! k = Finished completion \<Longrightarrow>
    apply_completion now completion (co_db c) = Inl e \<Longrightarrow>
    coordinator_step c (c\<lparr>co_flights := take k (co_flights c) @ drop (Suc k) (co_flights c)\<rparr>)"
| restart: "recover_running_runs now (co_db c) = Inr db' \<Longrightarrow> coordinator_step c \<lparr>co_db = db', co_flights = []\<rparr>"

inductive_cases coordinator_stepE: "coordinator_step c c'"

definition empty_coordinator :: coordinator where
  "empty_coordinator = \<lparr>co_db = \<lparr>db_generations = [], db_file_changes = [], db_artefact_changes = [], db_mailboxes = [],
     db_runs = []\<rparr>, co_flights = []\<rparr>"

definition coordinator_reachable :: "coordinator \<Rightarrow> bool" where
  "coordinator_reachable c \<longleftrightarrow> coordinator_step\<^sup>*\<^sup>* empty_coordinator c"

end
