(* ===== verification/CapabilityDelta.thy ===== *)
theory CapabilityDelta
  imports CapabilityRuns
begin

text \<open>
  The changes a consumer gets: merging the log of changes is folding it, a plan's bounds come from the cursor and the
  latest generation, and a merged delta has the effect of replaying the recorded changes.
\<close>

section \<open>Merging a log of changes\<close>

text \<open>Rows carry a change of one key or none; a change sets the value of its key or removes it.\<close>

locale change_log =
  fixes key :: "'row \<Rightarrow> 'k::linorder"
    and change :: "'row \<Rightarrow> 'c option"
    and key_of :: "'c \<Rightarrow> 'k"
    and val_of :: "'c \<Rightarrow> 'v option"
  assumes change_key: "change row = Some c \<Longrightarrow> key_of c = key row"
begin

definition merged :: "'row list \<Rightarrow> ('k, 'c) btree" where
  "merged rows = foldl (\<lambda>m row. case change row of None \<Rightarrow> m | Some c \<Rightarrow> bt_insert (key row) c m) [] rows"

definition effect :: "'c \<Rightarrow> ('k \<Rightarrow> 'v option) \<Rightarrow> 'k \<Rightarrow> 'v option" where
  "effect c view = view(key_of c := val_of c)"

definition replay :: "'row list \<Rightarrow> ('k \<Rightarrow> 'v option) \<Rightarrow> 'k \<Rightarrow> 'v option" where
  "replay rows view = foldl (\<lambda>v row. case change row of None \<Rightarrow> v | Some c \<Rightarrow> effect c v) view rows"

definition consume :: "'c list \<Rightarrow> ('k \<Rightarrow> 'v option) \<Rightarrow> 'k \<Rightarrow> 'v option" where
  "consume cs view = foldl (\<lambda>v c. effect c v) view cs"

lemma merged_snoc: "merged (rows @ [row]) = (case change row of None \<Rightarrow> merged rows | Some c \<Rightarrow> bt_insert (key row) c (merged rows))"
  unfolding merged_def by simp

lemma merged_ok: "bt_ok (merged rows)"
  by (induction rows rule: rev_induct) (simp_all add: merged_snoc bt_ok_insert split: option.split, simp add: merged_def)

lemma merged_key: "bt_get (merged rows) k = Some c \<Longrightarrow> key_of c = k"
proof (induction rows rule: rev_induct)
  case (snoc row rows)
  then show ?case using change_key [of row] by (auto simp: merged_snoc bt_get_insert split: option.splits if_splits)
qed (simp add: merged_def)

lemma merged_keys: "map key_of (bt_values (merged rows)) = bt_keys (merged rows)"
  using merged_key bt_in_get [OF merged_ok] by (fastforce simp: bt_values_def bt_keys_def)

lemma merged_distinct: "distinct (map key_of (bt_values (merged rows)))"
  unfolding merged_keys using bt_ok_distinct [OF merged_ok, of rows] by (simp add: bt_keys_def)

text \<open>Consuming changes of distinct keys looks each key up, in whatever order they come.\<close>

lemma consume_distinct:
  "distinct (map key_of cs) \<Longrightarrow> consume cs view k = (case map_of (map (\<lambda>c. (key_of c, c)) cs) k of
     Some c \<Rightarrow> val_of c | None \<Rightarrow> view k)"
proof (induction cs arbitrary: view)
  case (Cons c cs)
  have "map_of (map (\<lambda>c. (key_of c, c)) cs) (key_of c) = None" using Cons.prems
    by (simp add: map_of_eq_None_iff comp_def image_image)
  then show ?case using Cons by (simp add: consume_def effect_def split: option.split)
qed (simp add: consume_def)

lemma consume_perm:
  assumes "mset cs = mset cs'" "distinct (map key_of cs)"
  shows "consume cs view = consume cs' view"
proof
  fix k
  have dist: "distinct (map key_of cs')" using assms by (metis mset_eq_imp_distinct_iff mset_map)
  have "map_of (map (\<lambda>c. (key_of c, c)) cs) = map_of (map (\<lambda>c. (key_of c, c)) cs')"
    using assms(2) dist mset_eq_setD [OF assms(1)] by (intro map_of_inject_set [THEN iffD2]) (simp_all add: comp_def)
  then show "consume cs view k = consume cs' view k" using assms(2) dist by (simp add: consume_distinct)
qed

lemma replay_lookup: "replay rows view k = (case bt_get (merged rows) k of Some c \<Rightarrow> val_of c | None \<Rightarrow> view k)"
proof (induction rows rule: rev_induct)
  case (snoc row rows)
  then show ?case using change_key [of row]
    by (auto simp: replay_def merged_snoc effect_def bt_get_insert split: option.split)
qed (simp add: replay_def merged_def)

lemma consume_merged: "consume (bt_values (merged rows)) view = replay rows view"
proof
  fix k
  have "map (\<lambda>c. (key_of c, c)) (bt_values (merged rows)) = merged rows"
    using merged_key bt_in_get [OF merged_ok, of _ _ rows] by (force simp: bt_values_def intro!: map_idI)
  then show "consume (bt_values (merged rows)) view k = replay rows view k"
    by (simp add: consume_distinct [OF merged_distinct] replay_lookup bt_get_map_of)
qed

end

text \<open>What a consumer knows of a file, and of an artefact.\<close>

fun file_key :: "merged_file_change \<Rightarrow> string" where
  "file_key (FileUpsert f) = cf_path f"
| "file_key (FileRemoved p) = p"

fun file_value :: "merged_file_change \<Rightarrow> changed_file option" where
  "file_value (FileUpsert f) = Some f"
| "file_value (FileRemoved p) = None"

fun artefact_key :: "merged_artefact_change \<Rightarrow> string" where
  "artefact_key (ArtefactUpsert a) = ca_symbol_id a"
| "artefact_key (ArtefactRemoved a) = ra_symbol_id a"

fun artefact_value :: "merged_artefact_change \<Rightarrow> changed_artefact option" where
  "artefact_value (ArtefactUpsert a) = Some a"
| "artefact_value (ArtefactRemoved a) = None"

interpretation files: change_log fr_path file_change_of file_key file_value
  by unfold_locales (auto simp: file_change_of_def split: if_splits option.splits)

interpretation artefacts: change_log cr_symbol_id artefact_change_of artefact_key artefact_value
  by unfold_locales (auto simp: artefact_change_of_def split: if_splits)

lemma merge_file_changes_merged: "merge_file_changes rows = bt_values (files.merged rows)"
  by (simp add: merge_file_changes_def files.merged_def)

lemma merge_artefact_changes_merged: "merge_artefact_changes rows = bt_values (artefacts.merged rows)"
  by (simp add: merge_artefact_changes_def artefacts.merged_def)

lemma partition_files: "mset cs = mset (map FileUpsert (fst (partition_file_changes cs)) @ map FileRemoved (snd (partition_file_changes cs)))"
  by (induction cs rule: partition_file_changes.induct) (auto split: prod.splits)

lemma partition_artefacts:
  "mset cs = mset (map ArtefactUpsert (fst (partition_artefact_changes cs)) @ map ArtefactRemoved (snd (partition_artefact_changes cs)))"
  by (induction cs rule: partition_artefact_changes.induct) (auto split: prod.splits)

section \<open>The plan\<close>

lemma latest_generation_seq_Some:
  assumes "latest_generation_seq repo db = Some latest"
  shows "latest \<in> set (repo_generations repo db)" "\<forall>seq \<in> set (repo_generations repo db). seq \<le> latest"
proof -
  have seqs: "repo_generations repo db \<noteq> []" "latest = Max (set (repo_generations repo db))"
    using assms by (auto simp: latest_generation_seq_def split: list.splits)
  then show "latest \<in> set (repo_generations repo db)" "\<forall>seq \<in> set (repo_generations repo db). seq \<le> latest"
    using Max_in [of "set (repo_generations repo db)"] by auto
qed

lemma sorted_last: "sorted (map f xs) \<Longrightarrow> x \<in> set xs \<Longrightarrow> f x \<le> f (last xs)"
  by (induction xs) auto

lemma last_generation:
  assumes "latest_generation_seq repo db = Some latest" "from_seq < latest"
  shows "load_generations repo (Suc from_seq) latest db \<noteq> []"
    "gr_generation_seq (last (load_generations repo (Suc from_seq) latest db)) = latest"
proof -
  let ?gs = "load_generations repo (Suc from_seq) latest db"
  have "latest \<in> set (repo_generations repo db)" using latest_generation_seq_Some(1) [OF assms(1)] .
  then obtain g where g: "g \<in> set ?gs" "gr_generation_seq g = latest"
    using assms(2) by (auto simp: repo_generations_def load_generations_def rows_in_range_def)
  then show ne: "?gs \<noteq> []" by auto
  have "sorted (map gr_generation_seq ?gs)" by (simp add: load_generations_def rows_in_range_def)
  then have "latest \<le> gr_generation_seq (last ?gs)" using sorted_last g by metis
  moreover have "last ?gs \<in> set ?gs" using ne by simp
  then have "gr_generation_seq (last ?gs) \<le> latest" by (simp add: load_generations_def rows_in_range_def)
  ultimately show "gr_generation_seq (last ?gs) = latest" by simp
qed

text \<open>What a successful planning has established.\<close>

lemma build_plan_Some:
  assumes "build_execution_plan now run root db = Inr (db', Some x)"
  obtains last_applied latest newest changes where
    "load_consumer_cursor (er_repo_id run) (er_capability_id run) (er_consumer_id run) db = Some last_applied"
    "latest_generation_seq (er_repo_id run) db = Some latest" "plan_from run last_applied latest < latest"
    "gr_generation_seq newest = latest"
    "changes = changes_for_run db run last_applied latest
      (load_generations (er_repo_id run) (Suc (plan_from run last_applied latest)) latest db)"
    "xp_record x = planned_run run (plan_from run last_applied latest) latest changes"
    "xp_request x = planned_request run root (plan_from run last_applied latest) newest changes"
    "db' = update_run (er_run_id run) (\<lambda>r. r\<lparr>er_from_generation_seq := plan_from run last_applied latest,
       er_to_generation_seq := latest, er_reconcile_mode := reconcile_mode_label (pc_mode changes),
       er_updated_at_unix := now\<rparr>) db"
proof -
  obtain last_applied where cursor: "load_consumer_cursor (er_repo_id run) (er_capability_id run) (er_consumer_id run) db = Some last_applied"
    using assms by (cases "load_consumer_cursor (er_repo_id run) (er_capability_id run) (er_consumer_id run) db")
      (simp_all add: build_execution_plan_def)
  obtain latest where latest: "latest_generation_seq (er_repo_id run) db = Some latest"
    using assms cursor by (cases "latest_generation_seq (er_repo_id run) db") (simp_all add: build_execution_plan_def)
  let ?from = "plan_from run last_applied latest"
  have lt: "?from < latest"
    using assms cursor latest by (cases "latest \<le> ?from") (simp_all add: build_execution_plan_def Let_def)
  note newest = last_generation [OF latest lt]
  let ?gs = "load_generations (er_repo_id run) (Suc ?from) latest db"
  let ?changes = "changes_for_run db run last_applied latest ?gs"
  have "\<not> latest \<le> ?from" using lt by simp
  note body = assms [unfolded build_execution_plan_def cursor latest option.case Let_def Suc_eq_plus1 [symmetric] newest(2)
      if_not_P [OF this] if_not_P [OF newest(1)] and_then_Inr_iff]
  have "db' = update_run (er_run_id run) (\<lambda>r. r\<lparr>er_from_generation_seq := ?from, er_to_generation_seq := latest,
      er_reconcile_mode := er_reconcile_mode (planned_run run ?from latest ?changes), er_updated_at_unix := now\<rparr>) db"
    "x = \<lparr>xp_record = planned_run run ?from latest ?changes, xp_repo_root = root,
      xp_request = planned_request run root ?from (last ?gs) ?changes\<rparr>"
    using body by blast+
  then show ?thesis
    using that [OF cursor latest lt newest(2) refl] by (simp add: planned_run_def)
qed

section \<open>A merged delta\<close>

type_synonym file_view = "string \<Rightarrow> changed_file option"
type_synonym artefact_view = "string \<Rightarrow> changed_artefact option"

text \<open>What the recorded changes do to a view of the files by path and of the artefacts by symbol, one row after
  another.\<close>

definition replay_file_row :: "file_view \<Rightarrow> file_change_row \<Rightarrow> file_view" where
  "replay_file_row view row =
     (if fr_change_kind row = ''removed'' then view(fr_path row := None)
      else (case (fr_language row, fr_content_id row) of
          (Some language, Some content_id) \<Rightarrow>
            if fr_change_kind row = ''added'' \<or> fr_change_kind row = ''changed''
            then view(fr_path row \<mapsto> \<lparr>cf_path = fr_path row, cf_language = language, cf_content_id = content_id\<rparr>) else view
        | _ \<Rightarrow> view))"

definition replay_artefact_row :: "artefact_view \<Rightarrow> artefact_change_row \<Rightarrow> artefact_view" where
  "replay_artefact_row view row =
     (if cr_change_kind row = ''removed'' then view(cr_symbol_id row := None)
      else if cr_change_kind row = ''added'' \<or> cr_change_kind row = ''changed''
      then view(cr_symbol_id row \<mapsto> \<lparr>ca_artefact_id = cr_artefact_id row, ca_symbol_id = cr_symbol_id row,
        ca_path = cr_path row, ca_canonical_kind = cr_canonical_kind row, ca_name = cr_name row\<rparr>)
      else view)"

text \<open>What a consumer does with a request: it takes the upserts and drops the removals.\<close>

definition deliver_files :: "consumer_request \<Rightarrow> file_view \<Rightarrow> file_view" where
  "deliver_files rq view = foldl (\<lambda>v p. v(p := None)) (foldl (\<lambda>v f. v(cf_path f \<mapsto> f)) view (rq_file_upserts rq)) (rq_file_removals rq)"

definition deliver_artefacts :: "consumer_request \<Rightarrow> artefact_view \<Rightarrow> artefact_view" where
  "deliver_artefacts rq view = foldl (\<lambda>v a. v(ra_symbol_id a := None))
     (foldl (\<lambda>v a. v(ca_symbol_id a \<mapsto> a)) view (rq_artefact_upserts rq)) (rq_artefact_removals rq)"

lemma replay_files: "files.replay rows view = foldl replay_file_row view rows"
  unfolding files.replay_def by (intro foldl_cong refl)
    (auto simp: replay_file_row_def file_change_of_def files.effect_def split: option.split)

lemma replay_artefacts: "artefacts.replay rows view = foldl replay_artefact_row view rows"
  unfolding artefacts.replay_def by (intro foldl_cong refl)
    (auto simp: replay_artefact_row_def artefact_change_of_def artefacts.effect_def split: option.split)

lemma deliver_consume:
  "deliver_files rq view = files.consume (map FileUpsert (rq_file_upserts rq) @ map FileRemoved (rq_file_removals rq)) view"
  "deliver_artefacts rq aview = artefacts.consume
     (map ArtefactUpsert (rq_artefact_upserts rq) @ map ArtefactRemoved (rq_artefact_removals rq)) aview"
  by (simp_all add: deliver_files_def deliver_artefacts_def files.consume_def artefacts.consume_def foldl_map
      files.effect_def artefacts.effect_def)

lemma deliver_merged_files:
  assumes "rq_file_upserts rq = fst (partition_file_changes (merge_file_changes rows))"
    and "rq_file_removals rq = snd (partition_file_changes (merge_file_changes rows))"
  shows "deliver_files rq view = foldl replay_file_row view rows"
proof -
  have "files.consume (merge_file_changes rows) view = deliver_files rq view"
    unfolding deliver_consume assms merge_file_changes_merged
    by (rule files.consume_perm [OF partition_files files.merged_distinct])
  then show ?thesis by (simp add: merge_file_changes_merged files.consume_merged replay_files)
qed

lemma deliver_merged_artefacts:
  assumes "rq_artefact_upserts rq = fst (partition_artefact_changes (merge_artefact_changes rows))"
    and "rq_artefact_removals rq = snd (partition_artefact_changes (merge_artefact_changes rows))"
  shows "deliver_artefacts rq view = foldl replay_artefact_row view rows"
proof -
  have "artefacts.consume (merge_artefact_changes rows) view = deliver_artefacts rq view"
    unfolding deliver_consume assms merge_artefact_changes_merged
    by (rule artefacts.consume_perm [OF partition_artefacts artefacts.merged_distinct])
  then show ?thesis by (simp add: merge_artefact_changes_merged artefacts.consume_merged replay_artefacts)
qed

text \<open>Requests with affected paths only carry no changes.\<close>

lemma plan_changes_delta:
  assumes "pc_mode (plan_changes db repo last_applied forced suppress requests from_seq latest) = MergedDelta"
    and "pc_affected_paths (plan_changes db repo last_applied forced suppress requests from_seq latest) = []"
  shows "\<not> forced \<and> pc_files (plan_changes db repo last_applied forced suppress requests from_seq latest) =
      partition_file_changes (merge_file_changes (load_file_changes repo from_seq latest db)) \<and>
    pc_artefacts (plan_changes db repo last_applied forced suppress requests from_seq latest) =
      partition_artefact_changes (merge_artefact_changes (load_artefact_changes repo from_seq latest db))"
proof -
  have many: "load_distinct_changed_paths repo from_seq latest db \<noteq> []"
    if "FULL_RECONCILE_FILE_CHANGE_THRESHOLD < count_file_changes repo from_seq latest db \<or>
      FULL_RECONCILE_ARTEFACT_CHANGE_THRESHOLD < count_artefact_changes repo from_seq latest db"
  proof -
    have "load_file_changes repo from_seq latest db \<noteq> [] \<or> load_artefact_changes repo from_seq latest db \<noteq> []"
      using that by (auto simp: count_file_changes_def count_artefact_changes_def)
    then have "set (load_distinct_changed_paths repo from_seq latest db) \<noteq> {}"
      by (auto simp: load_distinct_changed_paths_def)
    then show ?thesis by auto
  qed
  show ?thesis using assms many by (simp add: plan_changes_def Let_def split: if_splits)
qed

text \<open>C19: a merged delta is exact. The changes a consumer gets lead from the cursor to the latest generation, and
  delivering the merged upserts and removals has the same effect on its view of the files and artefacts as
  replaying every recorded change of those generations in order.\<close>

theorem merged_delta_replays_generations:
  assumes "build_execution_plan now run root db = Inr (db', Some x)"
    and "rq_reconcile_mode (xp_request x) = MergedDelta" "rq_affected_paths (xp_request x) = []"
  shows "load_consumer_cursor (er_repo_id run) (er_capability_id run) (er_consumer_id run) db
      = Some (Some (rq_from_generation_seq_exclusive (xp_request x))) \<and>
    latest_generation_seq (er_repo_id run) db = Some (rq_to_generation_seq_inclusive (xp_request x)) \<and>
    deliver_files (xp_request x) files_before = foldl replay_file_row files_before
      (load_file_changes (er_repo_id run) (rq_from_generation_seq_exclusive (xp_request x) + 1)
        (rq_to_generation_seq_inclusive (xp_request x)) db) \<and>
    deliver_artefacts (xp_request x) artefacts_before = foldl replay_artefact_row artefacts_before
      (load_artefact_changes (er_repo_id run) (rq_from_generation_seq_exclusive (xp_request x) + 1)
        (rq_to_generation_seq_inclusive (xp_request x)) db)"
proof -
  obtain last_applied latest newest changes where plan:
    "load_consumer_cursor (er_repo_id run) (er_capability_id run) (er_consumer_id run) db = Some last_applied"
    "latest_generation_seq (er_repo_id run) db = Some latest" "gr_generation_seq newest = latest"
    "changes = changes_for_run db run last_applied latest
      (load_generations (er_repo_id run) (Suc (plan_from run last_applied latest)) latest db)"
    "xp_request x = planned_request run root (plan_from run last_applied latest) newest changes"
    using assms(1) by (rule build_plan_Some)
  let ?from = "plan_from run last_applied latest"
  have request: "rq_from_generation_seq_exclusive (xp_request x) = ?from" "rq_to_generation_seq_inclusive (xp_request x) = latest"
    "rq_file_upserts (xp_request x) = fst (pc_files changes)" "rq_file_removals (xp_request x) = snd (pc_files changes)"
    "rq_artefact_upserts (xp_request x) = fst (pc_artefacts changes)" "rq_artefact_removals (xp_request x) = snd (pc_artefacts changes)"
    by (simp_all add: plan(3,5) planned_request_def)
  have delta: "pc_mode changes = MergedDelta" "pc_affected_paths changes = []"
    using assms(2,3) by (simp_all add: plan(5) planned_request_def)
  have "\<not> (er_reconcile_mode run = ''full_reconcile'' \<or> last_applied = None)"
    and changes: "pc_files changes = partition_file_changes (merge_file_changes (load_file_changes (er_repo_id run) (Suc ?from) latest db))"
      "pc_artefacts changes = partition_artefact_changes (merge_artefact_changes (load_artefact_changes (er_repo_id run) (Suc ?from) latest db))"
    using delta unfolding plan(4) changes_for_run_def Let_def by (auto dest!: plan_changes_delta)
  then have "last_applied = Some ?from" by (auto simp: plan_from_def)
  then show ?thesis
    using plan(1,2) deliver_merged_files [OF request(3,4) [unfolded changes]]
      deliver_merged_artefacts [OF request(5,6) [unfolded changes]]
    by (simp add: request(1,2))
qed

end
