(* ===== verification/CapabilityTables.thy ===== *)
theory CapabilityTables
  imports CapabilityDelta
begin

text \<open>
  The invariant of the capability event tables: run identifiers are unique, a mailbox has at most one active run, at
  most one run is running, and no cursor is beyond the latest generation. Every transaction but the completion of a
  run keeps it and moves no cursor.
\<close>

section \<open>The invariant of the tables\<close>

definition latest_of :: "string \<Rightarrow> event_db \<Rightarrow> nat" where
  "latest_of repo db = unwrap_or (latest_generation_seq repo db) 0"

type_synonym mailbox_key = "string \<times> string \<times> string"

definition run_key :: "event_run \<Rightarrow> mailbox_key" where
  "run_key r = (er_repo_id r, er_capability_id r, er_consumer_id r)"

text \<open>The cursor of a mailbox, 0 before anything was applied.\<close>

definition cursor_at :: "event_db \<Rightarrow> mailbox_key \<Rightarrow> nat" where
  "cursor_at db = (\<lambda>(repo, capability, mailbox).
     unwrap_or (Option.bind (load_consumer_cursor repo capability mailbox db) (\<lambda>c. c)) 0)"

definition run_active :: "event_run \<Rightarrow> bool" where
  "run_active r \<longleftrightarrow> er_status r = EvQueued \<or> er_status r = EvRunning"

definition run_full :: "event_run \<Rightarrow> bool" where
  "run_full r \<longleftrightarrow> er_reconcile_mode r = ''full_reconcile''"

definition run_bounded :: "event_db \<Rightarrow> event_run \<Rightarrow> bool" where
  "run_bounded db r \<longleftrightarrow> (run_active r \<and> run_full r \<longrightarrow> cursor_at db (run_key r) \<le> er_from_generation_seq r + 1)"

definition running_rows :: "event_db \<Rightarrow> stored_run list" where
  "running_rows db = filter (\<lambda>s. er_status (sn_record s) = EvRunning) (db_runs db)"

text \<open>At most one active run for each mailbox.\<close>

definition one_active :: "stored_run list \<Rightarrow> bool" where
  "one_active runs \<longleftrightarrow> (\<forall>s \<in> set runs. \<forall>t \<in> set runs. run_active (sn_record s) \<longrightarrow> run_active (sn_record t) \<longrightarrow>
     run_key (sn_record s) = run_key (sn_record t) \<longrightarrow> er_run_id (sn_record s) = er_run_id (sn_record t))"

lemma one_activeD: "one_active runs \<Longrightarrow> s \<in> set runs \<Longrightarrow> t \<in> set runs \<Longrightarrow> run_active (sn_record s) \<Longrightarrow> run_active (sn_record t) \<Longrightarrow>
    run_key (sn_record s) = run_key (sn_record t) \<Longrightarrow> er_run_id (sn_record s) = er_run_id (sn_record t)"
  unfolding one_active_def by blast

lemma one_active_filter: "one_active runs \<Longrightarrow> one_active (filter P runs)"
  by (simp add: one_active_def)

definition db_inv :: "event_db \<Rightarrow> bool" where
  "db_inv db \<longleftrightarrow> distinct (map (er_run_id \<circ> sn_record) (db_runs db)) \<and> one_active (db_runs db) \<and>
     length (running_rows db) \<le> 1 \<and>
     (\<forall>key. cursor_at db key \<le> latest_of (fst key) db) \<and>
     (\<forall>s \<in> set (db_runs db). run_bounded db (sn_record s))"

definition running_ids :: "event_db \<Rightarrow> (string \<times> mailbox_key) list" where
  "running_ids db = map (\<lambda>s. (er_run_id (sn_record s), run_key (sn_record s))) (running_rows db)"

text \<open>A transaction that moves no cursor and starts or ends no run.\<close>

definition still :: "event_db \<Rightarrow> event_db \<Rightarrow> bool" where
  "still db db' \<longleftrightarrow> cursor_at db' = cursor_at db \<and> running_ids db' = running_ids db \<and>
     (\<forall>repo. latest_of repo db \<le> latest_of repo db')"

lemma still_refl [simp]: "still db db"
  by (simp add: still_def)

lemma still_trans: "still db db' \<Longrightarrow> still db' db'' \<Longrightarrow> still db db''"
  by (auto simp: still_def intro: order_trans)

subsection \<open>Changes of the runs\<close>

lemma cursor_at_runs [simp]: "cursor_at (db\<lparr>db_runs := runs\<rparr>) = cursor_at db"
  "cursor_at (update_run rid f db) = cursor_at db"
  by (simp_all add: cursor_at_def load_consumer_cursor_def update_run_def fun_eq_iff split: prod.splits)

lemma latest_of_runs [simp]: "latest_of repo (db\<lparr>db_runs := runs\<rparr>) = latest_of repo db"
  "latest_of repo (update_run rid f db) = latest_of repo db"
  "latest_of repo (db\<lparr>db_mailboxes := mailboxes\<rparr>) = latest_of repo db"
  by (simp_all add: latest_of_def latest_generation_seq_def repo_generations_def update_run_def)

lemma db_runs_update: "db_runs (update_run rid f db) =
    map (\<lambda>s. if er_run_id (sn_record s) = rid then s\<lparr>sn_record := f (sn_record s)\<rparr> else s) (db_runs db)"
  by (simp add: update_run_def)

lemma filter_runs_inv: "db_inv db \<Longrightarrow> db_inv (db\<lparr>db_runs := filter P (db_runs db)\<rparr>)"
proof -
  assume inv: "db_inv db"
  have "length (filter (\<lambda>s. er_status (sn_record s) = EvRunning) (filter P (db_runs db))) \<le> length (running_rows db)"
  proof -
    have "filter (\<lambda>s. er_status (sn_record s) = EvRunning) (filter P (db_runs db)) = filter P (running_rows db)"
      by (simp add: running_rows_def conj_commute)
    then show ?thesis by simp
  qed
  then show ?thesis using inv by (auto simp: db_inv_def running_rows_def distinct_map_filter run_bounded_def one_active_filter)
qed

text \<open>An update of one run: it keeps its identity, does not come back to life, runs only if it ran before or
  nothing does, and starts close enough to its cursor.\<close>

lemma update_run_inv:
  assumes inv: "db_inv db"
    and same: "\<And>r. er_run_id (f r) = er_run_id r" "\<And>r. run_key (f r) = run_key r"
    and active: "\<And>s. s \<in> set (db_runs db) \<Longrightarrow> er_run_id (sn_record s) = rid \<Longrightarrow> run_active (f (sn_record s)) \<Longrightarrow> run_active (sn_record s)"
    and running: "running_rows db = [] \<or> (\<forall>s \<in> set (db_runs db). er_run_id (sn_record s) = rid \<longrightarrow>
        er_status (f (sn_record s)) = EvRunning \<longrightarrow> er_status (sn_record s) = EvRunning)"
    and bounded: "\<And>s. s \<in> set (db_runs db) \<Longrightarrow> er_run_id (sn_record s) = rid \<Longrightarrow> run_bounded db (f (sn_record s))"
  shows "db_inv (update_run rid f db)"
proof -
  define g where "g s = (if er_run_id (sn_record s) = rid then s\<lparr>sn_record := f (sn_record s)\<rparr> else s)" for s :: stored_run
  have runs: "db_runs (update_run rid f db) = map g (db_runs db)" by (simp add: db_runs_update g_def)
  have ids: "er_run_id (sn_record (g s)) = er_run_id (sn_record s)" "run_key (sn_record (g s)) = run_key (sn_record s)" for s
    using same by (simp_all add: g_def)
  have dist: "distinct (map (er_run_id \<circ> sn_record) (map g (db_runs db)))"
    using inv ids by (simp add: db_inv_def comp_def)
  have act: "run_active (sn_record (g s)) \<Longrightarrow> run_active (sn_record s)" if "s \<in> set (db_runs db)" for s
    using active [OF that] by (auto simp: g_def split: if_splits)
  have one: "length (filter (\<lambda>s. er_status (sn_record s) = EvRunning) (map g (db_runs db))) \<le> 1"
  proof (cases "running_rows db = []")
    case True
    have all: "er_run_id (sn_record t) = rid" if "t \<in> set (filter (\<lambda>s. er_status (sn_record s) = EvRunning) (map g (db_runs db)))" for t
      using that True same by (auto simp: running_rows_def g_def filter_empty_conv split: if_splits)
    show ?thesis
      by (rule length_le_one [OF distinct_map_filter [OF dist]]) (simp only: comp_apply all)
  next
    case False
    then have "length (filter (\<lambda>s. er_status (sn_record s) = EvRunning) (map g xs))
        \<le> length (filter (\<lambda>s. er_status (sn_record s) = EvRunning) xs)" if "set xs \<subseteq> set (db_runs db)" for xs
      using that running by (induction xs) (auto simp: g_def)
    then show ?thesis using inv order_trans unfolding db_inv_def running_rows_def by blast
  qed
  have bnd: "run_bounded (update_run rid f db) (sn_record (g s))" if "s \<in> set (db_runs db)" for s
    using inv bounded [OF that] that by (auto simp: g_def db_inv_def run_bounded_def)
  have "one_active (map g (db_runs db))"
  proof -
    have old: "one_active (db_runs db)" using inv by (simp add: db_inv_def)
    show ?thesis unfolding one_active_def set_map ball_simps(9) ids
      using one_activeD [OF old] act by blast
  qed
  then show ?thesis unfolding db_inv_def running_rows_def runs
    using inv dist one bnd by (auto simp: db_inv_def)
qed

lemma running_ids_update:
  assumes "\<And>r. er_run_id (f r) = er_run_id r" "\<And>r. run_key (f r) = run_key r" "\<And>r. er_status (f r) = er_status r"
  shows "running_ids (update_run rid f db) = running_ids db"
proof -
  have "map (\<lambda>s. (er_run_id (sn_record s), run_key (sn_record s))) (filter (\<lambda>s. er_status (sn_record s) = EvRunning)
      (map (\<lambda>s. if er_run_id (sn_record s) = rid then s\<lparr>sn_record := f (sn_record s)\<rparr> else s) xs)) =
    map (\<lambda>s. (er_run_id (sn_record s), run_key (sn_record s))) (filter (\<lambda>s. er_status (sn_record s) = EvRunning) xs)" for xs
    using assms by (induction xs) auto
  then show ?thesis by (simp add: running_ids_def running_rows_def db_runs_update)
qed

lemma insert_run_inv:
  assumes inv: "db_inv db" and new: "insert_run e s db = Inr db'" and queued: "er_status (sn_record s) = EvQueued"
    and alone: "\<And>t. t \<in> set (db_runs db) \<Longrightarrow> run_active (sn_record t) \<Longrightarrow> run_key (sn_record t) \<noteq> run_key (sn_record s)"
    and bounded: "run_bounded db (sn_record s)"
  shows "db_inv db' \<and> still db db'"
proof -
  have db': "db' = db\<lparr>db_runs := db_runs db @ [s]\<rparr>" "\<forall>t \<in> set (db_runs db). er_run_id (sn_record t) \<noteq> er_run_id (sn_record s)"
    using new by (auto simp: insert_run_def list_ex_iff split: if_splits)
  have runs': "set (db_runs db') = insert s (set (db_runs db))" by (simp add: db'(1))
  have running: "running_rows db' = running_rows db" using queued by (simp add: db'(1) running_rows_def)
  have "distinct (map (er_run_id \<circ> sn_record) (db_runs db'))"
    using inv db'(2) by (auto simp: db'(1) db_inv_def)
  moreover have "one_active (db_runs db')"
  proof -
    have old: "one_active (db_runs db)" using inv by (simp add: db_inv_def)
    show ?thesis unfolding one_active_def runs' ball_simps(7)
      using one_activeD [OF old] alone not_sym [OF alone] by blast
  qed
  moreover have "\<forall>t \<in> set (db_runs db'). run_bounded db' (sn_record t)"
    using inv bounded by (auto simp: db'(1) db_inv_def run_bounded_def)
  ultimately have "db_inv db'" using inv running by (simp add: db_inv_def db'(1))
  then show ?thesis using running by (simp add: still_def running_ids_def db'(1))
qed

subsection \<open>Transactions that move no cursor\<close>

lemma load_run_fields [simp]:
  "er_run_id (sn_record (load_run s)) = er_run_id (sn_record s)" "er_status (sn_record (load_run s)) = er_status (sn_record s)"
  "run_key (sn_record (load_run s)) = run_key (sn_record s)" "er_attempts (sn_record (load_run s)) = er_attempts (sn_record s)"
  "er_reconcile_mode (sn_record (load_run s)) = er_reconcile_mode (sn_record s)"
  "er_from_generation_seq (sn_record (load_run s)) = er_from_generation_seq (sn_record s)"
  "er_updated_at_unix (sn_record (load_run s)) = er_updated_at_unix (sn_record s)"
  "er_submitted_at_unix (sn_record (load_run s)) = er_submitted_at_unix (sn_record s)"
  by (simp_all add: load_run_def run_key_def)

lemma load_active_None:
  assumes "load_active_run_for_lane repo capability mailbox db = None"
    and "s \<in> set (db_runs db)" "run_active (sn_record s)"
  shows "run_key (sn_record s) \<noteq> (repo, capability, mailbox)"
proof -
  have "load_runs (is_active_run_of repo capability mailbox) db = []"
    using assms(1) by (auto simp: load_active_run_for_lane_def split: list.splits dest: arg_cong [where f = set])
  then show ?thesis using assms(2,3)
    by (auto simp: load_runs_def filter_empty_conv is_active_run_of_def run_active_def run_key_def)
qed

lemma load_active_Some:
  assumes "load_active_run_for_lane repo capability mailbox db = Some s"
  obtains t where "t \<in> set (db_runs db)" "s = load_run t" "run_active (sn_record t)" "run_key (sn_record t) = (repo, capability, mailbox)"
proof -
  have "s \<in> set (load_runs (is_active_run_of repo capability mailbox) db)"
    using assms by (simp add: load_active_run_for_lane_def split: list.splits) (metis list.set_intros(1) set_sort)
  then show ?thesis using that by (auto simp: load_runs_def is_active_run_of_def run_active_def run_key_def)
qed

lemma find_map_same:
  "(\<And>x. P (g x) = P x) \<Longrightarrow> find P (map g xs) = map_option g (find P xs)"
  by (induction xs) auto

lemma cursor_at_mailboxes:
  assumes "\<And>m. (mb_repo_id (g m), mb_capability_id (g m), mb_mailbox_name (g m)) = (mb_repo_id m, mb_capability_id m, mb_mailbox_name m)"
    and "\<And>m. mb_last_applied_generation_seq (g m) = mb_last_applied_generation_seq m"
  shows "cursor_at (db\<lparr>db_mailboxes := map g (db_mailboxes db)\<rparr>) = cursor_at db"
proof -
  have "find (is_mailbox repo capability mailbox) (map g (db_mailboxes db)) =
      map_option g (find (is_mailbox repo capability mailbox) (db_mailboxes db))" for repo capability mailbox
    by (rule find_map_same) (use assms(1) in \<open>auto simp: is_mailbox_def\<close>)
  then show ?thesis using assms(2)
    by (auto simp: cursor_at_def load_consumer_cursor_def fun_eq_iff option.map_comp comp_def)
qed

lemma cursor_at_new_mailbox:
  assumes "mb_last_applied_generation_seq m = None"
    and "\<not> list_ex (is_mailbox (mb_repo_id m) (mb_capability_id m) (mb_mailbox_name m)) (db_mailboxes db)"
  shows "cursor_at (db\<lparr>db_mailboxes := db_mailboxes db @ [m]\<rparr>) = cursor_at db"
proof -
  have append: "find P (xs @ [m]) = (case find P xs of Some x \<Rightarrow> Some x | None \<Rightarrow> if P m then Some m else None)"
    for P and xs :: "mailbox_row list"
    by (induction xs) auto
  show ?thesis using assms(1)
    by (auto simp: cursor_at_def load_consumer_cursor_def fun_eq_iff append split: option.splits)
qed

text \<open>The tables of changes, and stamps of mailboxes, are irrelevant.\<close>

lemma db_inv_cong:
  assumes "db_inv db" "db_runs db' = db_runs db" "cursor_at db' = cursor_at db" "\<And>repo. latest_of repo db \<le> latest_of repo db'"
  shows "db_inv db' \<and> still db db'"
proof -
  have "cursor_at db key \<le> latest_of (fst key) db'" for key
  proof -
    have "cursor_at db key \<le> latest_of (fst key) db" using assms(1) unfolding db_inv_def by blast
    then show ?thesis using assms(4) by (rule order_trans)
  qed
  then show ?thesis
    using assms(1-4) by (auto simp: db_inv_def still_def running_rows_def running_ids_def run_bounded_def)
qed

lemma upsert_quiet:
  assumes "db_inv db" "upsert_consumer_row repo capability mailbox now db = Inr db'"
  shows "db_inv db' \<and> still db db'"
proof -
  have "cursor_at db' = cursor_at db" using assms(2)
    by (auto simp: upsert_consumer_row_def event_sql_i64_def intro!: cursor_at_mailboxes cursor_at_new_mailbox split: if_splits)
  moreover have "db_runs db' = db_runs db" "latest_of repo db' = latest_of repo db" for repo
    using assms(2) by (auto simp: upsert_consumer_row_def event_sql_i64_def split: if_splits)
  ultimately show ?thesis using db_inv_cong [OF assms(1)] by simp
qed

lemma fold_quiet:
  assumes "fold_result f xs (db, acc) = Inr (db', acc')" "db_inv db"
    and "\<And>x db acc db' acc'. f x (db, acc) = Inr (db', acc') \<Longrightarrow> db_inv db \<Longrightarrow> db_inv db' \<and> still db db'"
  shows "db_inv db' \<and> still db db'"
proof -
  have "db_inv (fst (db', acc')) \<and> still db (fst (db', acc'))"
  proof (rule fold_result_invariant [OF assms(1), of "\<lambda>s. db_inv (fst s) \<and> still db (fst s)"])
    fix x s s'
    assume s: "db_inv (fst s) \<and> still db (fst s)" "f x s = Inr s'"
    then have "db_inv (fst s') \<and> still (fst s) (fst s')"
      using assms(3) [of x "fst s" "snd s" "fst s'" "snd s'"] by simp
    then show "db_inv (fst s') \<and> still db (fst s')" using s(1) still_trans by blast
  qed (simp add: assms(2))
  then show ?thesis by simp
qed

subsection \<open>Scheduling\<close>

text \<open>A queued run is moved to new bounds, the first of which is close enough to the cursor.\<close>

lemma refresh_quiet:
  assumes inv: "db_inv db" and t: "t \<in> set (db_runs db)" "er_status (sn_record t) = EvQueued"
    and bound: "cursor_at db (run_key (sn_record t)) \<le> from_seq + 1"
  shows "db_inv (update_run (er_run_id (sn_record t)) (refresh_run cq from_seq to_seq mode) db) \<and>
    still db (update_run (er_run_id (sn_record t)) (refresh_run cq from_seq to_seq mode) db)"
proof -
  have same: "er_run_id (refresh_run cq from_seq to_seq mode r) = er_run_id r" "run_key (refresh_run cq from_seq to_seq mode r) = run_key r"
    "er_status (refresh_run cq from_seq to_seq mode r) = er_status r" for r
    by (simp_all add: refresh_run_def run_key_def)
  have "s = t" if "s \<in> set (db_runs db)" "er_run_id (sn_record s) = er_run_id (sn_record t)" for s
    using inv that t(1) by (auto simp: db_inv_def distinct_map inj_on_def)
  then have "db_inv (update_run (er_run_id (sn_record t)) (refresh_run cq from_seq to_seq mode) db)"
    using inv bound by (intro update_run_inv) (auto simp: same run_active_def run_bounded_def refresh_run_def run_key_def)
  then show ?thesis using same by (simp add: still_def running_ids_update)
qed

lemma ensure_quiet:
  assumes inv: "db_inv db" and run: "ensure_consumer_run cq uuid db = Inr (db', out)"
  shows "db_inv db' \<and> still db db'"
proof -
  let ?key = "(cq_repo_id cq, cq_capability_id cq, cq_mailbox_name cq)"
  let ?applied = "cursor_at db ?key"
  have applied: "unwrap_or (Option.bind (load_consumer_cursor (cq_repo_id cq) (cq_capability_id cq) (cq_mailbox_name cq) db) (\<lambda>c. c)) 0 = ?applied"
    by (simp add: cursor_at_def)
  show ?thesis
  proof (cases "latest_generation_seq (cq_repo_id cq) db")
    case None
    then show ?thesis using run inv by (simp add: ensure_consumer_run_def)
  next
    case (Some latest)
    show ?thesis
    proof (cases "latest \<le> ?applied")
      case True
      then show ?thesis using run inv Some by (simp add: ensure_consumer_run_def applied Let_def)
    next
      case False
      note body = run [unfolded ensure_consumer_run_def Some option.case Let_def applied if_not_P [OF False]]
      show ?thesis
      proof (cases "load_active_run_for_lane (cq_repo_id cq) (cq_capability_id cq) (cq_mailbox_name cq) db")
        case None
        then have "insert_run ''creating current-state consumer run'' (new_run cq uuid ?applied latest ''merged_delta'') db = Inr db'"
          using body by auto
        then show ?thesis
          by (rule insert_run_inv [OF inv]) (use load_active_None [OF None] in \<open>auto simp: new_run_def run_key_def run_bounded_def\<close>)
      next
        case (Some s)
        then obtain t where t: "t \<in> set (db_runs db)" "s = load_run t" "run_active (sn_record t)" "run_key (sn_record t) = ?key"
          by (rule load_active_Some)
        show ?thesis
        proof (cases "er_status (sn_record t) = EvQueued")
          case True
          then have "db' = update_run (er_run_id (sn_record t)) (refresh_run cq ?applied latest None) db"
            using body Some t(2) by auto
          then show ?thesis using refresh_quiet [OF inv t(1) True] t(4) by simp
        next
          case False
          then show ?thesis using body Some t(2) inv by auto
        qed
      qed
    qed
  qed
qed

lemma force_quiet:
  assumes inv: "db_inv db" and run: "force_consumer_run cq uuid db = Inr (db', out)"
  shows "db_inv db' \<and> still db db'"
proof -
  let ?key = "(cq_repo_id cq, cq_capability_id cq, cq_mailbox_name cq)"
  obtain latest where latest: "latest_generation_seq (cq_repo_id cq) db = Some latest"
    using run by (cases "latest_generation_seq (cq_repo_id cq) db") (simp_all add: force_consumer_run_def)
  obtain db1 where db1: "upsert_consumer_row (cq_repo_id cq) (cq_capability_id cq) (cq_mailbox_name cq) (cq_now cq) db = Inr db1"
    using run latest by (auto simp: force_consumer_run_def Let_def)
  note body = run [unfolded force_consumer_run_def latest option.case Let_def db1 and_then_simps]
  have inv1: "db_inv db1" "still db db1" using upsert_quiet [OF inv db1] by simp_all
  have "cursor_at db1 ?key \<le> latest_of (cq_repo_id cq) db"
    using inv inv1(2) by (auto simp: db_inv_def still_def)
  then have bound: "cursor_at db1 ?key \<le> (latest - 1) + 1" using latest by (simp add: latest_of_def)
  have "db_inv db' \<and> still db1 db'"
  proof (cases "load_active_run_for_lane (cq_repo_id cq) (cq_capability_id cq) (cq_mailbox_name cq) db1")
    case None
    then have "insert_run ''creating forced current-state consumer run'' (new_run cq uuid (latest - 1) latest ''full_reconcile'') db1 = Inr db'"
      using body by auto
    then show ?thesis
      by (rule insert_run_inv [OF inv1(1)])
        (use load_active_None [OF None] bound in \<open>auto simp: new_run_def run_key_def run_bounded_def\<close>)
  next
    case (Some s)
    then obtain t where t: "t \<in> set (db_runs db1)" "s = load_run t" "run_key (sn_record t) = ?key"
      by (rule load_active_Some)
    show ?thesis
    proof (cases "er_status (sn_record t) = EvQueued")
      case True
      then have "db' = update_run (er_run_id (sn_record t)) (refresh_run cq (latest - 1) latest (Some ''full_reconcile'')) db1"
        using body Some t(2) by auto
      then show ?thesis using refresh_quiet [OF inv1(1) t(1) True bound [folded t(3)]] by simp
    next
      case False
      then show ?thesis using body Some t(2) inv1(1) by auto
    qed
  qed
  then show ?thesis using inv1(2) still_trans by blast
qed

text \<open>Finished runs may be dropped: the running ones stay.\<close>

lemma filter_quiet:
  assumes "db_inv db" "\<And>s. s \<in> set (db_runs db) \<Longrightarrow> er_status (sn_record s) = EvRunning \<Longrightarrow> P s"
  shows "db_inv (db\<lparr>db_runs := filter P (db_runs db)\<rparr>) \<and> still db (db\<lparr>db_runs := filter P (db_runs db)\<rparr>)"
proof -
  have "filter (\<lambda>s. er_status (sn_record s) = EvRunning) (filter P (db_runs db)) = running_rows db"
    unfolding running_rows_def filter_filter by (rule filter_cong) (use assms(2) in auto)
  then show ?thesis using filter_runs_inv [OF assms(1)] by (simp add: still_def running_ids_def running_rows_def)
qed

lemma prune_quiet: "db_inv db \<Longrightarrow> db_inv (prune_terminal_runs db) \<and> still db (prune_terminal_runs db)"
proof -
  assume inv: "db_inv db"
  let ?finished = "filter (is_terminal_status \<circ> er_status \<circ> sn_record) (db_runs db)"
  let ?old = "map (er_run_id \<circ> sn_record) (drop 100 (sort_key (\<lambda>s. - int (unwrap_or (er_completed_at_unix (sn_record s))
    (er_updated_at_unix (sn_record s)))) ?finished))"
  have "er_run_id (sn_record s) \<notin> set ?old" if s: "s \<in> set (db_runs db)" "er_status (sn_record s) = EvRunning" for s
  proof
    assume "er_run_id (sn_record s) \<in> set ?old"
    then obtain t where "t \<in> set ?finished" "er_run_id (sn_record t) = er_run_id (sn_record s)"
      by (auto dest: in_set_dropD)
    moreover from this have "t = s" using inv s(1) by (auto simp: db_inv_def distinct_map inj_on_def)
    ultimately show False using s(2) by (simp add: is_terminal_status_def)
  qed
  then show ?thesis unfolding prune_terminal_runs_def Let_def by (intro filter_quiet [OF inv])
qed

lemma clear_quiet: "db_inv db \<Longrightarrow> db_inv (fst (clear_queued_runs_for_repo repo db)) \<and> still db (fst (clear_queued_runs_for_repo repo db))"
  by (simp add: clear_queued_runs_for_repo_def Let_def filter_quiet)

lemma schedule_quiet:
  assumes "schedule_consumer repo root input now x (db, runs) = Inr (db', runs')" "db_inv db"
  shows "db_inv db' \<and> still db db'"
proof -
  obtain reg uuid where x: "x = (reg, uuid)" by (cases x)
  show ?thesis
  proof (cases "mr_handler reg")
    case (Ingester i)
    then show ?thesis using assms by (simp add: schedule_consumer_def x)
  next
    case (CurrentStateConsumer handler)
    note body = assms(1) [unfolded schedule_consumer_def x prod.case CurrentStateConsumer mailbox_handler.case]
    obtain db1 where db1: "upsert_consumer_row repo (mr_capability_id reg) (mr_mailbox_name reg) now db = Inr db1"
      using body by (simp only: and_then_Inr_iff) blast
    obtain cq run where run: "ensure_consumer_run cq uuid db1 = Inr (db', run)"
      using body unfolding db1 and_then_simps by (simp only: and_then_Inr_iff split_paired_Ex prod.case prod.inject sum.inject) blast
    show ?thesis using upsert_quiet [OF assms(2) db1] ensure_quiet [OF _ run] still_trans by blast
  qed
qed

lemma insert_changes_frame:
  "insert_file_changes repo seq diff db = Inr db' \<Longrightarrow>
     db_runs db' = db_runs db \<and> db_mailboxes db' = db_mailboxes db \<and> db_generations db' = db_generations db"
  "insert_artefact_changes repo seq adiff db = Inr db' \<Longrightarrow>
     db_runs db' = db_runs db \<and> db_mailboxes db' = db_mailboxes db \<and> db_generations db' = db_generations db"
  unfolding insert_file_changes_def insert_artefact_changes_def
  by (drule fold_result_invariant [where I = "\<lambda>d. db_runs d = db_runs db \<and> db_mailboxes d = db_mailboxes db \<and>
      db_generations d = db_generations db"]; auto)+

lemma latest_of_append:
  "latest_of repo db \<le> latest_of repo (db\<lparr>db_generations := db_generations db @ [g]\<rparr>)"
proof -
  let ?db = "db\<lparr>db_generations := db_generations db @ [g]\<rparr>"
  have seqs: "set (repo_generations repo db) \<subseteq> set (repo_generations repo ?db)" by (auto simp: repo_generations_def)
  show ?thesis
  proof (cases "latest_generation_seq repo db")
    case (Some latest)
    then have mem: "latest \<in> set (repo_generations repo ?db)" using latest_generation_seq_Some(1) seqs by blast
    then obtain latest' where "latest_generation_seq repo ?db = Some latest'"
      by (cases "repo_generations repo ?db") (auto simp: latest_generation_seq_def)
    then show ?thesis using latest_generation_seq_Some(2) mem Some by (auto simp: latest_of_def)
  qed (simp add: latest_of_def)
qed

lemma record_quiet:
  assumes inv: "db_inv db" and run: "record_sync_generation regs repo root summary input now db = Inr (db', runs)"
  shows "db_inv db' \<and> still db db'"
proof (cases "\<not> ss_success summary \<or> ss_mode summary = ''validate''")
  case True
  then show ?thesis using run inv by (simp add: record_sync_generation_def)
next
  case False
  note body = run [unfolded record_sync_generation_def if_not_P [OF False] Let_def]
  obtain g db2 db3 db4 where steps:
    "insert_file_changes repo (next_generation_seq repo db) (gi_file_diff input) (db\<lparr>db_generations := db_generations db @ [g]\<rparr>) = Inr db2"
    "insert_artefact_changes repo (next_generation_seq repo db) (gi_artefact_diff input) db2 = Inr db3"
    "fold_result (schedule_consumer repo root input now) (filter (\<lambda>(reg, _). mr_policy reg = CursorMailbox) regs) (db3, []) = Inr (db4, runs)"
    "db' = prune_terminal_runs db4"
    using body by (simp only: and_then_Inr_iff split_paired_Ex prod.case prod.inject sum.inject) blast
  let ?db1 = "db\<lparr>db_generations := db_generations db @ [g]\<rparr>"
  have frame: "db_runs db3 = db_runs db" "db_mailboxes db3 = db_mailboxes db" "db_generations db3 = db_generations ?db1"
    using insert_changes_frame(1) [OF steps(1)] insert_changes_frame(2) [OF steps(2)] by simp_all
  have "cursor_at db3 = cursor_at db" by (simp add: cursor_at_def load_consumer_cursor_def frame)
  moreover have "latest_of repo' db \<le> latest_of repo' db3" for repo'
  proof -
    have "latest_of repo' db3 = latest_of repo' ?db1"
      by (simp add: latest_of_def latest_generation_seq_def repo_generations_def frame)
    then show ?thesis using latest_of_append [of repo' db g] by simp
  qed
  ultimately have "db_inv db3 \<and> still db db3" using db_inv_cong [OF inv frame(1)] by blast
  moreover from this have "db_inv db4 \<and> still db3 db4" using fold_quiet [OF steps(3)] schedule_quiet by blast
  ultimately show ?thesis using prune_quiet [of db4] steps(4) still_trans by blast
qed

end
