(* ===== verification/CapabilityProperties.thy ===== *)
theory CapabilityProperties
  imports CapabilityTables
begin

text \<open>
  What the delivery of sync results promises: cursors only move forward and never beyond the latest generation, a
  mailbox has one active run and the daemon executes one run at a time, the next run is the first one due, and what
  happens to a generation that is recorded while a run executes.
\<close>

section \<open>Launching\<close>

definition run_due :: "nat \<Rightarrow> stored_run \<Rightarrow> bool" where
  "run_due now s \<longleftrightarrow> er_updated_at_unix (sn_record s) + retry_backoff_seconds (er_attempts (sn_record s)) \<le> now"

definition queued_in_order :: "event_db \<Rightarrow> stored_run list" where
  "queued_in_order db = sort_key (er_submitted_at_unix \<circ> sn_record) (load_runs (\<lambda>r. er_status r = EvQueued) db)"

text \<open>The row of a claimed run.\<close>

definition start_run :: "nat \<Rightarrow> nat \<Rightarrow> event_run \<Rightarrow> event_run" where
  "start_run now attempts r = r\<lparr>er_status := EvRunning, er_attempts := attempts, er_started_at_unix := Some now,
     er_updated_at_unix := now\<rparr>"

lemma claim_one: "claim_lanes now 1 [] ss = (case find (run_due now) ss of None \<Rightarrow> [] | Some s \<Rightarrow> [s])"
  by (induction ss) (simp_all add: run_due_def not_less)

lemma launch_busy:
  assumes "running_rows db \<noteq> []"
  shows "launch_runnable_runs now db = Inr (db, [])"
proof -
  have "length (load_runs (\<lambda>r. er_status r = EvRunning) db) = length (running_rows db)"
    by (simp add: load_runs_def running_rows_def comp_def)
  then have "load_claimable_runs now db = []" using assms
    by (simp add: load_claimable_runs_def MAX_CONCURRENT_CURRENT_STATE_RUNS_def Let_def)
      (metis One_nat_def diff_is_0_eq length_0_conv less_Suc0 not_le)
  then show ?thesis by (simp add: launch_runnable_runs_def)
qed

lemma launch_idle:
  assumes "running_rows db = []"
  shows "launch_runnable_runs now db = (case find (run_due now) (queued_in_order db) of
      None \<Rightarrow> Inr (db, [])
    | Some s \<Rightarrow> and_then (event_sql_i64 now) (\<lambda>_. Inr
        (update_run (er_run_id (sn_record s)) (start_run now (er_attempts (sn_record s) + 1)) db,
         [s\<lparr>sn_record := claimed_run now (sn_record s)\<rparr>])))"
proof -
  have "load_runs (\<lambda>r. er_status r = EvRunning) db = []"
    using assms by (simp add: load_runs_def running_rows_def comp_def)
  then have "load_claimable_runs now db = (case find (run_due now) (queued_in_order db) of None \<Rightarrow> [] | Some s \<Rightarrow> [s])"
    by (simp add: load_claimable_runs_def MAX_CONCURRENT_CURRENT_STATE_RUNS_def queued_in_order_def Let_def claim_one
        flip: One_nat_def)
  then show ?thesis
    by (cases "event_sql_i64 now") (simp_all add: launch_runnable_runs_def start_run_def [abs_def] split: option.split)
qed

lemma queued_member:
  assumes "s \<in> set (queued_in_order db)"
  obtains t where "t \<in> set (db_runs db)" "s = load_run t" "er_status (sn_record t) = EvQueued"
  using assms that by (auto simp: queued_in_order_def load_runs_def)

lemma filter_eq_one: "distinct xs \<Longrightarrow> x \<in> set xs \<Longrightarrow> filter (\<lambda>y. y = x) xs = [x]"
  by (induction xs) (auto simp: filter_empty_conv)

text \<open>The row of a run, when identifiers are unique.\<close>

lemma row_of_id: "db_inv db \<Longrightarrow> s \<in> set (db_runs db) \<Longrightarrow> t \<in> set (db_runs db) \<Longrightarrow>
    er_run_id (sn_record s) = er_run_id (sn_record t) \<Longrightarrow> s = t"
  by (auto simp: db_inv_def distinct_map inj_on_def)

lemma start_quiet:
  assumes inv: "db_inv db" and idle: "running_rows db = []"
    and t: "t \<in> set (db_runs db)" "er_status (sn_record t) = EvQueued"
  shows "db_inv (update_run (er_run_id (sn_record t)) (start_run now n) db)"
    "running_ids (update_run (er_run_id (sn_record t)) (start_run now n) db) = [(er_run_id (sn_record t), run_key (sn_record t))]"
proof -
  let ?db = "update_run (er_run_id (sn_record t)) (start_run now n) db"
  have same: "er_run_id (start_run now n r) = er_run_id r" "run_key (start_run now n r) = run_key r" for r
    by (simp_all add: start_run_def run_key_def)
  have status: "er_status (start_run now n r) = EvRunning" for r by (simp add: start_run_def)
  have only: "s = t" if "s \<in> set (db_runs db)" "er_run_id (sn_record s) = er_run_id (sn_record t)" for s
    using row_of_id [OF inv that(1) t(1) that(2)] .
  have "run_bounded db (sn_record t)" using inv t(1) unfolding db_inv_def by blast
  then have bounded: "run_bounded db (start_run now n (sn_record t))"
    using t(2) by (simp add: run_bounded_def run_active_def run_full_def start_run_def run_key_def)
  show inv': "db_inv ?db"
  proof (rule update_run_inv [OF inv same])
    fix s assume s: "s \<in> set (db_runs db)" "er_run_id (sn_record s) = er_run_id (sn_record t)"
    then have "s = t" by (rule only)
    then show "run_active (sn_record s)" "run_bounded db (start_run now n (sn_record s))"
      using t(2) bounded by (simp_all add: run_active_def)
  qed (simp add: idle)
  have "running_rows ?db = map (\<lambda>s. s\<lparr>sn_record := start_run now n (sn_record s)\<rparr>)
      (filter (\<lambda>s. er_run_id (sn_record s) = er_run_id (sn_record t)) (db_runs db))"
  proof -
    have "filter (\<lambda>s. er_status (sn_record s) = EvRunning) (map (\<lambda>s. if er_run_id (sn_record s) = rid
        then s\<lparr>sn_record := start_run now n (sn_record s)\<rparr> else s) xs) = map (\<lambda>s. s\<lparr>sn_record := start_run now n (sn_record s)\<rparr>)
        (filter (\<lambda>s. er_run_id (sn_record s) = rid) xs)"
      if "\<forall>s \<in> set xs. er_status (sn_record s) \<noteq> EvRunning" for xs rid
      using that by (induction xs) (simp_all add: status)
    then show ?thesis using idle by (simp add: running_rows_def db_runs_update filter_empty_conv)
  qed
  moreover have "filter (\<lambda>s. er_run_id (sn_record s) = er_run_id (sn_record t)) (db_runs db) = [t]"
  proof -
    have "filter (\<lambda>s. er_run_id (sn_record s) = er_run_id (sn_record t)) (db_runs db) = filter (\<lambda>s. s = t) (db_runs db)"
      by (rule filter_cong) (use only in auto)
    moreover have "distinct (db_runs db)" using inv unfolding db_inv_def by (simp add: distinct_map)
    ultimately show ?thesis using t(1) by (simp add: filter_eq_one)
  qed
  ultimately show "running_ids ?db = [(er_run_id (sn_record t), run_key (sn_record t))]"
    by (simp add: running_ids_def same)
qed

section \<open>The invariant of the coordinator\<close>

fun flight_ok :: "event_db \<Rightarrow> flight \<Rightarrow> bool" where
  "flight_ok db (Claimed s) \<longleftrightarrow>
     (run_full (sn_record s) \<longrightarrow> cursor_at db (run_key (sn_record s)) \<le> er_from_generation_seq (sn_record s) + 1)"
| "flight_ok db (Executing x) \<longleftrightarrow>
     cursor_at db (run_key (xp_record x)) \<le> rq_from_generation_seq_exclusive (xp_request x) + 1 \<and>
     rq_to_generation_seq_inclusive (xp_request x) \<le> latest_of (er_repo_id (xp_record x)) db"
| "flight_ok db (Finished (RunCompleted r applied)) \<longleftrightarrow>
     cursor_at db (run_key r) \<le> applied \<and> applied \<le> latest_of (er_repo_id r) db"
| "flight_ok db (Finished _) \<longleftrightarrow> True"

definition flight_id :: "flight \<Rightarrow> string \<times> mailbox_key" where
  "flight_id f = (er_run_id (flight_run f), run_key (flight_run f))"

text \<open>Whatever is in flight is what the tables say is running.\<close>

definition co_inv :: "coordinator \<Rightarrow> bool" where
  "co_inv c \<longleftrightarrow> db_inv (co_db c) \<and> (co_flights c \<noteq> [] \<longrightarrow> map flight_id (co_flights c) = running_ids (co_db c)) \<and>
     (\<forall>f \<in> set (co_flights c). flight_ok (co_db c) f)"

lemma flight_ok_quiet: "still db db' \<Longrightarrow> flight_ok db f \<Longrightarrow> flight_ok db' f"
  by (induction db f rule: flight_ok.induct) (auto simp: still_def intro: order_trans)

lemma flights_le_one: "co_inv c \<Longrightarrow> length (co_flights c) \<le> 1"
  by (cases "co_flights c = []") (auto simp: co_inv_def db_inv_def running_ids_def dest: arg_cong [where f = length])

lemma one_flight:
  assumes "co_inv c" "k < length (co_flights c)" "co_flights c ! k = f"
  shows "k = 0" "co_flights c = [f]"
proof -
  have len: "length (co_flights c) = 1" using flights_le_one [OF assms(1)] assms(2) by linarith
  then show "k = 0" using assms(2) by simp
  then show "co_flights c = [f]" using len assms(3) by (cases "co_flights c") auto
qed

lemma co_inv_quiet:
  assumes "co_inv c" "db_inv db' \<and> still (co_db c) db'"
  shows "co_inv (c\<lparr>co_db := db'\<rparr>)"
  using assms flight_ok_quiet [of "co_db c" db'] unfolding co_inv_def by (simp add: still_def)

text \<open>The row of the run in flight.\<close>

lemma flight_row:
  assumes "co_inv c" "co_flights c = [f]"
  obtains s where "s \<in> set (db_runs (co_db c))" "running_rows (co_db c) = [s]" "er_status (sn_record s) = EvRunning"
    "er_run_id (sn_record s) = er_run_id (flight_run f)" "run_key (sn_record s) = run_key (flight_run f)"
proof -
  have "running_ids (co_db c) = [flight_id f]" using assms by (simp add: co_inv_def)
  then obtain s where s: "running_rows (co_db c) = [s]" "flight_id f = (er_run_id (sn_record s), run_key (sn_record s))"
    by (cases "running_rows (co_db c)") (auto simp: running_ids_def)
  then have "s \<in> set (running_rows (co_db c))" by simp
  then show ?thesis using that [of s] s by (simp add: running_rows_def flight_id_def)
qed

lemma coordinator_same: "co_db c = db \<Longrightarrow> co_flights c = fs \<Longrightarrow> c\<lparr>co_db := db, co_flights := fs\<rparr> = c"
  by (cases c) simp

lemma launch_inv:
  assumes inv: "co_inv c" and run: "launch_runnable_runs now (co_db c) = Inr (db', claimed)"
  shows "co_inv (c\<lparr>co_db := db', co_flights := co_flights c @ map Claimed claimed\<rparr>) \<and>
    cursor_at db' = cursor_at (co_db c) \<and> (\<forall>repo. latest_of repo db' = latest_of repo (co_db c))"
proof (cases "running_rows (co_db c) = []")
  case False
  have "db' = co_db c" "claimed = []" using run launch_busy [OF False, of now] by simp_all
  then show ?thesis using inv by (simp add: coordinator_same)
next
  case idle: True
  then have none: "co_flights c = []" using inv by (auto simp: co_inv_def running_ids_def)
  have db: "db_inv (co_db c)" using inv by (simp add: co_inv_def)
  show ?thesis
  proof (cases "find (run_due now) (queued_in_order (co_db c))")
    case None
    then have "db' = co_db c" "claimed = []" using run launch_idle [OF idle, of now] by simp_all
    then show ?thesis using inv by (simp add: coordinator_same)
  next
    case (Some s)
    then have out: "db' = update_run (er_run_id (sn_record s)) (start_run now (er_attempts (sn_record s) + 1)) (co_db c)"
      "claimed = [s\<lparr>sn_record := claimed_run now (sn_record s)\<rparr>]"
      using run launch_idle [OF idle, of now] by (auto simp: and_then_Inr_iff)
    obtain t where t: "t \<in> set (db_runs (co_db c))" "s = load_run t" "er_status (sn_record t) = EvQueued"
      using find_member [OF Some] queued_member by blast
    note started = start_quiet [OF db idle t(1,3), of now "er_attempts (sn_record s) + 1"]
    have "run_bounded (co_db c) (sn_record t)" using db t(1) unfolding db_inv_def by blast
    then have "flight_ok db' (Claimed (s\<lparr>sn_record := claimed_run now (sn_record s)\<rparr>))"
      using t(3) by (simp add: out(1) t(2) run_bounded_def run_active_def run_full_def claimed_run_def run_key_def load_run_def)
    moreover have "flight_id (Claimed (s\<lparr>sn_record := claimed_run now (sn_record s)\<rparr>)) = (er_run_id (sn_record t), run_key (sn_record t))"
      by (simp add: flight_id_def t(2) claimed_run_def run_key_def load_run_def)
    ultimately show ?thesis using started none by (simp add: co_inv_def out t(2))
  qed
qed

lemma plan_bounds:
  assumes "cursor_at db (run_key run) \<le> latest_of (er_repo_id run) db"
    and "run_full run \<longrightarrow> cursor_at db (run_key run) \<le> er_from_generation_seq run + 1"
    and "load_consumer_cursor (er_repo_id run) (er_capability_id run) (er_consumer_id run) db = Some last_applied"
    and "latest_generation_seq (er_repo_id run) db = Some latest"
  shows "cursor_at db (run_key run) \<le> plan_from run last_applied latest + 1"
  using assms by (auto simp: plan_from_def run_full_def cursor_at_def run_key_def latest_of_def)

lemma plan_inv:
  assumes inv: "co_inv c" and flights: "co_flights c = [Claimed s]"
    and plan: "plan_flight now s (co_db c) = (db', f)"
  shows "co_inv (c\<lparr>co_db := db', co_flights := [f]\<rparr>) \<and> still (co_db c) db'"
proof -
  have db: "db_inv (co_db c)" and ids: "running_ids (co_db c) = [flight_id (Claimed s)]" and ok: "flight_ok (co_db c) (Claimed s)"
    using inv flights by (simp_all add: co_inv_def)
  have simple: ?thesis if "db' = co_db c" "flight_ok (co_db c) f" "flight_run f = sn_record s"
    using that db ids by (simp add: co_inv_def flight_id_def)
  show ?thesis
  proof (cases "build_execution_plan now (sn_record s) (sn_repo_root s) (co_db c)")
    case (Inl e)
    then show ?thesis using plan simple by (auto simp: plan_flight_def terminal_or_retry_def)
  next
    case (Inr out)
    obtain db1 x where out: "out = (db1, x)" by (cases out)
    show ?thesis
    proof (cases x)
      case None
      have "db1 = co_db c" using Inr unfolding out None
        by (auto simp: build_execution_plan_def Let_def and_then_Inr_iff split: option.splits if_splits)
      then show ?thesis using plan Inr out None simple by (auto simp: plan_flight_def)
    next
      case (Some y)
      have f: "f = Executing y" "db' = db1" using plan Inr out Some by (simp_all add: plan_flight_def)
      obtain last_applied latest newest changes where p:
        "load_consumer_cursor (er_repo_id (sn_record s)) (er_capability_id (sn_record s)) (er_consumer_id (sn_record s)) (co_db c) = Some last_applied"
        "latest_generation_seq (er_repo_id (sn_record s)) (co_db c) = Some latest"
        "gr_generation_seq newest = latest"
        "xp_record y = planned_run (sn_record s) (plan_from (sn_record s) last_applied latest) latest changes"
        "xp_request y = planned_request (sn_record s) (sn_repo_root s) (plan_from (sn_record s) last_applied latest) newest changes"
        "db1 = update_run (er_run_id (sn_record s)) (\<lambda>r. r\<lparr>er_from_generation_seq := plan_from (sn_record s) last_applied latest,
           er_to_generation_seq := latest, er_reconcile_mode := reconcile_mode_label (pc_mode changes),
           er_updated_at_unix := now\<rparr>) (co_db c)"
        using Inr unfolding out Some by (rule build_plan_Some)
      let ?from = "plan_from (sn_record s) last_applied latest"
      have "cursor_at (co_db c) (run_key (sn_record s)) \<le> latest_of (fst (run_key (sn_record s))) (co_db c)"
        using db unfolding db_inv_def by blast
      then have cursor: "cursor_at (co_db c) (run_key (sn_record s)) \<le> ?from + 1"
        using plan_bounds [OF _ _ p(1,2)] ok by (simp add: run_key_def)
      obtain t where t: "t \<in> set (db_runs (co_db c))" "er_run_id (sn_record t) = er_run_id (sn_record s)"
        "run_key (sn_record t) = run_key (sn_record s)"
        using flight_row [OF inv flights] by auto
      have only: "u = t" if "u \<in> set (db_runs (co_db c))" "er_run_id (sn_record u) = er_run_id (sn_record s)" for u
        using row_of_id [OF db that(1) t(1)] that(2) t(2) by simp
      have "db_inv db1" unfolding p(6)
        by (rule update_run_inv [OF db]) (use only cursor t(3) in \<open>auto simp: run_key_def run_active_def run_bounded_def\<close>)
      moreover have "still (co_db c) db1" unfolding p(6)
        by (simp add: still_def running_ids_update run_key_def)
      moreover have "flight_ok db1 f" using cursor
        by (simp add: f(1) p(2,3,4,5,6) planned_run_def planned_request_def run_key_def latest_of_def [of _ "co_db c"])
      moreover have "flight_id f = flight_id (Claimed s)"
        by (simp add: f(1) p(4) flight_id_def planned_run_def run_key_def)
      ultimately show ?thesis using ids by (simp add: co_inv_def f(2) still_def)
    qed
  qed
qed

subsection \<open>Completion\<close>

text \<open>The run in flight leaves the running ones.\<close>

lemma release_run:
  assumes inv: "co_inv c" and flights: "co_flights c = [f]"
    and same: "\<And>r. er_run_id (g r) = er_run_id r" "\<And>r. run_key (g r) = run_key r"
    and ends: "\<And>r. er_status (g r) \<noteq> EvRunning"
    and bounded: "\<And>r. er_status (g r) = EvQueued \<Longrightarrow> er_from_generation_seq (g r) = er_from_generation_seq r \<and>
      er_reconcile_mode (g r) = er_reconcile_mode r"
  shows "db_inv (update_run (er_run_id (flight_run f)) g (co_db c))"
    "running_rows (update_run (er_run_id (flight_run f)) g (co_db c)) = []"
    "(\<And>r. er_status (g r) \<noteq> EvQueued) \<Longrightarrow> s \<in> set (db_runs (update_run (er_run_id (flight_run f)) g (co_db c))) \<Longrightarrow>
       run_active (sn_record s) \<Longrightarrow> run_key (sn_record s) \<noteq> run_key (flight_run f)"
proof -
  have db: "db_inv (co_db c)" using inv by (simp add: co_inv_def)
  obtain t where t: "t \<in> set (db_runs (co_db c))" "running_rows (co_db c) = [t]" "er_status (sn_record t) = EvRunning"
    "er_run_id (sn_record t) = er_run_id (flight_run f)" "run_key (sn_record t) = run_key (flight_run f)"
    using flight_row [OF inv flights] .
  have only: "u = t" if "u \<in> set (db_runs (co_db c))" "er_run_id (sn_record u) = er_run_id (flight_run f)" for u
    using row_of_id [OF db that(1) t(1)] that(2) t(4) by simp
  have "run_bounded (co_db c) (sn_record t)" using db t(1) unfolding db_inv_def by blast
  then have tb: "run_bounded (co_db c) (g (sn_record t))"
    using t(3) bounded [of "sn_record t"] ends [of "sn_record t"] same(2) [of "sn_record t"]
    by (auto simp: run_bounded_def run_active_def run_full_def)
  show "db_inv (update_run (er_run_id (flight_run f)) g (co_db c))"
    by (rule update_run_inv [OF db same]) (use only t(3) tb ends in \<open>auto simp: run_active_def\<close>)
  have others: "er_status (sn_record u) \<noteq> EvRunning" if "u \<in> set (db_runs (co_db c))" "er_run_id (sn_record u) \<noteq> er_run_id (flight_run f)" for u
  proof
    assume "er_status (sn_record u) = EvRunning"
    then have "u \<in> set (running_rows (co_db c))" using that(1) by (simp add: running_rows_def)
    then show False using that(2) t(2,4) by simp
  qed
  then show "running_rows (update_run (er_run_id (flight_run f)) g (co_db c)) = []"
    using ends by (auto simp: running_rows_def db_runs_update filter_empty_conv)
  show "run_key (sn_record s) \<noteq> run_key (flight_run f)"
    if "\<And>r. er_status (g r) \<noteq> EvQueued" "s \<in> set (db_runs (update_run (er_run_id (flight_run f)) g (co_db c)))" "run_active (sn_record s)"
  proof
    assume key: "run_key (sn_record s) = run_key (flight_run f)"
    have gone: "\<not> run_active (g r)" for r using that(1) ends by (simp add: run_active_def)
    have s: "s \<in> set (db_runs (co_db c))" "er_run_id (sn_record s) \<noteq> er_run_id (flight_run f)"
      using that(2,3) gone same by (auto simp: db_runs_update split: if_splits)
    have "one_active (db_runs (co_db c))" using db by (simp add: db_inv_def)
    from one_activeD [OF this s(1) t(1) that(3)] show False using t(3,4,5) s(2) key by (simp add: run_active_def)
  qed
qed

lemma update_mailbox_commute: "update_run rid g (update_mailbox run h db) = update_mailbox run h (update_run rid g db)"
  by (simp add: update_run_def update_mailbox_def)

lemma is_mailbox_key: "is_mailbox repo capability mailbox m \<Longrightarrow> is_mailbox (er_repo_id run) (er_capability_id run) (er_consumer_id run) m \<longleftrightarrow>
    (repo, capability, mailbox) = run_key run"
  by (auto simp: is_mailbox_def run_key_def)

lemma cursor_at_stamp:
  assumes "\<And>m. mb_repo_id (h m) = mb_repo_id m" "\<And>m. mb_capability_id (h m) = mb_capability_id m"
    "\<And>m. mb_mailbox_name (h m) = mb_mailbox_name m" "\<And>m. mb_last_applied_generation_seq (h m) = mb_last_applied_generation_seq m"
  shows "cursor_at (update_mailbox run h db) = cursor_at db"
  unfolding update_mailbox_def by (rule cursor_at_mailboxes) (simp_all add: assms)

lemma cursor_at_advance:
  "cursor_at (update_mailbox run (\<lambda>m. m\<lparr>mb_last_applied_generation_seq := Some applied, mb_last_error := err, mb_updated_at_unix := now\<rparr>) db) key
     = (if key = run_key run \<and> (\<exists>m \<in> set (db_mailboxes db). is_mailbox (fst key) (fst (snd key)) (snd (snd key)) m) then applied
        else cursor_at db key)"
proof -
  obtain repo capability mailbox where key: "key = (repo, capability, mailbox)" by (cases key)
  define g where "g m = (if is_mailbox (er_repo_id run) (er_capability_id run) (er_consumer_id run) m
    then m\<lparr>mb_last_applied_generation_seq := Some applied, mb_last_error := err, mb_updated_at_unix := now\<rparr> else m)" for m :: mailbox_row
  have "find (is_mailbox repo capability mailbox) (map g (db_mailboxes db)) = map_option g (find (is_mailbox repo capability mailbox) (db_mailboxes db))"
    by (rule find_map_same) (simp add: g_def is_mailbox_def)
  moreover have "g m = (if key = run_key run then m\<lparr>mb_last_applied_generation_seq := Some applied, mb_last_error := err, mb_updated_at_unix := now\<rparr> else m)"
    if "find (is_mailbox repo capability mailbox) (db_mailboxes db) = Some m" for m
    using is_mailbox_key [of repo capability mailbox m run] find_member [OF that] by (simp add: g_def key)
  moreover have "find (is_mailbox repo capability mailbox) (db_mailboxes db) = None \<longleftrightarrow>
      \<not> (\<exists>m \<in> set (db_mailboxes db). is_mailbox repo capability mailbox m)"
    by (auto simp: find_None_iff)
  ultimately show ?thesis
    by (cases "find (is_mailbox repo capability mailbox) (db_mailboxes db)")
      (simp_all add: update_mailbox_def g_def [symmetric, abs_def] key cursor_at_def load_consumer_cursor_def)
qed

lemma apply_completion_cases:
  assumes "apply_completion now completion db = Inr db'"
  obtains (other) g h where "db' = prune_terminal_runs (update_mailbox (completion_run completion) h (update_run (er_run_id (completion_run completion)) g db))"
      "\<And>r. er_run_id (g r) = er_run_id r" "\<And>r. run_key (g r) = run_key r" "\<And>r. er_status (g r) \<noteq> EvRunning"
      "\<And>r. er_status (g r) = EvQueued \<Longrightarrow> er_from_generation_seq (g r) = er_from_generation_seq r \<and> er_reconcile_mode (g r) = er_reconcile_mode r"
      "\<And>m. mb_repo_id (h m) = mb_repo_id m" "\<And>m. mb_capability_id (h m) = mb_capability_id m"
      "\<And>m. mb_mailbox_name (h m) = mb_mailbox_name m" "\<And>m. mb_last_applied_generation_seq (h m) = mb_last_applied_generation_seq m"
  | (applied) run applied g where "completion = RunCompleted run applied"
      "db' = prune_terminal_runs (update_mailbox run (\<lambda>m. m\<lparr>mb_last_applied_generation_seq := Some applied, mb_last_error := None,
         mb_updated_at_unix := now\<rparr>) (update_run (er_run_id run) g db))"
      "\<And>r. er_run_id (g r) = er_run_id r" "\<And>r. run_key (g r) = run_key r" "\<And>r. er_status (g r) \<noteq> EvRunning" "\<And>r. er_status (g r) \<noteq> EvQueued"
proof (cases completion)
  case (NoopCompleted run)
  show ?thesis
    by (rule other [where g = "\<lambda>r. r\<lparr>er_from_generation_seq := er_from_generation_seq run,
          er_to_generation_seq := er_to_generation_seq run, er_reconcile_mode := er_reconcile_mode run,
          er_status := EvCompleted, er_updated_at_unix := now, er_completed_at_unix := Some now, er_error := None\<rparr>"
        and h = "\<lambda>m. m\<lparr>mb_last_error := None, mb_updated_at_unix := now\<rparr>"])
      (use assms NoopCompleted in \<open>simp_all add: apply_completion_def and_then_Inr_iff update_mailbox_commute run_key_def event_sql_i64_def split: if_splits\<close>)
next
  case (RunCompleted run applied_seq)
  show ?thesis
    by (rule applied [OF RunCompleted, where g = "\<lambda>r. r\<lparr>er_from_generation_seq := er_from_generation_seq run,
          er_to_generation_seq := er_to_generation_seq run, er_reconcile_mode := er_reconcile_mode run,
          er_status := EvCompleted, er_updated_at_unix := now, er_completed_at_unix := Some now, er_error := None\<rparr>"])
      (use assms RunCompleted in \<open>simp_all add: apply_completion_def and_then_Inr_iff update_mailbox_commute run_key_def event_sql_i64_def split: if_splits\<close>)
next
  case (RetryableFailure run err)
  show ?thesis
    by (rule other [where g = "\<lambda>r. r\<lparr>er_status := EvQueued, er_started_at_unix := None, er_updated_at_unix := now,
          er_completed_at_unix := None, er_error := Some err\<rparr>"
        and h = "\<lambda>m. m\<lparr>mb_last_error := Some err, mb_updated_at_unix := now\<rparr>"])
      (use assms RetryableFailure in \<open>simp_all add: apply_completion_def and_then_Inr_iff update_mailbox_commute run_key_def event_sql_i64_def split: if_splits\<close>)
next
  case (RunFailed run err)
  show ?thesis
    by (rule other [where g = "\<lambda>r. r\<lparr>er_status := EvFailed, er_updated_at_unix := now, er_completed_at_unix := Some now,
          er_error := Some err\<rparr>"
        and h = "\<lambda>m. m\<lparr>mb_last_error := Some err, mb_updated_at_unix := now\<rparr>"])
      (use assms RunFailed in \<open>simp_all add: apply_completion_def and_then_Inr_iff update_mailbox_commute run_key_def event_sql_i64_def split: if_splits\<close>)
qed

lemma quiet_run_free: "running_rows db = [] \<Longrightarrow> still db db' \<Longrightarrow> running_rows db' = []"
  by (simp add: still_def running_ids_def)

lemma complete_inv:
  assumes inv: "co_inv c" and flights: "co_flights c = [Finished completion]"
    and run: "apply_completion now completion (co_db c) = Inr db'"
  shows "db_inv db' \<and> cursor_at (co_db c) key \<le> cursor_at db' key \<and> (\<forall>repo. latest_of repo db' = latest_of repo (co_db c))"
  using run
proof (cases rule: apply_completion_cases)
  case (other g h)
  let ?r = "completion_run completion"
  let ?db1 = "update_run (er_run_id ?r) g (co_db c)"
  have db1: "db_inv ?db1"
    using release_run(1) [OF inv flights other(2-5)] by simp
  have "db_inv (update_mailbox ?r h ?db1) \<and> still ?db1 (update_mailbox ?r h ?db1)"
    by (rule db_inv_cong [OF db1 _ cursor_at_stamp [OF other(6-9)]]) (simp_all add: update_mailbox_def)
  moreover note prune_quiet [of "update_mailbox ?r h ?db1"]
  moreover have "latest_of repo db' = latest_of repo (co_db c)" for repo
    unfolding other(1) by (simp add: prune_terminal_runs_def Let_def update_mailbox_def)
  ultimately show ?thesis by (simp add: other(1) still_def)
next
  case (applied r a g)
  let ?db1 = "update_run (er_run_id r) g (co_db c)"
  let ?db2 = "update_mailbox r (\<lambda>m. m\<lparr>mb_last_applied_generation_seq := Some a, mb_last_error := None, mb_updated_at_unix := now\<rparr>) ?db1"
  have flights': "co_flights c = [Finished (RunCompleted r a)]" using flights applied(1) by simp
  have db: "db_inv (co_db c)" and ok: "cursor_at (co_db c) (run_key r) \<le> a" "a \<le> latest_of (er_repo_id r) (co_db c)"
    using inv flights' by (simp_all add: co_inv_def)
  have stays: "er_status (g u) = EvQueued \<Longrightarrow> er_from_generation_seq (g u) = er_from_generation_seq u \<and>
      er_reconcile_mode (g u) = er_reconcile_mode u" for u
    using applied(6) by blast
  have db1: "db_inv ?db1" using release_run(1) [OF inv flights' applied(3-5) stays] by simp
  have free: "run_key (sn_record s) \<noteq> run_key r" if "s \<in> set (db_runs ?db1)" "run_active (sn_record s)" for s
    using release_run(3) [OF inv flights' applied(3-5) stays applied(6), of s] that by simp
  have moved: "cursor_at ?db2 k = a \<and> k = run_key r \<or> cursor_at ?db2 k = cursor_at (co_db c) k" for k
    by (simp add: cursor_at_advance)
  have latest: "latest_of repo ?db2 = latest_of repo (co_db c)" for repo by (simp add: update_mailbox_def)
  have le: "cursor_at (co_db c) k \<le> latest_of (fst k) (co_db c)" for k using db unfolding db_inv_def by blast
  have "cursor_at ?db2 k \<le> latest_of (fst k) ?db2" for k
    using moved [of k] ok(2) le [of k] by (auto simp: latest run_key_def)
  moreover have "run_bounded ?db2 (sn_record s)" if "s \<in> set (db_runs ?db1)" for s
  proof -
    have "run_bounded ?db1 (sn_record s)" using db1 that unfolding db_inv_def by blast
    then show ?thesis using free [OF that] moved [of "run_key (sn_record s)"] by (auto simp: run_bounded_def)
  qed
  moreover have runs: "db_runs ?db2 = db_runs ?db1" by (simp add: update_mailbox_def)
  ultimately have "db_inv ?db2" using db1 unfolding db_inv_def running_rows_def by simp
  from prune_quiet [OF this] have "db_inv db'" "cursor_at db' = cursor_at ?db2" by (simp_all add: applied(2) still_def)
  moreover have "latest_of repo db' = latest_of repo (co_db c)" for repo
    using latest unfolding applied(2) by (simp add: prune_terminal_runs_def Let_def)
  moreover have "cursor_at (co_db c) key \<le> cursor_at ?db2 key" using moved [of key] ok(1) by auto
  ultimately show ?thesis by simp
qed

text \<open>A restart queues the running runs again.\<close>

lemma recover_inv:
  assumes inv: "db_inv db" and run: "recover_running_runs now db = Inr db'"
  shows "db_inv db' \<and> cursor_at db' = cursor_at db \<and> (\<forall>repo. latest_of repo db' = latest_of repo db)"
proof -
  define g where "g s = (if er_status (sn_record s) = EvRunning
    then s\<lparr>sn_record := (sn_record s)\<lparr>er_status := EvQueued, er_started_at_unix := None, er_updated_at_unix := now\<rparr>\<rparr> else s)"
    for s :: stored_run
  have db': "db' = db\<lparr>db_runs := map g (db_runs db)\<rparr>"
    using run by (auto simp: recover_running_runs_def g_def [abs_def] event_sql_i64_def split: if_splits)
  have g: "er_run_id (sn_record (g s)) = er_run_id (sn_record s)" "run_key (sn_record (g s)) = run_key (sn_record s)"
    "run_active (sn_record (g s)) = run_active (sn_record s)" "run_bounded db (sn_record (g s)) = run_bounded db (sn_record s)"
    "er_status (sn_record (g s)) \<noteq> EvRunning" for s
    by (simp_all add: g_def run_active_def run_bounded_def run_full_def run_key_def)
  have "one_active (db_runs db)" using inv by (simp add: db_inv_def)
  then have "one_active (map g (db_runs db))" unfolding one_active_def set_map ball_simps(9) g .
  moreover have "running_rows db' = []" by (simp add: db' running_rows_def filter_empty_conv g)
  moreover have "run_bounded db' r = run_bounded db r" for r by (simp add: run_bounded_def db')
  ultimately show ?thesis using inv unfolding db_inv_def by (simp add: db' g comp_def)
qed

subsection \<open>Every step\<close>

lemma finish_ok:
  assumes "flight_ok db (Executing x)"
  shows "flight_ok db (Finished (finish_flight x outcome))"
proof (cases outcome)
  case (Inr applied)
  then show ?thesis using assms
    by (simp add: finish_flight_def terminal_or_retry_def validate_consumer_result_def)
qed (simp add: finish_flight_def terminal_or_retry_def)

lemma finish_run: "flight_run (Finished (finish_flight x outcome)) = xp_record x"
  by (simp add: finish_flight_def terminal_or_retry_def split: sum.split)

definition progress :: "coordinator \<Rightarrow> coordinator \<Rightarrow> bool" where
  "progress c c' \<longleftrightarrow> (\<forall>key. cursor_at (co_db c) key \<le> cursor_at (co_db c') key) \<and>
     (\<forall>repo. latest_of repo (co_db c) \<le> latest_of repo (co_db c'))"

lemma step_inv:
  assumes "coordinator_step c c'" "co_inv c"
  shows "co_inv c' \<and> progress c c'"
  using assms
proof (induction rule: coordinator_step.induct)
  case (record_generation regs repo root summary input now c db' runs)
  then have "db_inv db' \<and> still (co_db c) db'" using record_quiet by (auto simp: co_inv_def)
  then show ?case using co_inv_quiet [OF record_generation(2)] by (simp add: progress_def still_def)
next
  case (force_run cq uuid c db' run)
  then have "db_inv db' \<and> still (co_db c) db'" using force_quiet by (auto simp: co_inv_def)
  then show ?case using co_inv_quiet [OF force_run(2)] by (simp add: progress_def still_def)
next
  case (clear_queued c repo)
  then have "db_inv (fst (clear_queued_runs_for_repo repo (co_db c))) \<and> still (co_db c) (fst (clear_queued_runs_for_repo repo (co_db c)))"
    using clear_quiet by (simp add: co_inv_def)
  then show ?case using co_inv_quiet [OF clear_queued] by (simp add: progress_def still_def)
next
  case (launch now c db' claimed)
  then show ?case using launch_inv [OF launch(2,1)] by (simp add: progress_def)
next
  case (plan k c s now db' f)
  note one = one_flight [OF plan(4,1,2)]
  show ?case using plan_inv [OF plan(4) one(2) plan(3)] by (simp add: one progress_def still_def)
next
  case (finish k c x outcome)
  note one = one_flight [OF finish(3,1,2)]
  have "flight_ok (co_db c) (Executing x)" "running_ids (co_db c) = [flight_id (Executing x)]" "db_inv (co_db c)"
    using finish(3) one by (simp_all add: co_inv_def)
  then show ?case using finish_ok [of "co_db c" x outcome] finish_run [of x outcome]
    by (simp add: co_inv_def one progress_def flight_id_def)
next
  case (complete k c completion now db')
  note one = one_flight [OF complete(4,1,2)]
  show ?case using complete_inv [OF complete(4) one(2) complete(3)] by (simp add: one co_inv_def progress_def)
next
  case (complete_lost k c completion now e)
  note one = one_flight [OF complete_lost(4,1,2)]
  show ?case using complete_lost(4) by (simp add: one co_inv_def progress_def)
next
  case (restart now c db')
  have "db_inv (co_db c)" using restart(2) by (simp add: co_inv_def)
  from recover_inv [OF this restart(1)] show ?case by (simp add: co_inv_def progress_def)
qed

lemma reachable_inv: "coordinator_reachable c \<Longrightarrow> co_inv c"
proof -
  have start: "co_inv empty_coordinator"
    by (simp add: co_inv_def db_inv_def empty_coordinator_def running_rows_def one_active_def cursor_at_def
        load_consumer_cursor_def split: prod.split)
  assume "coordinator_reachable c"
  then have "coordinator_step\<^sup>*\<^sup>* empty_coordinator c" by (simp add: coordinator_reachable_def)
  then show "co_inv c"
    by (induction rule: rtranclp_induct) (use start step_inv in blast)+
qed

section \<open>Progress and exclusion\<close>

text \<open>C20: whatever the daemon does with syncs, forced runs, launches, failures, lost completions and restarts, the
  cursor of every consumer only moves forward, and it is never beyond the latest recorded generation of its
  repository.\<close>

theorem consumer_cursors_only_advance:
  assumes "coordinator_reachable c" "coordinator_step c c'"
  shows "cursor_at (co_db c) key \<le> cursor_at (co_db c') key \<and> cursor_at (co_db c') key \<le> latest_of (fst key) (co_db c')"
proof -
  have "co_inv c'" "progress c c'" using step_inv [OF assms(2) reachable_inv [OF assms(1)]] by simp_all
  then show ?thesis unfolding progress_def co_inv_def db_inv_def by blast
qed

text \<open>C21: in every reachable state a mailbox has at most one queued or running run, at most one run of the whole
  daemon is running, and a run in flight is that run.\<close>

theorem consumer_runs_are_exclusive:
  assumes "coordinator_reachable c"
  shows "(s \<in> set (db_runs (co_db c)) \<and> t \<in> set (db_runs (co_db c)) \<and> run_active (sn_record s) \<and> run_active (sn_record t) \<and>
      run_key (sn_record s) = run_key (sn_record t) \<longrightarrow> s = t) \<and>
    length (filter (\<lambda>s. er_status (sn_record s) = EvRunning) (db_runs (co_db c))) \<le> MAX_CONCURRENT_CURRENT_STATE_RUNS \<and>
    (f \<in> set (co_flights c) \<longrightarrow> co_flights c = [f] \<and>
      (\<exists>u \<in> set (db_runs (co_db c)). er_status (sn_record u) = EvRunning \<and> er_run_id (sn_record u) = er_run_id (flight_run f)))"
proof -
  have inv: "co_inv c" using reachable_inv [OF assms] .
  then have db: "db_inv (co_db c)" by (simp add: co_inv_def)
  have "s = t" if "s \<in> set (db_runs (co_db c))" "t \<in> set (db_runs (co_db c))" "run_active (sn_record s)" "run_active (sn_record t)"
    "run_key (sn_record s) = run_key (sn_record t)"
    using row_of_id [OF db that(1,2)] one_activeD [OF _ that] db by (simp add: db_inv_def)
  moreover have "length (running_rows (co_db c)) \<le> 1" using db by (simp add: db_inv_def)
  moreover have "co_flights c = [f] \<and> (\<exists>u \<in> set (db_runs (co_db c)). er_status (sn_record u) = EvRunning \<and>
      er_run_id (sn_record u) = er_run_id (flight_run f))" if f: "f \<in> set (co_flights c)"
  proof -
    obtain k where "k < length (co_flights c)" "co_flights c ! k = f" using f unfolding in_set_conv_nth by blast
    then have one: "co_flights c = [f]" using one_flight [OF inv] by simp
    then show ?thesis using flight_row [OF inv one] by auto
  qed
  ultimately show ?thesis by (auto simp: running_rows_def MAX_CONCURRENT_CURRENT_STATE_RUNS_def)
qed

text \<open>C22: when no run is running, a launch takes exactly the first queued run in submission order whose back-off is
  over, counts the attempt and marks it running; when none is due, or when a run is already running, it changes
  nothing.\<close>

theorem launch_takes_first_due_run:
  assumes "now < 2 ^ 63"
  shows "launch_runnable_runs now db =
    (if \<exists>s \<in> set (db_runs db). er_status (sn_record s) = EvRunning then Inr (db, [])
     else case find (run_due now) (queued_in_order db) of
        None \<Rightarrow> Inr (db, [])
      | Some s \<Rightarrow> Inr (update_run (er_run_id (sn_record s)) (start_run now (er_attempts (sn_record s) + 1)) db,
          [s\<lparr>sn_record := claimed_run now (sn_record s)\<rparr>]))"
proof -
  have "(\<exists>s \<in> set (db_runs db). er_status (sn_record s) = EvRunning) \<longleftrightarrow> running_rows db \<noteq> []"
    by (auto simp: running_rows_def filter_empty_conv)
  then show ?thesis using assms launch_busy [of db now] launch_idle [of db now]
    by (simp add: event_sql_i64_def split: option.split)
qed

section \<open>A generation recorded while a run executes\<close>

text \<open>A consumer of one repository with two syncs: the first queues a run, which is claimed and planned; the second
  comes while the run executes; then the run completes.\<close>

definition sample_registration :: "mailbox_registration \<times> string" where
  "sample_registration = (\<lparr>mr_capability_id = ''c'', mr_mailbox_name = ''m'', mr_policy = CursorMailbox,
     mr_handler = CurrentStateConsumer ''h'', mr_init_policy = BackgroundInit\<rparr>, ''1'')"

definition sample_summary :: sync_summary where
  "sample_summary = \<lparr>ss_success = True, ss_mode = ''auto'', ss_parser_version = [], ss_extractor_version = [],
     ss_active_branch = None, ss_head_commit_sha = None, ss_head_tree_sha = None, ss_paths_unchanged = 0, ss_paths_added = 0,
     ss_paths_changed = 0, ss_paths_removed = 0, ss_cache_hits = 0, ss_cache_misses = 0, ss_parse_errors = 0,
     ss_validation = None\<rparr>"

definition sample_sync :: "changed_file list \<Rightarrow> sync_generation_input" where
  "sample_sync files = \<lparr>gi_file_diff = \<lparr>fd_added = files, fd_changed = [], fd_removed = []\<rparr>,
     gi_artefact_diff = \<lparr>ad_added = [], ad_changed = [], ad_removed = []\<rparr>, gi_source_task_id = None, gi_init_session_id = None\<rparr>"

definition sample_consumer :: "nat \<Rightarrow> consumer_run_request" where
  "sample_consumer now = \<lparr>cq_repo_id = ''r'', cq_repo_root = ''/'', cq_capability_id = ''c'', cq_mailbox_name = ''m'',
     cq_handler_id = ''h'', cq_init_session_id = None, cq_now = now\<rparr>"

definition sample_generation :: "nat \<Rightarrow> nat \<Rightarrow> generation_row" where
  "sample_generation seq now = \<lparr>gr_repo_id = ''r'', gr_generation_seq = seq, gr_source_task_id = None, gr_sync_mode = ''auto'',
     gr_active_branch = None, gr_head_commit_sha = None, gr_requires_full_reconcile = False, gr_created_at_unix = now\<rparr>"

definition sample_mailbox :: "nat option \<Rightarrow> nat \<Rightarrow> mailbox_row" where
  "sample_mailbox applied now = \<lparr>mb_repo_id = ''r'', mb_capability_id = ''c'', mb_mailbox_name = ''m'',
     mb_last_applied_generation_seq = applied, mb_last_error = None, mb_updated_at_unix = now\<rparr>"

definition sample_file :: changed_file where
  "sample_file = \<lparr>cf_path = ''a'', cf_language = ''l'', cf_content_id = ''x''\<rparr>"

definition sample_change :: file_change_row where
  "sample_change = \<lparr>fr_repo_id = ''r'', fr_generation_seq = 2, fr_path = ''a'', fr_change_kind = ''added'',
     fr_language = Some ''l'', fr_content_id = Some ''x''\<rparr>"

definition sample_run :: "(event_run \<Rightarrow> event_run) \<Rightarrow> stored_run" where
  "sample_run f = (new_run (sample_consumer 10) ''1'' 0 1 ''merged_delta'')\<lparr>sn_record :=
     f (sn_record (new_run (sample_consumer 10) ''1'' 0 1 ''merged_delta''))\<rparr>"

definition sample_db :: "generation_row list \<Rightarrow> file_change_row list \<Rightarrow> mailbox_row \<Rightarrow> (event_run \<Rightarrow> event_run) \<Rightarrow> event_db" where
  "sample_db generations changes mailbox f = \<lparr>db_generations = generations, db_file_changes = changes, db_artefact_changes = [],
     db_mailboxes = [mailbox], db_runs = [sample_run f]\<rparr>"

definition planned_full :: "event_run \<Rightarrow> event_run" where
  "planned_full r = (start_run 11 1 r)\<lparr>er_reconcile_mode := ''full_reconcile'', er_updated_at_unix := 12\<rparr>"

definition completed_full :: "event_run \<Rightarrow> event_run" where
  "completed_full r = (planned_full r)\<lparr>er_status := EvCompleted, er_updated_at_unix := 14, er_completed_at_unix := Some 14\<rparr>"

definition sample_plan :: execution_plan where
  "sample_plan = \<lparr>xp_record = (start_run 11 1 (sn_record (sample_run (\<lambda>r. r))))\<lparr>er_handler_id := ''m'',
       er_reconcile_mode := ''full_reconcile''\<rparr>, xp_repo_root = ''/'',
     xp_request = \<lparr>rq_run_id = Some ''current-state-consumer-run-1'', rq_repo_id = ''r'', rq_repo_root = ''/'',
       rq_active_branch = None, rq_head_commit_sha = None, rq_from_generation_seq_exclusive = 0,
       rq_to_generation_seq_inclusive = 1, rq_reconcile_mode = FullReconcile, rq_file_upserts = [], rq_file_removals = [],
       rq_affected_paths = [], rq_artefact_upserts = [], rq_artefact_removals = []\<rparr>\<rparr>"

text \<open>The five states.\<close>

definition after_first_sync :: coordinator where
  "after_first_sync = \<lparr>co_db = sample_db [sample_generation 1 10] [] (sample_mailbox None 10) (\<lambda>r. r), co_flights = []\<rparr>"

definition after_launch :: coordinator where
  "after_launch = \<lparr>co_db = sample_db [sample_generation 1 10] [] (sample_mailbox None 10) (start_run 11 1),
     co_flights = [Claimed (load_run (sample_run (start_run 11 1)))]\<rparr>"

definition after_plan :: coordinator where
  "after_plan = \<lparr>co_db = sample_db [sample_generation 1 10] [] (sample_mailbox None 10) planned_full,
     co_flights = [Executing sample_plan]\<rparr>"

definition after_second_sync :: coordinator where
  "after_second_sync = \<lparr>co_db = sample_db [sample_generation 1 10, sample_generation 2 13] [sample_change]
     (sample_mailbox None 13) planned_full, co_flights = [Executing sample_plan]\<rparr>"

definition after_completion :: coordinator where
  "after_completion = \<lparr>co_db = sample_db [sample_generation 1 10, sample_generation 2 13] [sample_change]
     (sample_mailbox (Some 1) 14) completed_full, co_flights = []\<rparr>"

lemmas sample_defs = sample_registration_def sample_summary_def sample_sync_def sample_consumer_def sample_generation_def
  sample_mailbox_def sample_file_def sample_change_def sample_run_def sample_db_def planned_full_def completed_full_def
  new_run_def start_run_def build_lane_key_def

lemmas table_defs = latest_generation_seq_def repo_generations_def load_consumer_cursor_def is_mailbox_def event_sql_i64_def
  load_active_run_for_lane_def load_runs_def load_run_def is_active_run_of_def update_run_def prune_terminal_runs_def
  is_terminal_status_def

lemmas record_defs = record_sync_generation_def next_generation_seq_def insert_file_changes_def file_change_rows_def
  insert_artefact_changes_def artefact_change_rows_def schedule_consumer_def upsert_consumer_row_def ensure_consumer_run_def
  insert_run_def

lemma sample_record_first:
  "record_sync_generation [sample_registration] ''r'' ''/'' sample_summary (sample_sync []) 10 (co_db empty_coordinator) =
     Inr (co_db after_first_sync, [sn_record (sample_run (\<lambda>r. r))])"
  by (simp add: empty_coordinator_def after_first_sync_def sample_defs table_defs record_defs Let_def)

lemma sample_launch: "launch_runnable_runs 11 (co_db after_first_sync) =
    Inr (co_db after_launch, [load_run (sample_run (start_run 11 1))])"
  by (simp add: after_first_sync_def after_launch_def sample_defs table_defs launch_runnable_runs_def load_claimable_runs_def
      MAX_CONCURRENT_CURRENT_STATE_RUNS_def retry_backoff_seconds_def claimed_run_def Let_def)

lemma sample_planning: "plan_flight 12 (load_run (sample_run (start_run 11 1))) (co_db after_launch) = (co_db after_plan, Executing sample_plan)"
  by (simp add: plan_flight_def build_execution_plan_def after_launch_def after_plan_def sample_plan_def sample_defs table_defs
      plan_from_def load_generations_def rows_in_range_def changes_for_run_def plan_changes_def
      architecture_graph_same_session_follow_up_delta_enabled_def planned_run_def planned_request_def
      load_distinct_changed_paths_def load_file_changes_def load_artefact_changes_def bs_of_list_def Let_def)

lemma sample_record_second:
  "record_sync_generation [sample_registration] ''r'' ''/'' sample_summary (sample_sync [sample_file]) 13 (co_db after_plan) =
     Inr (co_db after_second_sync, [])"
  by (simp add: after_plan_def after_second_sync_def sample_defs table_defs record_defs Let_def)

lemma sample_completion:
  "apply_completion 14 (finish_flight sample_plan (Inr 1)) (co_db after_second_sync) = Inr (co_db after_completion)"
  by (simp add: apply_completion_def finish_flight_def validate_consumer_result_def update_mailbox_def after_second_sync_def
      after_completion_def sample_plan_def sample_defs table_defs Let_def)

lemma sample_reachable: "coordinator_reachable after_plan" "coordinator_reachable after_completion"
proof -
  have "coordinator_step empty_coordinator after_first_sync"
    using coordinator_step.record_generation [OF sample_record_first]
    by (simp add: empty_coordinator_def after_first_sync_def)
  moreover have "coordinator_step after_first_sync after_launch"
    using coordinator_step.launch [OF sample_launch]
    by (simp add: after_first_sync_def after_launch_def)
  moreover have "coordinator_step after_launch after_plan"
    using coordinator_step.plan [of 0 after_launch, OF _ _ sample_planning] by (simp add: after_launch_def after_plan_def)
  ultimately show plan: "coordinator_reachable after_plan"
    unfolding coordinator_reachable_def by (meson rtranclp.rtrancl_refl rtranclp.rtrancl_into_rtrancl)
  have "coordinator_step after_plan after_second_sync"
    using coordinator_step.record_generation [OF sample_record_second] by (simp add: after_plan_def after_second_sync_def)
  moreover have "coordinator_step after_second_sync (after_second_sync\<lparr>co_flights := [Finished (finish_flight sample_plan (Inr 1))]\<rparr>)"
    using coordinator_step.finish [of 0 after_second_sync sample_plan "Inr 1"] by (simp add: after_second_sync_def)
  moreover have "coordinator_step (after_second_sync\<lparr>co_flights := [Finished (finish_flight sample_plan (Inr 1))]\<rparr>) after_completion"
    using coordinator_step.complete [of 0 "after_second_sync\<lparr>co_flights := [Finished (finish_flight sample_plan (Inr 1))]\<rparr>"
        "finish_flight sample_plan (Inr 1)" 14 "co_db after_completion"] sample_completion
    by (simp add: after_second_sync_def after_completion_def)
  ultimately show "coordinator_reachable after_completion" using plan
    unfolding coordinator_reachable_def by (meson rtranclp.rtrancl_into_rtrancl)
qed

text \<open>A generation can be left behind. A run of the daemon exists after which a consumer's cursor is behind the
  latest generation, the missing generation is recorded, no run is queued or running, and a launch at any time does
  nothing: the generation was recorded while a run of the consumer was executing, when no run is queued for it, and
  the completion of that run queues none either.\<close>

theorem recorded_generation_can_be_left_behind:
  "\<exists>c. coordinator_reachable c \<and> co_flights c = [] \<and>
     cursor_at (co_db c) (''r'', ''c'', ''m'') < latest_of ''r'' (co_db c) \<and>
     load_file_changes ''r'' 2 2 (co_db c) = [sample_change] \<and>
     filter (run_active \<circ> sn_record) (db_runs (co_db c)) = [] \<and>
     (\<forall>now. launch_runnable_runs now (co_db c) = Inr (co_db c, []))"
proof (intro exI conjI)
  show "coordinator_reachable after_completion" by (rule sample_reachable)
  show "cursor_at (co_db after_completion) (''r'', ''c'', ''m'') < latest_of ''r'' (co_db after_completion)"
    by (simp add: cursor_at_def latest_of_def after_completion_def sample_defs table_defs)
  show "load_file_changes ''r'' 2 2 (co_db after_completion) = [sample_change]"
    by (simp add: load_file_changes_def rows_in_range_def after_completion_def sample_defs)
  show "filter (run_active \<circ> sn_record) (db_runs (co_db after_completion)) = []"
    by (simp add: after_completion_def sample_defs run_active_def)
  show "\<forall>now. launch_runnable_runs now (co_db after_completion) = Inr (co_db after_completion, [])"
    by (simp add: after_completion_def sample_defs table_defs launch_runnable_runs_def load_claimable_runs_def)
qed (simp add: after_completion_def)

theorem consumer_cursors_only_advance_witness:
  "\<exists>c'. coordinator_step after_completion c' \<and>
     cursor_at (co_db after_completion) (''r'', ''c'', ''m'') \<le> cursor_at (co_db c') (''r'', ''c'', ''m'') \<and>
     cursor_at (co_db c') (''r'', ''c'', ''m'') \<le> latest_of ''r'' (co_db c')"
  using coordinator_step.clear_queued [of after_completion "''r''"]
    consumer_cursors_only_advance [OF sample_reachable(2) coordinator_step.clear_queued [of after_completion "''r''"],
      of "(''r'', ''c'', ''m'')"]
  by auto

theorem consumer_runs_are_exclusive_witness:
  "length (filter (\<lambda>s. er_status (sn_record s) = EvRunning) (db_runs (co_db after_plan))) \<le> MAX_CONCURRENT_CURRENT_STATE_RUNS \<and>
   (\<exists>u \<in> set (db_runs (co_db after_plan)). er_status (sn_record u) = EvRunning \<and>
      er_run_id (sn_record u) = er_run_id (flight_run (Executing sample_plan)))"
  using consumer_runs_are_exclusive [OF sample_reachable(1), of undefined undefined "Executing sample_plan"]
  by (simp add: after_plan_def)

theorem launch_takes_first_due_run_witness:
  "launch_runnable_runs 11 (co_db after_first_sync) =
     Inr (co_db after_launch, [(load_run (sample_run (\<lambda>r. r)))\<lparr>sn_record := claimed_run 11 (sn_record (load_run (sample_run (\<lambda>r. r))))\<rparr>])"
proof -
  have "find (run_due 11) (queued_in_order (co_db after_first_sync)) = Some (load_run (sample_run (\<lambda>r. r)))"
    by (simp add: queued_in_order_def run_due_def retry_backoff_seconds_def after_first_sync_def sample_defs table_defs)
  then show ?thesis using launch_takes_first_due_run [of 11 "co_db after_first_sync"]
    by (simp add: after_first_sync_def after_launch_def sample_defs table_defs)
qed

section \<open>A merged delta at work\<close>

definition delta_run :: stored_run where
  "delta_run = sample_run (\<lambda>r. (start_run 11 1 r)\<lparr>er_from_generation_seq := 1, er_to_generation_seq := 2\<rparr>)"

definition delta_db :: event_db where
  "delta_db = sample_db [sample_generation 1 10, sample_generation 2 13] [sample_change] (sample_mailbox (Some 1) 14)
     (\<lambda>r. (start_run 11 1 r)\<lparr>er_from_generation_seq := 1, er_to_generation_seq := 2\<rparr>)"

lemma delta_plan: "build_execution_plan 15 (sn_record delta_run) ''/'' delta_db =
    Inr (sample_db [sample_generation 1 10, sample_generation 2 13] [sample_change] (sample_mailbox (Some 1) 14)
       (\<lambda>r. (start_run 11 1 r)\<lparr>er_from_generation_seq := 1, er_to_generation_seq := 2, er_updated_at_unix := 15\<rparr>),
     Some \<lparr>xp_record = sn_record delta_run, xp_repo_root = ''/'',
       xp_request = \<lparr>rq_run_id = Some ''current-state-consumer-run-1'', rq_repo_id = ''r'', rq_repo_root = ''/'',
         rq_active_branch = None, rq_head_commit_sha = None, rq_from_generation_seq_exclusive = 1,
         rq_to_generation_seq_inclusive = 2, rq_reconcile_mode = MergedDelta, rq_file_upserts = [sample_file],
         rq_file_removals = [], rq_affected_paths = [], rq_artefact_upserts = [], rq_artefact_removals = []\<rparr>\<rparr>)"
  by (simp add: build_execution_plan_def delta_run_def delta_db_def sample_defs table_defs
      plan_from_def load_generations_def rows_in_range_def changes_for_run_def plan_changes_def
      architecture_graph_same_session_follow_up_delta_enabled_def planned_run_def planned_request_def
      determine_reconcile_mode_with_generation_policy_def FULL_RECONCILE_GENERATION_SPAN_THRESHOLD_def
      FULL_RECONCILE_FILE_CHANGE_THRESHOLD_def FULL_RECONCILE_ARTEFACT_CHANGE_THRESHOLD_def count_file_changes_def
      count_artefact_changes_def merge_file_changes_def merge_artefact_changes_def file_change_of_def
      load_distinct_changed_paths_def load_file_changes_def load_artefact_changes_def bt_values_def Let_def)

theorem merged_delta_replays_generations_witness:
  "foldl replay_file_row (\<lambda>_. None) (load_file_changes ''r'' 2 2 delta_db) ''a'' = Some sample_file"
proof -
  note replayed = merged_delta_replays_generations [OF delta_plan, of "\<lambda>_. None" "\<lambda>_. None"]
  have "foldl replay_file_row (\<lambda>_. None) (load_file_changes ''r'' (1 + 1) 2 delta_db) = [''a'' \<mapsto> sample_file]"
    using replayed by (simp add: deliver_files_def delta_run_def sample_run_def new_run_def start_run_def sample_consumer_def
        sample_file_def del: One_nat_def add_Suc_right add_2_eq_Suc')
  then show ?thesis by (simp add: numeral_2_eq_2)
qed

end
