(* ===== verification/DevqlQuery.thy ===== *)
theory DevqlQuery
  imports OrdMap
begin

text \<open>
  The DevQL query language, \<open>host/devql/query/parser.rs\<close>: a query is a pipeline of stages separated by arrows, each
  a name with named or positional arguments in parentheses, read into one record of filters. The vocabulary of edge
  kinds and directions is that of \<open>host/devql/vocab.rs\<close>. Reading a 32-bit float is an argument: the text it is
  displayed as, or nothing for text that is no number.
\<close>

section \<open>Text\<close>

definition dquote :: char where "dquote = CHR 0x22"
definition squote :: char where "squote = CHR 0x27"

definition is_ascii_alphanumeric :: "char \<Rightarrow> bool" where
  "is_ascii_alphanumeric c \<longleftrightarrow> is_digit c \<or> is_ascii_upper c \<or> is_ascii_lower c"

text \<open>\<open>s.split("->")\<close>\<close>

fun split_arrow :: "string \<Rightarrow> string list" where
  "split_arrow [] = [[]]"
| "split_arrow [c] = [[c]]"
| "split_arrow (c # d # s) =
     (if c = CHR ''-'' \<and> d = CHR ''>'' then [] # split_arrow s
      else (case split_arrow (d # s) of [] \<Rightarrow> [[c]] | p # ps \<Rightarrow> (c # p) # ps))"

text \<open>\<open>s.split_once(p)\<close>\<close>

fun split_once :: "string \<Rightarrow> string \<Rightarrow> (string \<times> string) option" where
  "split_once p [] = (if p = [] then Some ([], []) else None)"
| "split_once p (c # s) =
     (case strip_prefix p (c # s) of Some rest \<Rightarrow> Some ([], rest)
      | None \<Rightarrow> map_option (\<lambda>(before, after). (c # before, after)) (split_once p s))"

text \<open>\<open>s.parse::<iN>()\<close>: an optional sign, at least one digit, no overflow.\<close>

definition parse_signed :: "nat \<Rightarrow> string \<Rightarrow> int option" where
  "parse_signed w s =
     (let (negative, ds) = (case s of [] \<Rightarrow> (False, []) | c # cs \<Rightarrow>
            if c = CHR ''-'' then (True, cs) else if c = CHR ''+'' then (False, cs) else (False, s));
          v = (if negative then - int (digits_value ds) else int (digits_value ds))
      in if ds = [] \<or> \<not> list_all is_digit ds then None
         else if - (2 ^ (w - 1)) \<le> v \<and> v < 2 ^ (w - 1) then Some v else None)"

section \<open>Vocabulary (vocab.rs)\<close>

datatype deps_kind = Imports | Calls | References | Extends | Implements | Exports

datatype deps_direction = DepsOut | DepsIn | DepsBoth

fun deps_kind_as_str :: "deps_kind \<Rightarrow> string" where
  "deps_kind_as_str Imports = ''imports''"
| "deps_kind_as_str Calls = ''calls''"
| "deps_kind_as_str References = ''references''"
| "deps_kind_as_str Extends = ''extends''"
| "deps_kind_as_str Implements = ''implements''"
| "deps_kind_as_str Exports = ''exports''"

definition deps_kind_from_str :: "string \<Rightarrow> deps_kind option" where
  "deps_kind_from_str value =
     (let v = to_ascii_lowercase (trim value) in
      if v = ''imports'' then Some Imports else if v = ''calls'' then Some Calls
      else if v = ''references'' then Some References else if v = ''extends'' \<or> v = ''inherits'' then Some Extends
      else if v = ''implements'' then Some Implements else if v = ''exports'' then Some Exports else None)"

fun deps_direction_as_str :: "deps_direction \<Rightarrow> string" where
  "deps_direction_as_str DepsOut = ''out''"
| "deps_direction_as_str DepsIn = ''in''"
| "deps_direction_as_str DepsBoth = ''both''"

definition deps_direction_from_str :: "string \<Rightarrow> deps_direction option" where
  "deps_direction_from_str value =
     (let v = to_ascii_lowercase (trim value) in
      if v = ''out'' then Some DepsOut else if v = ''in'' then Some DepsIn else if v = ''both'' then Some DepsBoth else None)"

definition deps_kind_names :: "string list" where
  "deps_kind_names = map deps_kind_as_str [Imports, Calls, References, Extends, Implements, Exports]"

definition deps_direction_names :: "string list" where
  "deps_direction_names = map deps_direction_as_str [DepsOut, DepsIn, DepsBoth]"

section \<open>Parsed queries\<close>

type_synonym stage_args = "(string, string) btree"

datatype as_of_selector = AsOfRef string | AsOfCommit string | AsOfSaveCurrent | AsOfSaveRevision string

record artefact_filter =
  af_kind :: "string option"
  af_symbol_fqn :: "string option"
  af_lines :: "(int \<times> int) option"
  af_agent :: "string option"
  af_since :: "string option"

record select_artefacts_filter =
  sa_symbol_fqn :: "string option"
  sa_search :: "string option"
  sa_search_mode :: "string option"
  sa_path :: "string option"
  sa_lines :: "(int \<times> int) option"

record clone_filter =
  cl_relation_kind :: "string option"
  cl_min_score :: "string option"
  cl_neighbors :: "int option"
  cl_raw :: bool

record checkpoint_filter =
  ck_agent :: "string option"
  ck_since :: "string option"

record historical_context_filter =
  hc_agent :: "string option"
  hc_since :: "string option"
  hc_evidence_kind :: "string option"

record context_guidance_filter =
  cg_agent :: "string option"
  cg_since :: "string option"
  cg_evidence_kind :: "string option"
  cg_category :: "string option"
  cg_kind :: "string option"

record telemetry_filter =
  tl_event_type :: "string option"
  tl_agent :: "string option"
  tl_since :: "string option"

record deps_filter =
  df_kind :: "deps_kind option"
  df_direction :: deps_direction
  df_include_unresolved :: bool

record registered_stage_call =
  rs_stage_name :: string
  rs_args :: stage_args

record parsed_query =
  pq_repo :: "string option"
  pq_project_path :: "string option"
  pq_as_of :: "as_of_selector option"
  pq_select_artefacts :: "select_artefacts_filter option"
  pq_file :: "string option"
  pq_files_path :: "string option"
  pq_artefacts :: artefact_filter
  pq_clones :: clone_filter
  pq_checkpoints :: checkpoint_filter
  pq_historical_context :: historical_context_filter
  pq_context_guidance :: context_guidance_filter
  pq_telemetry :: telemetry_filter
  pq_deps :: deps_filter
  pq_has_artefacts_stage :: bool
  pq_has_clones_stage :: bool
  pq_has_deps_stage :: bool
  pq_has_checkpoints_stage :: bool
  pq_has_historical_context_stage :: bool
  pq_has_context_guidance_stage :: bool
  pq_has_telemetry_stage :: bool
  pq_has_chat_history_stage :: bool
  pq_registered_stages :: "registered_stage_call list"
  pq_limit :: nat
  pq_has_limit_stage :: bool
  pq_select_fields :: "string list"

definition deps_filter_default :: deps_filter where
  "deps_filter_default = \<lparr>df_kind = None, df_direction = DepsOut, df_include_unresolved = True\<rparr>"

definition initial_query :: parsed_query where
  "initial_query = \<lparr>pq_repo = None, pq_project_path = None, pq_as_of = None, pq_select_artefacts = None, pq_file = None,
     pq_files_path = None,
     pq_artefacts = \<lparr>af_kind = None, af_symbol_fqn = None, af_lines = None, af_agent = None, af_since = None\<rparr>,
     pq_clones = \<lparr>cl_relation_kind = None, cl_min_score = None, cl_neighbors = None, cl_raw = False\<rparr>,
     pq_checkpoints = \<lparr>ck_agent = None, ck_since = None\<rparr>,
     pq_historical_context = \<lparr>hc_agent = None, hc_since = None, hc_evidence_kind = None\<rparr>,
     pq_context_guidance = \<lparr>cg_agent = None, cg_since = None, cg_evidence_kind = None, cg_category = None, cg_kind = None\<rparr>,
     pq_telemetry = \<lparr>tl_event_type = None, tl_agent = None, tl_since = None\<rparr>,
     pq_deps = deps_filter_default, pq_has_artefacts_stage = False, pq_has_clones_stage = False,
     pq_has_deps_stage = False, pq_has_checkpoints_stage = False, pq_has_historical_context_stage = False,
     pq_has_context_guidance_stage = False, pq_has_telemetry_stage = False, pq_has_chat_history_stage = False,
     pq_registered_stages = [], pq_limit = 100, pq_has_limit_stage = False, pq_select_fields = []\<rparr>"

section \<open>Literals and arguments\<close>

definition parse_single_quoted_or_double :: "string \<Rightarrow> (string, string) result" where
  "parse_single_quoted_or_double input =
     (let s = trim input; err = Inl (''expected quoted string, got: '' @ input)
      in if length s < 2 then err
         else if (hd s = dquote \<and> last s = dquote) \<or> (hd s = squote \<and> last s = squote) then Inr (butlast (tl s))
         else err)"

definition parse_lines_range :: "string \<Rightarrow> (string, int \<times> int) result" where
  "parse_lines_range range_text =
     (case split_once ''..'' range_text of
        None \<Rightarrow> Inl (''invalid lines range: '' @ range_text)
      | Some (start, finish) \<Rightarrow>
          (case parse_signed 32 (trim start) of
             None \<Rightarrow> Inl (''invalid line start: '' @ start)
           | Some a \<Rightarrow>
             (case parse_signed 32 (trim finish) of
                None \<Rightarrow> Inl (''invalid line end: '' @ finish)
              | Some b \<Rightarrow> if a \<le> 0 \<or> b \<le> 0 \<or> b < a then Inl (''invalid lines range: '' @ range_text) else Inr (a, b))))"

definition parse_bool_literal :: "string \<Rightarrow> string \<Rightarrow> (string, bool) result" where
  "parse_bool_literal field_name value =
     (let v = to_ascii_lowercase (trim value) in
      if v = ''1'' \<or> v = ''true'' \<or> v = ''yes'' then Inr True
      else if v = ''0'' \<or> v = ''false'' \<or> v = ''no'' then Inr False
      else Inl (''invalid boolean value for '' @ field_name @ '': '' @ value))"

text \<open>Commas separate arguments outside quotes: the current piece, the finished pieces and the open quote.\<close>

fun split_args_step :: "string \<times> string list \<times> char option \<Rightarrow> char \<Rightarrow> string \<times> string list \<times> char option" where
  "split_args_step (current, pieces, quote) c =
     (if c = squote \<or> c = dquote then
        (current @ [c], pieces, case quote of None \<Rightarrow> Some c | Some q \<Rightarrow> if c = q then None else Some q)
      else if c = CHR '','' \<and> quote = None then ([], pieces @ [trim current], quote)
      else (current @ [c], pieces, quote))"

definition split_args :: "string \<Rightarrow> string list" where
  "split_args input =
     (case foldl split_args_step ([], [], None) input of (current, pieces, _) \<Rightarrow>
        if trim current = [] then pieces else pieces @ [trim current])"

definition parse_arg_piece :: "string \<Rightarrow> (string, string \<times> string) result" where
  "parse_arg_piece piece =
     (case split_once '':'' piece of
        None \<Rightarrow> Inl (''invalid argument segment: '' @ piece)
      | Some (key, value) \<Rightarrow>
          let value = trim value in
          and_then (if starts_with [dquote] value \<or> starts_with [squote] value
                    then parse_single_quoted_or_double value else Inr value)
            (\<lambda>v. Inr (trim key, v)))"

definition parse_named_args :: "string \<Rightarrow> (string, stage_args) result" where
  "parse_named_args input =
     (if trim input = [] then Inr []
      else fold_result (\<lambda>piece args. and_then (parse_arg_piece piece) (\<lambda>(k, v). Inr (bt_insert k v args)))
        (split_args input) [])"

definition parse_registered_stage :: "string \<Rightarrow> (string, registered_stage_call option) result" where
  "parse_registered_stage stage =
     (case split_once ''('' stage of
        None \<Rightarrow> Inr None
      | Some (before, after) \<Rightarrow>
          if \<not> ends_with '')'' stage \<or> before = [] then Inr None
          else
            let name = trim before in
            if name = [] \<or> \<not> list_all (\<lambda>c. is_ascii_alphanumeric c \<or> c = CHR ''_'') name then Inr None
            else if starts_with ''__core_'' name then Inr None
            else and_then (parse_named_args (butlast after))
              (\<lambda>args. Inr (Some \<lparr>rs_stage_name = name, rs_args = args\<rparr>)))"

section \<open>Stages\<close>

definition stage_inner :: "string \<Rightarrow> string \<Rightarrow> string option" where
  "stage_inner name stage = Option.bind (strip_prefix (name @ ''('') stage) (strip_suffix '')'')"

definition parse_as_of :: "stage_args \<Rightarrow> (string, as_of_selector) result" where
  "parse_as_of args =
     (case bt_get args ''commit'' of Some commit \<Rightarrow> Inr (AsOfCommit commit) | None \<Rightarrow>
     (case bt_get args ''ref'' of Some reference \<Rightarrow> Inr (AsOfRef reference) | None \<Rightarrow>
     (case bt_get args ''save'' of
        Some save \<Rightarrow>
          if eq_ignore_ascii_case save ''current'' then Inr AsOfSaveCurrent
          else Inl (''asOf(save:...) only supports save:'' @ [dquote] @ ''current'' @ [dquote])
      | None \<Rightarrow>
     (case bt_get args ''saveRevision'' of Some revision \<Rightarrow> Inr (AsOfSaveRevision revision) | None \<Rightarrow>
        Inl ''asOf(...) requires `commit:`, `ref:`, `save:`, or `saveRevision:`''))))"

definition stage_select_artefacts :: "stage_args \<Rightarrow> parsed_query \<Rightarrow> (string, parsed_query) result" where
  "stage_select_artefacts args pq =
     (let pq = (if pq_has_deps_stage pq then pq
            else pq\<lparr>pq_deps := (pq_deps pq)\<lparr>df_direction := DepsBoth, df_include_unresolved := True\<rparr>\<rparr>)
      in and_then (optional parse_lines_range (bt_get args ''lines'')) (\<lambda>span.
           Inr (pq\<lparr>pq_select_artefacts := Some \<lparr>sa_symbol_fqn = bt_get args ''symbol_fqn'',
             sa_search = bt_get args ''search'', sa_search_mode = bt_get args ''search_mode'',
             sa_path = bt_get args ''path'', sa_lines = span\<rparr>\<rparr>)))"

definition stage_artefacts :: "stage_args \<Rightarrow> parsed_query \<Rightarrow> (string, parsed_query) result" where
  "stage_artefacts args pq =
     and_then (optional parse_lines_range (bt_get args ''lines'')) (\<lambda>span.
       Inr (pq\<lparr>pq_has_artefacts_stage := True,
         pq_artefacts := \<lparr>af_kind = bt_get args ''kind'', af_symbol_fqn = bt_get args ''symbol_fqn'',
           af_lines = opt_or span (af_lines (pq_artefacts pq)), af_agent = bt_get args ''agent'',
           af_since = bt_get args ''since''\<rparr>\<rparr>))"

definition stage_clones :: "(string \<Rightarrow> string option) \<Rightarrow> stage_args \<Rightarrow> parsed_query \<Rightarrow> (string, parsed_query) result" where
  "stage_clones f32 args pq =
     and_then (optional (\<lambda>v. case f32 v of None \<Rightarrow> Inl (''invalid clones min_score value: '' @ v) | Some x \<Rightarrow> Inr x)
         (bt_get args ''min_score'')) (\<lambda>min_score.
     and_then (optional (\<lambda>v. case parse_signed 64 v of None \<Rightarrow> Inl (''invalid clones neighbors value: '' @ v) | Some x \<Rightarrow> Inr x)
         (bt_get args ''neighbors'')) (\<lambda>neighbors.
     and_then (optional (parse_bool_literal ''clones raw'') (bt_get args ''raw'')) (\<lambda>raw.
       Inr (pq\<lparr>pq_has_clones_stage := True,
         pq_clones := \<lparr>cl_relation_kind = bt_get args ''relation_kind'',
           cl_min_score = opt_or min_score (cl_min_score (pq_clones pq)),
           cl_neighbors = opt_or neighbors (cl_neighbors (pq_clones pq)),
           cl_raw = unwrap_or raw (cl_raw (pq_clones pq))\<rparr>\<rparr>))))"

definition stage_dependencies :: "stage_args \<Rightarrow> parsed_query \<Rightarrow> (string, parsed_query) result" where
  "stage_dependencies args pq =
     and_then (optional (\<lambda>v. case deps_kind_from_str v of
           None \<Rightarrow> Inl (''dependencies(kind:...) must be one of: '' @ join_on '', '' deps_kind_names) | Some k \<Rightarrow> Inr k)
         (bt_get args ''kind'')) (\<lambda>kind.
     and_then (optional (\<lambda>v. case deps_direction_from_str v of
           None \<Rightarrow> Inl (''dependencies(direction:...) must be one of: '' @ join_on '', '' deps_direction_names) | Some d \<Rightarrow> Inr d)
         (bt_get args ''direction'')) (\<lambda>direction.
       Inr (pq\<lparr>pq_has_deps_stage := True,
         pq_deps := \<lparr>df_kind = opt_or kind (df_kind (pq_deps pq)),
           df_direction = unwrap_or direction (df_direction (pq_deps pq)),
           df_include_unresolved = (case bt_get args ''include_unresolved'' of
               None \<Rightarrow> df_include_unresolved (pq_deps pq)
             | Some v \<Rightarrow> to_ascii_lowercase v = ''1'' \<or> to_ascii_lowercase v = ''true'' \<or> to_ascii_lowercase v = ''yes'')\<rparr>\<rparr>)))"

definition evidence_kind_arg :: "stage_args \<Rightarrow> string option" where
  "evidence_kind_arg args = opt_or (bt_get args ''evidence_kind'') (bt_get args ''evidenceKind'')"

definition stage_checkpoints :: "stage_args \<Rightarrow> parsed_query \<Rightarrow> parsed_query" where
  "stage_checkpoints args pq = pq\<lparr>pq_has_checkpoints_stage := True,
     pq_checkpoints := \<lparr>ck_agent = bt_get args ''agent'', ck_since = bt_get args ''since''\<rparr>\<rparr>"

definition stage_historical_context :: "stage_args \<Rightarrow> parsed_query \<Rightarrow> parsed_query" where
  "stage_historical_context args pq = pq\<lparr>pq_has_historical_context_stage := True,
     pq_historical_context := \<lparr>hc_agent = bt_get args ''agent'', hc_since = bt_get args ''since'',
       hc_evidence_kind = evidence_kind_arg args\<rparr>\<rparr>"

definition stage_context_guidance :: "stage_args \<Rightarrow> parsed_query \<Rightarrow> parsed_query" where
  "stage_context_guidance args pq = pq\<lparr>pq_has_context_guidance_stage := True,
     pq_context_guidance := \<lparr>cg_agent = bt_get args ''agent'', cg_since = bt_get args ''since'',
       cg_evidence_kind = evidence_kind_arg args, cg_category = bt_get args ''category'', cg_kind = bt_get args ''kind''\<rparr>\<rparr>"

definition stage_telemetry :: "stage_args \<Rightarrow> parsed_query \<Rightarrow> parsed_query" where
  "stage_telemetry args pq = pq\<lparr>pq_has_telemetry_stage := True,
     pq_telemetry := \<lparr>tl_event_type = bt_get args ''event_type'', tl_agent = bt_get args ''agent'', tl_since = bt_get args ''since''\<rparr>\<rparr>"

definition select_field_list :: "string \<Rightarrow> string list" where
  "select_field_list inner = filter (\<lambda>s. s \<noteq> []) (map trim (split_on (CHR '','') inner))"

definition stage_limit :: "string \<Rightarrow> parsed_query \<Rightarrow> (string, parsed_query) result" where
  "stage_limit inner pq =
     (case parse_usize (trim inner) of
        None \<Rightarrow> Inl (''invalid limit value: '' @ inner)
      | Some n \<Rightarrow> Inr (pq\<lparr>pq_limit := n, pq_has_limit_stage := True\<rparr>))"

definition stage_registered :: "string \<Rightarrow> parsed_query \<Rightarrow> (string, parsed_query) result" where
  "stage_registered stage pq =
     and_then (parse_registered_stage stage) (\<lambda>call. case call of
        Some call \<Rightarrow> Inr (pq\<lparr>pq_registered_stages := pq_registered_stages pq @ [call]\<rparr>)
      | None \<Rightarrow> Inl (''unsupported DevQL stage: '' @ stage))"

text \<open>The stages with named or quoted arguments, in the order they are tried. An empty argument list is a list of
  arguments: the literal comparisons with \<open>artefacts()\<close>, \<open>clones()\<close> and the like that follow each of them in the code
  are never reached.\<close>

definition core_stages :: "(string \<Rightarrow> string option) \<Rightarrow> (string \<times> (string \<Rightarrow> parsed_query \<Rightarrow> (string, parsed_query) result)) list" where
  "core_stages f32 =
     (let quoted = (\<lambda>f inner pq. and_then (parse_single_quoted_or_double inner) (\<lambda>s. Inr (f s pq)));
          named = (\<lambda>f inner pq. and_then (parse_named_args inner) (\<lambda>args. f args pq));
          total = (\<lambda>f args pq. Inr (f args pq))
      in [(''repo'', quoted (\<lambda>s pq. pq\<lparr>pq_repo := Some s\<rparr>)),
          (''project'', quoted (\<lambda>s pq. pq\<lparr>pq_project_path := Some s\<rparr>)),
          (''asOf'', named (\<lambda>args pq. and_then (parse_as_of args) (\<lambda>a. Inr (pq\<lparr>pq_as_of := Some a\<rparr>)))),
          (''selectArtefacts'', named stage_select_artefacts),
          (''file'', quoted (\<lambda>s pq. pq\<lparr>pq_file := Some s\<rparr>)),
          (''files'', named (total (\<lambda>args pq. pq\<lparr>pq_files_path := bt_get args ''path''\<rparr>))),
          (''artefacts'', named stage_artefacts),
          (''clones'', named (stage_clones f32)),
          (''dependencies'', named stage_dependencies),
          (''checkpoints'', named (total stage_checkpoints)),
          (''historicalContext'', named (total stage_historical_context)),
          (''contextGuidance'', named (total stage_context_guidance)),
          (''telemetry'', named (total stage_telemetry)),
          (''select'', \<lambda>inner pq. Inr (pq\<lparr>pq_select_fields := select_field_list inner\<rparr>)),
          (''limit'', stage_limit)])"

fun find_stage :: "(string \<times> 'a) list \<Rightarrow> string \<Rightarrow> ('a \<times> string) option" where
  "find_stage [] stage = None"
| "find_stage ((name, f) # stages) stage =
     (case stage_inner name stage of Some inner \<Rightarrow> Some (f, inner) | None \<Rightarrow> find_stage stages stage)"

text \<open>\<open>chatHistory()\<close> is compared literally, between the dependencies and the checkpoints; no stage name is a prefix
  of another one's opening, so the order matters to none of them.\<close>

definition parse_stage :: "(string \<Rightarrow> string option) \<Rightarrow> string \<Rightarrow> parsed_query \<Rightarrow> (string, parsed_query) result" where
  "parse_stage f32 stage pq =
     (if stage = ''chatHistory()'' then Inr (pq\<lparr>pq_has_chat_history_stage := True\<rparr>)
      else (case find_stage (core_stages f32) stage of
          Some (f, inner) \<Rightarrow> f inner pq
        | None \<Rightarrow> stage_registered stage pq))"

definition query_stages :: "string \<Rightarrow> string list" where
  "query_stages query = filter (\<lambda>s. s \<noteq> []) (map trim (split_arrow query))"

definition parse_devql_query :: "(string \<Rightarrow> string option) \<Rightarrow> string \<Rightarrow> (string, parsed_query) result" where
  "parse_devql_query f32 query =
     (if query_stages query = [] then Inl ''empty DevQL query''
      else fold_result (parse_stage f32) (query_stages query) initial_query)"

end
