(* ===== verification/DevqlValidate.thy ===== *)
theory DevqlValidate
  imports DevqlQuery
begin

text \<open>
  What a parsed DevQL query may ask of the GraphQL compiler: the registered capability stages it knows
  (\<open>dsl_compiler/types.rs\<close>) and the combinations of stages it accepts (\<open>dsl_compiler/validation.rs\<close>). Every rejection
  has its message; the checks are lists, tried in the order of the code.
\<close>

section \<open>Registered stages\<close>

datatype compile_mode = GlobalMode | SlimMode

record deps_summary_spec =
  ds_kind :: "deps_kind option"
  ds_direction :: "deps_direction option"
  ds_unresolved :: "bool option"

datatype registered_stage_kind =
    CloneSummary
  | DepsSummary deps_summary_spec
  | Tests registered_stage_call
  | Coverage
  | TestsSummary
  | Knowledge registered_stage_call
  | SelectionOverview
  | HttpSearch registered_stage_call
  | HttpContext registered_stage_call
  | HttpHeaderProducers registered_stage_call
  | HttpLifecycleBoundaries registered_stage_call
  | HttpLossyTransforms registered_stage_call
  | HttpPatchImpact registered_stage_call

definition KNOWLEDGE_STAGE_NAME :: string where "KNOWLEDGE_STAGE_NAME = ''knowledge''"
definition CLONE_SUMMARY_STAGE_NAME :: string where "CLONE_SUMMARY_STAGE_NAME = ''summary''"
definition TESTS_SUMMARY_STAGE_NAME :: string where "TESTS_SUMMARY_STAGE_NAME = ''test_harness_tests_summary''"
definition TESTS_STAGE_NAME :: string where "TESTS_STAGE_NAME = ''tests''"
definition COVERAGE_STAGE_NAME :: string where "COVERAGE_STAGE_NAME = ''coverage''"

definition parse_summary_unresolved_flag :: "string \<Rightarrow> (string, bool) result" where
  "parse_summary_unresolved_flag value =
     (case parse_bool_literal ''summary unresolved'' value of
        Inl _ \<Rightarrow> Inl ''summary(unresolved:...) must be boolean true/false'' | Inr b \<Rightarrow> Inr b)"

definition resolve_deps_summary :: "stage_args \<Rightarrow> (string, registered_stage_kind) result" where
  "resolve_deps_summary args =
     (case find (\<lambda>k. k \<notin> {''dependencies'', ''kind'', ''direction'', ''unresolved''}) (bt_keys args) of
        Some key \<Rightarrow> Inl (''summary(dependencies:true, ...) received unsupported argument `'' @ key @
          ''`; allowed args: dependencies, kind, direction, unresolved'')
      | None \<Rightarrow>
         and_then (optional (\<lambda>v. case deps_kind_from_str v of
               None \<Rightarrow> Inl (''summary(kind:...) must be one of: '' @ join_on '', '' deps_kind_names) | Some k \<Rightarrow> Inr k)
             (bt_get args ''kind'')) (\<lambda>kind.
         and_then (optional (\<lambda>v. case deps_direction_from_str v of
               None \<Rightarrow> Inl (''summary(direction:...) must be one of: '' @ join_on '', '' deps_direction_names) | Some d \<Rightarrow> Inr d)
             (bt_get args ''direction'')) (\<lambda>direction.
         and_then (optional parse_summary_unresolved_flag (bt_get args ''unresolved'')) (\<lambda>unresolved.
           Inr (DepsSummary \<lparr>ds_kind = kind, ds_direction = direction, ds_unresolved = unresolved\<rparr>)))))"

definition resolve_summary_stage_kind :: "registered_stage_call \<Rightarrow> (string, registered_stage_kind) result" where
  "resolve_summary_stage_kind stage =
     (case bt_get (rs_args stage) ''dependencies'' of
        None \<Rightarrow>
          if rs_args stage \<noteq> [] then
            Inl ''summary() for clones does not accept arguments; use summary(dependencies:true, ...) for dependency summary''
          else Inr CloneSummary
      | Some deps_arg \<Rightarrow>
          and_then (parse_bool_literal ''summary dependencies'' deps_arg) (\<lambda>enabled.
            if \<not> enabled then Inl ''summary(dependencies:...) requires dependencies:true''
            else resolve_deps_summary (rs_args stage)))"

definition http_stages :: "(string \<times> string \<times> (registered_stage_call \<Rightarrow> registered_stage_kind)) list" where
  "http_stages = [(''overview'', ''overview'', \<lambda>_. SelectionOverview), (''httpSearch'', ''http_search'', HttpSearch),
     (''httpContext'', ''http_context'', HttpContext),
     (''httpHeaderProducers'', ''http_header_producers'', HttpHeaderProducers),
     (''httpLifecycleBoundaries'', ''http_lifecycle_boundaries'', HttpLifecycleBoundaries),
     (''httpLossyTransforms'', ''http_lossy_transforms'', HttpLossyTransforms),
     (''httpPatchImpact'', ''http_patch_impact'', HttpPatchImpact)]"

definition resolve_stage :: "registered_stage_call \<Rightarrow> (string, registered_stage_kind) result" where
  "resolve_stage stage =
     (let name = rs_stage_name stage in
      if name = CLONE_SUMMARY_STAGE_NAME then resolve_summary_stage_kind stage
      else if name = TESTS_STAGE_NAME then Inr (Tests stage)
      else if name = COVERAGE_STAGE_NAME then Inr Coverage
      else if name = TESTS_SUMMARY_STAGE_NAME then Inr TestsSummary
      else if name = KNOWLEDGE_STAGE_NAME then Inr (Knowledge stage)
      else (case find (\<lambda>(camel, snake, _). name = camel \<or> name = snake) http_stages of
          Some (_, _, kind) \<Rightarrow> Inr (kind stage)
        | None \<Rightarrow> Inl (''the GraphQL compiler does not support capability-pack stage `'' @ name @
            ''`; register an explicit typed GraphQL/DSL contribution'')))"

definition resolve_registered_stage :: "parsed_query \<Rightarrow> (string, registered_stage_kind option) result" where
  "resolve_registered_stage pq =
     (case pq_registered_stages pq of
        [] \<Rightarrow> Inr None
      | [stage] \<Rightarrow> and_then (resolve_stage stage) (\<lambda>kind. Inr (Some kind))
      | _ \<Rightarrow> Inl ''the GraphQL compiler does not yet support multiple registered capability-pack stages in one query'')"

fun is_http_direct :: "registered_stage_kind option \<Rightarrow> bool" where
  "is_http_direct (Some (HttpSearch _)) = True"
| "is_http_direct (Some (HttpHeaderProducers _)) = True"
| "is_http_direct (Some (HttpLifecycleBoundaries _)) = True"
| "is_http_direct (Some (HttpLossyTransforms _)) = True"
| "is_http_direct (Some (HttpPatchImpact _)) = True"
| "is_http_direct _ = False"

fun is_tests :: "registered_stage_kind option \<Rightarrow> bool" where
  "is_tests (Some (Tests _)) = True" | "is_tests _ = False"

fun is_deps_summary :: "registered_stage_kind option \<Rightarrow> bool" where
  "is_deps_summary (Some (DepsSummary _)) = True" | "is_deps_summary _ = False"

fun is_knowledge :: "registered_stage_kind option \<Rightarrow> bool" where
  "is_knowledge (Some (Knowledge _)) = True" | "is_knowledge _ = False"

fun is_http_context :: "registered_stage_kind option \<Rightarrow> bool" where
  "is_http_context (Some (HttpContext _)) = True" | "is_http_context _ = False"

fun is_lossy_transforms :: "registered_stage_kind option \<Rightarrow> bool" where
  "is_lossy_transforms (Some (HttpLossyTransforms _)) = True" | "is_lossy_transforms _ = False"

section \<open>Validation\<close>

text \<open>The first check that applies.\<close>

fun first_error :: "(bool \<times> string) list \<Rightarrow> (string, unit) result" where
  "first_error [] = Inr ()"
| "first_error ((bad, message) # checks) = (if bad then Inl message else first_error checks)"

definition CONTEXT_GUIDANCE_CATEGORIES :: "string list" where
  "CONTEXT_GUIDANCE_CATEGORIES = [''decision'', ''constraint'', ''pattern'', ''risk'', ''verification'', ''context'']"

definition CONTEXT_GUIDANCE_EVIDENCE_KINDS :: "string list" where
  "CONTEXT_GUIDANCE_EVIDENCE_KINDS = [''symbol_provenance'', ''file_relation'', ''line_overlap'']"

definition validate_choice :: "string \<Rightarrow> string \<Rightarrow> string list \<Rightarrow> (string, unit) result" where
  "validate_choice label value supported =
     (if to_ascii_lowercase (trim value) \<in> set supported then Inr ()
      else Inl (label @ '' must be one of: '' @ join_on '', '' supported))"

definition optional_check :: "('a \<Rightarrow> (string, unit) result) \<Rightarrow> 'a option \<Rightarrow> (string, unit) result" where
  "optional_check f value = (case value of None \<Rightarrow> Inr () | Some a \<Rightarrow> f a)"

definition is_blank :: "string option \<Rightarrow> bool" where
  "is_blank v = (case v of None \<Rightarrow> False | Some s \<Rightarrow> trim s = [])"

definition validate_context_guidance_filter :: "context_guidance_filter \<Rightarrow> (string, unit) result" where
  "validate_context_guidance_filter g =
     and_then (optional_check (\<lambda>v. validate_choice ''contextGuidance(evidenceKind:...)'' v CONTEXT_GUIDANCE_EVIDENCE_KINDS)
       (cg_evidence_kind g)) (\<lambda>_.
     and_then (optional_check (\<lambda>v. validate_choice ''contextGuidance(category:...)'' v CONTEXT_GUIDANCE_CATEGORIES)
       (cg_category g)) (\<lambda>_.
     first_error [(is_blank (cg_kind g), ''contextGuidance(kind:...) must be non-empty'')]))"

definition validate_historical_context_filter :: "historical_context_filter \<Rightarrow> (string, unit) result" where
  "validate_historical_context_filter h =
     optional_check (\<lambda>v. validate_choice ''historicalContext(evidenceKind:...)'' v CONTEXT_GUIDANCE_EVIDENCE_KINDS)
       (hc_evidence_kind h)"

text \<open>\<open>value.as_deref().map(str::trim).filter(non-empty)\<close>\<close>

definition non_blank :: "string option \<Rightarrow> string option" where
  "non_blank v = (case v of None \<Rightarrow> None | Some s \<Rightarrow> if trim s = [] then None else Some (trim s))"

definition SEARCH_MODES :: "string list" where
  "SEARCH_MODES = [''auto'', ''identity'', ''architecture'', ''code'', ''summary'', ''lexical'']"

definition validate_select_artefacts_selector :: "select_artefacts_filter \<Rightarrow> (string, unit) result" where
  "validate_select_artefacts_selector s =
     (let symbol_fqn = non_blank (sa_symbol_fqn s); search = non_blank (sa_search s); path = non_blank (sa_path s);
          search_mode = non_blank (sa_search_mode s);
          path_selector = (path \<noteq> None \<or> sa_lines s \<noteq> None);
          selectors = of_bool (symbol_fqn \<noteq> None) + of_bool (search \<noteq> None) + of_bool path_selector :: nat
      in first_error
         [(is_blank (sa_search s), ''selectArtefacts(...) requires search: to be non-empty''),
          (selectors = 0, ''selectArtefacts(...) requires symbol_fqn:, search:, or path:''),
          (selectors > 1, ''selectArtefacts(...) allows exactly one of symbol_fqn:, search:, or path:/lines:''),
          (path_selector \<and> path = None, ''selectArtefacts(...) requires path: when lines: is provided''),
          (is_blank (sa_search_mode s), ''selectArtefacts(...) requires search_mode: to be non-empty''),
          (search_mode \<noteq> None \<and> search = None, ''selectArtefacts(...) only allows search_mode: when search: is provided''),
          ((case search_mode of None \<Rightarrow> False | Some m \<Rightarrow> to_ascii_lowercase m \<notin> set SEARCH_MODES),
           ''selectArtefacts(search_mode:...) must be one of: auto, identity, architecture, code, summary, lexical'')])"

text \<open>The terminal stages of a selection.\<close>

definition terminal_stage_count :: "parsed_query \<Rightarrow> registered_stage_kind option \<Rightarrow> nat" where
  "terminal_stage_count pq stage =
     of_bool (pq_has_checkpoints_stage pq) + of_bool (pq_has_historical_context_stage pq)
     + of_bool (pq_has_context_guidance_stage pq) + of_bool (pq_has_clones_stage pq) + of_bool (pq_has_deps_stage pq)
     + of_bool (is_tests stage \<or> stage = Some SelectionOverview \<or> is_http_context stage)"

definition selection_checks :: "parsed_query \<Rightarrow> registered_stage_kind option \<Rightarrow> compile_mode \<Rightarrow> (bool \<times> string) list" where
  "selection_checks pq stage mode =
     [(mode \<noteq> SlimMode, ''selectArtefacts(...) is repo-scoped slim only; compile it against the slim DevQL endpoint''),
      (pq_file pq \<noteq> None \<or> pq_files_path pq \<noteq> None, ''selectArtefacts(...) cannot be combined with file() or files()''),
      (pq_as_of pq \<noteq> None, ''selectArtefacts(...) does not support asOf(...) in v1''),
      (pq_has_artefacts_stage pq \<or> pq_has_chat_history_stage pq \<or> pq_has_telemetry_stage pq,
       ''selectArtefacts(...) cannot be combined with artefacts(), chatHistory(), or telemetry()''),
      (pq_has_limit_stage pq \<and> \<not> is_http_context stage,
       ''selectArtefacts(...) only supports limit() with httpContext() in the GraphQL compiler''),
      (terminal_stage_count pq stage = 0,
       ''selectArtefacts(...) requires overview(), checkpoints(), historicalContext(), contextGuidance(), clones(), dependencies(), tests(), or httpContext()''),
      (terminal_stage_count pq stage > 1, ''selectArtefacts(...) supports exactly one terminal stage in v1'')]"

fun selection_rejects :: "registered_stage_kind option \<Rightarrow> bool" where
  "selection_rejects None = False"
| "selection_rejects (Some (Tests _)) = False"
| "selection_rejects (Some SelectionOverview) = False"
| "selection_rejects (Some (HttpContext _)) = False"
| "selection_rejects (Some _) = True"

definition validate_selection :: "select_artefacts_filter \<Rightarrow> parsed_query \<Rightarrow> registered_stage_kind option \<Rightarrow> compile_mode
    \<Rightarrow> (string, unit) result" where
  "validate_selection selector pq stage mode =
     and_then (validate_select_artefacts_selector selector) (\<lambda>_.
     and_then (first_error (selection_checks pq stage mode)) (\<lambda>_.
     and_then (validate_historical_context_filter (pq_historical_context pq)) (\<lambda>_.
     and_then (validate_context_guidance_filter (pq_context_guidance pq)) (\<lambda>_.
     first_error [(selection_rejects stage, ''selectArtefacts(...) does not support that registered stage in v1'')]))))"

definition traversal_checks :: "parsed_query \<Rightarrow> registered_stage_kind option \<Rightarrow> compile_mode \<Rightarrow> (bool \<times> string) list" where
  "traversal_checks pq stage mode =
     (let artefacts = pq_has_artefacts_stage pq; deps = pq_has_deps_stage pq; clones = pq_has_clones_stage pq;
          chat = pq_has_chat_history_stage pq; checkpoints = pq_has_checkpoints_stage pq; telemetry = pq_has_telemetry_stage pq;
          file = (pq_file pq \<noteq> None); files = (pq_files_path pq \<noteq> None);
          tests = is_tests stage; coverage = (stage = Some Coverage); clone_summary = (stage = Some CloneSummary);
          deps_summary = is_deps_summary stage; tests_summary = (stage = Some TestsSummary); http = is_http_direct stage
      in [(file \<and> files, ''file() cannot be combined with files() in one query''),
          ((checkpoints \<or> telemetry) \<and> (file \<or> files \<or> artefacts),
           ''MVP limitation: telemetry/checkpoints stages cannot be combined with artefact traversal in one query''),
          (chat \<and> \<not> artefacts, ''chatHistory() requires an artefacts() stage in the query''),
          (pq_has_historical_context_stage pq, ''historicalContext() is only supported after selectArtefacts(...) in v1''),
          (pq_has_context_guidance_stage pq, ''contextGuidance() is only supported after selectArtefacts(...)''),
          (clones \<and> \<not> artefacts, ''clones() requires an artefacts() stage in the query''),
          (deps \<and> chat, ''dependencies() cannot be combined with chatHistory() stage''),
          (clones \<and> deps, ''clones() cannot be combined with dependencies() stage''),
          (chat \<and> (checkpoints \<or> telemetry), ''chatHistory() cannot be combined with checkpoints()/telemetry() stages''),
          (clones \<and> chat, ''clones() cannot be combined with chatHistory() stage''),
          (clone_summary \<and> \<not> clones, ''summary() requires a clones() stage in the query''),
          (clone_summary \<and> pq_select_fields pq \<noteq> [], ''summary() does not support select() in the GraphQL compiler yet''),
          (deps_summary \<and> \<not> artefacts, ''summary(dependencies:true, ...) requires an artefacts() stage in the query''),
          (deps_summary \<and> deps, ''summary(dependencies:true, ...) cannot be combined with dependencies() stage''),
          (deps_summary \<and> clones, ''summary(dependencies:true, ...) cannot be combined with clones() stage''),
          (tests \<and> \<not> artefacts, ''tests() requires an artefacts() stage in the query''),
          (tests \<and> deps, ''tests() cannot be combined with dependencies() stage''),
          (tests \<and> clones, ''tests() cannot be combined with clones() stage''),
          (tests \<and> chat, ''tests() cannot be combined with chatHistory() stage''),
          (coverage \<and> tests, ''coverage() cannot be combined with tests() stage''),
          (coverage \<and> \<not> artefacts, ''coverage() requires an artefacts() stage in the query''),
          (coverage \<and> deps, ''coverage() cannot be combined with dependencies() stage''),
          (coverage \<and> clones, ''coverage() cannot be combined with clones() stage''),
          (coverage \<and> chat, ''coverage() cannot be combined with chatHistory() stage''),
          (tests_summary \<and> artefacts, ''test_harness_tests_summary() does not support artefacts() traversal''),
          (tests_summary \<and> deps, ''test_harness_tests_summary() cannot be combined with dependencies() stage''),
          (tests_summary \<and> clones, ''test_harness_tests_summary() cannot be combined with clones() stage''),
          (tests_summary \<and> chat, ''test_harness_tests_summary() cannot be combined with chatHistory() stage''),
          (tests_summary \<and> (file \<or> files), ''test_harness_tests_summary() does not support file() or files() scopes''),
          (stage = Some SelectionOverview, ''overview() is only supported after selectArtefacts(...) in the GraphQL compiler''),
          (is_http_context stage, ''httpContext() is only supported after selectArtefacts(...) in the GraphQL compiler''),
          (deps \<and> artefacts, ''dependencies() after artefacts() is not yet supported by the GraphQL compiler''),
          (http \<and> (checkpoints \<or> telemetry \<or> deps \<or> clones \<or> chat),
           ''HTTP direct lookup stages cannot be combined with checkpoints(), telemetry(), dependencies(), clones(), or chatHistory()''),
          (artefacts \<and> http \<and> \<not> is_lossy_transforms stage,
           ''only httpLossyTransforms() can be nested under artefacts() in the GraphQL compiler''),
          (mode = GlobalMode \<and> telemetry \<and> pq_project_path pq \<noteq> None,
           ''telemetry() does not support project() scoping in the GraphQL schema yet''),
          (telemetry \<and> pq_as_of pq \<noteq> None, ''telemetry() does not support asOf(...) in the GraphQL schema yet''),
          (checkpoints \<and> pq_as_of pq \<noteq> None, ''checkpoints() does not support asOf(...) in the GraphQL schema yet''),
          (deps \<and> \<not> artefacts \<and> pq_project_path pq = None \<and> \<not> file \<and> \<not> files,
           ''dependencies() requires project(), file(), or files() when compiling to GraphQL''),
          (deps \<and> pq_as_of pq \<noteq> None \<and> \<not> file \<and> \<not> files,
           ''dependencies() with asOf(...) is only supported when further scoped through file() or files()''),
          (is_knowledge stage \<and> (artefacts \<or> checkpoints \<or> telemetry \<or> deps \<or> clones \<or> chat),
           ''knowledge() cannot currently be combined with other query stages in the GraphQL compiler''),
          (is_knowledge stage \<and> (pq_as_of pq \<noteq> None \<or> file \<or> files),
           ''knowledge() does not support asOf(...), file(), or files() scopes in the GraphQL schema yet''),
          (\<not> (artefacts \<or> checkpoints \<or> telemetry \<or> deps \<or> is_knowledge stage \<or> tests_summary \<or> deps_summary \<or> http),
           ''the GraphQL compiler could not determine a queryable leaf stage'')])"

definition validate_graphql_compiler_support :: "parsed_query \<Rightarrow> registered_stage_kind option \<Rightarrow> compile_mode \<Rightarrow> (string, unit) result" where
  "validate_graphql_compiler_support pq stage mode =
     (case pq_select_artefacts pq of
        Some selector \<Rightarrow> validate_selection selector pq stage mode
      | None \<Rightarrow> first_error (traversal_checks pq stage mode))"

fun project_level :: "registered_stage_kind \<Rightarrow> bool" where
  "project_level (Tests _) = True"
| "project_level Coverage = True"
| "project_level TestsSummary = True"
| "project_level stage = is_http_direct (Some stage)"

definition should_compile_project_stage :: "parsed_query \<Rightarrow> registered_stage_kind option \<Rightarrow> bool" where
  "should_compile_project_stage pq stage =
     (case stage of None \<Rightarrow> False
      | Some kind \<Rightarrow>
          if pq_as_of pq \<noteq> None \<or> pq_select_artefacts pq \<noteq> None \<or> pq_file pq \<noteq> None \<or> pq_files_path pq \<noteq> None
            \<or> pq_has_chat_history_stage pq \<or> pq_has_clones_stage pq \<or> pq_has_deps_stage pq \<or> pq_select_fields pq \<noteq> []
          then False
          else project_level kind \<and> pq_project_path pq \<noteq> None)"

end
