(* ===== verification/DevqlGraphql.thy ===== *)
theory DevqlGraphql
  imports DevqlValidate
begin

text \<open>
  GraphQL documents and the pieces the compiler builds them from: the document tree and its text
  (\<open>dsl_compiler/document_builder.rs\<close>), literals and result fields (\<open>field_mapping.rs\<close>) and the arguments of each
  stage (\<open>args.rs\<close>). The JSON quoting of \<open>serde_json\<close> and the date parsers of \<open>chrono\<close> are arguments.
\<close>

section \<open>Documents\<close>

record graphql_argument =
  ga_name :: string
  ga_value :: string

datatype graphql_selection = Scalar string | Field graphql_field
  and graphql_field = GraphqlField string "graphql_argument list" "graphql_selection list"

definition arg :: "string \<Rightarrow> string \<Rightarrow> graphql_argument" where
  "arg name value = \<lparr>ga_name = name, ga_value = value\<rparr>"

definition render_args :: "graphql_argument list \<Rightarrow> string" where
  "render_args args =
     (if args = [] then []
      else ''('' @ join_on '', '' (map (\<lambda>a. ga_name a @ '': '' @ ga_value a) args) @ '')'')"

definition indent :: "nat \<Rightarrow> string" where
  "indent depth = concat (replicate depth ''  '')"

fun render_field :: "nat \<Rightarrow> graphql_field \<Rightarrow> string list"
  and render_selection :: "nat \<Rightarrow> graphql_selection \<Rightarrow> string list" where
  "render_field depth (GraphqlField name args selections) =
     (if selections = [] then [indent depth @ name @ render_args args]
      else (indent depth @ name @ render_args args @ '' {'') # concat (map (render_selection (depth + 1)) selections)
        @ [indent depth @ ''}''])"
| "render_selection depth (Scalar name) = [indent depth @ name]"
| "render_selection depth (Field f) = render_field depth f"

definition build_document :: "graphql_field list \<Rightarrow> string" where
  "build_document roots = join_on nl (''query {'' # concat (map (render_field 1) roots) @ [''}''])"

section \<open>Literals\<close>

record compile_env =
  ce_quote :: "string \<Rightarrow> string"
  ce_date :: "string \<Rightarrow> string option"
  ce_datetime :: "string \<Rightarrow> string option"

text \<open>\<open>ce_date\<close> is the RFC 3339 text of midnight of a calendar date, \<open>ce_datetime\<close> that of an RFC 3339 instant.\<close>

definition compile_datetime_literal :: "compile_env \<Rightarrow> string \<Rightarrow> (string, string) result" where
  "compile_datetime_literal env input =
     (case ce_date env (trim input) of
        Some midnight \<Rightarrow> Inr (ce_quote env midnight)
      | None \<Rightarrow>
          (case ce_datetime env (trim input) of
             Some instant \<Rightarrow> Inr (ce_quote env instant)
           | None \<Rightarrow> Inl (''invalid datetime value `'' @ input @ ''`'')))"

definition ascii_upper :: "char \<Rightarrow> char" where
  "ascii_upper c = (if is_ascii_lower c then char_of (char_code c - 32) else c)"

definition enum_literal :: "string \<Rightarrow> string" where
  "enum_literal value = map (\<lambda>c. if c = CHR ''-'' then CHR ''_'' else c) (map ascii_upper (trim value))"

definition braces :: "string list \<Rightarrow> string" where
  "braces parts = ''{ '' @ join_on '', '' parts @ '' }''"

definition bool_text :: "bool \<Rightarrow> string" where
  "bool_text b = (if b then ''true'' else ''false'')"

definition int_text :: "int \<Rightarrow> string" where
  "int_text i = (if i < 0 then ''-'' @ dec (nat (- i)) else dec (nat i))"

definition lines_text :: "int \<times> int \<Rightarrow> string" where
  "lines_text span = ''lines: { start: '' @ int_text (fst span) @ '', end: '' @ int_text (snd span) @ '' }''"

definition compile_as_of_input :: "compile_env \<Rightarrow> as_of_selector \<Rightarrow> graphql_argument" where
  "compile_as_of_input env selector = arg ''input'' (case selector of
      AsOfRef reference \<Rightarrow> ''{ ref: '' @ ce_quote env reference @ '' }''
    | AsOfCommit commit \<Rightarrow> ''{ commit: '' @ ce_quote env commit @ '' }''
    | AsOfSaveCurrent \<Rightarrow> ''{ save: CURRENT }''
    | AsOfSaveRevision revision \<Rightarrow> ''{ saveRevision: '' @ ce_quote env revision @ '' }'')"

section \<open>Result fields (field_mapping.rs)\<close>

datatype selectable_leaf = ArtefactLeaf | CheckpointLeaf | TelemetryLeaf | DependencyEdgeLeaf | CloneLeaf
  | ChatEntryLeaf | KnowledgeItemLeaf

fun leaf_display_name :: "selectable_leaf \<Rightarrow> string" where
  "leaf_display_name ArtefactLeaf = ''artefact''"
| "leaf_display_name CheckpointLeaf = ''checkpoint''"
| "leaf_display_name TelemetryLeaf = ''telemetry''"
| "leaf_display_name DependencyEdgeLeaf = ''dependency edge''"
| "leaf_display_name CloneLeaf = ''clone''"
| "leaf_display_name ChatEntryLeaf = ''chat history''"
| "leaf_display_name KnowledgeItemLeaf = ''knowledge''"

fun default_fields_for_leaf :: "selectable_leaf \<Rightarrow> string list" where
  "default_fields_for_leaf ArtefactLeaf = [''id'', ''path'', ''symbolFqn'', ''canonicalKind'', ''languageKind'',
     ''startLine'', ''endLine'', ''language'']"
| "default_fields_for_leaf CheckpointLeaf = [''id'', ''sessionId'', ''commitSha'', ''branch'', ''agent'', ''eventTime'',
     ''strategy'', ''filesTouched'']"
| "default_fields_for_leaf TelemetryLeaf = [''id'', ''sessionId'', ''eventType'', ''agent'', ''eventTime'', ''commitSha'',
     ''branch'']"
| "default_fields_for_leaf DependencyEdgeLeaf = [''id'', ''edgeKind'', ''fromArtefactId'', ''toArtefactId'',
     ''toSymbolRef'', ''startLine'', ''endLine'']"
| "default_fields_for_leaf CloneLeaf = [''id'', ''sourceArtefactId'', ''targetArtefactId'', ''sourceStartLine'',
     ''sourceEndLine'', ''targetStartLine'', ''targetEndLine'', ''relationKind'', ''score'']"
| "default_fields_for_leaf ChatEntryLeaf = [''sessionId'', ''agent'', ''timestamp'', ''role'', ''content'']"
| "default_fields_for_leaf KnowledgeItemLeaf = [''id'', ''provider'', ''sourceKind'', ''canonicalExternalId'',
     ''externalUrl'', ''title'']"

fun allowed_fields_for_leaf :: "selectable_leaf \<Rightarrow> string list" where
  "allowed_fields_for_leaf ArtefactLeaf = [''id'', ''symbolId'', ''path'', ''language'', ''canonicalKind'', ''languageKind'',
     ''symbolFqn'', ''parentArtefactId'', ''startLine'', ''endLine'', ''startByte'', ''endByte'', ''signature'',
     ''modifiers'', ''docstring'', ''contentHash'', ''blobSha'', ''createdAt'']"
| "allowed_fields_for_leaf CheckpointLeaf = [''id'', ''sessionId'', ''commitSha'', ''branch'', ''agent'', ''eventTime'',
     ''strategy'', ''filesTouched'', ''payload'', ''checkpointsCount'', ''sessionCount'', ''agents'',
     ''firstPromptPreview'', ''createdAt'', ''isTask'', ''toolUseId'']"
| "allowed_fields_for_leaf TelemetryLeaf = [''id'', ''sessionId'', ''eventType'', ''agent'', ''eventTime'', ''commitSha'',
     ''branch'', ''payload'']"
| "allowed_fields_for_leaf DependencyEdgeLeaf = [''id'', ''edgeKind'', ''language'', ''fromArtefactId'', ''toArtefactId'',
     ''toSymbolRef'', ''startLine'', ''endLine'', ''metadata'']"
| "allowed_fields_for_leaf CloneLeaf = [''id'', ''sourceArtefactId'', ''targetArtefactId'', ''sourceStartLine'',
     ''sourceEndLine'', ''targetStartLine'', ''targetEndLine'', ''relationKind'', ''score'', ''metadata'']"
| "allowed_fields_for_leaf ChatEntryLeaf = [''sessionId'', ''agent'', ''timestamp'', ''role'', ''content'', ''metadata'']"
| "allowed_fields_for_leaf KnowledgeItemLeaf = [''id'', ''sourceId'', ''provider'', ''sourceKind'',
     ''canonicalExternalId'', ''externalUrl'', ''title'']"

text \<open>Underscores go, the character after them is an upper-case one; the flag is \<open>uppercase_next\<close>.\<close>

fun snake_chars :: "bool \<Rightarrow> string \<Rightarrow> string" where
  "snake_chars upper [] = []"
| "snake_chars upper (c # cs) =
     (if c = CHR ''_'' then snake_chars True cs else (if upper then ascii_upper c else c) # snake_chars False cs)"

definition snake_to_camel :: "string \<Rightarrow> string" where
  "snake_to_camel input = snake_chars False input"

definition dsl_field_names :: "(string \<times> string) list" where
  "dsl_field_names = [(''artefact_id'', ''id''), (''checkpoint_id'', ''id''), (''edge_id'', ''id''),
     (''symbol_fqn'', ''symbolFqn''), (''canonical_kind'', ''canonicalKind''), (''language_kind'', ''languageKind''),
     (''parent_artefact_id'', ''parentArtefactId''), (''start_line'', ''startLine''), (''end_line'', ''endLine''),
     (''start_byte'', ''startByte''), (''end_byte'', ''endByte''), (''content_hash'', ''contentHash''),
     (''blob_sha'', ''blobSha''), (''created_at'', ''createdAt''), (''commit_sha'', ''commitSha''),
     (''session_id'', ''sessionId''), (''event_time'', ''eventTime''), (''event_type'', ''eventType''),
     (''files_touched'', ''filesTouched''), (''from_artefact_id'', ''fromArtefactId''), (''to_artefact_id'', ''toArtefactId''),
     (''to_symbol_ref'', ''toSymbolRef''), (''edge_kind'', ''edgeKind''), (''source_artefact_id'', ''sourceArtefactId''),
     (''target_artefact_id'', ''targetArtefactId''), (''relation_kind'', ''relationKind''), (''source_id'', ''sourceId''),
     (''source_kind'', ''sourceKind''), (''canonical_external_id'', ''canonicalExternalId''), (''external_url'', ''externalUrl'')]"

definition dsl_field_to_graphql :: "string \<Rightarrow> string" where
  "dsl_field_to_graphql field = (let f = trim field in unwrap_or (map_of dsl_field_names f) (snake_to_camel f))"

definition map_selected_field :: "selectable_leaf \<Rightarrow> string \<Rightarrow> (string, string) result" where
  "map_selected_field leaf field =
     (let graphql = dsl_field_to_graphql field in
      if graphql \<in> set (allowed_fields_for_leaf leaf) then Inr graphql
      else Inl (''unsupported select() field `'' @ field @ ''` for '' @ leaf_display_name leaf @ '' results''))"

definition scalar_selections_for_leaf :: "selectable_leaf \<Rightarrow> string list \<Rightarrow> (string, graphql_selection list) result" where
  "scalar_selections_for_leaf leaf select_fields =
     (if select_fields = [] then Inr (map Scalar (default_fields_for_leaf leaf))
      else and_then (map_result (map_selected_field leaf) select_fields) (\<lambda>fields. Inr (map Scalar fields)))"

definition sub :: "string \<Rightarrow> graphql_selection list \<Rightarrow> graphql_selection" where
  "sub name selections = Field (GraphqlField name [] selections)"

definition tests_result_selections :: "graphql_selection list" where
  "tests_result_selections =
     [sub ''artefact'' (map Scalar [''artefactId'', ''name'', ''kind'', ''filePath'', ''startLine'', ''endLine'']),
      sub ''coveringTests'' (map Scalar [''testId'', ''testName'', ''suiteName'', ''filePath'', ''startLine'', ''endLine'',
        ''classification'', ''classificationSource'', ''fanOut'']
        @ [sub ''lastRun'' (map Scalar [''status'', ''durationMs'', ''commitSha''])]),
      sub ''summary'' [Scalar ''totalCoveringTests'', sub ''expandHint'' (map Scalar [''intent'', ''template''])]]"

definition coverage_result_selections :: "graphql_selection list" where
  "coverage_result_selections =
     [sub ''artefact'' (map Scalar [''artefactId'', ''name'', ''kind'', ''filePath'', ''startLine'', ''endLine'']),
      sub ''coverage'' (map Scalar [''coverageSource'', ''lineCoveragePct'', ''branchCoveragePct'', ''lineDataAvailable'',
        ''branchDataAvailable'', ''uncoveredLines'']
        @ [sub ''branches'' (map Scalar [''line'', ''block'', ''branch'', ''covered'', ''hitCount''])]),
      sub ''summary'' (map Scalar [''uncoveredLineCount'', ''uncoveredBranchCount'', ''diagnosticCount''])]"

definition clone_result_selections :: "bool \<Rightarrow> (string, graphql_selection list) result" where
  "clone_result_selections raw =
     (if raw then scalar_selections_for_leaf CloneLeaf [''id'', ''source_artefact_id'', ''target_artefact_id'',
        ''source_start_line'', ''source_end_line'', ''target_start_line'', ''target_end_line'', ''relation_kind'', ''score'',
        ''metadata'']
      else Inr [Scalar ''relationKind'', Scalar ''score'', sub ''sourceArtefact'' (map Scalar [''path'', ''symbolFqn'']),
        sub ''targetArtefact'' (map Scalar [''path'', ''symbolFqn''])])"

definition tests_summary_result_selections :: "graphql_selection list" where
  "tests_summary_result_selections = map Scalar [''capability'', ''stage'', ''status'', ''commitSha'']
     @ [sub ''counts'' (map Scalar [''testArtefacts'', ''testArtefactEdges'', ''testClassifications'', ''coverageCaptures'',
          ''coverageHits'']), Scalar ''coveragePresent'']"

definition clone_summary_selections :: "graphql_selection list" where
  "clone_summary_selections = [Scalar ''totalCount'', sub ''groups'' (map Scalar [''relationKind'', ''count''])]"

definition deps_summary_selections :: "graphql_selection list" where
  "deps_summary_selections = map Scalar [''totalCount'', ''incomingCount'', ''outgoingCount'']
     @ [sub ''kindCounts'' (map Scalar [''imports'', ''calls'', ''references'', ''extends'', ''implements'', ''exports''])]"

section \<open>Arguments (args.rs)\<close>

definition first_arg :: "nat option \<Rightarrow> graphql_argument list" where
  "first_arg first = (case first of None \<Rightarrow> [] | Some n \<Rightarrow> [arg ''first'' (dec n)])"

definition limit_of :: "parsed_query \<Rightarrow> nat option" where
  "limit_of pq = (if pq_has_limit_stage pq then Some (pq_limit pq) else None)"

definition connection_field :: "string \<Rightarrow> graphql_argument list \<Rightarrow> graphql_selection list \<Rightarrow> graphql_field" where
  "connection_field name args node_selection = GraphqlField name args [sub ''edges'' [sub ''node'' node_selection]]"

text \<open>An argument or a field of an input object that is there when its value is.\<close>

definition opt_arg :: "string \<Rightarrow> ('a \<Rightarrow> string) \<Rightarrow> 'a option \<Rightarrow> graphql_argument list" where
  "opt_arg name show_value value = (case value of None \<Rightarrow> [] | Some v \<Rightarrow> [arg name (show_value v)])"

definition opt_part :: "string \<Rightarrow> ('a \<Rightarrow> string) \<Rightarrow> 'a option \<Rightarrow> string list" where
  "opt_part name show_value value = (case value of None \<Rightarrow> [] | Some v \<Rightarrow> [name @ '': '' @ show_value v])"

definition since_part :: "compile_env \<Rightarrow> string option \<Rightarrow> (string, string option) result" where
  "since_part env since = optional (compile_datetime_literal env) since"

definition compile_artefact_filter_input :: "compile_env \<Rightarrow> parsed_query \<Rightarrow> (string, string option) result" where
  "compile_artefact_filter_input env pq =
     (let f = pq_artefacts pq in
      and_then (since_part env (af_since f)) (\<lambda>since.
        let parts = opt_part ''kind'' enum_literal (af_kind f) @ opt_part ''symbolFqn'' (ce_quote env) (af_symbol_fqn f)
              @ (case af_lines f of None \<Rightarrow> [] | Some span \<Rightarrow> [lines_text span])
              @ opt_part ''agent'' (ce_quote env) (af_agent f) @ opt_part ''since'' (\<lambda>s. s) since
        in Inr (if parts = [] then None else Some (braces parts))))"

definition filter_arg :: "string \<Rightarrow> string option \<Rightarrow> graphql_argument list" where
  "filter_arg name input = opt_arg name (\<lambda>s. s) input"

definition compile_artefact_args :: "compile_env \<Rightarrow> parsed_query \<Rightarrow> nat option \<Rightarrow> (string, graphql_argument list) result" where
  "compile_artefact_args env pq first =
     and_then (compile_artefact_filter_input env pq) (\<lambda>filter. Inr (filter_arg ''filter'' filter @ first_arg first))"

definition compile_select_artefacts_args :: "compile_env \<Rightarrow> parsed_query \<Rightarrow> graphql_argument list" where
  "compile_select_artefacts_args env pq =
     (case pq_select_artefacts pq of
        None \<Rightarrow> []
      | Some s \<Rightarrow> [arg ''by'' (braces (opt_part ''symbolFqn'' (ce_quote env) (sa_symbol_fqn s)
          @ opt_part ''search'' (ce_quote env) (sa_search s) @ opt_part ''searchMode'' enum_literal (sa_search_mode s)
          @ opt_part ''path'' (ce_quote env) (sa_path s)
          @ (case sa_lines s of None \<Rightarrow> [] | Some span \<Rightarrow> [lines_text span])))])"

definition compile_selection_checkpoint_args :: "compile_env \<Rightarrow> parsed_query \<Rightarrow> (string, graphql_argument list) result" where
  "compile_selection_checkpoint_args env pq =
     and_then (since_part env (ck_since (pq_checkpoints pq))) (\<lambda>since.
       Inr (opt_arg ''agent'' (ce_quote env) (ck_agent (pq_checkpoints pq)) @ opt_arg ''since'' (\<lambda>s. s) since))"

definition compile_checkpoint_args :: "compile_env \<Rightarrow> parsed_query \<Rightarrow> (string, graphql_argument list) result" where
  "compile_checkpoint_args env pq =
     and_then (since_part env (ck_since (pq_checkpoints pq))) (\<lambda>since.
       Inr (opt_arg ''agent'' (ce_quote env) (ck_agent (pq_checkpoints pq)) @ opt_arg ''since'' (\<lambda>s. s) since
         @ first_arg (limit_of pq)))"

definition compile_selection_historical_context_args :: "compile_env \<Rightarrow> parsed_query \<Rightarrow> (string, graphql_argument list) result" where
  "compile_selection_historical_context_args env pq =
     (let h = pq_historical_context pq in
      and_then (since_part env (hc_since h)) (\<lambda>since.
        Inr (opt_arg ''agent'' (ce_quote env) (hc_agent h) @ opt_arg ''since'' (\<lambda>s. s) since
          @ opt_arg ''evidenceKind'' enum_literal (hc_evidence_kind h))))"

definition compile_selection_context_guidance_args :: "compile_env \<Rightarrow> parsed_query \<Rightarrow> (string, graphql_argument list) result" where
  "compile_selection_context_guidance_args env pq =
     (let g = pq_context_guidance pq in
      and_then (since_part env (cg_since g)) (\<lambda>since.
        Inr (opt_arg ''agent'' (ce_quote env) (cg_agent g) @ opt_arg ''since'' (\<lambda>s. s) since
          @ opt_arg ''evidenceKind'' enum_literal (cg_evidence_kind g) @ opt_arg ''category'' enum_literal (cg_category g)
          @ opt_arg ''kind'' (ce_quote env) (cg_kind g))))"

definition compile_telemetry_args :: "compile_env \<Rightarrow> parsed_query \<Rightarrow> (string, graphql_argument list) result" where
  "compile_telemetry_args env pq =
     (let t = pq_telemetry pq in
      and_then (since_part env (tl_since t)) (\<lambda>since.
        Inr (opt_arg ''eventType'' (ce_quote env) (tl_event_type t) @ opt_arg ''agent'' (ce_quote env) (tl_agent t)
          @ opt_arg ''since'' (\<lambda>s. s) since @ first_arg (limit_of pq))))"

definition compile_deps_filter_input :: "parsed_query \<Rightarrow> string" where
  "compile_deps_filter_input pq =
     braces (opt_part ''kind'' (enum_literal \<circ> deps_kind_as_str) (df_kind (pq_deps pq))
       @ [''direction: '' @ enum_literal (deps_direction_as_str (df_direction (pq_deps pq))),
          ''includeUnresolved: '' @ bool_text (df_include_unresolved (pq_deps pq))])"

definition compile_deps_args :: "parsed_query \<Rightarrow> nat option \<Rightarrow> graphql_argument list" where
  "compile_deps_args pq first = arg ''filter'' (compile_deps_filter_input pq) # first_arg first"

definition compile_selection_deps_args :: "parsed_query \<Rightarrow> graphql_argument list" where
  "compile_selection_deps_args pq =
     opt_arg ''kind'' (enum_literal \<circ> deps_kind_as_str) (df_kind (pq_deps pq))
     @ (if df_direction (pq_deps pq) = DepsBoth then []
        else [arg ''direction'' (enum_literal (deps_direction_as_str (df_direction (pq_deps pq))))])
     @ [arg ''includeUnresolved'' (bool_text (df_include_unresolved (pq_deps pq)))]"

definition MIN_ANN_NEIGHBORS :: int where "MIN_ANN_NEIGHBORS = 1"
definition MAX_ANN_NEIGHBORS :: int where "MAX_ANN_NEIGHBORS = 50"

definition compile_clones_filter_input :: "compile_env \<Rightarrow> parsed_query \<Rightarrow> string option" where
  "compile_clones_filter_input env pq =
     (let c = pq_clones pq;
          parts = opt_part ''relationKind'' (ce_quote env) (cl_relation_kind c)
            @ opt_part ''minScore'' (\<lambda>s. s) (cl_min_score c)
            @ opt_part ''neighbors'' (\<lambda>n. int_text (max MIN_ANN_NEIGHBORS (min n MAX_ANN_NEIGHBORS))) (cl_neighbors c)
      in if parts = [] then None else Some (braces parts))"

definition compile_clones_args :: "compile_env \<Rightarrow> parsed_query \<Rightarrow> nat option \<Rightarrow> graphql_argument list" where
  "compile_clones_args env pq first = filter_arg ''filter'' (compile_clones_filter_input env pq) @ first_arg first"

definition compile_selection_clones_args :: "compile_env \<Rightarrow> parsed_query \<Rightarrow> graphql_argument list" where
  "compile_selection_clones_args env pq = opt_arg ''relationKind'' (ce_quote env) (cl_relation_kind (pq_clones pq))
     @ opt_arg ''minScore'' (\<lambda>s. s) (cl_min_score (pq_clones pq))"

definition compile_clone_summary_args :: "compile_env \<Rightarrow> parsed_query \<Rightarrow> (string, graphql_argument list) result" where
  "compile_clone_summary_args env pq =
     and_then (compile_artefact_filter_input env pq) (\<lambda>filter.
       Inr (filter_arg ''filter'' filter @ filter_arg ''cloneFilter'' (compile_clones_filter_input env pq)))"

definition compile_deps_summary_args :: "deps_summary_spec \<Rightarrow> graphql_argument list" where
  "compile_deps_summary_args spec = [arg ''filter'' (braces
     (opt_part ''kind'' (enum_literal \<circ> deps_kind_as_str) (ds_kind spec)
      @ opt_part ''direction'' (enum_literal \<circ> deps_direction_as_str) (ds_direction spec)
      @ [''unresolved: '' @ bool_text (unwrap_or (ds_unresolved spec) False)]))]"

definition compile_knowledge_args :: "registered_stage_call \<Rightarrow> nat option \<Rightarrow> graphql_argument list" where
  "compile_knowledge_args stage first = opt_arg ''provider'' enum_literal (bt_get (rs_args stage) ''provider'') @ first_arg first"

definition compile_selection_tests_args :: "compile_env \<Rightarrow> registered_stage_call \<Rightarrow> graphql_argument list" where
  "compile_selection_tests_args env stage =
     opt_arg ''minConfidence'' (\<lambda>s. s) (bt_get (rs_args stage) ''min_confidence'')
     @ opt_arg ''linkageSource'' (ce_quote env) (bt_get (rs_args stage) ''linkage_source'')"

definition included_filter :: "compile_env \<Rightarrow> parsed_query \<Rightarrow> bool \<Rightarrow> (string, graphql_argument list) result" where
  "included_filter env pq include_filter =
     (if include_filter then and_then (compile_artefact_filter_input env pq) (\<lambda>filter. Inr (filter_arg ''filter'' filter))
      else Inr [])"

definition compile_tests_args :: "compile_env \<Rightarrow> parsed_query \<Rightarrow> registered_stage_call \<Rightarrow> bool \<Rightarrow> nat option
    \<Rightarrow> (string, graphql_argument list) result" where
  "compile_tests_args env pq stage include_filter first =
     and_then (included_filter env pq include_filter) (\<lambda>filter.
       Inr (filter @ opt_arg ''minConfidence'' (\<lambda>s. s) (bt_get (rs_args stage) ''min_confidence'')
         @ opt_arg ''linkageSource'' (ce_quote env) (bt_get (rs_args stage) ''linkage_source'') @ first_arg first))"

definition compile_coverage_args :: "compile_env \<Rightarrow> parsed_query \<Rightarrow> bool \<Rightarrow> nat option \<Rightarrow> (string, graphql_argument list) result" where
  "compile_coverage_args env pq include_filter first =
     and_then (included_filter env pq include_filter) (\<lambda>filter. Inr (filter @ first_arg first))"

definition compile_terms_list :: "compile_env \<Rightarrow> string \<Rightarrow> string" where
  "compile_terms_list env raw =
     ''['' @ join_on '', '' (map (ce_quote env) (filter (\<lambda>t. t \<noteq> []) (map trim (split_on (CHR '','') raw)))) @ '']''"

definition compile_http_search_args :: "compile_env \<Rightarrow> registered_stage_call \<Rightarrow> nat option \<Rightarrow> (string, graphql_argument list) result" where
  "compile_http_search_args env stage first =
     (case bt_get (rs_args stage) ''terms'' of
        None \<Rightarrow> Inl (rs_stage_name stage @ ''() requires terms:'')
      | Some terms \<Rightarrow> Inr (arg ''terms'' (compile_terms_list env terms) # first_arg first))"

definition compile_http_header_producers_args :: "compile_env \<Rightarrow> registered_stage_call \<Rightarrow> nat option
    \<Rightarrow> (string, graphql_argument list) result" where
  "compile_http_header_producers_args env stage first =
     (case opt_or (bt_get (rs_args stage) ''header'')
             (opt_or (bt_get (rs_args stage) ''header_name'') (bt_get (rs_args stage) ''headerName'')) of
        None \<Rightarrow> Inl ''httpHeaderProducers() requires header:''
      | Some header \<Rightarrow> Inr (arg ''headerName'' (ce_quote env header) # first_arg first))"

definition compile_http_lifecycle_boundaries_args :: "compile_env \<Rightarrow> registered_stage_call \<Rightarrow> nat option \<Rightarrow> graphql_argument list" where
  "compile_http_lifecycle_boundaries_args env stage first =
     opt_arg ''terms'' (compile_terms_list env) (bt_get (rs_args stage) ''terms'') @ first_arg first"

definition around_parts :: "compile_env \<Rightarrow> stage_args \<Rightarrow> string list" where
  "around_parts env args =
     opt_part ''symbolFqn'' (ce_quote env) (opt_or (bt_get args ''symbol_fqn'') (bt_get args ''symbolFqn''))
     @ opt_part ''symbolId'' (ce_quote env) (opt_or (bt_get args ''symbol_id'') (bt_get args ''symbolId''))
     @ opt_part ''artefactId'' (ce_quote env) (opt_or (bt_get args ''artefact_id'') (bt_get args ''artefactId''))
     @ opt_part ''path'' (ce_quote env) (bt_get args ''path'')"

definition compile_http_lossy_transforms_args :: "compile_env \<Rightarrow> registered_stage_call \<Rightarrow> nat option \<Rightarrow> bool \<Rightarrow> graphql_argument list" where
  "compile_http_lossy_transforms_args env stage first include_around =
     (if include_around \<and> around_parts env (rs_args stage) \<noteq> [] then [arg ''around'' (braces (around_parts env (rs_args stage)))]
      else []) @ first_arg first"

definition compile_http_patch_impact_args :: "compile_env \<Rightarrow> registered_stage_call \<Rightarrow> (string, graphql_argument list) result" where
  "compile_http_patch_impact_args env stage =
     (case opt_or (bt_get (rs_args stage) ''patch_fingerprint'') (bt_get (rs_args stage) ''patchFingerprint'') of
        None \<Rightarrow> Inl ''httpPatchImpact() requires patch_fingerprint:''
      | Some fingerprint \<Rightarrow> Inr [arg ''input'' (''{ patchFingerprint: '' @ ce_quote env fingerprint @ '' }'')])"

end
