(* ===== verification/DevqlCompile.thy ===== *)
theory DevqlCompile
  imports DevqlGraphql
begin

text \<open>
  The DevQL compiler: the leaf a validated query asks for, with its arguments and result fields
  (\<open>dsl_compiler/leaves.rs\<close>), the scopes around it and the document (\<open>dsl_compiler.rs\<close>).
\<close>

section \<open>Result fields of the leaves\<close>

definition http_confidence_selections :: "graphql_selection list" where
  "http_confidence_selections = map Scalar [''level'', ''score'']"

definition http_evidence_selections :: "graphql_selection list" where
  "http_evidence_selections = map Scalar [''kind'', ''path'', ''artefactId'', ''symbolId'', ''contentId'', ''startLine'',
     ''endLine'', ''dependencyPackage'', ''dependencyVersion'', ''sourceUrl'']"

definition http_upstream_fact_selections :: "graphql_selection list" where
  "http_upstream_fact_selections = map Scalar [''owner'', ''factId'', ''primitiveType'', ''subject'', ''roles'']"

definition http_causal_chain_selections :: "graphql_selection list" where
  "http_causal_chain_selections = map Scalar [''owner'', ''factId'', ''role'', ''primitiveType'', ''subject'']"

definition http_invalidated_assumption_selections :: "graphql_selection list" where
  "http_invalidated_assumption_selections = map Scalar [''id'', ''assumption'', ''invalidatedByPrimitiveIds'', ''scope'']"

definition http_obligation_selections :: "graphql_selection list" where
  "http_obligation_selections = map Scalar [''id'', ''requiredFollowUp'', ''targetSymbols'', ''blocking'']"

definition http_primitive_selections :: "graphql_selection list" where
  "http_primitive_selections = map Scalar [''id'', ''owner'', ''primitiveType'', ''subject'', ''roles'', ''terms'', ''status'']
     @ [sub ''confidence'' http_confidence_selections, sub ''evidence'' http_evidence_selections, Scalar ''properties'']"

definition http_bundle_selections :: "graphql_selection list" where
  "http_bundle_selections = map Scalar [''bundleId'', ''kind'', ''riskKind'', ''severity'', ''matchedRoles'', ''status'']
     @ [sub ''confidence'' http_confidence_selections, sub ''upstreamFacts'' http_upstream_fact_selections,
        sub ''causalChain'' http_causal_chain_selections,
        sub ''invalidatedAssumptions'' http_invalidated_assumption_selections,
        sub ''obligations'' http_obligation_selections]"

definition http_search_result_selections :: "graphql_selection list" where
  "http_search_result_selections = [Scalar ''overview'', sub ''bundles'' http_bundle_selections,
     sub ''matchedFacts'' http_primitive_selections]"

definition http_context_result_selections :: "graphql_selection list" where
  "http_context_result_selections = [Scalar ''overview'', sub ''bundles'' http_bundle_selections,
     sub ''primitives'' http_primitive_selections, sub ''obligations'' http_obligation_selections]"

definition http_header_producer_selections :: "graphql_selection list" where
  "http_header_producer_selections = map Scalar [''primitiveId'', ''producerKind'', ''sourceSignal'', ''phase'', ''preconditions'']
     @ [sub ''confidence'' http_confidence_selections]"

definition http_patch_impact_result_selections :: "graphql_selection list" where
  "http_patch_impact_result_selections = [Scalar ''patchFingerprint'',
     sub ''invalidatedAssumptions'' http_invalidated_assumption_selections,
     sub ''propagationObligations'' http_obligation_selections]"

definition selection_select_error :: "string \<Rightarrow> string" where
  "selection_select_error field = ''selectArtefacts(...) only supports select(overview), select(schema), or selecting both overview and schema; unsupported field `''
     @ field @ ''`''"

text \<open>The overview by default; \<open>overview_selections\<close> is what the overview stands for.\<close>

definition stage_selections :: "graphql_selection list \<Rightarrow> string list \<Rightarrow> (string, graphql_selection list) result" where
  "stage_selections overview_selections select_fields =
     (let names = (if select_fields = [] then [''overview''] else select_fields) in
      and_then (map_result (\<lambda>name.
          if name = ''overview'' \<or> name = ''summary'' then Inr overview_selections
          else if name = ''schema'' then Inr [Scalar ''schema'']
          else Inl (selection_select_error name)) names)
        (\<lambda>parts. Inr (concat parts)))"

definition selection_stage_selections :: "string list \<Rightarrow> (string, graphql_selection list) result" where
  "selection_stage_selections = stage_selections [Scalar ''overview'']"

definition dependency_stage_selections :: "string list \<Rightarrow> (string, graphql_selection list) result" where
  "dependency_stage_selections = stage_selections [Scalar ''overview'',
     sub ''expandHint'' [Scalar ''intent'', Scalar ''template'',
       sub ''parameters'' (map Scalar [''name'', ''intent'', ''supportedValues''])]]"

section \<open>Leaves\<close>

definition compile_http_leaf :: "compile_env \<Rightarrow> parsed_query \<Rightarrow> registered_stage_kind \<Rightarrow> (string, graphql_field) result" where
  "compile_http_leaf env pq kind =
     (case kind of
        HttpSearch stage \<Rightarrow> and_then (compile_http_search_args env stage (limit_of pq))
          (\<lambda>args. Inr (GraphqlField ''httpSearch'' args http_search_result_selections))
      | HttpHeaderProducers stage \<Rightarrow> and_then (compile_http_header_producers_args env stage (limit_of pq))
          (\<lambda>args. Inr (GraphqlField ''httpHeaderProducers'' args http_header_producer_selections))
      | HttpLifecycleBoundaries stage \<Rightarrow> Inr (GraphqlField ''httpLifecycleBoundaries''
          (compile_http_lifecycle_boundaries_args env stage (limit_of pq)) http_primitive_selections)
      | HttpLossyTransforms stage \<Rightarrow> Inr (GraphqlField ''httpLossyTransforms''
          (compile_http_lossy_transforms_args env stage (limit_of pq) True) http_primitive_selections)
      | HttpPatchImpact stage \<Rightarrow> and_then (compile_http_patch_impact_args env stage)
          (\<lambda>args. Inr (GraphqlField ''httpPatchImpact'' args http_patch_impact_result_selections))
      | _ \<Rightarrow> Inl ''unsupported HTTP stage in direct lookup compiler'')"

text \<open>What a registered stage adds to the fields of an artefact.\<close>

definition artefact_stage_selections :: "compile_env \<Rightarrow> parsed_query \<Rightarrow> registered_stage_kind option
    \<Rightarrow> (string, graphql_selection list) result" where
  "artefact_stage_selections env pq stage =
     (case stage of
        None \<Rightarrow> Inr []
      | Some (Tests call) \<Rightarrow> and_then (compile_tests_args env pq call False (limit_of pq))
          (\<lambda>args. Inr [Field (GraphqlField ''tests'' args tests_result_selections)])
      | Some Coverage \<Rightarrow> and_then (compile_coverage_args env pq False (limit_of pq))
          (\<lambda>args. Inr [Field (GraphqlField ''coverage'' args coverage_result_selections)])
      | Some CloneSummary \<Rightarrow> Inl ''summary() cannot be nested under artefacts() in the GraphQL compiler''
      | Some (DepsSummary spec) \<Rightarrow>
          Inr [Field (GraphqlField ''dependenciesSummary'' (compile_deps_summary_args spec) deps_summary_selections)]
      | Some TestsSummary \<Rightarrow> Inl ''test_harness_tests_summary() cannot be nested under artefacts()''
      | Some (Knowledge _) \<Rightarrow> Inr []
      | Some SelectionOverview \<Rightarrow> Inl ''overview() cannot be nested under artefacts()''
      | Some (HttpContext _) \<Rightarrow> Inl ''httpContext() is only supported after selectArtefacts(...)''
      | Some (HttpLossyTransforms call) \<Rightarrow> Inr [Field (GraphqlField ''httpLossyTransforms''
          (compile_http_lossy_transforms_args env call (limit_of pq) False) http_primitive_selections)]
      | Some _ \<Rightarrow> Inl ''that HTTP direct lookup cannot be nested under artefacts()'')"

definition compile_artefacts_leaf :: "compile_env \<Rightarrow> parsed_query \<Rightarrow> registered_stage_kind option \<Rightarrow> (string, graphql_field) result" where
  "compile_artefacts_leaf env pq stage =
     (if is_knowledge stage then Inl ''knowledge() cannot be nested under artefacts() when compiling to GraphQL''
      else
        and_then (if pq_has_clones_stage pq then Inr [] else scalar_selections_for_leaf ArtefactLeaf (pq_select_fields pq)) (\<lambda>own.
        and_then (if \<not> pq_has_chat_history_stage pq then Inr []
            else and_then (scalar_selections_for_leaf ChatEntryLeaf [])
              (\<lambda>entry. Inr [Field (connection_field ''chatHistory'' (first_arg (limit_of pq)) entry)])) (\<lambda>chat.
        and_then (if \<not> pq_has_clones_stage pq then Inr []
            else and_then (clone_result_selections (cl_raw (pq_clones pq)))
              (\<lambda>clone. Inr [Field (connection_field ''clones'' (compile_clones_args env pq (limit_of pq)) clone)])) (\<lambda>clones.
        and_then (artefact_stage_selections env pq stage) (\<lambda>staged.
        and_then (compile_artefact_args env pq
            (if pq_has_chat_history_stage pq \<or> pq_has_clones_stage pq \<or> stage \<noteq> None then None else limit_of pq)) (\<lambda>args.
          Inr (connection_field ''artefacts'' args (own @ chat @ clones @ staged))))))))"

definition compile_connection :: "string \<Rightarrow> (string, graphql_argument list) result \<Rightarrow> selectable_leaf \<Rightarrow> parsed_query
    \<Rightarrow> (string, graphql_field) result" where
  "compile_connection name args leaf pq =
     and_then args (\<lambda>args. and_then (scalar_selections_for_leaf leaf (pq_select_fields pq))
       (\<lambda>selections. Inr (connection_field name args selections)))"

text \<open>The stage of a selection and its fields.\<close>

definition compile_selection_stage :: "compile_env \<Rightarrow> parsed_query \<Rightarrow> registered_stage_kind option \<Rightarrow> (string, graphql_field) result" where
  "compile_selection_stage env pq stage =
     (let selected = (\<lambda>name args. and_then args (\<lambda>args. and_then (selection_stage_selections (pq_select_fields pq))
            (\<lambda>selections. Inr (GraphqlField name args selections))))
      in if pq_has_checkpoints_stage pq then selected ''checkpoints'' (compile_selection_checkpoint_args env pq)
         else if pq_has_historical_context_stage pq then
           selected ''historicalContext'' (compile_selection_historical_context_args env pq)
         else if pq_has_context_guidance_stage pq then
           selected ''contextGuidance'' (compile_selection_context_guidance_args env pq)
         else if pq_has_clones_stage pq then selected ''codeMatches'' (Inr (compile_selection_clones_args env pq))
         else if pq_has_deps_stage pq then
           and_then (dependency_stage_selections (pq_select_fields pq))
             (\<lambda>selections. Inr (GraphqlField ''dependencies'' (compile_selection_deps_args pq) selections))
         else (case stage of
             Some (Tests call) \<Rightarrow> selected ''tests'' (Inr (compile_selection_tests_args env call))
           | Some SelectionOverview \<Rightarrow> Inr (GraphqlField ''overview'' [] [])
           | Some (HttpContext _) \<Rightarrow>
               Inr (GraphqlField ''httpContext'' (first_arg (limit_of pq)) http_context_result_selections)
           | _ \<Rightarrow> Inl ''selectArtefacts(...) requires overview(), checkpoints(), historicalContext(), contextGuidance(), clones(), dependencies(), tests(), or httpContext()''))"

definition compile_select_artefacts_leaf :: "compile_env \<Rightarrow> parsed_query \<Rightarrow> registered_stage_kind option \<Rightarrow> (string, graphql_field) result" where
  "compile_select_artefacts_leaf env pq stage =
     and_then (compile_selection_stage env pq stage) (\<lambda>stage_field.
       Inr (GraphqlField ''selectArtefacts'' (compile_select_artefacts_args env pq) [Field stage_field]))"

definition compile_project_stage_leaf :: "compile_env \<Rightarrow> parsed_query \<Rightarrow> registered_stage_kind \<Rightarrow> (string, graphql_field) result" where
  "compile_project_stage_leaf env pq kind =
     (case kind of
        CloneSummary \<Rightarrow> Inl ''summary() is not a project-level registered stage in the GraphQL compiler''
      | DepsSummary _ \<Rightarrow> Inl ''summary(dependencies:true, ...) is not a project-level registered stage in the GraphQL compiler''
      | Tests stage \<Rightarrow> and_then (compile_tests_args env pq stage True (limit_of pq))
          (\<lambda>args. Inr (GraphqlField ''tests'' args tests_result_selections))
      | Coverage \<Rightarrow> and_then (compile_coverage_args env pq True (limit_of pq))
          (\<lambda>args. Inr (GraphqlField ''coverage'' args coverage_result_selections))
      | TestsSummary \<Rightarrow> Inr (GraphqlField ''testsSummary'' [] tests_summary_result_selections)
      | Knowledge _ \<Rightarrow> Inl ''knowledge() is not a project-level registered stage in the GraphQL compiler''
      | SelectionOverview \<Rightarrow> Inl ''that selection-only HTTP stage is not project-level in the GraphQL compiler''
      | HttpContext _ \<Rightarrow> Inl ''that selection-only HTTP stage is not project-level in the GraphQL compiler''
      | _ \<Rightarrow> compile_http_leaf env pq kind)"

definition compile_terminal_leaf :: "compile_env \<Rightarrow> parsed_query \<Rightarrow> registered_stage_kind option \<Rightarrow> (string, graphql_field) result" where
  "compile_terminal_leaf env pq stage =
     (if pq_select_artefacts pq \<noteq> None then compile_select_artefacts_leaf env pq stage
      else if pq_has_checkpoints_stage pq then compile_connection ''checkpoints'' (compile_checkpoint_args env pq) CheckpointLeaf pq
      else if pq_has_telemetry_stage pq then compile_connection ''telemetry'' (compile_telemetry_args env pq) TelemetryLeaf pq
      else if pq_has_deps_stage pq \<and> \<not> pq_has_artefacts_stage pq then
        compile_connection ''dependencies'' (Inr (compile_deps_args pq (limit_of pq))) DependencyEdgeLeaf pq
      else (case stage of
          Some (Knowledge call) \<Rightarrow>
            if pq_has_artefacts_stage pq then compile_artefacts_leaf env pq stage
            else compile_connection KNOWLEDGE_STAGE_NAME (Inr (compile_knowledge_args call (limit_of pq))) KnowledgeItemLeaf pq
        | _ \<Rightarrow>
            if is_http_direct stage \<and> \<not> pq_has_artefacts_stage pq then compile_http_leaf env pq (the stage)
            else if stage = Some CloneSummary then
              and_then (compile_clone_summary_args env pq) (\<lambda>args. Inr (GraphqlField ''cloneSummary'' args clone_summary_selections))
            else if pq_has_artefacts_stage pq then compile_artefacts_leaf env pq stage
            else if stage = Some TestsSummary then Inr (GraphqlField ''testsSummary'' [] tests_summary_result_selections)
            else Inl ''the GraphQL compiler could not determine a queryable leaf stage''))"

section \<open>The document\<close>

definition wrap_in_scopes :: "compile_env \<Rightarrow> parsed_query \<Rightarrow> graphql_field \<Rightarrow> compile_mode \<Rightarrow> graphql_field" where
  "wrap_in_scopes env pq terminal mode =
     (let scoped = (case pq_file pq of
            Some file \<Rightarrow> GraphqlField ''file'' [arg ''path'' (ce_quote env file)] [Field terminal]
          | None \<Rightarrow> (case pq_files_path pq of
                Some path \<Rightarrow> GraphqlField ''files'' [arg ''path'' (ce_quote env path)] [Field terminal]
              | None \<Rightarrow> terminal));
          dated = (case pq_as_of pq of
            Some as_of \<Rightarrow> GraphqlField ''asOf'' [compile_as_of_input env as_of] [Field scoped] | None \<Rightarrow> scoped)
      in case (mode, pq_project_path pq) of
           (GlobalMode, Some path) \<Rightarrow> GraphqlField ''project'' [arg ''path'' (ce_quote env path)] [Field dated]
         | _ \<Rightarrow> dated)"

definition compile_roots :: "compile_env \<Rightarrow> parsed_query \<Rightarrow> compile_mode \<Rightarrow> (string, graphql_field list) result" where
  "compile_roots env pq mode =
     and_then (resolve_registered_stage pq) (\<lambda>stage.
     and_then (validate_graphql_compiler_support pq stage mode) (\<lambda>_.
     and_then (if should_compile_project_stage pq stage then compile_project_stage_leaf env pq (the stage)
               else compile_terminal_leaf env pq stage) (\<lambda>terminal.
       let scoped = wrap_in_scopes env pq terminal mode in
       Inr [case mode of
          GlobalMode \<Rightarrow> GraphqlField ''repo'' [arg ''name'' (ce_quote env (unwrap_or (pq_repo pq) ''default''))] [Field scoped]
        | SlimMode \<Rightarrow> scoped])))"

definition compile_devql_to_graphql_with_mode :: "compile_env \<Rightarrow> parsed_query \<Rightarrow> compile_mode \<Rightarrow> (string, string) result" where
  "compile_devql_to_graphql_with_mode env pq mode =
     and_then (compile_roots env pq mode) (\<lambda>roots. Inr (build_document roots))"

definition compile_devql_query_to_graphql :: "compile_env \<Rightarrow> (string \<Rightarrow> string option) \<Rightarrow> string \<Rightarrow> (string, string) result" where
  "compile_devql_query_to_graphql env f32 query =
     and_then (parse_devql_query f32 query) (\<lambda>pq. compile_devql_to_graphql_with_mode env pq GlobalMode)"

end
