(* ===== verification/DevqlTokens.thy ===== *)
theory DevqlTokens
  imports DevqlCompile
begin

text \<open>
  GraphQL documents as token sequences: a lexer, texts that read as the same tokens wherever they stand between
  separators, and the rendering of a document tree, which reads as the tokens of the tree when its names are words and
  its values readable.
\<close>

section \<open>GraphQL tokens\<close>

datatype token = Punct char | Word string | Str string

datatype lex_mode = Idle | InWord string | InStr string | InEsc string | InHex string string

definition is_word_char :: "char \<Rightarrow> bool" where
  "is_word_char c \<longleftrightarrow> is_ascii_alphanumeric c \<or> c \<in> {CHR ''_'', CHR ''-'', CHR ''.'', CHR ''+''}"

definition is_punct :: "char \<Rightarrow> bool" where
  "is_punct c \<longleftrightarrow> c \<in> {CHR ''{'', CHR ''}'', CHR ''('', CHR '')'', CHR ''['', CHR '']'', CHR '':''}"

text \<open>White space and commas separate tokens.\<close>

definition is_ignored :: "char \<Rightarrow> bool" where
  "is_ignored c \<longleftrightarrow> c \<in> {CHR '' '', CHR '','', CHR 0x09, CHR 0x0A, CHR 0x0D}"

definition backslash :: char where "backslash = CHR 0x5C"

definition unescape :: "char \<Rightarrow> char option" where
  "unescape c = map_of [(dquote, dquote), (backslash, backslash), (CHR ''/'', CHR ''/''), (CHR ''b'', CHR 0x08),
     (CHR ''f'', CHR 0x0C), (CHR ''n'', CHR 0x0A), (CHR ''r'', CHR 0x0D), (CHR ''t'', CHR 0x09)] c"

definition hex_value :: "char \<Rightarrow> nat option" where
  "hex_value c = (let n = char_code c in
     if is_digit c then Some (n - 48) else if 65 \<le> n \<and> n \<le> 70 then Some (n - 55)
     else if 97 \<le> n \<and> n \<le> 102 then Some (n - 87) else None)"

text \<open>The scalar of four hexadecimal digits, in the range of the model.\<close>

fun hex4 :: "string \<Rightarrow> char option" where
  "hex4 [a, b, c, d] = (case (hex_value a, hex_value b, hex_value c, hex_value d) of
      (Some a, Some b, Some c, Some d) \<Rightarrow> if a = 0 \<and> b = 0 then Some (char_of (16 * c + d)) else None
    | _ \<Rightarrow> None)"
| "hex4 _ = None"

definition flush :: "token list \<Rightarrow> lex_mode \<Rightarrow> token list" where
  "flush ts mode = (case mode of InWord w \<Rightarrow> ts @ [Word w] | _ \<Rightarrow> ts)"

fun lex_char :: "token list \<times> lex_mode \<Rightarrow> char \<Rightarrow> (token list \<times> lex_mode) option" where
  "lex_char (ts, InStr s) c =
     (if c = dquote then Some (ts @ [Str s], Idle) else if c = backslash then Some (ts, InEsc s)
      else if char_code c < 32 then None else Some (ts, InStr (s @ [c])))"
| "lex_char (ts, InEsc s) c =
     (if c = CHR ''u'' then Some (ts, InHex s []) else map_option (\<lambda>e. (ts, InStr (s @ [e]))) (unescape c))"
| "lex_char (ts, InHex s ds) c =
     (if length ds < 3 then Some (ts, InHex s (ds @ [c])) else map_option (\<lambda>e. (ts, InStr (s @ [e]))) (hex4 (ds @ [c])))"
| "lex_char (ts, mode) c =
     (if is_ignored c then Some (flush ts mode, Idle)
      else if is_punct c then Some (flush ts mode @ [Punct c], Idle)
      else if c = dquote then Some (flush ts mode, InStr [])
      else if is_word_char c then Some (ts, InWord (case mode of InWord w \<Rightarrow> w @ [c] | _ \<Rightarrow> [c]))
      else None)"

fun lex_run :: "token list \<times> lex_mode \<Rightarrow> string \<Rightarrow> (token list \<times> lex_mode) option" where
  "lex_run st [] = Some st"
| "lex_run st (c # cs) = Option.bind (lex_char st c) (\<lambda>st. lex_run st cs)"

definition lex_tokens :: "string \<Rightarrow> token list option" where
  "lex_tokens s = (case lex_run ([], Idle) s of
      Some (ts, Idle) \<Rightarrow> Some ts | Some (ts, InWord w) \<Rightarrow> Some (ts @ [Word w]) | _ \<Rightarrow> None)"

lemma lex_run_append: "lex_run st (a @ b) = Option.bind (lex_run st a) (\<lambda>st. lex_run st b)"
  by (induction a arbitrary: st) (simp_all split: Option.bind_split)

text \<open>The characters of a JSON string between its quotes.\<close>

fun json_body :: "string \<Rightarrow> string option" where
  "json_body [] = Some []"
| "json_body (c # cs) =
     (if c = dquote \<or> char_code c < 32 then None
      else if c \<noteq> backslash then map_option (Cons c) (json_body cs)
      else (case cs of
          [] \<Rightarrow> None
        | e # es \<Rightarrow>
            if e = CHR ''u'' then (if length es < 4 then None
              else (case hex4 (take 4 es) of None \<Rightarrow> None | Some u \<Rightarrow> map_option (Cons u) (json_body (drop 4 es))))
            else (case unescape e of None \<Rightarrow> None | Some u \<Rightarrow> map_option (Cons u) (json_body es))))"

text \<open>What is relied on of \<open>serde_json::to_string\<close>: the text of a string is a JSON string that reads as it.\<close>

definition json_quoting :: "(string \<Rightarrow> string) \<Rightarrow> bool" where
  "json_quoting quote \<longleftrightarrow> (\<forall>s. \<exists>body. quote s = [dquote] @ body @ [dquote] \<and> json_body body = Some s)"

lemma lex_hex:
  assumes "4 \<le> length es" "hex4 (take 4 es) = Some u"
  shows "lex_run (ts, InHex s []) es = lex_run (ts, InStr (s @ [u])) (drop 4 es)"
proof -
  obtain a b c d rest where es: "es = a # b # c # d # rest"
    using assms(1) by (auto simp: numeral_eq_Suc Suc_le_length_iff)
  show ?thesis using assms(2) by (simp add: es)
qed

lemma lex_body: "json_body body = Some s \<Longrightarrow> lex_run (ts, InStr acc) body = Some (ts, InStr (acc @ s))"
proof (induction body arbitrary: s acc rule: json_body.induct)
  case (2 c cs)
  show ?case
  proof (cases "c = backslash")
    case False
    then show ?thesis using 2 by (auto split: if_splits)
  next
    case True
    have nq: "backslash \<noteq> dquote" "\<not> char_code backslash < 32"
      by (simp_all add: backslash_def dquote_def char_code_def)
    obtain e es where cs: "cs = e # es" using 2(4) True nq by (cases cs) auto
    show ?thesis
    proof (cases "e = CHR ''u''")
      case True
      then obtain u s' where u: "4 \<le> length es" "hex4 (take 4 es) = Some u" "json_body (drop 4 es) = Some s'" "s = u # s'"
        using 2(4) \<open>c = backslash\<close> nq cs by (auto split: if_splits option.splits)
      then show ?thesis using 2(2) [of e es u s' "acc @ [u]"] True \<open>c = backslash\<close> nq cs by (simp add: lex_hex)
    next
      case False
      then obtain u s' where u: "unescape e = Some u" "json_body es = Some s'" "s = u # s'"
        using 2(4) \<open>c = backslash\<close> nq cs by (auto split: if_splits option.splits)
      then show ?thesis using 2(3) [of e es u s' "acc @ [u]"] False \<open>c = backslash\<close> nq cs by simp
    qed
  qed
qed simp

section \<open>Text that reads as tokens\<close>

text \<open>A text reads as tokens when, from between two tokens, they are what it adds once its last word ends.\<close>

definition reads :: "string \<Rightarrow> token list \<Rightarrow> bool" where
  "reads s ts \<longleftrightarrow> (\<forall>before. \<exists>after mode. lex_run (before, Idle) s = Some (after, mode) \<and> flush after mode = before @ ts \<and>
     (mode = Idle \<or> (\<exists>w. mode = InWord w)))"

definition is_separator :: "char \<Rightarrow> bool" where
  "is_separator c \<longleftrightarrow> is_ignored c \<or> is_punct c \<or> c = dquote"

definition word :: "string \<Rightarrow> bool" where
  "word w \<longleftrightarrow> w \<noteq> [] \<and> list_all is_word_char w"

lemma reads_Nil [simp]: "reads [] []"
  by (simp add: reads_def flush_def)

lemma word_char_classes: "is_word_char c \<Longrightarrow> \<not> is_ignored c \<and> \<not> is_punct c \<and> c \<noteq> dquote"
  by (auto simp: is_word_char_def is_ignored_def is_punct_def dquote_def is_ascii_alphanumeric_def is_digit_def
      is_ascii_upper_def is_ascii_lower_def char_code_def)

lemma lex_word: "list_all is_word_char w \<Longrightarrow> lex_run (ts, InWord v) w = Some (ts, InWord (v @ w))"
  using word_char_classes by (induction w arbitrary: v) auto

lemma reads_word: "word w \<Longrightarrow> reads w [Word w]"
  using word_char_classes by (cases w) (auto simp: word_def reads_def lex_word flush_def)

lemma reads_ignored: "is_ignored c \<Longrightarrow> reads s ts \<Longrightarrow> reads (c # s) ts"
  by (simp add: reads_def flush_def)

lemma reads_punct: "is_punct c \<Longrightarrow> reads s ts \<Longrightarrow> reads (c # s) (Punct c # ts)"
proof -
  assume c: "is_punct c" and s: "reads s ts"
  then have "\<not> is_ignored c" by (auto simp: is_punct_def is_ignored_def)
  moreover have "\<exists>after mode. lex_run (before @ [Punct c], Idle) s = Some (after, mode) \<and> flush after mode = before @ Punct c # ts \<and>
      (mode = Idle \<or> (\<exists>w. mode = InWord w))" for before
    using s [unfolded reads_def, rule_format, of "before @ [Punct c]"] by simp
  ultimately show ?thesis using c unfolding reads_def by (simp add: flush_def)
qed

text \<open>A separator ends the word before it.\<close>

lemma separator_ends_word: "is_separator c \<Longrightarrow> lex_char (ts, InWord w) c = lex_char (ts @ [Word w], Idle) c"
  using word_char_classes [of c] by (auto simp: is_separator_def flush_def)

lemma reads_append:
  assumes a: "reads a ts" and b: "reads (c # b) us" "is_separator c"
  shows "reads (a @ c # b) (ts @ us)"
  unfolding reads_def
proof
  fix before
  obtain after mode where 1: "lex_run (before, Idle) a = Some (after, mode)" "flush after mode = before @ ts"
    "mode = Idle \<or> (\<exists>w. mode = InWord w)"
    using a unfolding reads_def by blast
  have "lex_run (after, mode) (c # b) = lex_run (before @ ts, Idle) (c # b)"
    using 1(2,3) separator_ends_word [OF b(2)] by (auto simp: flush_def)
  then show "\<exists>after mode. lex_run (before, Idle) (a @ c # b) = Some (after, mode) \<and> flush after mode = before @ ts @ us \<and>
      (mode = Idle \<or> (\<exists>w. mode = InWord w))"
    using b(1) 1(1) unfolding reads_def lex_run_append by (simp add: append_assoc [symmetric] del: append_assoc)
qed

lemma reads_lex: "reads s ts \<Longrightarrow> lex_tokens s = Some ts"
  unfolding reads_def lex_tokens_def
  by (drule spec [of _ "[]"]) (auto simp: flush_def)

lemma reads_unique: "reads s ts \<Longrightarrow> reads s us \<Longrightarrow> ts = us"
  using reads_lex [of s ts] reads_lex [of s us] by simp

lemma reads_quote: "json_quoting quote \<Longrightarrow> reads (quote s) [Str s]"
proof -
  assume "json_quoting quote"
  then obtain body where body: "quote s = [dquote] @ body @ [dquote]" "json_body body = Some s"
    unfolding json_quoting_def by blast
  have "\<not> is_ignored dquote" "\<not> is_punct dquote" by (simp_all add: is_ignored_def is_punct_def dquote_def)
  then show ?thesis using lex_body [OF body(2)]
    by (simp add: reads_def body(1) lex_run_append flush_def)
qed

subsection \<open>Readable values\<close>

definition readable :: "string \<Rightarrow> bool" where
  "readable s \<longleftrightarrow> (\<exists>ts. reads s ts)"

definition value_tokens :: "string \<Rightarrow> token list" where
  "value_tokens s = (case lex_tokens s of Some ts \<Rightarrow> ts | None \<Rightarrow> [])"

lemma reads_value: "readable s \<Longrightarrow> reads s (value_tokens s)"
  using reads_lex by (auto simp: readable_def value_tokens_def)

lemma readable_Nil [simp]: "readable []"
  unfolding readable_def using reads_Nil by blast

lemma readable_word: "list_all is_word_char w \<Longrightarrow> readable w"
proof (cases w)
  case (Cons c cs)
  moreover assume "list_all is_word_char w"
  ultimately show ?thesis using reads_word [of w] unfolding word_def readable_def by blast
qed simp

lemma readable_quote: "json_quoting quote \<Longrightarrow> readable (quote s)"
  using reads_quote by (auto simp: readable_def)

lemma readable_ignored: "is_ignored c \<Longrightarrow> readable s \<Longrightarrow> readable (c # s)"
  using reads_ignored by (auto simp: readable_def)

lemma readable_punct: "is_punct c \<Longrightarrow> readable s \<Longrightarrow> readable (c # s)"
  using reads_punct by (auto simp: readable_def)

lemma readable_append: "readable a \<Longrightarrow> readable (c # b) \<Longrightarrow> is_separator c \<Longrightarrow> readable (a @ c # b)"
  unfolding readable_def using reads_append by blast

lemma text_chars [simp]:
  "is_punct CHR ''{''" "is_punct CHR ''}''" "is_punct CHR '':''" "is_punct CHR ''[''" "is_punct CHR '']''" "is_punct CHR ''(''"
  "is_punct CHR '')''" "is_ignored CHR '' ''" "is_ignored CHR '',''" "is_ignored CHR 0x0A"
  by (simp_all add: is_punct_def is_ignored_def)

lemma separators [simp]: "is_ignored c \<Longrightarrow> is_separator c" "is_punct c \<Longrightarrow> is_separator c"
  by (simp_all add: is_separator_def)

lemma readable_join: "list_all readable parts \<Longrightarrow> readable (join_on '', '' parts)"
proof (induction parts)
  case (Cons p ps)
  then show ?case by (cases ps) (simp_all add: readable_append readable_ignored)
qed simp

lemma readable_close: "readable s \<Longrightarrow> is_punct c \<Longrightarrow> readable (s @ '' '' @ [c])" "readable s \<Longrightarrow> is_punct c \<Longrightarrow> readable (s @ [c])"
  by (simp_all add: readable_append readable_ignored readable_punct readable_word)

lemma readable_braces: "list_all readable parts \<Longrightarrow> readable (braces parts)"
  using readable_close(1) [OF readable_join, of parts "CHR ''}''"]
  by (simp add: braces_def readable_punct readable_ignored)

lemma readable_part: "readable name \<Longrightarrow> readable v \<Longrightarrow> readable (name @ '': '' @ v)"
  by (simp add: readable_append readable_punct readable_ignored)

section \<open>Documents\<close>

definition arg_tokens :: "graphql_argument \<Rightarrow> token list" where
  "arg_tokens a = Word (ga_name a) # Punct CHR '':'' # value_tokens (ga_value a)"

fun field_tokens :: "graphql_field \<Rightarrow> token list" and selection_tokens :: "graphql_selection \<Rightarrow> token list" where
  "field_tokens (GraphqlField name args selections) =
     Word name # (if args = [] then [] else Punct CHR ''('' # concat (map arg_tokens args) @ [Punct CHR '')''])
     @ (if selections = [] then [] else Punct CHR ''{'' # concat (map selection_tokens selections) @ [Punct CHR ''}''])"
| "selection_tokens (Scalar name) = [Word name]"
| "selection_tokens (Field f) = field_tokens f"

definition document_tokens :: "graphql_field list \<Rightarrow> token list" where
  "document_tokens roots = Word ''query'' # Punct CHR ''{'' # concat (map field_tokens roots) @ [Punct CHR ''}'']"

definition arg_ok :: "graphql_argument \<Rightarrow> bool" where
  "arg_ok a \<longleftrightarrow> word (ga_name a) \<and> readable (ga_value a)"

fun field_ok :: "graphql_field \<Rightarrow> bool" and selection_ok :: "graphql_selection \<Rightarrow> bool" where
  "field_ok (GraphqlField name args selections) \<longleftrightarrow> word name \<and> list_all arg_ok args \<and> list_all selection_ok selections"
| "selection_ok (Scalar name) \<longleftrightarrow> word name"
| "selection_ok (Field f) \<longleftrightarrow> field_ok f"

lemma reads_arg: "arg_ok a \<Longrightarrow> reads (ga_name a @ '': '' @ ga_value a) (arg_tokens a)"
proof -
  assume "arg_ok a"
  then have "reads (ga_name a) [Word (ga_name a)]" "reads ('': '' @ ga_value a) (Punct CHR '':'' # value_tokens (ga_value a))"
    by (simp_all add: arg_ok_def reads_word reads_punct reads_ignored reads_value)
  then show ?thesis using reads_append [of "ga_name a" "[Word (ga_name a)]" "CHR '':''"] by (simp add: arg_tokens_def)
qed

lemma reads_join:
  assumes "list_all2 reads ps tss"
  shows "reads (join_on '', '' ps) (concat tss)"
  using assms
proof (induction ps tss rule: list_all2_induct)
  case (Cons p ps ts tss)
  show ?case
  proof (cases ps)
    case (Cons q qs)
    have "reads (CHR '','' # CHR '' '' # join_on '', '' ps) (concat tss)"
      using Cons.IH by (simp add: reads_ignored)
    then show ?thesis using reads_append [OF Cons.hyps(1)] Cons by simp
  qed (use Cons.hyps in auto)
qed simp

lemma reads_args:
  assumes "list_all arg_ok args"
  shows "args \<noteq> [] \<Longrightarrow> reads (render_args args) (Punct CHR ''('' # concat (map arg_tokens args) @ [Punct CHR '')''])"
proof -
  have "list_all2 reads (map (\<lambda>a. ga_name a @ '': '' @ ga_value a) args) (map arg_tokens args)"
    using assms reads_arg by (induction args) auto
  from reads_join [OF this] have "reads (join_on '', '' (map (\<lambda>a. ga_name a @ '': '' @ ga_value a) args) @ '')'')
      (concat (map arg_tokens args) @ [Punct CHR '')''])"
    using reads_append [of _ _ "CHR '')''" "[]"] by (simp add: reads_punct)
  then show "args \<noteq> [] \<Longrightarrow> ?thesis" by (simp add: render_args_def reads_punct)
qed

lemma reads_indent: "reads s ts \<Longrightarrow> reads (indent n @ s) ts"
  by (induction n) (simp_all add: indent_def reads_ignored)

text \<open>The first line of a field: its name and arguments.\<close>

lemma reads_head:
  assumes "word name" "list_all arg_ok args"
  shows "reads (name @ render_args args)
    (Word name # (if args = [] then [] else Punct CHR ''('' # concat (map arg_tokens args) @ [Punct CHR '')'']))"
proof (cases "args = []")
  case False
  then obtain rest where "render_args args = CHR ''('' # rest" by (simp add: render_args_def)
  then show ?thesis using reads_append [OF reads_word [OF assms(1)], of "CHR ''(''" rest] reads_args [OF assms(2) False] False
    by simp
qed (simp add: reads_word assms(1) render_args_def)

text \<open>Lines read line by line.\<close>

definition lines_read :: "string list \<Rightarrow> token list \<Rightarrow> bool" where
  "lines_read ls ts \<longleftrightarrow> (\<exists>tss. list_all2 reads ls tss \<and> ts = concat tss)"

lemma lines_read_Nil: "lines_read [] []"
  by (simp add: lines_read_def)

lemma lines_read_Cons: "reads l ts \<Longrightarrow> lines_read ls us \<Longrightarrow> lines_read (l # ls) (ts @ us)"
  unfolding lines_read_def by (metis concat.simps(2) list_all2_Cons)

lemma lines_read_append: "lines_read ls ts \<Longrightarrow> lines_read ms us \<Longrightarrow> lines_read (ls @ ms) (ts @ us)"
  unfolding lines_read_def by (metis concat_append list_all2_appendI)

lemma lines_read_concat: "(\<And>x. x \<in> set xs \<Longrightarrow> lines_read (f x) (g x)) \<Longrightarrow> lines_read (concat (map f xs)) (concat (map g xs))"
  by (induction xs) (simp_all add: lines_read_Nil lines_read_append)

lemma lines_read_single: "reads l ts \<Longrightarrow> lines_read [l] ts"
  using lines_read_Cons [OF _ lines_read_Nil] by force

lemma reads_lines: "lines_read ls ts \<Longrightarrow> reads (join_on nl ls) ts"
proof -
  assume "lines_read ls ts"
  then obtain tss where tss: "list_all2 reads ls tss" "ts = concat tss" unfolding lines_read_def by blast
  from tss(1) have "reads (join_on nl ls) (concat tss)"
  proof (induction ls tss rule: list_all2_induct)
    case (Cons p ps ts tss)
    show ?case
    proof (cases ps)
      case (Cons q qs)
      have "reads (CHR 0x0A # join_on nl ps) (concat tss)" using Cons.IH by (simp add: reads_ignored)
      then show ?thesis using reads_append [OF Cons.hyps(1)] Cons by (simp add: nl_def)
    qed (use Cons.hyps in auto)
  qed simp
  then show ?thesis by (simp add: tss(2))
qed

lemma reads_punct_line: "is_punct c \<Longrightarrow> reads (indent n @ [c]) [Punct c]"
  using reads_indent [OF reads_punct [OF _ reads_Nil]] by blast

lemma render_reads:
  "field_ok f \<Longrightarrow> lines_read (render_field n f) (field_tokens f)"
  "selection_ok s \<Longrightarrow> lines_read (render_selection n s) (selection_tokens s)"
proof (induction n f and n s rule: render_field_render_selection.induct)
  case (1 n name args selections)
  let ?head = "Word name # (if args = [] then [] else Punct CHR ''('' # concat (map arg_tokens args) @ [Punct CHR '')''])"
  have head: "reads (name @ render_args args) ?head" using 1(2) reads_head by simp
  show ?case
  proof (cases "selections = []")
    case True
    then show ?thesis using lines_read_single [OF reads_indent [OF head, of n]] by simp
  next
    case False
    have opened: "reads (name @ render_args args @ '' {'') (?head @ [Punct CHR ''{''])"
      using reads_append [OF head, of "CHR '' ''" "''{''" "[Punct CHR ''{'']"] by (simp add: reads_ignored reads_punct)
    have inner: "lines_read (concat (map (render_selection (n + 1)) selections)) (concat (map selection_tokens selections))"
      by (rule lines_read_concat) (use 1 False in \<open>auto simp: list_all_iff\<close>)
    have "lines_read (render_field n (GraphqlField name args selections))
        ((?head @ [Punct CHR ''{'']) @ concat (map selection_tokens selections) @ [Punct CHR ''}''])"
      using lines_read_Cons [OF reads_indent [OF opened, of n]
          lines_read_append [OF inner lines_read_single [OF reads_punct_line [of "CHR ''}''" n]]]] False
      by simp
    then show ?thesis using False by simp
  qed
qed (simp_all add: lines_read_single reads_indent reads_word)

lemma document_reads:
  assumes "list_all field_ok roots"
  shows "reads (build_document roots) (document_tokens roots)"
proof -
  have "lines_read (concat (map (render_field 1) roots)) (concat (map field_tokens roots))"
    by (rule lines_read_concat) (use assms render_reads(1) in \<open>auto simp: list_all_iff\<close>)
  moreover have "word ''query''" by (simp add: word_def is_word_char_def is_ascii_alphanumeric_def is_ascii_lower_def char_code_def)
  then have "reads ''query {'' [Word ''query'', Punct CHR ''{'']"
    using reads_append [OF reads_word, of "''query''" "CHR '' ''" "''{''" "[Punct CHR ''{'']"]
    by (simp add: reads_ignored reads_punct)
  moreover have "lines_read [''}''] [Punct CHR ''}'']"
    using lines_read_single [OF reads_punct_line [of "CHR ''}''" 0]] by (simp add: indent_def)
  ultimately have "lines_read (''query {'' # concat (map (render_field 1) roots) @ [''}'']) (document_tokens roots)"
    using lines_read_Cons lines_read_append by (fastforce simp: document_tokens_def)
  then show ?thesis unfolding build_document_def by (rule reads_lines)
qed

end
