(* ===== verification/DevqlTrees.thy ===== *)
theory DevqlTrees
  imports DevqlTokens
begin

text \<open>
  The document trees the DevQL compiler builds are well formed: every name is a word, and every value is readable as
  soon as the few texts that are written without quotes are words.
\<close>

section \<open>The trees the compiler builds\<close>

lemmas word_defs = word_def is_word_char_def is_ascii_alphanumeric_def is_digit_def is_ascii_upper_def is_ascii_lower_def
  char_code_def

lemma fixed_selections_ok:
  "list_all selection_ok tests_result_selections" "list_all selection_ok coverage_result_selections"
  "list_all selection_ok tests_summary_result_selections" "list_all selection_ok clone_summary_selections"
  "list_all selection_ok deps_summary_selections"
  by (simp_all add: tests_result_selections_def coverage_result_selections_def tests_summary_result_selections_def
      clone_summary_selections_def deps_summary_selections_def sub_def word_defs)

lemma http_parts_ok:
  "list_all selection_ok http_confidence_selections" "list_all selection_ok http_evidence_selections"
  "list_all selection_ok http_upstream_fact_selections" "list_all selection_ok http_causal_chain_selections"
  "list_all selection_ok http_invalidated_assumption_selections" "list_all selection_ok http_obligation_selections"
  by (simp_all add: http_confidence_selections_def http_evidence_selections_def http_upstream_fact_selections_def
      http_causal_chain_selections_def http_invalidated_assumption_selections_def http_obligation_selections_def word_defs)

lemma http_selections_ok:
  "list_all selection_ok http_primitive_selections" "list_all selection_ok http_bundle_selections"
  "list_all selection_ok http_search_result_selections" "list_all selection_ok http_context_result_selections"
  "list_all selection_ok http_header_producer_selections" "list_all selection_ok http_patch_impact_result_selections"
proof -
  show primitive: "list_all selection_ok http_primitive_selections"
    by (simp add: http_primitive_selections_def sub_def http_parts_ok, simp add: word_defs)
  show bundled: "list_all selection_ok http_bundle_selections"
    by (simp add: http_bundle_selections_def sub_def http_parts_ok, simp add: word_defs)
  show "list_all selection_ok http_search_result_selections" "list_all selection_ok http_context_result_selections"
    by (simp_all add: http_search_result_selections_def http_context_result_selections_def sub_def http_parts_ok primitive bundled,
        simp_all add: word_defs)
  show "list_all selection_ok http_header_producer_selections" "list_all selection_ok http_patch_impact_result_selections"
    by (simp_all add: http_header_producer_selections_def http_patch_impact_result_selections_def sub_def http_parts_ok,
        simp_all add: word_defs)
qed

lemma default_fields_ok: "list_all word (default_fields_for_leaf leaf)"
  by (cases leaf) (simp_all add: word_defs)

lemma allowed_fields_ok: "list_all word (allowed_fields_for_leaf leaf)"
  by (cases leaf) (simp_all add: word_defs)

lemma map_result_mem: "map_result f xs = Inr ys \<Longrightarrow> y \<in> set ys \<Longrightarrow> \<exists>x \<in> set xs. f x = Inr y"
  by (induction xs arbitrary: ys) (auto simp: and_then_Inr_iff)

lemma leaf_selections_ok:
  assumes "scalar_selections_for_leaf leaf select_fields = Inr selections"
  shows "list_all selection_ok selections"
proof (cases "select_fields = []")
  case True
  then show ?thesis using assms default_fields_ok [of leaf]
    by (auto simp: scalar_selections_for_leaf_def list_all_iff)
next
  case False
  then obtain names where names: "map_result (map_selected_field leaf) select_fields = Inr names" "selections = map Scalar names"
    using assms by (auto simp: scalar_selections_for_leaf_def)
  have "word name" if "name \<in> set names" for name
    using map_result_mem [OF names(1) that] allowed_fields_ok [of leaf]
    by (auto simp: map_selected_field_def Let_def list_all_iff split: if_splits)
  then show ?thesis by (auto simp: names(2) list_all_iff)
qed

lemma clone_selections_ok: "clone_result_selections raw = Inr selections \<Longrightarrow> list_all selection_ok selections"
  using leaf_selections_ok [of CloneLeaf]
  by (cases raw) (auto simp: clone_result_selections_def sub_def, simp_all add: word_defs)

lemma stage_selections_ok:
  assumes "stage_selections overview select_fields = Inr selections" "list_all selection_ok overview"
  shows "list_all selection_ok selections"
proof -
  obtain parts where parts: "map_result (\<lambda>name. if name = ''overview'' \<or> name = ''summary'' then Inr overview
      else if name = ''schema'' then Inr [Scalar ''schema''] else Inl (selection_select_error name))
      (if select_fields = [] then [''overview''] else select_fields) = Inr parts" "selections = concat parts"
    using assms(1) by (auto simp: stage_selections_def Let_def)
  have schema: "word ''schema''" by (simp add: word_defs)
  have "list_all selection_ok part" if "part \<in> set parts" for part
    using map_result_mem [OF parts(1) that] assms(2) schema by (auto split: if_splits)
  then show ?thesis by (auto simp: parts(2) list_all_iff)
qed

lemma selection_stages_ok:
  "selection_stage_selections select_fields = Inr selections \<Longrightarrow> list_all selection_ok selections"
  "dependency_stage_selections select_fields = Inr selections \<Longrightarrow> list_all selection_ok selections"
  unfolding selection_stage_selections_def dependency_stage_selections_def
  by (erule stage_selections_ok, simp add: sub_def word_defs)+

subsection \<open>Arguments\<close>

lemma word_readable: "word w \<Longrightarrow> readable w"
  by (simp add: word_def readable_word)

lemma digit_word: "is_digit c \<Longrightarrow> is_word_char c"
  by (simp add: is_word_char_def is_ascii_alphanumeric_def)

lemma dec_word: "list_all is_word_char (dec n)"
  using dec_digits [of n] digit_word by (auto simp: list_all_iff)

lemma readable_dec: "readable (dec n)" "readable (int_text i)"
  using dec_word by (auto intro!: readable_word simp: int_text_def is_word_char_def)

lemma readable_bool: "readable (bool_text b)"
  by (cases b) (simp_all add: bool_text_def readable_word word_defs)

lemma opt_arg_ok: "word name \<Longrightarrow> (\<And>v. value = Some v \<Longrightarrow> readable (f v)) \<Longrightarrow> list_all arg_ok (opt_arg name f value)"
  by (cases "value") (simp_all add: opt_arg_def arg_ok_def arg_def)

lemma opt_part_ok: "word name \<Longrightarrow> (\<And>v. value = Some v \<Longrightarrow> readable (f v)) \<Longrightarrow> list_all readable (opt_part name f value)"
  by (cases "value") (simp_all add: opt_part_def readable_part [simplified] word_readable)

lemma arg_ok_arg: "word name \<Longrightarrow> readable v \<Longrightarrow> arg_ok (arg name v)"
  by (simp add: arg_ok_def arg_def)

lemma first_arg_ok: "list_all arg_ok (first_arg first)"
  by (cases "first") (simp_all add: first_arg_def arg_ok_arg readable_dec word_defs)

lemma lines_text_ok: "readable (lines_text span)"
proof -
  have "readable ('', end: '' @ int_text b @ '' }'')" for b
    using readable_append [OF readable_dec(2), of "CHR '' ''" "''}''" b]
    by (simp add: readable_append [of "''end''", simplified] readable_ignored readable_punct readable_word word_defs)
  then have "readable (int_text a @ '', end: '' @ int_text b @ '' }'')" for a b
    using readable_append [OF readable_dec(2), of "CHR '',''" _ a] by simp
  then show ?thesis unfolding lines_text_def
    using readable_part [of "''lines''"] 
    by (simp add: readable_append [of "''lines''", simplified] readable_append [of "''start''", simplified] readable_ignored
        readable_punct readable_word word_defs)
qed

text \<open>The texts of a query that are written into the document as they are, or in capitals, without quotes.\<close>

definition plain_enum :: "string option \<Rightarrow> bool" where
  "plain_enum v \<longleftrightarrow> (case v of None \<Rightarrow> True | Some s \<Rightarrow> list_all is_word_char (enum_literal s))"

definition plain_raw :: "string option \<Rightarrow> bool" where
  "plain_raw v \<longleftrightarrow> (case v of None \<Rightarrow> True | Some s \<Rightarrow> list_all is_word_char s)"

definition plain_call :: "registered_stage_call \<Rightarrow> bool" where
  "plain_call stage \<longleftrightarrow> plain_enum (bt_get (rs_args stage) ''provider'') \<and> plain_raw (bt_get (rs_args stage) ''min_confidence'')"

definition plain_query :: "parsed_query \<Rightarrow> bool" where
  "plain_query pq \<longleftrightarrow> plain_enum (af_kind (pq_artefacts pq)) \<and>
     plain_enum (Option.bind (pq_select_artefacts pq) sa_search_mode) \<and>
     plain_enum (hc_evidence_kind (pq_historical_context pq)) \<and> plain_enum (cg_evidence_kind (pq_context_guidance pq)) \<and>
     plain_enum (cg_category (pq_context_guidance pq)) \<and> plain_raw (cl_min_score (pq_clones pq)) \<and>
     list_all plain_call (pq_registered_stages pq)"

lemma plain_readable: "plain_enum (Some s) \<Longrightarrow> readable (enum_literal s)" "plain_raw (Some s) \<Longrightarrow> readable s"
  by (simp_all add: plain_enum_def plain_raw_def readable_word)

lemma enum_opt_ok: "word name \<Longrightarrow> plain_enum v \<Longrightarrow> list_all arg_ok (opt_arg name enum_literal v)"
  "word name \<Longrightarrow> plain_enum v \<Longrightarrow> list_all readable (opt_part name enum_literal v)"
  by (auto intro: opt_arg_ok opt_part_ok plain_readable)

lemma raw_opt_ok: "word name \<Longrightarrow> plain_raw v \<Longrightarrow> list_all arg_ok (opt_arg name (\<lambda>s. s) v)"
  "word name \<Longrightarrow> plain_raw v \<Longrightarrow> list_all readable (opt_part name (\<lambda>s. s) v)"
  by (auto intro: opt_arg_ok opt_part_ok plain_readable)

lemma kind_words: "list_all is_word_char (enum_literal (deps_kind_as_str kind))"
  by (induction kind; code_simp)

lemma direction_words: "list_all is_word_char (enum_literal (deps_direction_as_str direction))"
  by (induction direction; code_simp)

lemmas vocabulary_readable = kind_words [THEN readable_word] direction_words [THEN readable_word]

lemma datetime_readable:
  assumes "json_quoting (ce_quote env)" "since_part env since = Inr (Some text)"
  shows "readable text"
  using assms readable_quote
  by (auto simp: since_part_def optional_def compile_datetime_literal_def and_then_Inr_iff split: option.splits)

lemma since_opt_ok:
  assumes "json_quoting (ce_quote env)" "since_part env since = Inr text" "word name"
  shows "list_all arg_ok (opt_arg name (\<lambda>s. s) text)" "list_all readable (opt_part name (\<lambda>s. s) text)"
  using assms datetime_readable [OF assms(1)] by (auto intro: opt_arg_ok opt_part_ok)

lemma quote_opt_ok:
  assumes "json_quoting quote" "word name"
  shows "list_all arg_ok (opt_arg name quote v)" "list_all readable (opt_part name quote v)"
  using assms readable_quote by (auto intro: opt_arg_ok opt_part_ok)

lemma span_ok: "list_all readable (case span of None \<Rightarrow> [] | Some s \<Rightarrow> [lines_text s])"
  using lines_text_ok by (cases span) simp_all

lemma artefact_filter_ok:
  assumes "json_quoting (ce_quote env)" "plain_query pq" "compile_artefact_filter_input env pq = Inr (Some text)"
  shows "readable text"
proof -
  obtain since where since: "since_part env (af_since (pq_artefacts pq)) = Inr since"
    using assms(3) by (auto simp: compile_artefact_filter_input_def Let_def)
  have "list_all readable (opt_part ''kind'' enum_literal (af_kind (pq_artefacts pq)))"
    by (rule enum_opt_ok) (use assms(2) in \<open>simp_all add: plain_query_def word_defs\<close>)
  moreover have "list_all readable (opt_part ''symbolFqn'' (ce_quote env) (af_symbol_fqn (pq_artefacts pq)))"
    "list_all readable (opt_part ''agent'' (ce_quote env) (af_agent (pq_artefacts pq)))"
    by (rule quote_opt_ok [OF assms(1)], simp add: word_defs)+
  moreover have "list_all readable (opt_part ''since'' (\<lambda>s. s) since)"
    by (rule since_opt_ok [OF assms(1) since]) (simp add: word_defs)
  ultimately show ?thesis using assms(3) since span_ok [of "af_lines (pq_artefacts pq)"]
    by (auto simp: compile_artefact_filter_input_def Let_def intro!: readable_braces split: if_splits)
qed

lemma filter_arg_ok:
  assumes "json_quoting (ce_quote env)" "plain_query pq" "compile_artefact_filter_input env pq = Inr text" "word name"
  shows "list_all arg_ok (filter_arg name text)"
  unfolding filter_arg_def by (rule opt_arg_ok [OF assms(4)]) (use artefact_filter_ok assms in blast)

lemma clones_filter_ok:
  assumes "json_quoting (ce_quote env)" "plain_query pq" "word name"
  shows "list_all arg_ok (filter_arg name (compile_clones_filter_input env pq))"
proof -
  have "list_all readable (opt_part ''relationKind'' (ce_quote env) (cl_relation_kind (pq_clones pq)))"
    by (rule quote_opt_ok [OF assms(1)]) (simp add: word_defs)
  moreover have "list_all readable (opt_part ''minScore'' (\<lambda>s. s) (cl_min_score (pq_clones pq)))"
    by (rule raw_opt_ok) (use assms(2) in \<open>simp_all add: plain_query_def word_defs\<close>)
  moreover have "list_all readable (opt_part ''neighbors'' (\<lambda>n. int_text (f n)) (cl_neighbors (pq_clones pq)))" for f
    by (rule opt_part_ok) (simp_all add: readable_dec word_defs)
  ultimately show ?thesis unfolding filter_arg_def
    by (intro opt_arg_ok [OF assms(3)]) (auto simp: compile_clones_filter_input_def Let_def intro!: readable_braces split: if_splits)
qed

end
