(* ===== verification/DevqlProperties.thy ===== *)
theory DevqlProperties
  imports DevqlTrees
begin

text \<open>
  What the DevQL compiler promises: the document it writes has the structure of the tree it built, whatever the text
  of the query's strings; the arguments of a stage read back as they were written; a query that passes the validation
  has a leaf to compile.
\<close>

section \<open>The compiler builds well-formed trees\<close>

lemma resolved_call:
  assumes "resolve_registered_stage pq = Inr (Some kind)"
  obtains call where "call \<in> set (pq_registered_stages pq)" "resolve_stage call = Inr kind"
  using assms by (auto simp: resolve_registered_stage_def and_then_Inr_iff split: list.splits)




subsection \<open>Arguments of the leaves\<close>







subsection \<open>Leaves and scopes\<close>













section \<open>Arguments read back\<close>

definition render_named_args :: "(string \<times> string) list \<Rightarrow> string" where
  "render_named_args kvs = join_on '', '' (map (\<lambda>(k, v). k @ '': '' @ [dquote] @ v @ [dquote]) kvs)"

definition plain_key :: "string \<Rightarrow> bool" where
  "plain_key k \<longleftrightarrow> k \<noteq> [] \<and> trim k = k \<and> set k \<inter> {dquote, squote, CHR '','', CHR '':''} = {}"

lemma quote_chars [simp]: "dquote \<noteq> squote" "squote \<noteq> dquote" "\<not> is_ws dquote" "dquote \<noteq> CHR '',''" "dquote \<noteq> CHR '':''"
  by (simp_all add: dquote_def squote_def is_ws_def char_code_def)

lemma scan_plain: "set s \<inter> {dquote, squote, CHR '',''} = {} \<Longrightarrow> foldl split_args_step (cur, pieces, None) s = (cur @ s, pieces, None)"
  by (induction s arbitrary: cur) auto

lemma scan_quoted: "dquote \<notin> set s \<Longrightarrow> foldl split_args_step (cur, pieces, Some dquote) s = (cur @ s, pieces, Some dquote)"
  by (induction s arbitrary: cur) auto

lemma scan_pair:
  assumes "plain_key k" "dquote \<notin> set v"
  shows "foldl split_args_step (cur, pieces, None) (k @ '': '' @ [dquote] @ v @ [dquote]) =
    (cur @ k @ '': '' @ [dquote] @ v @ [dquote], pieces, None)"
proof -
  have k: "set k \<inter> {dquote, squote, CHR '',''} = {}" using assms(1) by (auto simp: plain_key_def)
  have "set '': '' \<inter> {dquote, squote, CHR '',''} = {}" by (simp add: dquote_def squote_def)
  from scan_plain [OF this] scan_plain [OF k] scan_quoted [OF assms(2)] show ?thesis
    by (simp only: foldl_append) simp
qed

lemma trim_blank: "trim (CHR '' '' # s) = trim s"
  by (simp add: trim_def trim_start_def is_ws_def char_code_def)

lemma trim_pair:
  assumes "plain_key k"
  shows "trim (k @ '': '' @ [dquote] @ v @ [dquote]) = k @ '': '' @ [dquote] @ v @ [dquote]"
    "trim (CHR '' '' # k @ '': '' @ [dquote] @ v @ [dquote]) = k @ '': '' @ [dquote] @ v @ [dquote]"
proof -
  have "\<not> is_ws (hd k)" "k \<noteq> []" using assms trim_edges [of k] by (auto simp: plain_key_def)
  then show plain: "trim (k @ '': '' @ [dquote] @ v @ [dquote]) = k @ '': '' @ [dquote] @ v @ [dquote]"
    by (intro trim_id) (auto simp: hd_append)
  then show "trim (CHR '' '' # k @ '': '' @ [dquote] @ v @ [dquote]) = k @ '': '' @ [dquote] @ v @ [dquote]"
    using plain by (simp add: trim_blank)
qed

lemma scan_pairs:
  assumes "\<forall>(k, v) \<in> set kvs. plain_key k \<and> dquote \<notin> set v" "kvs \<noteq> []" "lead = [] \<or> lead = '' ''"
  shows "case foldl split_args_step (lead, pieces, None) (render_named_args kvs) of (current, pieces', _) \<Rightarrow>
    (if trim current = [] then pieces' else pieces' @ [trim current]) =
      pieces @ map (\<lambda>(k, v). k @ '': '' @ [dquote] @ v @ [dquote]) kvs"
  using assms
proof (induction kvs arbitrary: pieces lead)
  case (Cons kv kvs)
  obtain k v where kv: "kv = (k, v)" by (cases kv)
  let ?piece = "k @ '': '' @ [dquote] @ v @ [dquote]"
  have piece: "plain_key k" "dquote \<notin> set v" using Cons.prems(1) kv by auto
  have trimmed: "trim (lead @ ?piece) = ?piece" using trim_pair [OF piece(1), of v] Cons.prems(3) by auto
  show ?case
  proof (cases kvs)
    case Nil
    then show ?thesis using scan_pair [OF piece, of lead pieces] trimmed by (simp add: render_named_args_def kv)
  next
    case (Cons q qs)
    have render: "render_named_args (kv # kvs) = ?piece @ '', '' @ render_named_args kvs"
      by (simp add: render_named_args_def kv Cons)
    have step: "foldl split_args_step (lead, pieces, None) (?piece @ '', '') = ('' '', pieces @ [?piece], None)"
      using scan_pair [OF piece, of lead pieces] trimmed by (simp only: foldl_append) (simp add: dquote_def squote_def)
    have rest: "foldl split_args_step (lead, pieces, None) (render_named_args (kv # kvs)) =
      foldl split_args_step ('' '', pieces @ [?piece], None) (render_named_args kvs)"
      using foldl_append [of split_args_step "(lead, pieces, None)" "?piece @ '', ''" "render_named_args kvs"]
      unfolding render step by (simp only: append_assoc)
    show ?thesis unfolding rest using Cons.IH [of "'' ''" "pieces @ [?piece]"] Cons.prems(1) Cons by (simp add: kv)
  qed
qed simp

lemma split_once_key: "set k \<inter> {c} = {} \<Longrightarrow> split_once [c] (k @ c # rest) = Some (k, rest)"
  by (induction k) auto

lemma parse_pair:
  assumes "plain_key k" "dquote \<notin> set v"
  shows "parse_arg_piece (k @ '': '' @ [dquote] @ v @ [dquote]) = Inr (k, v)"
proof -
  have "split_once '':'' (k @ CHR '':'' # CHR '' '' # dquote # v @ [dquote]) = Some (k, CHR '' '' # dquote # v @ [dquote])"
    by (rule split_once_key) (use assms(1) in \<open>auto simp: plain_key_def\<close>)
  moreover have "trim (CHR '' '' # dquote # v @ [dquote]) = dquote # v @ [dquote]"
    unfolding trim_blank by (rule trim_id) simp_all
  moreover have "trim (dquote # v @ [dquote]) = dquote # v @ [dquote]" by (rule trim_id) simp
  ultimately show ?thesis using assms(1) by (simp add: parse_arg_piece_def parse_single_quoted_or_double_def Let_def plain_key_def)
qed

text \<open>C25: named arguments round-trip. A list of arguments written as keys and double-quoted values is read back as
  exactly the map of those keys and values, also when the values have commas, colons, parentheses or apostrophes.\<close>

theorem named_args_round_trip:
  assumes "\<forall>(k, v) \<in> set kvs. plain_key k \<and> dquote \<notin> set v"
  shows "parse_named_args (render_named_args kvs) = Inr (bt_of_list kvs)"
proof (cases "kvs = []")
  case True
  then show ?thesis by (simp add: render_named_args_def parse_named_args_def bt_of_list_def trim_def trim_start_def trim_end_def)
next
  case False
  have pieces: "split_args (render_named_args kvs) = map (\<lambda>(k, v). k @ '': '' @ [dquote] @ v @ [dquote]) kvs"
    using scan_pairs [OF assms False, of "[]" "[]"] unfolding split_args_def
    by (cases "foldl split_args_step ([], [], None) (render_named_args kvs)") simp
  have "fold_result (\<lambda>piece args. and_then (parse_arg_piece piece) (\<lambda>(k, v). Inr (bt_insert k v args)))
      (map (\<lambda>(k, v). k @ '': '' @ [dquote] @ v @ [dquote]) kvs) args = Inr (foldl (\<lambda>m (k, v). bt_insert k v m) args kvs)" for args
    using assms parse_pair by (induction kvs arbitrary: args) (auto simp del: append_Cons)
  moreover have "trim (render_named_args kvs) \<noteq> []"
  proof
    assume blank: "trim (render_named_args kvs) = []"
    obtain k v kvs' where kvs: "kvs = (k, v) # kvs'" using False by (cases kvs) auto
    then have "plain_key k" using assms by auto
    then have "k \<noteq> []" "\<not> is_ws (hd k)" using trim_edges [of k] by (auto simp: plain_key_def)
    then obtain c k' where k: "k = c # k'" "\<not> is_ws c" by (cases k) auto
    have "\<exists>rest. render_named_args kvs = c # rest" by (cases kvs') (simp_all add: render_named_args_def kvs k(1) split: prod.split)
    then show False using blank k(2) by (auto simp: trim_def trim_start_def trim_end_def)
  qed
  ultimately show ?thesis by (simp add: parse_named_args_def pieces bt_of_list_def)
qed

section \<open>What validation leaves to the compiler\<close>

text \<open>The errors that are about a text of the query: a date, a name of \<open>select()\<close>, an argument that is missing.\<close>

definition query_text_errors :: "string list" where
  "query_text_errors = [''invalid datetime value `'', ''unsupported select() field `'',
     ''selectArtefacts(...) only supports select(overview), select(schema)'', ''httpSearch() requires terms:'',
     ''http_search() requires terms:'', ''httpHeaderProducers() requires header:'', ''httpPatchImpact() requires patch_fingerprint:'']"

definition query_text_error :: "string \<Rightarrow> bool" where
  "query_text_error e \<longleftrightarrow> list_ex (\<lambda>p. starts_with p e) query_text_errors"

definition text_errors_only :: "(string, 'a) result \<Rightarrow> bool" where
  "text_errors_only r \<longleftrightarrow> (\<forall>e. r = Inl e \<longrightarrow> query_text_error e)"

lemma text_errors_intros:
  "text_errors_only (Inr a)"
  "query_text_error e \<Longrightarrow> text_errors_only (Inl e)"
  "text_errors_only r \<Longrightarrow> (\<And>a. r = Inr a \<Longrightarrow> text_errors_only (f a)) \<Longrightarrow> text_errors_only (and_then r f)"
  by (cases r; simp add: text_errors_only_def)+

lemma text_error_prefix: "p \<in> set query_text_errors \<Longrightarrow> query_text_error (p @ s)"
  by (auto simp: query_text_error_def list_ex_iff starts_with_def)

lemma map_result_text_errors: "(\<And>x. text_errors_only (f x)) \<Longrightarrow> text_errors_only (map_result f xs)"
  by (induction xs) (auto intro!: text_errors_intros)

lemma optional_text_errors: "(\<And>x. text_errors_only (f x)) \<Longrightarrow> text_errors_only (optional f v)"
  by (auto simp: optional_def intro!: text_errors_intros split: option.split)

lemma datetime_text_errors: "text_errors_only (compile_datetime_literal env v)" "text_errors_only (since_part env since)"
proof -
  show date: "text_errors_only (compile_datetime_literal env v)" for v
    using text_error_prefix [of "''invalid datetime value `''"]
    by (auto simp: compile_datetime_literal_def query_text_errors_def intro!: text_errors_intros split: option.split)
  show "text_errors_only (since_part env since)" unfolding since_part_def by (rule optional_text_errors [OF date])
qed

lemma scalar_text_errors: "text_errors_only (scalar_selections_for_leaf leaf names)"
proof -
  have "text_errors_only (map_selected_field leaf name)" for name
    using text_error_prefix [of "''unsupported select() field `''"]
    by (auto simp: map_selected_field_def query_text_errors_def Let_def intro!: text_errors_intros)
  then show ?thesis by (auto simp: scalar_selections_for_leaf_def intro!: text_errors_intros map_result_text_errors)
qed

lemma stage_selection_text_errors:
  "text_errors_only (selection_stage_selections names)" "text_errors_only (dependency_stage_selections names)"
proof -
  have "query_text_error (selection_select_error name)" for name
    using text_error_prefix [of "''selectArtefacts(...) only supports select(overview), select(schema)''"]
    by (simp add: selection_select_error_def query_text_errors_def)
  then have "text_errors_only (stage_selections overview names)" for overview
    by (auto simp: stage_selections_def Let_def intro!: text_errors_intros map_result_text_errors)
  then show "text_errors_only (selection_stage_selections names)" "text_errors_only (dependency_stage_selections names)"
    by (simp_all add: selection_stage_selections_def dependency_stage_selections_def)
qed

lemmas text_errors = text_errors_intros datetime_text_errors scalar_text_errors stage_selection_text_errors

lemma argument_text_errors:
  "text_errors_only (compile_artefact_filter_input env pq)" "text_errors_only (compile_artefact_args env pq n)"
  "text_errors_only (compile_selection_checkpoint_args env pq)" "text_errors_only (compile_checkpoint_args env pq)"
  "text_errors_only (compile_selection_historical_context_args env pq)"
  "text_errors_only (compile_selection_context_guidance_args env pq)" "text_errors_only (compile_telemetry_args env pq)"
  "text_errors_only (compile_clone_summary_args env pq)" "text_errors_only (compile_tests_args env pq call inner n)"
  "text_errors_only (compile_coverage_args env pq inner n)" "text_errors_only (clone_result_selections raw)"
  by (auto simp: compile_artefact_filter_input_def compile_artefact_args_def compile_selection_checkpoint_args_def
      compile_checkpoint_args_def compile_selection_historical_context_args_def compile_selection_context_guidance_args_def
      compile_telemetry_args_def compile_clone_summary_args_def compile_tests_args_def compile_coverage_args_def
      included_filter_def clone_result_selections_def Let_def intro!: text_errors)

text \<open>Names of the stages that look up HTTP facts.\<close>

lemma search_stage_name:
  assumes "resolve_stage call = Inr (HttpSearch c)"
  shows "rs_stage_name c \<in> {''httpSearch'', ''http_search''}"
proof -
  have "resolve_summary_stage_kind call \<noteq> Inr (HttpSearch c)"
    by (auto simp: resolve_summary_stage_kind_def resolve_deps_summary_def and_then_Inr_iff split: option.splits if_splits)
  then show ?thesis using assms unfolding resolve_stage_def
    by (auto simp: Let_def http_stages_def split: if_splits)
qed

lemma http_leaf_text_errors:
  assumes "is_http_direct (Some kind)" "\<And>c. kind = HttpSearch c \<Longrightarrow> rs_stage_name c \<in> {''httpSearch'', ''http_search''}"
  shows "text_errors_only (compile_http_leaf env pq kind)"
proof -
  have errors: "query_text_error ''httpSearch() requires terms:''" "query_text_error ''http_search() requires terms:''"
    "query_text_error ''httpHeaderProducers() requires header:''" "query_text_error ''httpPatchImpact() requires patch_fingerprint:''"
    using text_error_prefix [of _ "[]"] by (simp_all add: query_text_errors_def)
  show ?thesis using assms
    by (cases kind) (auto simp: compile_http_leaf_def compile_http_search_args_def compile_http_header_producers_args_def
        compile_http_patch_impact_args_def intro!: text_errors_intros errors split: option.split)
qed

lemma first_error_ok: "first_error checks = Inr () \<longleftrightarrow> list_all (\<lambda>(bad, _). \<not> bad) checks"
  by (induction checks rule: first_error.induct) auto

lemma first_error_nth: "first_error checks = Inr () \<Longrightarrow> i < length checks \<Longrightarrow> \<not> fst (checks ! i)"
  by (cases "checks ! i") (auto simp: first_error_ok list_all_length)

text \<open>What the checks of a traversal establish, as far as the leaves need it.\<close>

lemma traversal_established:
  assumes "first_error (traversal_checks pq stage mode) = Inr ()"
  shows "stage = Some CloneSummary \<Longrightarrow> pq_has_clones_stage pq" "pq_has_clones_stage pq \<Longrightarrow> pq_has_artefacts_stage pq"
    "stage \<noteq> Some SelectionOverview" "\<not> is_http_context stage"
    "pq_has_artefacts_stage pq \<Longrightarrow> is_http_direct stage \<Longrightarrow> is_lossy_transforms stage"
    "is_knowledge stage \<Longrightarrow> \<not> pq_has_artefacts_stage pq" "stage = Some TestsSummary \<Longrightarrow> \<not> pq_has_artefacts_stage pq"
    "pq_has_artefacts_stage pq \<or> pq_has_checkpoints_stage pq \<or> pq_has_telemetry_stage pq \<or> pq_has_deps_stage pq
      \<or> is_knowledge stage \<or> stage = Some TestsSummary \<or> is_deps_summary stage \<or> is_http_direct stage"
    "is_deps_summary stage \<Longrightarrow> pq_has_artefacts_stage pq"
proof -
  note check = first_error_nth [OF assms, unfolded traversal_checks_def Let_def]
  show "stage = Some CloneSummary \<Longrightarrow> pq_has_clones_stage pq" using check [of 10] by simp
  show "pq_has_clones_stage pq \<Longrightarrow> pq_has_artefacts_stage pq" using check [of 5] by simp
  show "stage \<noteq> Some SelectionOverview" using check [of 29] by simp
  show "\<not> is_http_context stage" using check [of 30] by simp
  show "pq_has_artefacts_stage pq \<Longrightarrow> is_http_direct stage \<Longrightarrow> is_lossy_transforms stage" using check [of 33] by simp
  show "is_knowledge stage \<Longrightarrow> \<not> pq_has_artefacts_stage pq" using check [of 39] by simp
  show "stage = Some TestsSummary \<Longrightarrow> \<not> pq_has_artefacts_stage pq" using check [of 24] by simp
  show "is_deps_summary stage \<Longrightarrow> pq_has_artefacts_stage pq" using check [of 12] by simp
  show "pq_has_artefacts_stage pq \<or> pq_has_checkpoints_stage pq \<or> pq_has_telemetry_stage pq \<or> pq_has_deps_stage pq
      \<or> is_knowledge stage \<or> stage = Some TestsSummary \<or> is_deps_summary stage \<or> is_http_direct stage"
    using check [of 41] by simp
qed

lemma stage_name_of_search:
  assumes "resolve_registered_stage pq = Inr (Some (HttpSearch c))"
  shows "rs_stage_name c \<in> {''httpSearch'', ''http_search''}"
  using resolved_call [OF assms] search_stage_name by metis

lemma artefacts_leaf_text_errors:
  assumes "first_error (traversal_checks pq stage mode) = Inr ()" "pq_has_artefacts_stage pq" "stage \<noteq> Some CloneSummary"
  shows "text_errors_only (compile_artefacts_leaf env pq stage)"
proof -
  note known = traversal_established [OF assms(1)]
  have "text_errors_only (artefact_stage_selections env pq stage)"
  proof (cases stage)
    case (Some kind)
    then show ?thesis using known assms(2,3)
      by (cases kind) (auto simp: artefact_stage_selections_def intro!: text_errors argument_text_errors)
  qed (simp add: artefact_stage_selections_def text_errors_intros)
  then show ?thesis using known(6) assms(2)
    by (auto simp: compile_artefacts_leaf_def intro!: text_errors argument_text_errors)
qed

lemma terminal_leaf_text_errors:
  assumes stage: "resolve_registered_stage pq = Inr stage" and valid: "first_error (traversal_checks pq stage mode) = Inr ()"
    and none: "pq_select_artefacts pq = None"
  shows "text_errors_only (compile_terminal_leaf env pq stage)"
proof -
  note known = traversal_established [OF valid]
  have connection: "text_errors_only args \<Longrightarrow> text_errors_only (compile_connection name args leaf pq)" for name args leaf
    by (auto simp: compile_connection_def intro!: text_errors)
  note leaf = artefacts_leaf_text_errors [OF valid]
  have http: "is_http_direct (Some kind) \<Longrightarrow> stage = Some kind \<Longrightarrow> text_errors_only (compile_http_leaf env pq kind)" for kind
    using http_leaf_text_errors [of kind env pq] stage_name_of_search stage by blast
  show ?thesis
  proof (cases "pq_has_checkpoints_stage pq \<or> pq_has_telemetry_stage pq \<or> (pq_has_deps_stage pq \<and> \<not> pq_has_artefacts_stage pq)")
    case True
    then show ?thesis using none by (auto simp: compile_terminal_leaf_def intro!: connection argument_text_errors text_errors_intros(1))
  next
    case False
    show ?thesis
    proof (cases stage)
      case None
      then show ?thesis using False none known leaf by (auto simp: compile_terminal_leaf_def)
    next
      case (Some kind)
      then show ?thesis using False none known leaf http [of kind] connection
        by (cases kind) (auto simp: compile_terminal_leaf_def intro!: text_errors argument_text_errors)
    qed
  qed
qed

lemma project_leaf_text_errors:
  assumes "resolve_registered_stage pq = Inr (Some kind)" "project_level kind"
  shows "text_errors_only (compile_project_stage_leaf env pq kind)"
  using assms(2) http_leaf_text_errors [of kind env pq] stage_name_of_search assms(1)
  by (cases kind) (auto simp: compile_project_stage_leaf_def intro!: text_errors argument_text_errors)

lemma selection_leaf_text_errors:
  assumes "validate_selection selector pq stage mode = Inr ()"
  shows "text_errors_only (compile_select_artefacts_leaf env pq stage)"
proof -
  have counted: "terminal_stage_count pq stage \<noteq> 0" and supported: "\<not> selection_rejects stage"
    using assms first_error_nth [of "selection_checks pq stage mode" 5]
    by (auto simp: validate_selection_def selection_checks_def)
  have "text_errors_only (compile_selection_stage env pq stage)"
    using counted supported
    by (cases stage; cases "the stage")
      (auto simp: compile_selection_stage_def terminal_stage_count_def Let_def intro!: text_errors argument_text_errors)
  then show ?thesis by (auto simp: compile_select_artefacts_leaf_def intro!: text_errors)
qed

text \<open>C24: validation is complete for the compiler. When the stages of a query pass the checks, the compiler always has
  a leaf for them: compiling can only fail on a text of the query, a date that is none, a name in select() that is no
  field, or a missing argument of an HTTP lookup; the compiler's own errors about combinations of stages are never
  reached.\<close>

theorem validated_queries_have_a_leaf:
  assumes "resolve_registered_stage pq = Inr stage" "validate_graphql_compiler_support pq stage mode = Inr ()"
    and "compile_devql_to_graphql_with_mode env pq mode = Inl e"
  shows "query_text_error e"
proof -
  have "text_errors_only (if should_compile_project_stage pq stage then compile_project_stage_leaf env pq (the stage)
      else compile_terminal_leaf env pq stage)"
  proof (cases "pq_select_artefacts pq")
    case None
    then have valid: "first_error (traversal_checks pq stage mode) = Inr ()"
      using assms(2) by (simp add: validate_graphql_compiler_support_def)
    show ?thesis using terminal_leaf_text_errors [OF assms(1) valid None] project_leaf_text_errors assms(1)
      by (auto simp: should_compile_project_stage_def split: option.splits if_splits)
  next
    case (Some selector)
    then have valid: "validate_selection selector pq stage mode = Inr ()"
      using assms(2) by (simp add: validate_graphql_compiler_support_def)
    show ?thesis using selection_leaf_text_errors [OF valid] Some
      by (auto simp: should_compile_project_stage_def compile_terminal_leaf_def split: option.splits if_splits)
  qed
  then have "text_errors_only (compile_devql_to_graphql_with_mode env pq mode)"
    using assms(1,2) by (auto simp: compile_devql_to_graphql_with_mode_def compile_roots_def Let_def intro!: text_errors_intros)
  then show ?thesis using assms(3) by (simp add: text_errors_only_def)
qed

section \<open>Concrete queries\<close>

text \<open>A JSON quoting: quotes and backslashes escaped, control characters as four hexadecimal digits.\<close>

definition hex_digit :: "nat \<Rightarrow> char" where
  "hex_digit n = ''0123456789abcdef'' ! n"

definition json_escape :: "char \<Rightarrow> string" where
  "json_escape c =
     (if c = dquote \<or> c = backslash then [backslash, c]
      else if char_code c < 32 then backslash # ''u00'' @ [hex_digit (char_code c div 16), hex_digit (char_code c mod 16)]
      else [c])"

definition json_quote :: "string \<Rightarrow> string" where
  "json_quote s = [dquote] @ concat (map json_escape s) @ [dquote]"






definition demo_env :: compile_env where
  "demo_env = \<lparr>ce_quote = json_quote, ce_date = \<lambda>_. None, ce_datetime = \<lambda>_. None\<rparr>"





theorem named_args_round_trip_witness:
  "parse_named_args (render_named_args [(''symbol_fqn'', ''src/a.ts::f(x, y)''), (''search'', ''it: is '' @ [squote])]) =
    Inr (bt_of_list [(''symbol_fqn'', ''src/a.ts::f(x, y)''), (''search'', ''it: is '' @ [squote])])"
  by (rule named_args_round_trip)
    (simp add: plain_key_def dquote_def squote_def trim_def trim_start_def trim_end_def is_ws_def char_code_def)

definition undated_query :: parsed_query where
  "undated_query = initial_query\<lparr>pq_has_artefacts_stage := True,
     pq_artefacts := (pq_artefacts initial_query)\<lparr>af_since := Some ''yesterday''\<rparr>\<rparr>"

theorem validated_queries_have_a_leaf_witness: "query_text_error ''invalid datetime value `yesterday`''"
proof (rule validated_queries_have_a_leaf)
  show "resolve_registered_stage undated_query = Inr None" by code_simp
  show "validate_graphql_compiler_support undated_query None GlobalMode = Inr ()" by code_simp
  show "compile_devql_to_graphql_with_mode demo_env undated_query GlobalMode = Inl ''invalid datetime value `yesterday`''"
    by code_simp
qed

section \<open>Limits of the language\<close>

text \<open>Stages are split at arrows also inside quotes: a search for text with an arrow is no query.\<close>

lemma arrow_in_quotes_is_split:
  "\<exists>e. parse_devql_query f32 (''selectArtefacts(search:'' @ [dquote] @ ''a->b'' @ [dquote] @ '')'') = Inl e"
proof -
  have "query_stages (''selectArtefacts(search:'' @ [dquote] @ ''a->b'' @ [dquote] @ '')'') =
      [''selectArtefacts(search:'' @ [dquote] @ ''a'', ''b'' @ [dquote] @ '')'']"
    by code_simp
  moreover have "parse_stage f32 (''selectArtefacts(search:'' @ [dquote] @ ''a'') initial_query =
      Inl (''unsupported DevQL stage: selectArtefacts(search:'' @ [dquote] @ ''a'')"
    by (simp add: parse_stage_def core_stages_def stage_inner_def strip_suffix_def stage_registered_def
        parse_registered_stage_def ends_with_def Let_def dquote_def)
  ultimately show ?thesis by (simp add: parse_devql_query_def)
qed

text \<open>The confidence of tests() is written into the document as it is: here it adds a field that no stage of the query
  asks for.\<close>

definition injecting_query :: parsed_query where
  "injecting_query = initial_query\<lparr>pq_project_path := Some ''p'', pq_has_artefacts_stage := True,
     pq_registered_stages := [\<lparr>rs_stage_name = ''tests'', rs_args = [(''min_confidence'', ''0) { x } leak(a:1'')]\<rparr>]\<rparr>"

lemma confidence_changes_the_document:
  "map_option (take 104) (case compile_devql_to_graphql_with_mode demo_env injecting_query GlobalMode of
      Inl _ \<Rightarrow> None | Inr document \<Rightarrow> Some document) =
    Some (''query {'' @ nl @ ''  repo(name: '' @ json_quote ''default'' @ '') {'' @ nl @ ''    project(path: '' @ json_quote ''p''
      @ '') {'' @ nl @ ''      tests(minConfidence: 0) { x } leak(a:1)'')"
  by code_simp

end
