(* ===== verification/ExtensionPacks.thy ===== *)
theory ExtensionPacks
  imports OrdMap
begin

text \<open>
  The lifecycle types of \<open>host/extension_host/lifecycle.rs\<close> (compatibility of an extension with the host, readiness,
  diagnostics, the orchestration of migrations) and the registry of capability packs of
  \<open>host/extension_host/capability.rs\<close>. A registry is updated only after every check of a descriptor has passed; a
  failed registration leaves an observation. The hash maps are association lists, whose order nothing reads: identifiers
  are sorted before they are listed.
\<close>

section \<open>Compatibility (lifecycle.rs)\<close>

definition HOST_EXTENSION_CONTRACT_VERSION :: nat where "HOST_EXTENSION_CONTRACT_VERSION = 1"
definition HOST_EXTENSION_RUNTIME_VERSION :: nat where "HOST_EXTENSION_RUNTIME_VERSION = 1"

definition PHASE1_HOST_FEATURES :: "string list" where
  "PHASE1_HOST_FEATURES = [''language-packs'', ''capability-packs'', ''readiness'', ''diagnostics'', ''capability-migrations'']"

datatype extension_runtime = LocalCli | RemoteRuntime

fun runtime_as_str :: "extension_runtime \<Rightarrow> string" where
  "runtime_as_str LocalCli = ''local-cli''"
| "runtime_as_str RemoteRuntime = ''remote-runtime''"

record host_compatibility_context =
  hx_contract_version :: nat
  hx_runtime_version :: nat
  hx_runtime :: extension_runtime
  hx_supported_features :: "string list"

definition local_cli_phase1 :: host_compatibility_context where
  "local_cli_phase1 = \<lparr>hx_contract_version = HOST_EXTENSION_CONTRACT_VERSION,
     hx_runtime_version = HOST_EXTENSION_RUNTIME_VERSION, hx_runtime = LocalCli, hx_supported_features = PHASE1_HOST_FEATURES\<rparr>"

definition supports_feature :: "host_compatibility_context \<Rightarrow> string \<Rightarrow> bool" where
  "supports_feature host feature \<longleftrightarrow> list_ex (\<lambda>candidate. eq_ignore_ascii_case candidate feature) (hx_supported_features host)"

record extension_compatibility =
  ec_contract_version :: nat
  ec_min_host_version :: nat
  ec_max_host_version :: nat
  ec_supported_runtimes :: "extension_runtime list"
  ec_required_host_features :: "string list"

definition phase1_local_cli :: "string list \<Rightarrow> extension_compatibility" where
  "phase1_local_cli required = \<lparr>ec_contract_version = HOST_EXTENSION_CONTRACT_VERSION,
     ec_min_host_version = HOST_EXTENSION_RUNTIME_VERSION, ec_max_host_version = HOST_EXTENSION_RUNTIME_VERSION,
     ec_supported_runtimes = [LocalCli], ec_required_host_features = required\<rparr>"

datatype compatibility_error =
    EmptyRuntimeSupport string string
  | ContractVersionMismatch string string nat nat
  | HostRuntimeOutOfRange string string nat nat nat
  | RuntimeNotSupported string string extension_runtime
  | MissingHostFeature string string string

definition tick :: "string \<Rightarrow> string" where
  "tick s = ''`'' @ s @ ''`''"

fun compatibility_error_text :: "compatibility_error \<Rightarrow> string" where
  "compatibility_error_text (EmptyRuntimeSupport family ident) =
     family @ '' '' @ tick ident @ '' must declare at least one supported runtime''"
| "compatibility_error_text (ContractVersionMismatch family ident declared host) =
     family @ '' '' @ tick ident @ '' declares contract version '' @ dec declared @ '', but host expects '' @ dec host"
| "compatibility_error_text (HostRuntimeOutOfRange family ident host lowest highest) =
     family @ '' '' @ tick ident @ '' is incompatible with host runtime version '' @ dec host @ '' (supported range: ''
       @ dec lowest @ ''-'' @ dec highest @ '')''"
| "compatibility_error_text (RuntimeNotSupported family ident runtime) =
     family @ '' '' @ tick ident @ '' does not support host runtime '' @ tick (runtime_as_str runtime)"
| "compatibility_error_text (MissingHostFeature family ident feature) =
     family @ '' '' @ tick ident @ '' requires unsupported host feature '' @ tick feature"

definition validate_compatibility :: "extension_compatibility \<Rightarrow> string \<Rightarrow> string \<Rightarrow> host_compatibility_context
    \<Rightarrow> (compatibility_error, unit) result" where
  "validate_compatibility c family ident host =
     (if ec_supported_runtimes c = [] then Inl (EmptyRuntimeSupport family ident)
      else if ec_contract_version c \<noteq> hx_contract_version host then
        Inl (ContractVersionMismatch family ident (ec_contract_version c) (hx_contract_version host))
      else if hx_runtime_version host < ec_min_host_version c \<or> hx_runtime_version host > ec_max_host_version c then
        Inl (HostRuntimeOutOfRange family ident (hx_runtime_version host) (ec_min_host_version c) (ec_max_host_version c))
      else if hx_runtime host \<notin> set (ec_supported_runtimes c) then
        Inl (RuntimeNotSupported family ident (hx_runtime host))
      else (case find (\<lambda>feature. \<not> supports_feature host feature) (ec_required_host_features c) of
          Some feature \<Rightarrow> Inl (MissingHostFeature family ident feature)
        | None \<Rightarrow> Inr ()))"

section \<open>Readiness and diagnostics (lifecycle.rs)\<close>

datatype extension_readiness_status = ExtensionReady | ExtensionNotReady

definition from_failures :: "bool \<Rightarrow> extension_readiness_status" where
  "from_failures has_failures = (if has_failures then ExtensionNotReady else ExtensionReady)"

datatype extension_lifecycle_state =
  DiscoveredState | ValidatedState | RegisteredState | MigratedState | ReadyState | FailedState

record extension_readiness_failure =
  rf_code :: string
  rf_message :: string

record extension_readiness_report =
  rr_family :: string
  rr_id :: string
  rr_registered :: bool
  rr_ready :: bool
  rr_status :: extension_readiness_status
  rr_lifecycle_state :: extension_lifecycle_state
  rr_failures :: "extension_readiness_failure list"

datatype diagnostic_severity = InfoSeverity | WarningSeverity | ErrorSeverity
datatype diagnostic_kind = RegistrationDiagnostic | CompatibilityDiagnostic | ReadinessDiagnostic | MigrationDiagnostic

record extension_diagnostic =
  dg_family :: string
  dg_extension_id :: string
  dg_severity :: diagnostic_severity
  dg_kind :: diagnostic_kind
  dg_code :: string
  dg_message :: string

section \<open>Migrations (lifecycle.rs)\<close>

record migration_descriptor =
  md_id :: string
  md_order :: nat
  md_description :: string

record migration_step =
  ms_pack_id :: string
  ms_migration_id :: string
  ms_order :: nat
  ms_description :: string

definition step_from_descriptor :: "string \<Rightarrow> migration_descriptor \<Rightarrow> migration_step" where
  "step_from_descriptor pack_id d = \<lparr>ms_pack_id = pack_id, ms_migration_id = md_id d, ms_order = md_order d,
     ms_description = md_description d\<rparr>"

record migration_execution =
  me_pack_id :: string
  me_migration_id :: string
  me_order :: nat

record migration_failure =
  mf_pack_id :: string
  mf_migration_id :: string
  mf_order :: nat
  mf_reason :: string

datatype migration_status = MigrationsCompleted | MigrationsFailed

record migration_run_report =
  mr_status :: migration_status
  mr_executed :: "migration_execution list"
  mr_failure :: "migration_failure option"

definition execution_of :: "migration_step \<Rightarrow> migration_execution" where
  "execution_of s = \<lparr>me_pack_id = ms_pack_id s, me_migration_id = ms_migration_id s, me_order = ms_order s\<rparr>"

definition step_key :: "migration_step \<Rightarrow> nat \<times> string \<times> string" where
  "step_key s = (ms_order s, ms_pack_id s, ms_migration_id s)"

text \<open>The executor has a state of its own, as a \<open>FnMut\<close> has.\<close>

fun run_steps :: "('s \<Rightarrow> migration_step \<Rightarrow> (string, unit) result \<times> 's) \<Rightarrow> 's \<Rightarrow> migration_step list
    \<Rightarrow> migration_execution list \<Rightarrow> migration_run_report \<times> 's" where
  "run_steps executor s [] executed =
     (\<lparr>mr_status = MigrationsCompleted, mr_executed = executed, mr_failure = None\<rparr>, s)"
| "run_steps executor s (step # steps) executed =
     (case executor s step of
        (Inr _, s) \<Rightarrow> run_steps executor s steps (executed @ [execution_of step])
      | (Inl reason, s) \<Rightarrow>
          (\<lparr>mr_status = MigrationsFailed, mr_executed = executed, mr_failure = Some \<lparr>mf_pack_id = ms_pack_id step,
             mf_migration_id = ms_migration_id step, mf_order = ms_order step, mf_reason = reason\<rparr>\<rparr>, s))"

definition orchestrate_capability_migrations :: "migration_step list
    \<Rightarrow> ('s \<Rightarrow> migration_step \<Rightarrow> (string, unit) result \<times> 's) \<Rightarrow> 's \<Rightarrow> migration_run_report \<times> 's" where
  "orchestrate_capability_migrations steps executor s = run_steps executor s (sort_key step_key steps) []"

section \<open>Identifiers and their owners\<close>

definition normalised :: "string \<Rightarrow> string" where
  "normalised value = to_ascii_lowercase (trim value)"

definition normalise_identifier :: "(string \<Rightarrow> string \<Rightarrow> 'e) \<Rightarrow> string \<Rightarrow> string \<Rightarrow> ('e, string) result" where
  "normalise_identifier invalid field value =
     (if normalised value = [] then Inl (invalid field value) else Inr (normalised value))"

text \<open>None of the identifiers is owned by another pack.\<close>

definition check_owner :: "(string, string) btree \<Rightarrow> string \<Rightarrow> (string \<Rightarrow> string \<Rightarrow> 'e) \<Rightarrow> string \<Rightarrow> ('e, unit) result" where
  "check_owner owners owner conflict key =
     (case bt_get owners key of
        Some existing \<Rightarrow> if existing \<noteq> owner then Inl (conflict key existing) else Inr ()
      | None \<Rightarrow> Inr ())"

definition check_owners :: "(string \<Rightarrow> string \<Rightarrow> 'e) \<Rightarrow> string \<Rightarrow> (string, string) btree \<Rightarrow> string
    \<Rightarrow> (string \<Rightarrow> string \<Rightarrow> 'e) \<Rightarrow> string list \<Rightarrow> ('e, unit) result" where
  "check_owners invalid field owners owner conflict values =
     fold_result (\<lambda>value _. and_then (normalise_identifier invalid field value) (check_owner owners owner conflict)) values ()"

definition claim :: "string \<Rightarrow> string list \<Rightarrow> (string, string) btree \<Rightarrow> (string, string) btree" where
  "claim owner keys m = foldl (\<lambda>m key. bt_insert key owner m) m keys"

subsection \<open>Exclusive ownership\<close>

text \<open>The interface of a table of owners: claiming sets the owner of the claimed identifiers and of no other. A claim of
  identifiers that are free for the claimant takes nothing from anyone.\<close>

locale exclusive_claims =
  fixes owner :: "'m \<Rightarrow> 'k \<Rightarrow> 'p option"
    and claims :: "'p \<Rightarrow> 'k list \<Rightarrow> 'm \<Rightarrow> 'm"
  assumes owner_claims: "owner (claims p ks m) k = (if k \<in> set ks then Some p else owner m k)"
begin

definition free :: "'p \<Rightarrow> 'k list \<Rightarrow> 'm \<Rightarrow> bool" where
  "free p ks m \<longleftrightarrow> (\<forall>k \<in> set ks. owner m k = None \<or> owner m k = Some p)"

text \<open>The table is the one of what the packs declare.\<close>

definition mirrors :: "'m \<Rightarrow> ('d \<Rightarrow> 'k list) \<Rightarrow> ('p \<Rightarrow> 'd option) \<Rightarrow> bool" where
  "mirrors m items packs \<longleftrightarrow> (\<forall>k p. owner m k = Some p \<longleftrightarrow> (\<exists>d. packs p = Some d \<and> k \<in> set (items d)))"

lemma kept: "free p ks m \<Longrightarrow> owner m k = Some q \<Longrightarrow> owner (claims p ks m) k = Some q"
  by (auto simp: owner_claims free_def)

lemma mirrors_claims:
  assumes "mirrors m items packs" "free p (items d) m" "packs p = None"
  shows "mirrors (claims p (items d) m) items (packs(p \<mapsto> d))"
proof -
  have old: "owner m k = Some q \<longleftrightarrow> (\<exists>d. packs q = Some d \<and> k \<in> set (items d))" for k q
    using assms(1) by (simp add: mirrors_def)
  have unclaimed: "owner m k = None" if "k \<in> set (items d)" for k
    using assms(2,3) old [of k] that unfolding free_def by (metis option.distinct(1))
  have "owner (claims p (items d) m) k = Some q \<longleftrightarrow> (\<exists>d'. (packs(p \<mapsto> d)) q = Some d' \<and> k \<in> set (items d'))" for k q
  proof (cases "k \<in> set (items d)")
    case True
    then have "\<not> (\<exists>d'. packs q = Some d' \<and> k \<in> set (items d'))" using unclaimed [OF True] old [of k q] by simp
    then show ?thesis using True by (auto simp: owner_claims)
  next
    case False
    then show ?thesis using old [of k q] assms(3) by (auto simp: owner_claims)
  qed
  then show ?thesis by (simp add: mirrors_def)
qed

end

lemma bt_get_claim: "bt_get (claim p ks m) k = (if k \<in> set ks then Some p else bt_get m k)"
  unfolding claim_def by (induction ks arbitrary: m) (auto simp: bt_get_insert)

interpretation owners: exclusive_claims bt_get claim
  by unfold_locales (rule bt_get_claim)

lemma check_owners_ok:
  "check_owners invalid field m p conflict vs = Inr () \<longleftrightarrow>
    (\<forall>v \<in> set vs. normalised v \<noteq> []) \<and> owners.free p (map normalised vs) m"
proof -
  have "(\<exists>key. normalise_identifier invalid field v = Inr key \<and> check_owner m p conflict key = Inr ()) \<longleftrightarrow>
      normalised v \<noteq> [] \<and> (bt_get m (normalised v) = None \<or> bt_get m (normalised v) = Some p)" for v
    by (auto simp: normalise_identifier_def check_owner_def split: option.splits)
  then have "fold_result (\<lambda>value _. and_then (normalise_identifier invalid field value) (check_owner m p conflict)) vs () = Inr ()
      \<longleftrightarrow> (\<forall>v \<in> set vs. normalised v \<noteq> [] \<and> (bt_get m (normalised v) = None \<or> bt_get m (normalised v) = Some p))"
    by (induction vs) auto
  then show ?thesis by (auto simp: check_owners_def owners.free_def)
qed

section \<open>Capability packs (capability.rs)\<close>

record capability_dependency =
  cd_capability_id :: string
  cd_min_version :: string

record capability_descriptor =
  cap_id :: string
  cap_display_name :: string
  cap_version :: string
  cap_api_version :: nat
  cap_description :: string
  cap_default_enabled :: bool
  cap_experimental :: bool
  cap_dependencies :: "capability_dependency list"
  cap_required_host_features :: "string list"

text \<open>Stages, ingesters and schema modules are contributed as their identifiers.\<close>

record query_example_contribution =
  qe_id :: string
  qe_query :: string

record capability_pack =
  cp_capability :: capability_descriptor
  cp_aliases :: "string list"
  cp_stages :: "string list"
  cp_ingesters :: "string list"
  cp_schema_modules :: "string list"
  cp_query_examples :: "query_example_contribution list"
  cp_compatibility :: extension_compatibility
  cp_migrations :: "migration_descriptor list"

datatype pack_registration_status = PackRegistered | PackRejected

record pack_registration_observation =
  ob_pack_id :: string
  ob_status :: pack_registration_status
  ob_reason :: "string option"

datatype capability_registry_error =
    InvalidCapabilityIdentifier string string
  | MissingContributions string
  | DuplicateCapabilityPack string
  | CapabilityAliasConflict string string string
  | StageAlreadyOwned string string string
  | IngesterAlreadyOwned string string string
  | SchemaModuleAlreadyOwned string string string
  | QueryExampleAlreadyOwned string string string

definition owned_text :: "string \<Rightarrow> string \<Rightarrow> string \<Rightarrow> string \<Rightarrow> string" where
  "owned_text what key existing attempted =
     what @ '' '' @ tick key @ '' is already owned by '' @ tick existing @ '' (attempted '' @ tick attempted @ '')''"

fun capability_error_text :: "capability_registry_error \<Rightarrow> string" where
  "capability_error_text (InvalidCapabilityIdentifier field value) = ''invalid '' @ field @ '': '' @ tick value"
| "capability_error_text (MissingContributions pack_id) = ''capability pack '' @ tick pack_id
     @ '' must declare at least one stage, ingester, schema module, or query example contribution''"
| "capability_error_text (DuplicateCapabilityPack pack_id) = ''duplicate capability pack id: '' @ tick pack_id"
| "capability_error_text (CapabilityAliasConflict key existing attempted) = owned_text ''capability pack alias'' key existing attempted"
| "capability_error_text (StageAlreadyOwned key existing attempted) = owned_text ''stage'' key existing attempted"
| "capability_error_text (IngesterAlreadyOwned key existing attempted) = owned_text ''ingester'' key existing attempted"
| "capability_error_text (SchemaModuleAlreadyOwned key existing attempted) = owned_text ''schema module'' key existing attempted"
| "capability_error_text (QueryExampleAlreadyOwned key existing attempted) = owned_text ''query example'' key existing attempted"

record capability_registry =
  cr_descriptors :: "(string, capability_pack) btree"
  cr_aliases :: "(string, string) btree"
  cr_stage_owners :: "(string, string) btree"
  cr_ingester_owners :: "(string, string) btree"
  cr_schema_module_owners :: "(string, string) btree"
  cr_query_example_owners :: "(string, string) btree"
  cr_observations :: "pack_registration_observation list"

definition empty_capability_registry :: capability_registry where
  "empty_capability_registry = \<lparr>cr_descriptors = [], cr_aliases = [], cr_stage_owners = [], cr_ingester_owners = [],
     cr_schema_module_owners = [], cr_query_example_owners = [], cr_observations = []\<rparr>"

definition capability_pack_id :: "capability_pack \<Rightarrow> string" where
  "capability_pack_id d = cap_id (cp_capability d)"

definition cap_identifier :: "string \<Rightarrow> string \<Rightarrow> (capability_registry_error, string) result" where
  "cap_identifier = normalise_identifier InvalidCapabilityIdentifier"

definition validate_capability_pack :: "capability_registry \<Rightarrow> capability_pack \<Rightarrow> (capability_registry_error, string) result" where
  "validate_capability_pack reg d =
     and_then (cap_identifier ''capability pack id'' (capability_pack_id d)) (\<lambda>pack_id.
     let check = (\<lambda>field owners conflict values.
           check_owners InvalidCapabilityIdentifier field owners pack_id (\<lambda>key existing. conflict key existing pack_id) values)
     in if cp_stages d = [] \<and> cp_ingesters d = [] \<and> cp_schema_modules d = [] \<and> cp_query_examples d = [] then
          Inl (MissingContributions pack_id)
        else if bt_contains (cr_descriptors reg) pack_id then Inl (DuplicateCapabilityPack pack_id)
        else
          and_then (check ''capability pack alias'' (cr_aliases reg) CapabilityAliasConflict (cp_aliases d)) (\<lambda>_.
          and_then (check ''capability stage'' (cr_stage_owners reg) StageAlreadyOwned (cp_stages d)) (\<lambda>_.
          and_then (check ''capability ingester'' (cr_ingester_owners reg) IngesterAlreadyOwned (cp_ingesters d)) (\<lambda>_.
          and_then (check ''capability schema module'' (cr_schema_module_owners reg) SchemaModuleAlreadyOwned (cp_schema_modules d)) (\<lambda>_.
          and_then (check ''capability query example'' (cr_query_example_owners reg) QueryExampleAlreadyOwned
            (map qe_id (cp_query_examples d))) (\<lambda>_.
          Inr pack_id))))))"

text \<open>The checked identifiers are normalised again when they are claimed, which cannot fail any more.\<close>

definition commit_capability_pack :: "string \<Rightarrow> capability_pack \<Rightarrow> capability_registry \<Rightarrow> capability_registry" where
  "commit_capability_pack pack_id d reg = reg
     \<lparr>cr_aliases := claim pack_id (pack_id # map normalised (cp_aliases d)) (cr_aliases reg),
      cr_stage_owners := claim pack_id (map normalised (cp_stages d)) (cr_stage_owners reg),
      cr_ingester_owners := claim pack_id (map normalised (cp_ingesters d)) (cr_ingester_owners reg),
      cr_schema_module_owners := claim pack_id (map normalised (cp_schema_modules d)) (cr_schema_module_owners reg),
      cr_query_example_owners := claim pack_id (map (normalised \<circ> qe_id) (cp_query_examples d)) (cr_query_example_owners reg),
      cr_descriptors := bt_insert pack_id d (cr_descriptors reg),
      cr_observations := cr_observations reg @ [\<lparr>ob_pack_id = pack_id, ob_status = PackRegistered, ob_reason = None\<rparr>]\<rparr>"

text \<open>An identifier that is none is returned without an observation.\<close>

definition reject_capability_pack :: "capability_pack \<Rightarrow> capability_registry_error \<Rightarrow> capability_registry \<Rightarrow> capability_registry" where
  "reject_capability_pack d e reg =
     (case e of InvalidCapabilityIdentifier _ _ \<Rightarrow> reg
      | _ \<Rightarrow> reg\<lparr>cr_observations := cr_observations reg @ [\<lparr>ob_pack_id = normalised (capability_pack_id d),
               ob_status = PackRejected, ob_reason = Some (capability_error_text e)\<rparr>]\<rparr>)"

definition register_capability :: "capability_pack \<Rightarrow> capability_registry
    \<Rightarrow> (capability_registry_error, unit) result \<times> capability_registry" where
  "register_capability d reg =
     (case validate_capability_pack reg d of
        Inl e \<Rightarrow> (Inl e, reject_capability_pack d e reg)
      | Inr pack_id \<Rightarrow> (Inr (), commit_capability_pack pack_id d reg))"

text \<open>The owner of an identifier, none for an identifier that is blank.\<close>

definition owner_of :: "(string, string) btree \<Rightarrow> string \<Rightarrow> string option" where
  "owner_of owners key = (if normalised key = [] then None else bt_get owners (normalised key))"

definition resolve_capability_pack :: "capability_registry \<Rightarrow> string \<Rightarrow> capability_pack option" where
  "resolve_capability_pack reg key = Option.bind (owner_of (cr_aliases reg) key) (bt_get (cr_descriptors reg))"

definition resolve_stage_owner :: "capability_registry \<Rightarrow> string \<Rightarrow> string option" where
  "resolve_stage_owner reg = owner_of (cr_stage_owners reg)"

definition resolve_ingester_owner :: "capability_registry \<Rightarrow> string \<Rightarrow> string option" where
  "resolve_ingester_owner reg = owner_of (cr_ingester_owners reg)"

definition resolve_schema_module_owner :: "capability_registry \<Rightarrow> string \<Rightarrow> string option" where
  "resolve_schema_module_owner reg = owner_of (cr_schema_module_owners reg)"

definition resolve_query_example_owner :: "capability_registry \<Rightarrow> string \<Rightarrow> string option" where
  "resolve_query_example_owner reg = owner_of (cr_query_example_owners reg)"

definition registered_capability_ids :: "capability_registry \<Rightarrow> string list" where
  "registered_capability_ids reg = sort (bt_keys (cr_descriptors reg))"

end
