(* ===== verification/LanguagePacks.thy ===== *)
theory LanguagePacks
  imports ExtensionPacks
begin

text \<open>
  The registry of language packs of \<open>host/extension_host/language\<close>: the descriptors (descriptors.rs), the errors
  (errors.rs), the identifiers and extensions (normalise.rs), the resolution input (resolution.rs), registration and
  resolution (registry.rs). Semantic versions are those of the \<open>semver\<close> crate, an argument: which texts are versions
  and requirements and which version a requirement matches.
\<close>

section \<open>Versions and extensions (normalise.rs)\<close>

record semver =
  sv_version :: "string \<Rightarrow> bool"
  sv_requirement :: "string \<Rightarrow> bool"
  sv_matches :: "string \<Rightarrow> string \<Rightarrow> bool"

definition normalise_resolution_identifier :: "string \<Rightarrow> string" where
  "normalise_resolution_identifier value = filter (\<lambda>c. \<not> is_ws c) (normalised value)"

definition normalise_extension :: "(string \<Rightarrow> string \<Rightarrow> 'e) \<Rightarrow> string \<Rightarrow> string \<Rightarrow> ('e, string option) result" where
  "normalise_extension invalid field value =
     (let trimmed = trim value; without_dot = dropWhile (\<lambda>c. c = CHR ''.'') trimmed in
      if trimmed = [] then Inr None
      else if without_dot = [] then Inl (invalid field value)
      else Inr (Some (to_ascii_lowercase without_dot)))"

text \<open>The text of the version, one with the missing parts filled in.\<close>

definition parse_source_version :: "semver \<Rightarrow> string \<Rightarrow> string option" where
  "parse_source_version sv value =
     (let trimmed = trim value;
          check = (\<lambda>text. if sv_version sv text then Some text else None)
      in if trimmed = [] then None
         else if sv_version sv trimmed then Some trimmed
         else (case split_on CHR ''.'' trimmed of
             [major] \<Rightarrow> check (major @ ''.0.0'')
           | [major, minor] \<Rightarrow> check (major @ ''.'' @ minor @ ''.0'')
           | [major, minor, patch] \<Rightarrow> check (major @ ''.'' @ minor @ ''.'' @ patch)
           | _ \<Rightarrow> None))"

text \<open>\<open>Path::file_name\<close>: the last component that is neither the root nor a dot; none when that is the parent.\<close>

definition file_name :: "string \<Rightarrow> string option" where
  "file_name path =
     (let parts = filter (\<lambda>p. p \<noteq> [] \<and> p \<noteq> ''.'') (split_on CHR ''/'' path)
      in if parts = [] \<or> last parts = ''..'' then None else Some (last parts))"

text \<open>\<open>Path::extension\<close>: what follows the last dot, if that is not the first character.\<close>

definition path_extension :: "string \<Rightarrow> string option" where
  "path_extension path =
     (case file_name path of
        None \<Rightarrow> None
      | Some name \<Rightarrow>
          (let after = rev (takeWhile (\<lambda>c. c \<noteq> CHR ''.'') (rev name))
           in if length name \<le> length after + 1 then None else Some after))"

definition extract_normalised_extension :: "string \<Rightarrow> string option" where
  "extract_normalised_extension path =
     (case path_extension path of
        None \<Rightarrow> None
      | Some extension \<Rightarrow> if normalised extension = [] then None else Some (normalised extension))"

section \<open>Descriptors (descriptors.rs)\<close>

record language_profile_descriptor =
  pd_id :: string
  pd_display_name :: string
  pd_language_id :: string
  pd_dialect :: "string option"
  pd_aliases :: "string list"
  pd_file_extensions :: "string list"
  pd_supported_source_versions :: "string list"

record language_pack =
  lp_id :: string
  lp_version :: string
  lp_api_version :: nat
  lp_display_name :: string
  lp_aliases :: "string list"
  lp_supported_languages :: "string list"
  lp_language_profiles :: "language_profile_descriptor list"
  lp_compatibility :: extension_compatibility

section \<open>Errors (errors.rs)\<close>

datatype language_registry_error =
    InvalidLanguageIdentifier string string
  | MissingSupportedLanguages string
  | MissingLanguageProfiles string
  | DuplicateLanguagePack string
  | LanguageAliasConflict string string string
  | LanguageAlreadyOwned string string string
  | DuplicateProfileId string string
  | ProfileAliasConflict string string string
  | ProfileLanguageNotSupported string string string
  | InvalidPackVersion string string
  | InvalidProfileSourceVersionRequirement string string string

fun language_error_text :: "language_registry_error \<Rightarrow> string" where
  "language_error_text (InvalidLanguageIdentifier field value) = ''invalid '' @ field @ '': '' @ tick value"
| "language_error_text (MissingSupportedLanguages pack_id) =
     ''language pack '' @ tick pack_id @ '' must declare at least one supported language''"
| "language_error_text (MissingLanguageProfiles pack_id) =
     ''language pack '' @ tick pack_id @ '' must declare at least one language profile''"
| "language_error_text (DuplicateLanguagePack pack_id) = ''duplicate language pack id: '' @ tick pack_id"
| "language_error_text (LanguageAliasConflict key existing attempted) = owned_text ''language pack alias'' key existing attempted"
| "language_error_text (LanguageAlreadyOwned key existing attempted) = owned_text ''language'' key existing attempted"
| "language_error_text (DuplicateProfileId profile_id pack_id) =
     ''language profile '' @ tick profile_id @ '' is duplicated within language pack '' @ tick pack_id"
| "language_error_text (ProfileAliasConflict key existing attempted) = owned_text ''language profile alias'' key existing attempted"
| "language_error_text (ProfileLanguageNotSupported profile_id language pack_id) =
     ''language profile '' @ tick profile_id @ '' in pack '' @ tick pack_id @ '' declares unsupported language '' @ tick language"
| "language_error_text (InvalidPackVersion pack_id version) =
     ''language pack '' @ tick pack_id @ '' has invalid version '' @ tick version @ '' (expected semver)''"
| "language_error_text (InvalidProfileSourceVersionRequirement pack_id profile_id requirement) =
     ''language profile '' @ tick profile_id @ '' in pack '' @ tick pack_id @ '' has invalid source version requirement ''
       @ tick requirement"

datatype language_resolution_error =
    MissingResolutionInput
  | UnsupportedLanguage string
  | UnsupportedProfile string
  | UnsupportedFileExtension string
  | UnsupportedDialect string string
  | InvalidSourceVersion string
  | UnsupportedSourceVersion string string
  | ProfileLanguageMismatch string string
  | AmbiguousLanguageProfiles string "string list"
  | AmbiguousFileExtension string "string list"

fun language_resolution_error_text :: "language_resolution_error \<Rightarrow> string" where
  "language_resolution_error_text MissingResolutionInput =
     ''language pack resolution requires a language id, profile key, or file path''"
| "language_resolution_error_text (UnsupportedLanguage language) = ''no language pack handles language '' @ tick language"
| "language_resolution_error_text (UnsupportedProfile key) = ''no language profile matches '' @ tick key"
| "language_resolution_error_text (UnsupportedFileExtension extension) =
     ''no language profile handles file extension '' @ tick extension"
| "language_resolution_error_text (UnsupportedDialect language dialect) =
     ''no language profile handles language '' @ tick language @ '' with dialect '' @ tick dialect"
| "language_resolution_error_text (InvalidSourceVersion version) =
     ''source version '' @ tick version @ '' is not a valid semantic version''"
| "language_resolution_error_text (UnsupportedSourceVersion language version) =
     ''no language profile handles language '' @ tick language @ '' at source version '' @ tick version"
| "language_resolution_error_text (ProfileLanguageMismatch key language) =
     ''language profile '' @ tick key @ '' does not support language '' @ tick language"
| "language_resolution_error_text (AmbiguousLanguageProfiles language ids) =
     ''language '' @ tick language @ '' resolves to multiple profiles: '' @ join_on '', '' ids"
| "language_resolution_error_text (AmbiguousFileExtension extension ids) =
     ''file extension '' @ tick extension @ '' resolves to multiple profiles: '' @ join_on '', '' ids"

section \<open>Resolution input (resolution.rs)\<close>

datatype language_resolution_source =
  FromProfileKey | FromLanguageId | FromFilePath | FromLanguageIdAndFilePath | FromLanguageProfile | FromLanguageProfileAndFilePath

record language_profile =
  lq_language_id :: string
  lq_dialect :: "string option"
  lq_source_version :: "string option"
  lq_project_root :: "string option"
  lq_config_fingerprint :: "string option"
  lq_runtime_profile :: "string option"

record resolution_input =
  ri_language_id :: "string option"
  ri_profile_key :: "string option"
  ri_file_path :: "string option"
  ri_language_profile :: "language_profile option"

record resolved_language_pack =
  rv_pack :: language_pack
  rv_profile :: language_profile_descriptor
  rv_source :: language_resolution_source

section \<open>The registry (registry.rs)\<close>

text \<open>Requirements are kept as the texts they were read from.\<close>

record profile_owner =
  po_pack_id :: string
  po_profile_id :: string
  po_language_id :: string
  po_dialect :: "string option"
  po_source_version_requirements :: "string list"
  po_extensions :: "string list"

record language_registry =
  lr_descriptors :: "(string, language_pack) btree"
  lr_aliases :: "(string, string) btree"
  lr_language_owners :: "(string, string) btree"
  lr_profile_aliases :: "(string, string) btree"
  lr_profiles :: "(string, profile_owner) btree"
  lr_profiles_by_language :: "(string, string list) btree"
  lr_profiles_by_extension :: "(string, string list) btree"
  lr_observations :: "pack_registration_observation list"

definition empty_language_registry :: language_registry where
  "empty_language_registry = \<lparr>lr_descriptors = [], lr_aliases = [], lr_language_owners = [], lr_profile_aliases = [],
     lr_profiles = [], lr_profiles_by_language = [], lr_profiles_by_extension = [], lr_observations = []\<rparr>"

definition lang_identifier :: "string \<Rightarrow> string \<Rightarrow> (language_registry_error, string) result" where
  "lang_identifier = normalise_identifier InvalidLanguageIdentifier"

text \<open>The languages of a pack, each once.\<close>

definition collect_language :: "language_registry \<Rightarrow> string \<Rightarrow> string \<Rightarrow> string list \<Rightarrow> (language_registry_error, string list) result" where
  "collect_language reg pack_id language languages =
     and_then (lang_identifier ''language identifier'' language) (\<lambda>key.
       if key \<in> set languages then Inr languages
       else and_then (check_owner (lr_language_owners reg) pack_id (\<lambda>k existing. LanguageAlreadyOwned k existing pack_id) key)
         (\<lambda>_. Inr (languages @ [key])))"

definition collect_extension :: "string \<Rightarrow> string list \<Rightarrow> (language_registry_error, string list) result" where
  "collect_extension extension extensions =
     and_then (normalise_extension InvalidLanguageIdentifier ''language profile file extension'' extension) (\<lambda>key. case key of
         None \<Rightarrow> Inr extensions
       | Some e \<Rightarrow> Inr (if e \<in> set extensions then extensions else extensions @ [e]))"

definition collect_requirement :: "semver \<Rightarrow> string \<Rightarrow> string \<Rightarrow> string \<Rightarrow> string list \<Rightarrow> (language_registry_error, string list) result" where
  "collect_requirement sv pack_id profile_id requirement requirements =
     (let trimmed = trim requirement in
      if trimmed = [] then Inr requirements
      else if sv_requirement sv trimmed then Inr (requirements @ [trimmed])
      else Inl (InvalidProfileSourceVersionRequirement pack_id profile_id trimmed))"

definition profile_lookup_key :: "string \<Rightarrow> string \<Rightarrow> string" where
  "profile_lookup_key pack_id profile_id = pack_id @ ''::'' @ profile_id"

text \<open>A checked profile: the aliases it binds, and what is stored under its key.\<close>

definition validate_profile :: "semver \<Rightarrow> language_registry \<Rightarrow> string \<Rightarrow> string list \<Rightarrow> language_profile_descriptor
    \<Rightarrow> (string \<times> string) list \<times> (string \<times> profile_owner) list
    \<Rightarrow> (language_registry_error, (string \<times> string) list \<times> (string \<times> profile_owner) list) result" where
  "validate_profile sv reg pack_id languages p acc =
     (case acc of (bindings, owners) \<Rightarrow>
      and_then (lang_identifier ''language profile id'' (pd_id p)) (\<lambda>profile_id.
      if profile_id \<in> set (map (po_profile_id \<circ> snd) owners) then Inl (DuplicateProfileId profile_id pack_id)
      else
        and_then (lang_identifier ''language profile language id'' (pd_language_id p)) (\<lambda>language.
        if language \<notin> set languages then Inl (ProfileLanguageNotSupported profile_id language pack_id)
        else
          and_then (optional (lang_identifier ''language profile dialect'') (pd_dialect p)) (\<lambda>dialect.
          let key = profile_lookup_key pack_id profile_id in
          and_then (map_result (lang_identifier ''language profile alias'') (pd_aliases p)) (\<lambda>aliases.
          and_then (fold_result (\<lambda>name _. check_owner (lr_profile_aliases reg) key (\<lambda>k existing. ProfileAliasConflict k existing key) name)
            (profile_id # aliases) ()) (\<lambda>_.
          and_then (fold_result collect_extension (pd_file_extensions p) []) (\<lambda>extensions.
          and_then (fold_result (collect_requirement sv pack_id profile_id) (pd_supported_source_versions p) []) (\<lambda>requirements.
          Inr (bindings @ map (\<lambda>name. (name, key)) (profile_id # aliases),
               owners @ [(key, \<lparr>po_pack_id = pack_id, po_profile_id = profile_id, po_language_id = language,
                 po_dialect = dialect, po_source_version_requirements = requirements, po_extensions = extensions\<rparr>)])))))))))"

record checked_language_pack =
  ck_pack_id :: string
  ck_aliases :: "string list"
  ck_languages :: "string list"
  ck_bindings :: "(string \<times> string) list"
  ck_owners :: "(string \<times> profile_owner) list"

definition validate_language_pack :: "semver \<Rightarrow> language_registry \<Rightarrow> language_pack
    \<Rightarrow> (language_registry_error, checked_language_pack) result" where
  "validate_language_pack sv reg d =
     and_then (lang_identifier ''language pack id'' (lp_id d)) (\<lambda>pack_id.
     if \<not> sv_version sv (lp_version d) then Inl (InvalidPackVersion pack_id (lp_version d))
     else if lp_supported_languages d = [] then Inl (MissingSupportedLanguages pack_id)
     else if lp_language_profiles d = [] then Inl (MissingLanguageProfiles pack_id)
     else if bt_contains (lr_descriptors reg) pack_id then Inl (DuplicateLanguagePack pack_id)
     else
       and_then (check_owners InvalidLanguageIdentifier ''language pack alias'' (lr_aliases reg) pack_id
         (\<lambda>key existing. LanguageAliasConflict key existing pack_id) (lp_aliases d)) (\<lambda>_.
       and_then (fold_result (collect_language reg pack_id) (lp_supported_languages d) []) (\<lambda>languages.
       and_then (fold_result (validate_profile sv reg pack_id languages) (lp_language_profiles d) ([], [])) (\<lambda>(bindings, owners).
       Inr \<lparr>ck_pack_id = pack_id, ck_aliases = map normalised (lp_aliases d), ck_languages = languages,
         ck_bindings = bindings, ck_owners = owners\<rparr>))))"

definition add_to :: "string \<Rightarrow> string \<Rightarrow> (string, string list) btree \<Rightarrow> (string, string list) btree" where
  "add_to key item m = bt_upsert key [] (\<lambda>items. items @ [item]) m"

definition commit_profile :: "string \<times> profile_owner \<Rightarrow> language_registry \<Rightarrow> language_registry" where
  "commit_profile kp reg =
     (case kp of (key, p) \<Rightarrow> reg
       \<lparr>lr_profiles_by_extension := foldl (\<lambda>m extension. add_to extension key m) (lr_profiles_by_extension reg) (po_extensions p),
        lr_profiles_by_language := add_to (po_language_id p) key (lr_profiles_by_language reg),
        lr_profiles := bt_insert key p (lr_profiles reg)\<rparr>)"

definition commit_language_pack :: "checked_language_pack \<Rightarrow> language_pack \<Rightarrow> language_registry \<Rightarrow> language_registry" where
  "commit_language_pack c d reg =
     (let claimed = reg
            \<lparr>lr_aliases := claim (ck_pack_id c) (ck_pack_id c # ck_aliases c) (lr_aliases reg),
             lr_language_owners := claim (ck_pack_id c) (ck_languages c) (lr_language_owners reg),
             lr_profile_aliases := foldl (\<lambda>m (name, key). bt_insert name key m) (lr_profile_aliases reg) (ck_bindings c)\<rparr>;
          stored = foldl (\<lambda>reg kp. commit_profile kp reg) claimed (ck_owners c)
      in stored\<lparr>lr_descriptors := bt_insert (ck_pack_id c) d (lr_descriptors stored),
           lr_observations := lr_observations stored
             @ [\<lparr>ob_pack_id = ck_pack_id c, ob_status = PackRegistered, ob_reason = None\<rparr>]\<rparr>)"

definition reject_language_pack :: "language_pack \<Rightarrow> language_registry_error \<Rightarrow> language_registry \<Rightarrow> language_registry" where
  "reject_language_pack d e reg =
     (case e of InvalidLanguageIdentifier _ _ \<Rightarrow> reg
      | _ \<Rightarrow> reg\<lparr>lr_observations := lr_observations reg @ [\<lparr>ob_pack_id = normalised (lp_id d),
               ob_status = PackRejected, ob_reason = Some (language_error_text e)\<rparr>]\<rparr>)"

definition register_language :: "semver \<Rightarrow> language_pack \<Rightarrow> language_registry
    \<Rightarrow> (language_registry_error, unit) result \<times> language_registry" where
  "register_language sv d reg =
     (case validate_language_pack sv reg d of
        Inl e \<Rightarrow> (Inl e, reject_language_pack d e reg)
      | Inr c \<Rightarrow> (Inr (), commit_language_pack c d reg))"

section \<open>Resolution (registry.rs)\<close>

definition resolve_language_pack :: "language_registry \<Rightarrow> string \<Rightarrow> language_pack option" where
  "resolve_language_pack reg key = Option.bind (owner_of (lr_aliases reg) key) (bt_get (lr_descriptors reg))"

definition owner_for_language :: "language_registry \<Rightarrow> string \<Rightarrow> string option" where
  "owner_for_language reg = owner_of (lr_language_owners reg)"

definition resolve_for_language :: "language_registry \<Rightarrow> string \<Rightarrow> language_pack option" where
  "resolve_for_language reg language = Option.bind (owner_for_language reg language) (bt_get (lr_descriptors reg))"

definition registered_language_ids :: "language_registry \<Rightarrow> string list" where
  "registered_language_ids reg = sort (bt_keys (lr_descriptors reg))"

definition profile_satisfies :: "language_registry \<Rightarrow> (profile_owner \<Rightarrow> bool) \<Rightarrow> string \<Rightarrow> bool" where
  "profile_satisfies reg P key = (case bt_get (lr_profiles reg) key of None \<Rightarrow> False | Some p \<Rightarrow> P p)"

definition has_extension :: "string \<Rightarrow> profile_owner \<Rightarrow> bool" where
  "has_extension extension p \<longleftrightarrow> extension \<in> set (po_extensions p)"

definition has_dialect :: "string \<Rightarrow> profile_owner \<Rightarrow> bool" where
  "has_dialect dialect p \<longleftrightarrow> po_dialect p = Some dialect"

definition allows_version :: "semver \<Rightarrow> string \<Rightarrow> profile_owner \<Rightarrow> bool" where
  "allows_version sv version p \<longleftrightarrow> po_source_version_requirements p = []
     \<or> list_ex (\<lambda>requirement. sv_matches sv requirement version) (po_source_version_requirements p)"

definition profile_ids_for_lookup_keys :: "language_registry \<Rightarrow> string list \<Rightarrow> string list" where
  "profile_ids_for_lookup_keys reg keys =
     sort (map (\<lambda>p. po_pack_id p @ '':'' @ po_profile_id p) (List.map_filter (bt_get (lr_profiles reg)) keys))"

definition resolved_from_profile_lookup :: "language_registry \<Rightarrow> string \<Rightarrow> language_resolution_source
    \<Rightarrow> resolved_language_pack option" where
  "resolved_from_profile_lookup reg key source =
     Option.bind (bt_get (lr_profiles reg) key) (\<lambda>owner.
     Option.bind (bt_get (lr_descriptors reg) (po_pack_id owner)) (\<lambda>pack.
     Option.bind (find (\<lambda>p. normalise_resolution_identifier (pd_id p) = po_profile_id owner) (lp_language_profiles pack)) (\<lambda>profile.
     Some \<lparr>rv_pack = pack, rv_profile = profile, rv_source = source\<rparr>)))"

definition ok_or :: "'e \<Rightarrow> 'a option \<Rightarrow> ('e, 'a) result" where
  "ok_or e v = (case v of None \<Rightarrow> Inl e | Some a \<Rightarrow> Inr a)"

definition resolve_profile :: "language_registry \<Rightarrow> string \<Rightarrow> resolved_language_pack option" where
  "resolve_profile reg key =
     Option.bind (owner_of (lr_profile_aliases reg) key) (\<lambda>lookup. resolved_from_profile_lookup reg lookup FromProfileKey)"

definition candidates_for_language :: "language_registry \<Rightarrow> string \<Rightarrow> string list" where
  "candidates_for_language reg language = unwrap_or (bt_get (lr_profiles_by_language reg) language) []"

text \<open>The candidates of a requested profile, narrowed by its dialect and its source version.\<close>

definition narrow_by_dialect :: "language_registry \<Rightarrow> string \<Rightarrow> string option \<Rightarrow> string list
    \<Rightarrow> (language_resolution_error, string list) result" where
  "narrow_by_dialect reg language dialect candidates =
     (case dialect of
        None \<Rightarrow> Inr candidates
      | Some d \<Rightarrow>
          (let key = normalise_resolution_identifier d; matching = filter (profile_satisfies reg (has_dialect key)) candidates
           in if matching = [] then Inl (UnsupportedDialect language key) else Inr matching))"

definition narrow_by_version :: "semver \<Rightarrow> language_registry \<Rightarrow> string \<Rightarrow> string option \<Rightarrow> string list
    \<Rightarrow> (language_resolution_error, string list) result" where
  "narrow_by_version sv reg language source_version candidates =
     (case source_version of
        None \<Rightarrow> Inr candidates
      | Some text \<Rightarrow>
          (case parse_source_version sv text of
             None \<Rightarrow> Inl (InvalidSourceVersion (trim text))
           | Some version \<Rightarrow>
               (let matching = filter (profile_satisfies reg (allows_version sv version)) candidates
                in if matching = [] then Inl (UnsupportedSourceVersion language (trim text)) else Inr matching)))"

definition resolve_for_language_profile :: "semver \<Rightarrow> language_registry \<Rightarrow> language_profile \<Rightarrow> string option
    \<Rightarrow> (language_resolution_error, resolved_language_pack) result" where
  "resolve_for_language_profile sv reg p file_path =
     (let language = normalise_resolution_identifier (lq_language_id p);
          unsupported = UnsupportedLanguage language
      in if candidates_for_language reg language = [] then Inl unsupported
         else
           and_then (narrow_by_dialect reg language (lq_dialect p) (candidates_for_language reg language)) (\<lambda>candidates.
           and_then (narrow_by_version sv reg language (lq_source_version p) candidates) (\<lambda>candidates.
           case Option.bind file_path extract_normalised_extension of
             Some extension \<Rightarrow>
               (let matching = filter (profile_satisfies reg (has_extension extension)) candidates
                in if matching = [] then Inl (UnsupportedFileExtension extension)
                   else if length matching > 1 then
                     Inl (AmbiguousFileExtension extension (profile_ids_for_lookup_keys reg matching))
                   else ok_or unsupported (resolved_from_profile_lookup reg (hd matching) FromLanguageProfileAndFilePath))
           | None \<Rightarrow>
               if length candidates = 1 then
                 ok_or unsupported (resolved_from_profile_lookup reg (hd candidates) FromLanguageProfile)
               else Inl (AmbiguousLanguageProfiles language (profile_ids_for_lookup_keys reg candidates)))))"

definition resolve_by_profile_key :: "language_registry \<Rightarrow> string \<Rightarrow> string option
    \<Rightarrow> (language_resolution_error, resolved_language_pack) result" where
  "resolve_by_profile_key reg profile_key language_id =
     and_then (ok_or (UnsupportedProfile (trim profile_key)) (resolve_profile reg profile_key)) (\<lambda>resolved.
     case language_id of
       None \<Rightarrow> Inr resolved
     | Some l \<Rightarrow>
         if to_ascii_lowercase (pd_language_id (rv_profile resolved)) \<noteq> normalise_resolution_identifier l then
           Inl (ProfileLanguageMismatch (trim profile_key) (normalise_resolution_identifier l))
         else Inr resolved)"

definition resolve_by_language :: "language_registry \<Rightarrow> string \<Rightarrow> string option
    \<Rightarrow> (language_resolution_error, resolved_language_pack) result" where
  "resolve_by_language reg language_id file_path =
     (let language = normalise_resolution_identifier language_id;
          candidates = candidates_for_language reg language;
          unsupported = UnsupportedLanguage language;
          whole = (if length candidates = 1 then ok_or unsupported (resolved_from_profile_lookup reg (hd candidates) FromLanguageId)
            else Inl (AmbiguousLanguageProfiles language (profile_ids_for_lookup_keys reg candidates)))
      in if candidates = [] then Inl unsupported
         else (case Option.bind file_path extract_normalised_extension of
             None \<Rightarrow> whole
           | Some extension \<Rightarrow>
               (let matching = filter (profile_satisfies reg (has_extension extension)) candidates
                in if length matching = 1 then
                     ok_or unsupported (resolved_from_profile_lookup reg (hd matching) FromLanguageIdAndFilePath)
                   else if length matching > 1 then
                     Inl (AmbiguousFileExtension extension (profile_ids_for_lookup_keys reg matching))
                   else whole)))"

definition resolve_by_path :: "language_registry \<Rightarrow> string \<Rightarrow> (language_resolution_error, resolved_language_pack) result" where
  "resolve_by_path reg file_path =
     (case extract_normalised_extension file_path of
        None \<Rightarrow> Inl (UnsupportedFileExtension [])
      | Some extension \<Rightarrow>
          (let candidates = unwrap_or (bt_get (lr_profiles_by_extension reg) extension) []
           in if candidates = [] then Inl (UnsupportedFileExtension extension)
              else if length candidates > 1 then
                Inl (AmbiguousFileExtension extension (profile_ids_for_lookup_keys reg candidates))
              else ok_or MissingResolutionInput (resolved_from_profile_lookup reg (hd candidates) FromFilePath)))"

definition resolve_language :: "semver \<Rightarrow> language_registry \<Rightarrow> resolution_input
    \<Rightarrow> (language_resolution_error, resolved_language_pack) result" where
  "resolve_language sv reg input =
     (case ri_profile_key input of
        Some profile_key \<Rightarrow> resolve_by_profile_key reg profile_key (ri_language_id input)
      | None \<Rightarrow>
     (case ri_language_profile input of
        Some profile \<Rightarrow> resolve_for_language_profile sv reg profile (ri_file_path input)
      | None \<Rightarrow>
     (case ri_language_id input of
        Some language_id \<Rightarrow> resolve_by_language reg language_id (ri_file_path input)
      | None \<Rightarrow>
     (case ri_file_path input of
        Some file_path \<Rightarrow> resolve_by_path reg file_path
      | None \<Rightarrow> Inl MissingResolutionInput))))"

end
