(* ===== verification/ExtensionHost.thy ===== *)
theory ExtensionHost
  imports LanguagePacks
begin

text \<open>
  The core extension host of \<open>host/extension_host/host\<close>: the built-in packs (builtins.rs), registration behind the
  compatibility check, the run of the capability migrations, the readiness of a pack and the gates that stand before the
  execution of a stage or an ingester (core_extension_host_impl.rs), and the readiness snapshot
  (readiness_snapshot.rs). What executes a migration is an argument with a state of its own.
\<close>

section \<open>Errors (error.rs)\<close>

datatype core_extension_host_error =
    LanguageFailure language_registry_error
  | CapabilityFailure capability_registry_error
  | CompatibilityFailure compatibility_error
  | MigrationFailure string
  | CapabilityStageNotRegistered string
  | CapabilityIngesterNotRegistered string
  | CapabilityNotReady string string

fun host_error_text :: "core_extension_host_error \<Rightarrow> string" where
  "host_error_text (LanguageFailure e) = ''[core_extension_host:language_pack] registration failed: '' @ language_error_text e"
| "host_error_text (CapabilityFailure e) = ''[core_extension_host:capability_pack] registration failed: '' @ capability_error_text e"
| "host_error_text (CompatibilityFailure e) = ''[core_extension_host:compatibility] check failed: '' @ compatibility_error_text e"
| "host_error_text (MigrationFailure message) = ''[core_extension_host:migration] failed: '' @ message"
| "host_error_text (CapabilityStageNotRegistered stage_id) =
     ''[core_extension_host:resolve_stage] [stage:'' @ stage_id @ ''] not owned by any registered capability pack''"
| "host_error_text (CapabilityIngesterNotRegistered ingester_id) =
     ''[core_extension_host:resolve_ingester] [ingester:'' @ ingester_id @ ''] not owned by any registered capability pack''"
| "host_error_text (CapabilityNotReady pack_id reason) =
     ''[core_extension_host:readiness] [capability_pack:'' @ pack_id @ ''] not ready: '' @ reason"

section \<open>The host\<close>

record core_extension_host =
  eh_context :: host_compatibility_context
  eh_language_packs :: language_registry
  eh_capability_packs :: capability_registry
  eh_diagnostics :: "extension_diagnostic list"
  eh_migrated :: "string list"
  eh_applied_migrations :: "migration_execution list"

definition default_host :: core_extension_host where
  "default_host = \<lparr>eh_context = local_cli_phase1, eh_language_packs = empty_language_registry,
     eh_capability_packs = empty_capability_registry, eh_diagnostics = [], eh_migrated = [], eh_applied_migrations = []\<rparr>"

definition push_diagnostic :: "string \<Rightarrow> string \<Rightarrow> diagnostic_severity \<Rightarrow> diagnostic_kind \<Rightarrow> string \<Rightarrow> string
    \<Rightarrow> core_extension_host \<Rightarrow> core_extension_host" where
  "push_diagnostic family extension_id severity kind code message host = host\<lparr>eh_diagnostics := eh_diagnostics host
     @ [\<lparr>dg_family = family, dg_extension_id = extension_id, dg_severity = severity, dg_kind = kind, dg_code = code,
         dg_message = message\<rparr>]\<rparr>"

definition register_language_pack :: "semver \<Rightarrow> language_pack \<Rightarrow> core_extension_host
    \<Rightarrow> (core_extension_host_error, unit) result \<times> core_extension_host" where
  "register_language_pack sv d host =
     (case validate_compatibility (lp_compatibility d) ''language pack'' (lp_id d) (eh_context host) of
        Inl e \<Rightarrow> (Inl (CompatibilityFailure e), push_diagnostic ''language-pack'' (lp_id d) ErrorSeverity CompatibilityDiagnostic
          ''compatibility_failed'' (compatibility_error_text e) host)
      | Inr _ \<Rightarrow>
          (case register_language sv d (eh_language_packs host) of
             (Inl e, packs) \<Rightarrow> (Inl (LanguageFailure e), push_diagnostic ''language-pack'' (to_ascii_lowercase (lp_id d))
               ErrorSeverity RegistrationDiagnostic ''registration_failed'' (language_error_text e) (host\<lparr>eh_language_packs := packs\<rparr>))
           | (Inr _, packs) \<Rightarrow> (Inr (), push_diagnostic ''language-pack'' (to_ascii_lowercase (lp_id d)) InfoSeverity
               RegistrationDiagnostic ''registered'' ''language pack registered'' (host\<lparr>eh_language_packs := packs\<rparr>))))"

definition register_capability_pack :: "capability_pack \<Rightarrow> core_extension_host
    \<Rightarrow> (core_extension_host_error, unit) result \<times> core_extension_host" where
  "register_capability_pack d host =
     (case validate_compatibility (cp_compatibility d) ''capability pack'' (capability_pack_id d) (eh_context host) of
        Inl e \<Rightarrow> (Inl (CompatibilityFailure e), push_diagnostic ''capability-pack'' (capability_pack_id d) ErrorSeverity
          CompatibilityDiagnostic ''compatibility_failed'' (compatibility_error_text e) host)
      | Inr _ \<Rightarrow>
          (case register_capability d (eh_capability_packs host) of
             (Inl e, packs) \<Rightarrow> (Inl (CapabilityFailure e), push_diagnostic ''capability-pack''
               (to_ascii_lowercase (capability_pack_id d)) ErrorSeverity RegistrationDiagnostic ''registration_failed''
               (capability_error_text e) (host\<lparr>eh_capability_packs := packs\<rparr>))
           | (Inr _, packs) \<Rightarrow> (Inr (), push_diagnostic ''capability-pack'' (to_ascii_lowercase (capability_pack_id d)) InfoSeverity
               RegistrationDiagnostic ''registered'' ''capability pack registered'' (host\<lparr>eh_capability_packs := packs\<rparr>))))"

section \<open>Migrations\<close>

text \<open>The registered packs with their identifiers, in the order of these.\<close>

definition resolved_capability_packs :: "core_extension_host \<Rightarrow> (string \<times> capability_pack) list" where
  "resolved_capability_packs host =
     List.map_filter (\<lambda>pack_id. map_option (Pair pack_id) (resolve_capability_pack (eh_capability_packs host) pack_id))
       (registered_capability_ids (eh_capability_packs host))"

definition capability_migration_plan :: "core_extension_host \<Rightarrow> migration_step list" where
  "capability_migration_plan host =
     concat (map (\<lambda>(pack_id, d). map (step_from_descriptor pack_id) (cp_migrations d)) (resolved_capability_packs host))"

definition steps_per_pack :: "migration_step list \<Rightarrow> (string, nat) btree" where
  "steps_per_pack steps = foldl (\<lambda>m s. bt_upsert (ms_pack_id s) 0 Suc m) [] steps"

definition record_execution :: "migration_execution \<Rightarrow> core_extension_host \<Rightarrow> core_extension_host" where
  "record_execution e host = push_diagnostic ''capability-pack'' (me_pack_id e) InfoSeverity MigrationDiagnostic
     ''migration_applied'' (''applied migration '' @ tick (me_migration_id e) @ '' at order '' @ dec (me_order e))
     (host\<lparr>eh_applied_migrations := eh_applied_migrations host @ [e]\<rparr>)"

definition executed_per_pack :: "migration_execution list \<Rightarrow> (string, nat) btree" where
  "executed_per_pack executed = foldl (\<lambda>m e. bt_upsert (me_pack_id e) 0 Suc m) [] executed"

text \<open>A pack is migrated when as many of its steps were executed as the plan has.\<close>

definition mark_migrated :: "migration_step list \<Rightarrow> migration_execution list \<Rightarrow> string list \<Rightarrow> string list" where
  "mark_migrated steps executed migrated =
     foldl (\<lambda>m (pack_id, total). if unwrap_or (bt_get (executed_per_pack executed) pack_id) 0 = total then bs_insert pack_id m else m)
       migrated (steps_per_pack steps)"

definition record_failure :: "migration_failure option \<Rightarrow> core_extension_host \<Rightarrow> core_extension_host" where
  "record_failure failure host =
     (case failure of
        None \<Rightarrow> host
      | Some f \<Rightarrow> push_diagnostic ''capability-pack'' (mf_pack_id f) ErrorSeverity MigrationDiagnostic ''migration_failed''
          (''migration '' @ tick (mf_migration_id f) @ '' failed at order '' @ dec (mf_order f) @ '': '' @ mf_reason f) host)"

definition run_capability_migrations :: "('s \<Rightarrow> migration_step \<Rightarrow> (string, unit) result \<times> 's) \<Rightarrow> 's \<Rightarrow> core_extension_host
    \<Rightarrow> migration_run_report \<times> 's \<times> core_extension_host" where
  "run_capability_migrations executor s host =
     (let steps = capability_migration_plan host;
          without = map fst (filter (\<lambda>(_, d). cp_migrations d = []) (resolved_capability_packs host));
          (report, s) = orchestrate_capability_migrations steps executor s;
          host = host\<lparr>eh_migrated := foldl (\<lambda>m pack_id. bs_insert pack_id m) (eh_migrated host) without\<rparr>;
          host = foldl (\<lambda>host e. record_execution e host) host (mr_executed report);
          host = host\<lparr>eh_migrated := mark_migrated steps (mr_executed report) (eh_migrated host)\<rparr>
      in (report, s, record_failure (mr_failure report) host))"

section \<open>Readiness\<close>

record capability_health_context =
  hc_capability_pack_id :: string
  hc_runtime :: string
  hc_registered :: bool
  hc_migrated :: bool
  hc_pending_migration_count :: nat

definition has_pending_migrations :: "capability_health_context \<Rightarrow> bool" where
  "has_pending_migrations c \<longleftrightarrow> hc_pending_migration_count c > 0 \<and> \<not> hc_migrated c"

definition capability_health :: "core_extension_host \<Rightarrow> string \<Rightarrow> nat \<Rightarrow> capability_health_context" where
  "capability_health host pack_id migration_count = \<lparr>hc_capability_pack_id = pack_id,
     hc_runtime = runtime_as_str (hx_runtime (eh_context host)), hc_registered = True,
     hc_migrated = (pack_id \<in> set (eh_migrated host)), hc_pending_migration_count = migration_count\<rparr>"

definition evaluate_capability_health :: "capability_health_context \<Rightarrow> extension_readiness_failure list" where
  "evaluate_capability_health c =
     (if has_pending_migrations c then [\<lparr>rf_code = ''migrations_pending'',
        rf_message = ''capability pack has unapplied migrations in runtime '' @ tick (hc_runtime c)\<rparr>] else [])"

definition language_readiness :: "string \<Rightarrow> extension_readiness_report" where
  "language_readiness pack_id = \<lparr>rr_family = ''language-pack'', rr_id = pack_id, rr_registered = True, rr_ready = True,
     rr_status = ExtensionReady, rr_lifecycle_state = ReadyState, rr_failures = []\<rparr>"

definition capability_readiness :: "core_extension_host \<Rightarrow> string \<times> capability_pack \<Rightarrow> extension_readiness_report" where
  "capability_readiness host pack =
     (case pack of (pack_id, d) \<Rightarrow>
      let failures = evaluate_capability_health (capability_health host pack_id (length (cp_migrations d)));
          status = from_failures (failures \<noteq> [])
      in \<lparr>rr_family = ''capability-pack'', rr_id = pack_id, rr_registered = True, rr_ready = (status = ExtensionReady),
           rr_status = status,
           rr_lifecycle_state = (if status = ExtensionReady then (if cp_migrations d = [] then ReadyState else MigratedState)
             else RegisteredState),
           rr_failures = failures\<rparr>)"

definition readiness_reports :: "core_extension_host \<Rightarrow> extension_readiness_report list" where
  "readiness_reports host = map language_readiness (registered_language_ids (eh_language_packs host))
     @ map (capability_readiness host) (resolved_capability_packs host)"

definition capability_readiness_report :: "core_extension_host \<Rightarrow> string \<Rightarrow> extension_readiness_report option" where
  "capability_readiness_report host key =
     Option.bind (resolve_capability_pack (eh_capability_packs host) key) (\<lambda>d.
       find (\<lambda>r. rr_family r = ''capability-pack'' \<and> rr_id r = to_ascii_lowercase (capability_pack_id d)) (readiness_reports host))"

definition ensure_capability_pack_ready :: "core_extension_host \<Rightarrow> string \<Rightarrow> (core_extension_host_error, unit) result" where
  "ensure_capability_pack_ready host key =
     (case capability_readiness_report host key of
        None \<Rightarrow> Inl (CapabilityNotReady key ''capability pack is not registered'')
      | Some r \<Rightarrow>
          if rr_status r = ExtensionReady then Inr ()
          else Inl (CapabilityNotReady (rr_id r)
            (if rr_failures r = [] then ''readiness checks reported a failure''
             else join_on ''; '' (map (\<lambda>f. rf_code f @ '': '' @ rf_message f) (rr_failures r)))))"

definition resolve_stage_owner_for_execution :: "core_extension_host \<Rightarrow> string \<Rightarrow> (core_extension_host_error, string) result" where
  "resolve_stage_owner_for_execution host stage_id =
     (case resolve_stage_owner (eh_capability_packs host) stage_id of
        None \<Rightarrow> Inl (CapabilityStageNotRegistered stage_id)
      | Some pack_id \<Rightarrow> and_then (ensure_capability_pack_ready host pack_id) (\<lambda>_. Inr pack_id))"

definition resolve_ingester_owner_for_ingest :: "core_extension_host \<Rightarrow> string \<Rightarrow> (core_extension_host_error, string) result" where
  "resolve_ingester_owner_for_ingest host ingester_id =
     (case resolve_ingester_owner (eh_capability_packs host) ingester_id of
        None \<Rightarrow> Inl (CapabilityIngesterNotRegistered ingester_id)
      | Some pack_id \<Rightarrow> and_then (ensure_capability_pack_ready host pack_id) (\<lambda>_. Inr pack_id))"

section \<open>The snapshot (readiness_snapshot.rs)\<close>

record readiness_snapshot =
  sn_language_pack_ids :: "string list"
  sn_language_adapter_pack_ids :: "string list"
  sn_capability_pack_ids :: "string list"
  sn_language_observations :: "pack_registration_observation list"
  sn_capability_observations :: "pack_registration_observation list"
  sn_diagnostics :: "extension_diagnostic list"
  sn_language_adapter_readiness_reports :: "extension_readiness_report list"
  sn_readiness_reports :: "extension_readiness_report list"

definition readiness_diagnostics :: "extension_readiness_report list \<Rightarrow> extension_diagnostic list" where
  "readiness_diagnostics reports = concat (map (\<lambda>r. map (\<lambda>f. \<lparr>dg_family = rr_family r, dg_extension_id = rr_id r,
     dg_severity = ErrorSeverity, dg_kind = ReadinessDiagnostic, dg_code = rf_code f, dg_message = rf_message f\<rparr>) (rr_failures r)) reports)"

definition host_readiness_snapshot :: "core_extension_host \<Rightarrow> readiness_snapshot" where
  "host_readiness_snapshot host =
     \<lparr>sn_language_pack_ids = registered_language_ids (eh_language_packs host), sn_language_adapter_pack_ids = [],
      sn_capability_pack_ids = registered_capability_ids (eh_capability_packs host),
      sn_language_observations = lr_observations (eh_language_packs host),
      sn_capability_observations = cr_observations (eh_capability_packs host),
      sn_diagnostics = eh_diagnostics host @ readiness_diagnostics (readiness_reports host),
      sn_language_adapter_readiness_reports = [], sn_readiness_reports = readiness_reports host\<rparr>"

definition with_language_adapter_readiness :: "string list \<Rightarrow> extension_readiness_report list \<Rightarrow> readiness_snapshot
    \<Rightarrow> readiness_snapshot" where
  "with_language_adapter_readiness ids reports snapshot = snapshot\<lparr>sn_language_adapter_pack_ids := ids,
     sn_language_adapter_readiness_reports := reports, sn_readiness_reports := sn_readiness_reports snapshot @ reports\<rparr>"

definition snapshot_is_ready :: "readiness_snapshot \<Rightarrow> bool" where
  "snapshot_is_ready s \<longleftrightarrow> sn_language_pack_ids s \<noteq> [] \<and> sn_capability_pack_ids s \<noteq> []
     \<and> (sn_language_adapter_pack_ids s = [] \<or> sn_language_adapter_readiness_reports s \<noteq> [])
     \<and> list_all (\<lambda>r. rr_status r = ExtensionReady) (sn_readiness_reports s)"

section \<open>Built-in packs (builtins.rs)\<close>

definition LANGUAGE_PACK_FEATURES :: "string list" where
  "LANGUAGE_PACK_FEATURES = [''language-packs'', ''readiness'', ''diagnostics'']"

definition CAPABILITY_PACK_FEATURES :: "string list" where
  "CAPABILITY_PACK_FEATURES = [''capability-packs'', ''readiness'', ''diagnostics'', ''capability-migrations'']"

definition language_profile_entry :: "string \<Rightarrow> string \<Rightarrow> string \<Rightarrow> string option \<Rightarrow> string list \<Rightarrow> string list \<Rightarrow> string list
    \<Rightarrow> language_profile_descriptor" where
  "language_profile_entry ident display_name language dialect aliases extensions versions =
     \<lparr>pd_id = ident, pd_display_name = display_name, pd_language_id = language, pd_dialect = dialect, pd_aliases = aliases,
      pd_file_extensions = extensions, pd_supported_source_versions = versions\<rparr>"

definition builtin_language_pack :: "string \<Rightarrow> string \<Rightarrow> string list \<Rightarrow> string list \<Rightarrow> language_profile_descriptor list
    \<Rightarrow> language_pack" where
  "builtin_language_pack ident display_name aliases languages profiles =
     \<lparr>lp_id = ident, lp_version = ''1.0.0'', lp_api_version = 1, lp_display_name = display_name, lp_aliases = aliases,
      lp_supported_languages = languages, lp_language_profiles = profiles,
      lp_compatibility = phase1_local_cli LANGUAGE_PACK_FEATURES\<rparr>"

definition RUST_LANGUAGE_PACK :: language_pack where
  "RUST_LANGUAGE_PACK = builtin_language_pack ''rust-language-pack'' ''Rust Language Pack''
     [''rust-pack''] [''rust'']
     [language_profile_entry ''rust-default'' ''Rust Default'' ''rust'' None
       [''rust-profile''] [''rs''] [''^1.70'']]"

definition TS_JS_LANGUAGE_PACK :: language_pack where
  "TS_JS_LANGUAGE_PACK = builtin_language_pack ''ts-js-language-pack'' ''TypeScript/JavaScript Language Pack''
     [''typescript-pack'', ''javascript-pack''] [''typescript'', ''javascript'', ''tsx'', ''jsx'']
     [language_profile_entry ''typescript-standard'' ''TypeScript Standard'' ''typescript'' (Some ''ts'')
       [''ts''] [''ts'', ''tsx'', ''mts'', ''cts''] [''^5.0''],
      language_profile_entry ''javascript-standard'' ''JavaScript Standard'' ''javascript'' (Some ''js'')
       [''js''] [''js'', ''jsx'', ''mjs'', ''cjs''] []]"

definition PYTHON_LANGUAGE_PACK :: language_pack where
  "PYTHON_LANGUAGE_PACK = builtin_language_pack ''python-language-pack'' ''Python Language Pack''
     [''python-pack'', ''py-pack''] [''python'']
     [language_profile_entry ''python-standard'' ''Python Standard'' ''python'' (Some ''py'')
       [''py''] [''py''] [''^3.10'', ''^3.11'', ''^3.12'']]"

definition GO_LANGUAGE_PACK :: language_pack where
  "GO_LANGUAGE_PACK = builtin_language_pack ''go-language-pack'' ''Go Language Pack''
     [''golang-pack'', ''go-pack''] [''go'', ''golang'']
     [language_profile_entry ''go-standard'' ''Go Standard'' ''go'' (Some ''go'')
       [''golang''] [''go''] [''^1.22'', ''^1.23'', ''^1.24'']]"

definition JAVA_LANGUAGE_PACK :: language_pack where
  "JAVA_LANGUAGE_PACK = builtin_language_pack ''java-language-pack'' ''Java Language Pack''
     [''java-pack'', ''jdk-pack''] [''java'']
     [language_profile_entry ''java-standard'' ''Java Standard'' ''java'' (Some ''java'')
       [''jdk'', ''jvm-java''] [''java''] [''^17'', ''^21'']]"

definition CSHARP_LANGUAGE_PACK :: language_pack where
  "CSHARP_LANGUAGE_PACK = builtin_language_pack ''csharp-language-pack'' ''C# Language Pack''
     [''cs-pack'', ''dotnet-pack''] [''csharp'', ''c#'']
     [language_profile_entry ''csharp-standard'' ''C# Standard'' ''csharp'' (Some ''cs'')
       [''cs'', ''dotnet''] [''cs''] [''^8.0'', ''^9.0'', ''^10.0'', ''^11.0'', ''^12.0'', ''^13.0'']]"

definition PHP_LANGUAGE_PACK :: language_pack where
  "PHP_LANGUAGE_PACK = builtin_language_pack ''php-language-pack'' ''PHP Language Pack''
     [''php-pack''] [''php'']
     [language_profile_entry ''php-standard'' ''PHP Standard'' ''php'' (Some ''php'')
       [''php-default''] [''php'', ''phtml'', ''php5'', ''php7'', ''php8''] [''^8.1'', ''^8.2'', ''^8.3'', ''^8.4'']]"

definition CPP_LANGUAGE_PACK :: language_pack where
  "CPP_LANGUAGE_PACK = builtin_language_pack ''cpp-language-pack'' ''C++ Language Pack''
     [''cpp-pack'', ''cxx-pack''] [''cpp'', ''c++'', ''cxx'']
     [language_profile_entry ''cpp-standard'' ''C++ Standard'' ''cpp'' (Some ''cpp'')
       [''c++'', ''cxx''] [''cpp'', ''cc'', ''cxx'', ''hpp'', ''hh'', ''hxx'', ''h++''] [''^17'', ''^20'', ''^23'']]"

definition KNOWLEDGE_CAPABILITY_DESCRIPTOR :: capability_descriptor where
  "KNOWLEDGE_CAPABILITY_DESCRIPTOR = \<lparr>cap_id = ''knowledge-capability-pack'', cap_display_name = ''Knowledge Capability Pack'', cap_version = ''1.0.0'',
     cap_api_version = 1, cap_description = ''Knowledge retrieval and enrichment capability'', cap_default_enabled = True,
     cap_experimental = False, cap_dependencies = [], cap_required_host_features = CAPABILITY_PACK_FEATURES\<rparr>"

definition TEST_HARNESS_CAPABILITY_DESCRIPTOR :: capability_descriptor where
  "TEST_HARNESS_CAPABILITY_DESCRIPTOR = \<lparr>cap_id = ''test-harness-capability-pack'', cap_display_name = ''Test Harness Capability Pack'', cap_version = ''1.0.0'',
     cap_api_version = 1, cap_description = ''Test harness ingestion and verification capability'', cap_default_enabled = True,
     cap_experimental = False, cap_dependencies = [], cap_required_host_features = CAPABILITY_PACK_FEATURES\<rparr>"

definition KNOWLEDGE_CAPABILITY_PACK :: capability_pack where
  "KNOWLEDGE_CAPABILITY_PACK = \<lparr>cp_capability = KNOWLEDGE_CAPABILITY_DESCRIPTOR, cp_aliases = [''knowledge-pack''],
     cp_stages = [''knowledge''], cp_ingesters = [''knowledge-ingester''], cp_schema_modules = [''knowledge-schema''],
     cp_query_examples = [\<lparr>qe_id = ''knowledge-basic'', qe_query = ''repo('' @ [CHR 0x22] @ ''bitloops'' @ [CHR 0x22] @ '')->knowledge()->limit(10)''\<rparr>],
     cp_compatibility = phase1_local_cli CAPABILITY_PACK_FEATURES, cp_migrations = []\<rparr>"

definition TEST_HARNESS_CAPABILITY_PACK :: capability_pack where
  "TEST_HARNESS_CAPABILITY_PACK = \<lparr>cp_capability = TEST_HARNESS_CAPABILITY_DESCRIPTOR, cp_aliases = [''test-harness-pack''],
     cp_stages = [''test-harness''], cp_ingesters = [''test-harness-ingester''], cp_schema_modules = [''test-harness-schema''],
     cp_query_examples = [\<lparr>qe_id = ''test-harness-basic'', qe_query = ''repo('' @ [CHR 0x22] @ ''bitloops'' @ [CHR 0x22] @ '')->testHarness()->limit(10)''\<rparr>],
     cp_compatibility = phase1_local_cli CAPABILITY_PACK_FEATURES, cp_migrations = []\<rparr>"

text \<open>Registration stops at the first failure.\<close>

fun register_all :: "('p \<Rightarrow> core_extension_host \<Rightarrow> (core_extension_host_error, unit) result \<times> core_extension_host) \<Rightarrow> 'p list
    \<Rightarrow> core_extension_host \<Rightarrow> (core_extension_host_error, unit) result \<times> core_extension_host" where
  "register_all register [] host = (Inr (), host)"
| "register_all register (p # ps) host =
     (case register p host of (Inl e, host) \<Rightarrow> (Inl e, host) | (Inr _, host) \<Rightarrow> register_all register ps host)"

definition bootstrap_builtins :: "semver \<Rightarrow> core_extension_host \<Rightarrow> (core_extension_host_error, unit) result \<times> core_extension_host" where
  "bootstrap_builtins sv host =
     (case register_all (register_language_pack sv) [CSHARP_LANGUAGE_PACK, RUST_LANGUAGE_PACK, TS_JS_LANGUAGE_PACK,
         PYTHON_LANGUAGE_PACK, GO_LANGUAGE_PACK, JAVA_LANGUAGE_PACK, PHP_LANGUAGE_PACK, CPP_LANGUAGE_PACK] host of
        (Inl e, host) \<Rightarrow> (Inl e, host)
      | (Inr _, host) \<Rightarrow> register_all register_capability_pack [KNOWLEDGE_CAPABILITY_PACK, TEST_HARNESS_CAPABILITY_PACK] host)"

definition with_builtins :: "semver \<Rightarrow> (core_extension_host_error, core_extension_host) result" where
  "with_builtins sv = (case bootstrap_builtins sv default_host of (Inl e, _) \<Rightarrow> Inl e | (Inr _, host) \<Rightarrow> Inr host)"

end
