(* ===== verification/ExtensionProperties.thy ===== *)
theory ExtensionProperties
  imports ExtensionHost
begin

text \<open>
  What the extension host promises: every contribution has one owner, the registered pack that declares it; a failed
  registration changes no table; a stage runs only when every migration of its pack has been applied; a language profile
  resolves exactly when one registered profile fits the request.
\<close>

section \<open>Identifiers\<close>

lemma lower_ws [simp]: "is_ws (ascii_lower c) \<longleftrightarrow> is_ws c"
proof (cases "is_ascii_upper c")
  case True
  then have "char_code (ascii_lower c) = char_code c + 32" by (simp add: ascii_lower_def is_ascii_upper_def char_code_def)
  then show ?thesis using True by (auto simp: is_ws_def is_ascii_upper_def Let_def)
qed (simp add: ascii_lower_def)

lemma lower_lower [simp]: "ascii_lower (ascii_lower c) = ascii_lower c"
proof (cases "is_ascii_upper c")
  case True
  then have "char_code (ascii_lower c) = char_code c + 32" by (simp add: ascii_lower_def is_ascii_upper_def char_code_def)
  then have "\<not> is_ascii_upper (ascii_lower c)" using True by (simp add: is_ascii_upper_def)
  then show ?thesis by (simp add: ascii_lower_def)
qed (simp add: ascii_lower_def)

lemma lowercase_idem [simp]: "to_ascii_lowercase (to_ascii_lowercase s) = to_ascii_lowercase s"
  by (simp add: to_ascii_lowercase_def)

lemma normalised_idem [simp]: "normalised (normalised s) = normalised s"
proof -
  have "trim (to_ascii_lowercase (trim s)) = to_ascii_lowercase (trim s)"
    using trim_edges [of s] by (intro trim_id) (auto simp: to_ascii_lowercase_def hd_map last_map)
  then show ?thesis by (simp add: normalised_def)
qed

lemma owner_of_normalised: "normalised k \<noteq> [] \<Longrightarrow> owner_of m (normalised k) = bt_get m (normalised k)"
  by (simp add: owner_of_def)

section \<open>Capability packs\<close>

text \<open>The registries that registrations, failed ones included, can lead to.\<close>

inductive reachable_capabilities :: "capability_registry \<Rightarrow> bool" where
  empty: "reachable_capabilities empty_capability_registry"
| registered: "reachable_capabilities reg \<Longrightarrow> register_capability d reg = (r, reg') \<Longrightarrow> reachable_capabilities reg'"

definition declared_stages :: "capability_pack \<Rightarrow> string list" where
  "declared_stages d = map normalised (cp_stages d)"
definition declared_ingesters :: "capability_pack \<Rightarrow> string list" where
  "declared_ingesters d = map normalised (cp_ingesters d)"
definition declared_schema_modules :: "capability_pack \<Rightarrow> string list" where
  "declared_schema_modules d = map normalised (cp_schema_modules d)"
definition declared_query_examples :: "capability_pack \<Rightarrow> string list" where
  "declared_query_examples d = map (normalised \<circ> qe_id) (cp_query_examples d)"

lemmas declared = declared_stages_def declared_ingesters_def declared_schema_modules_def declared_query_examples_def

definition capabilities_ok :: "capability_registry \<Rightarrow> bool" where
  "capabilities_ok reg \<longleftrightarrow>
     owners.mirrors (cr_stage_owners reg) declared_stages (bt_get (cr_descriptors reg)) \<and>
     owners.mirrors (cr_ingester_owners reg) declared_ingesters (bt_get (cr_descriptors reg)) \<and>
     owners.mirrors (cr_schema_module_owners reg) declared_schema_modules (bt_get (cr_descriptors reg)) \<and>
     owners.mirrors (cr_query_example_owners reg) declared_query_examples (bt_get (cr_descriptors reg)) \<and>
     bt_ok (cr_descriptors reg) \<and>
     (\<forall>pid d. bt_get (cr_descriptors reg) pid = Some d \<longrightarrow>
        pid = normalised (capability_pack_id d) \<and> pid \<noteq> [] \<and> bt_get (cr_aliases reg) pid = Some pid) \<and>
     (\<forall>k pid. bt_get (cr_aliases reg) k = Some pid \<longrightarrow> bt_get (cr_descriptors reg) pid \<noteq> None)"

lemma validated_capability:
  assumes "validate_capability_pack reg d = Inr pid"
  shows "pid = normalised (capability_pack_id d)" "pid \<noteq> []" "bt_get (cr_descriptors reg) pid = None"
    "owners.free pid (map normalised (cp_aliases d)) (cr_aliases reg)"
    "owners.free pid (declared_stages d) (cr_stage_owners reg)"
    "owners.free pid (declared_ingesters d) (cr_ingester_owners reg)"
    "owners.free pid (declared_schema_modules d) (cr_schema_module_owners reg)"
    "owners.free pid (declared_query_examples d) (cr_query_example_owners reg)"
  using assms by (auto simp: validate_capability_pack_def cap_identifier_def normalise_identifier_def check_owners_ok declared
      bt_contains_def Let_def split: if_splits)

lemma capabilities_ok_commit:
  assumes ok: "capabilities_ok reg" and valid: "validate_capability_pack reg d = Inr pid"
  shows "capabilities_ok (commit_capability_pack pid d reg)"
proof -
  note v = validated_capability [OF valid]
  have get: "bt_get (bt_insert pid d (cr_descriptors reg)) = (bt_get (cr_descriptors reg))(pid \<mapsto> d)"
    by (auto simp: bt_get_insert)
  have aliases: "bt_get (cr_aliases (commit_capability_pack pid d reg)) k =
      (if k = pid \<or> k \<in> set (map normalised (cp_aliases d)) then Some pid else bt_get (cr_aliases reg) k)" for k
    by (simp add: commit_capability_pack_def bt_get_claim)
  have kept: "bt_get (cr_aliases (commit_capability_pack pid d reg)) q = Some q"
    if q: "bt_get (cr_descriptors reg) q = Some d'" for q d'
  proof -
    have own: "bt_get (cr_aliases reg) q = Some q" using ok q unfolding capabilities_ok_def by blast
    have new: "q \<noteq> pid" using q v(3) by auto
    have "q \<notin> set (map normalised (cp_aliases d))"
    proof
      assume "q \<in> set (map normalised (cp_aliases d))"
      then have "bt_get (cr_aliases reg) q = None \<or> bt_get (cr_aliases reg) q = Some pid" using v(4) unfolding owners.free_def by blast
      then show False using own new by simp
    qed
    then show ?thesis using own new by (simp add: aliases)
  qed
  have "owners.mirrors (claim pid (declared_stages d) (cr_stage_owners reg)) declared_stages ((bt_get (cr_descriptors reg))(pid \<mapsto> d))"
    "owners.mirrors (claim pid (declared_ingesters d) (cr_ingester_owners reg)) declared_ingesters ((bt_get (cr_descriptors reg))(pid \<mapsto> d))"
    "owners.mirrors (claim pid (declared_schema_modules d) (cr_schema_module_owners reg)) declared_schema_modules ((bt_get (cr_descriptors reg))(pid \<mapsto> d))"
    "owners.mirrors (claim pid (declared_query_examples d) (cr_query_example_owners reg)) declared_query_examples ((bt_get (cr_descriptors reg))(pid \<mapsto> d))"
    using ok v(3,5-8) by (auto simp: capabilities_ok_def intro: owners.mirrors_claims)
  moreover have "pid' = normalised (capability_pack_id d') \<and> pid' \<noteq> [] \<and> bt_get (cr_aliases (commit_capability_pack pid d reg)) pid' = Some pid'"
    if "((bt_get (cr_descriptors reg))(pid \<mapsto> d)) pid' = Some d'" for pid' d'
  proof (cases "pid' = pid")
    case True
    then show ?thesis using that v(1,2) aliases [of pid] by auto
  next
    case False
    then have old: "bt_get (cr_descriptors reg) pid' = Some d'" using that by simp
    then have "pid' = normalised (capability_pack_id d') \<and> pid' \<noteq> []" using ok unfolding capabilities_ok_def by blast
    then show ?thesis using kept [OF old] by blast
  qed
  moreover have "((bt_get (cr_descriptors reg))(pid \<mapsto> d)) q \<noteq> None"
    if "bt_get (cr_aliases (commit_capability_pack pid d reg)) k = Some q" for k q
  proof (cases "q = pid")
    case False
    then have "bt_get (cr_aliases reg) k = Some q" using that aliases [of k] by (simp split: if_splits)
    then have "bt_get (cr_descriptors reg) q \<noteq> None" using ok unfolding capabilities_ok_def by blast
    then show ?thesis by simp
  qed simp
  ultimately show ?thesis using ok
    unfolding capabilities_ok_def get [symmetric] by (simp add: commit_capability_pack_def declared bt_ok_insert)
qed

lemma reachable_capabilities_ok: "reachable_capabilities reg \<Longrightarrow> capabilities_ok reg"
proof (induction rule: reachable_capabilities.induct)
  case empty
  show ?case by (simp add: capabilities_ok_def empty_capability_registry_def owners.mirrors_def)
next
  case (registered reg d r reg')
  then show ?case
  proof (cases "validate_capability_pack reg d")
    case (Inl e)
    then have "reg' = reject_capability_pack d e reg" using registered(2) by (simp add: register_capability_def)
    then show ?thesis using registered(3) by (cases e) (simp_all add: reject_capability_pack_def capabilities_ok_def)
  next
    case (Inr pid)
    then show ?thesis using registered(2) capabilities_ok_commit [OF registered(3) Inr] by (simp add: register_capability_def)
  qed
qed

text \<open>C26: every contribution has one owner. In every registry that registrations lead to, a stage, an ingester, a schema
  module or a query example resolves to a pack exactly when that pack is registered and declares it, whatever
  registrations failed in between; so two registered packs never declare the same one.\<close>

theorem contributions_have_one_owner:
  assumes "reachable_capabilities reg"
  shows "(resolve_stage_owner reg s = Some pid \<longleftrightarrow> normalised s \<noteq> [] \<and>
      (\<exists>d. bt_get (cr_descriptors reg) pid = Some d \<and> normalised s \<in> set (declared_stages d))) \<and>
    (resolve_ingester_owner reg s = Some pid \<longleftrightarrow> normalised s \<noteq> [] \<and>
      (\<exists>d. bt_get (cr_descriptors reg) pid = Some d \<and> normalised s \<in> set (declared_ingesters d))) \<and>
    (resolve_schema_module_owner reg s = Some pid \<longleftrightarrow> normalised s \<noteq> [] \<and>
      (\<exists>d. bt_get (cr_descriptors reg) pid = Some d \<and> normalised s \<in> set (declared_schema_modules d))) \<and>
    (resolve_query_example_owner reg s = Some pid \<longleftrightarrow> normalised s \<noteq> [] \<and>
      (\<exists>d. bt_get (cr_descriptors reg) pid = Some d \<and> normalised s \<in> set (declared_query_examples d)))"
  using reachable_capabilities_ok [OF assms]
  by (simp_all add: resolve_stage_owner_def resolve_ingester_owner_def resolve_schema_module_owner_def
      resolve_query_example_owner_def owner_of_def capabilities_ok_def owners.mirrors_def)

section \<open>Failed registrations\<close>

fun registration_message :: "core_extension_host_error \<Rightarrow> string" where
  "registration_message (LanguageFailure e) = language_error_text e"
| "registration_message (CapabilityFailure e) = capability_error_text e"
| "registration_message (CompatibilityFailure e) = compatibility_error_text e"
| "registration_message e = host_error_text e"

text \<open>C27: a failed registration changes no table. Whatever check of a capability pack or a language pack fails, also a late
  one, the host afterwards differs only in the observations of its registry and in one more diagnostic, which is an error
  with the text of the failure.\<close>

theorem failed_registration_changes_no_table:
  assumes "register_capability_pack d host = (Inl e, host1)" "register_language_pack sv p host = (Inl f, host2)"
  shows "host1 = host\<lparr>eh_diagnostics := eh_diagnostics host1, eh_capability_packs :=
      (eh_capability_packs host)\<lparr>cr_observations := cr_observations (eh_capability_packs host1)\<rparr>\<rparr> \<and>
    host2 = host\<lparr>eh_diagnostics := eh_diagnostics host2, eh_language_packs :=
      (eh_language_packs host)\<lparr>lr_observations := lr_observations (eh_language_packs host2)\<rparr>\<rparr> \<and>
    (\<exists>g. eh_diagnostics host1 = eh_diagnostics host @ [g] \<and> dg_severity g = ErrorSeverity \<and> dg_message g = registration_message e) \<and>
    (\<exists>g. eh_diagnostics host2 = eh_diagnostics host @ [g] \<and> dg_severity g = ErrorSeverity \<and> dg_message g = registration_message f)"
proof -
  have rejected: "reject_capability_pack d x reg = reg\<lparr>cr_observations := cr_observations (reject_capability_pack d x reg)\<rparr>" for x reg
    by (cases x) (simp_all add: reject_capability_pack_def)
  have refused: "reject_language_pack p x reg = reg\<lparr>lr_observations := lr_observations (reject_language_pack p x reg)\<rparr>" for x reg
    by (cases x) (simp_all add: reject_language_pack_def)
  have "host1 = host\<lparr>eh_diagnostics := eh_diagnostics host1, eh_capability_packs :=
      (eh_capability_packs host)\<lparr>cr_observations := cr_observations (eh_capability_packs host1)\<rparr>\<rparr> \<and>
    (\<exists>g. eh_diagnostics host1 = eh_diagnostics host @ [g] \<and> dg_severity g = ErrorSeverity \<and> dg_message g = registration_message e)"
    using assms(1) rejected [of _ "eh_capability_packs host"] unfolding register_capability_pack_def register_capability_def
    by (auto simp: push_diagnostic_def split: sum.splits)
  moreover have "host2 = host\<lparr>eh_diagnostics := eh_diagnostics host2, eh_language_packs :=
      (eh_language_packs host)\<lparr>lr_observations := lr_observations (eh_language_packs host2)\<rparr>\<rparr> \<and>
    (\<exists>g. eh_diagnostics host2 = eh_diagnostics host @ [g] \<and> dg_severity g = ErrorSeverity \<and> dg_message g = registration_message f)"
    using assms(2) refused [of _ "eh_language_packs host"] unfolding register_language_pack_def register_language_def
    by (auto simp: push_diagnostic_def split: sum.splits)
  ultimately show ?thesis by blast
qed

section \<open>Migrations\<close>

text \<open>The steps are taken in their order up to the first that fails.\<close>

lemma run_steps_prefix:
  assumes "run_steps executor s steps executed = (report, s')"
  shows "\<exists>taken rest. steps = taken @ rest \<and> mr_executed report = executed @ map execution_of taken \<and>
    (mr_status report = MigrationsCompleted \<longleftrightarrow> rest = []) \<and>
    (case rest of [] \<Rightarrow> mr_failure report = None
     | step # _ \<Rightarrow> \<exists>f. mr_failure report = Some f \<and> mf_migration_id f = ms_migration_id step \<and> mf_pack_id f = ms_pack_id step)"
  using assms
proof (induction steps arbitrary: s executed)
  case Nil
  then have "report = \<lparr>mr_status = MigrationsCompleted, mr_executed = executed, mr_failure = None\<rparr>" by simp
  then show ?case by (intro exI [of _ "[]"]) simp
next
  case (Cons step steps)
  obtain r t where run: "executor s step = (r, t)" by (cases "executor s step")
  show ?case
  proof (cases r)
    case (Inl reason)
    then have "report = \<lparr>mr_status = MigrationsFailed, mr_executed = executed, mr_failure = Some \<lparr>mf_pack_id = ms_pack_id step,
        mf_migration_id = ms_migration_id step, mf_order = ms_order step, mf_reason = reason\<rparr>\<rparr>"
      using Cons.prems run by simp
    then show ?thesis by (intro exI [of _ "[]"] exI [of _ "step # steps"]) simp
  next
    case (Inr u)
    then have "run_steps executor t steps (executed @ [execution_of step]) = (report, s')" using Cons.prems run by simp
    from Cons.IH [OF this] obtain taken rest where ih: "steps = taken @ rest"
      "mr_executed report = (executed @ [execution_of step]) @ map execution_of taken"
      "mr_status report = MigrationsCompleted \<longleftrightarrow> rest = []"
      "case rest of [] \<Rightarrow> mr_failure report = None
       | step # _ \<Rightarrow> \<exists>f. mr_failure report = Some f \<and> mf_migration_id f = ms_migration_id step \<and> mf_pack_id f = ms_pack_id step"
      by blast
    then show ?thesis by (intro exI [of _ "step # taken"] exI [of _ rest]) simp
  qed
qed

lemma foldl_count: "unwrap_or (bt_get (foldl (\<lambda>m x. bt_upsert (f x) 0 Suc m) m xs) k) 0
    = unwrap_or (bt_get m k) 0 + length (filter (\<lambda>x. f x = k) xs)"
  by (induction xs arbitrary: m) (auto simp: bt_upsert_def bt_get_insert)

lemma foldl_count_ok: "bt_ok m \<Longrightarrow> bt_ok (foldl (\<lambda>m x. bt_upsert (f x) 0 Suc m) m xs)"
  by (induction xs arbitrary: m) (auto simp: bt_upsert_def bt_ok_insert)

lemma mark_migrated_set:
  "set (foldl (\<lambda>m (k, n). if P k n then bs_insert k m else m) m kns) = set m \<union> {k. \<exists>n. (k, n) \<in> set kns \<and> P k n}"
  by (induction kns arbitrary: m) (auto split: if_splits)

text \<open>A pack is marked exactly when all its steps were executed.\<close>

lemma marked_packs_ran:
  assumes "run_steps executor s (sort_key step_key steps) [] = (report, s')"
    and "pid \<in> set (mark_migrated steps (mr_executed report) migrated)" "pid \<notin> set migrated"
    and "step \<in> set steps" "ms_pack_id step = pid"
  shows "execution_of step \<in> set (mr_executed report)"
proof -
  obtain taken rest where run: "sort_key step_key steps = taken @ rest" "mr_executed report = map execution_of taken"
    using run_steps_prefix [OF assms(1)] by auto
  have "(pid, n) \<in> set (steps_per_pack steps) \<Longrightarrow> n = length (filter (\<lambda>x. ms_pack_id x = pid) steps)" for n
    using bt_in_get [of "steps_per_pack steps" pid n] foldl_count_ok [of "[]" ms_pack_id steps] foldl_count [of ms_pack_id "[]" steps pid]
    by (simp add: steps_per_pack_def)
  then have "length (filter (\<lambda>x. me_pack_id x = pid) (mr_executed report)) = length (filter (\<lambda>x. ms_pack_id x = pid) steps)"
    using assms(2,3) foldl_count [of me_pack_id "[]" "mr_executed report" pid]
    unfolding mark_migrated_def executed_per_pack_def mark_migrated_set by auto
  moreover have "length (filter (\<lambda>x. ms_pack_id x = pid) (sort_key step_key steps)) = length (filter (\<lambda>x. ms_pack_id x = pid) steps)"
    by (simp add: sort_key_filter)
  moreover have "length (filter (\<lambda>x. me_pack_id x = pid) (mr_executed report)) = length (filter (\<lambda>x. ms_pack_id x = pid) taken)"
    unfolding run(2) by (simp add: filter_map comp_def execution_of_def)
  ultimately have "filter (\<lambda>x. ms_pack_id x = pid) rest = []" by (simp add: run(1))
  moreover have "step \<in> set (taken @ rest)" using assms(4) run(1) by (metis set_sort)
  ultimately have "step \<in> set taken" using assms(5) by (auto simp: filter_empty_conv)
  then show ?thesis by (simp add: run(2))
qed

section \<open>Stages run after their migrations\<close>

text \<open>What a process does with its host: registrations and runs of the migrations, with any executor.\<close>

inductive reachable_host :: "semver \<Rightarrow> core_extension_host \<Rightarrow> bool" for sv where
  new: "reachable_host sv default_host"
| language: "reachable_host sv host \<Longrightarrow> register_language_pack sv p host = (r, host') \<Longrightarrow> reachable_host sv host'"
| capability: "reachable_host sv host \<Longrightarrow> register_capability_pack d host = (r, host') \<Longrightarrow> reachable_host sv host'"
| migrations: "reachable_host sv host \<Longrightarrow>
    run_capability_migrations (executor :: nat \<Rightarrow> migration_step \<Rightarrow> (string, unit) result \<times> nat) s host = (report, s', host') \<Longrightarrow>
    reachable_host sv host'"

definition migration_applied :: "core_extension_host \<Rightarrow> string \<Rightarrow> migration_descriptor \<Rightarrow> bool" where
  "migration_applied host pid m \<longleftrightarrow> execution_of (step_from_descriptor pid m) \<in> set (eh_applied_migrations host)"

definition migrated_ran :: "core_extension_host \<Rightarrow> bool" where
  "migrated_ran host \<longleftrightarrow> (\<forall>pid d m. pid \<in> set (eh_migrated host) \<longrightarrow> bt_get (cr_descriptors (eh_capability_packs host)) pid = Some d \<longrightarrow>
     m \<in> set (cp_migrations d) \<longrightarrow> migration_applied host pid m) \<and>
     (\<forall>pid \<in> set (eh_migrated host). bt_get (cr_descriptors (eh_capability_packs host)) pid \<noteq> None)"

lemma resolve_registered:
  assumes "capabilities_ok reg" "bt_get (cr_descriptors reg) pid = Some d"
  shows "resolve_capability_pack reg pid = Some d"
proof -
  have "pid = normalised (capability_pack_id d)" "pid \<noteq> []" "bt_get (cr_aliases reg) pid = Some pid"
    using assms unfolding capabilities_ok_def by blast+
  then have "owner_of (cr_aliases reg) pid = Some pid" using owner_of_normalised [of "capability_pack_id d"] by simp
  then show ?thesis using assms(2) by (simp add: resolve_capability_pack_def)
qed

lemma set_map_filter_iff: "y \<in> set (List.map_filter f xs) \<longleftrightarrow> (\<exists>x \<in> set xs. f x = Some y)"
  by (induction xs) (auto simp: List.map_filter_simps split: option.splits)

lemma resolved_packs:
  assumes "capabilities_ok (eh_capability_packs host)"
  shows "set (resolved_capability_packs host) = {(pid, d). bt_get (cr_descriptors (eh_capability_packs host)) pid = Some d}"
proof -
  let ?reg = "eh_capability_packs host"
  have "pid \<in> set (registered_capability_ids ?reg) \<longleftrightarrow> bt_get (cr_descriptors ?reg) pid \<noteq> None" for pid
    using bt_keys_get [of "cr_descriptors ?reg"] by (simp add: registered_capability_ids_def)
  then have "(pid, d) \<in> set (resolved_capability_packs host) \<longleftrightarrow>
      bt_get (cr_descriptors ?reg) pid \<noteq> None \<and> resolve_capability_pack ?reg pid = Some d" for pid d
    by (auto simp: resolved_capability_packs_def set_map_filter_iff)
  then have "(pid, d) \<in> set (resolved_capability_packs host) \<longleftrightarrow> bt_get (cr_descriptors ?reg) pid = Some d" for pid d
    using resolve_registered [OF assms, of pid] by (cases "bt_get (cr_descriptors ?reg) pid") auto
  then show ?thesis by auto
qed

lemma record_executions:
  "eh_applied_migrations (foldl (\<lambda>h e. record_execution e h) host es) = eh_applied_migrations host @ es"
  "eh_capability_packs (foldl (\<lambda>h e. record_execution e h) host es) = eh_capability_packs host"
  "eh_migrated (foldl (\<lambda>h e. record_execution e h) host es) = eh_migrated host"
  by (induction es arbitrary: host) (simp_all add: record_execution_def push_diagnostic_def)

lemma record_failure_keeps [simp]:
  "eh_applied_migrations (record_failure f host) = eh_applied_migrations host"
  "eh_capability_packs (record_failure f host) = eh_capability_packs host"
  "eh_migrated (record_failure f host) = eh_migrated host"
  by (simp_all add: record_failure_def push_diagnostic_def split: option.split)

lemma run_migrations_effect:
  assumes "run_capability_migrations executor s host = (report, s', host')"
  shows "run_steps executor s (sort_key step_key (capability_migration_plan host)) [] = (report, s')"
    "eh_capability_packs host' = eh_capability_packs host"
    "eh_applied_migrations host' = eh_applied_migrations host @ mr_executed report"
    "eh_migrated host' = mark_migrated (capability_migration_plan host) (mr_executed report)
      (foldl (\<lambda>m pid. bs_insert pid m) (eh_migrated host)
        (map fst (filter (\<lambda>(_, d). cp_migrations d = []) (resolved_capability_packs host))))"
proof -
  obtain rep t where run: "orchestrate_capability_migrations (capability_migration_plan host) executor s = (rep, t)"
    by (cases "orchestrate_capability_migrations (capability_migration_plan host) executor s")
  have "rep = report" "t = s'" using assms by (simp_all add: run_capability_migrations_def run Let_def)
  then show "run_steps executor s (sort_key step_key (capability_migration_plan host)) [] = (report, s')"
    using run by (simp add: orchestrate_capability_migrations_def)
  show "eh_capability_packs host' = eh_capability_packs host"
    "eh_applied_migrations host' = eh_applied_migrations host @ mr_executed report"
    "eh_migrated host' = mark_migrated (capability_migration_plan host) (mr_executed report)
      (foldl (\<lambda>m pid. bs_insert pid m) (eh_migrated host)
        (map fst (filter (\<lambda>(_, d). cp_migrations d = []) (resolved_capability_packs host))))"
    using assms by (auto simp: run_capability_migrations_def run Let_def record_executions)
qed

lemma planned_steps:
  assumes "capabilities_ok (eh_capability_packs host)"
  shows "step \<in> set (capability_migration_plan host) \<longleftrightarrow> (\<exists>pid d m.
    bt_get (cr_descriptors (eh_capability_packs host)) pid = Some d \<and> m \<in> set (cp_migrations d) \<and> step = step_from_descriptor pid m)"
  unfolding capability_migration_plan_def using resolved_packs [OF assms] by auto

definition host_ok :: "core_extension_host \<Rightarrow> bool" where
  "host_ok host \<longleftrightarrow> capabilities_ok (eh_capability_packs host) \<and> migrated_ran host"

lemma host_ok_registered:
  assumes "host_ok host" "register_capability d (eh_capability_packs host) = (r, reg)"
    and "eh_capability_packs host' = reg" "eh_migrated host' = eh_migrated host"
      "eh_applied_migrations host' = eh_applied_migrations host"
  shows "host_ok host'"
proof -
  let ?reg = "eh_capability_packs host"
  have ok: "capabilities_ok ?reg" and ran: "migrated_ran host" using assms(1) by (simp_all add: host_ok_def)
  show ?thesis
  proof (cases "validate_capability_pack ?reg d")
    case (Inl e)
    then have reg: "reg = reject_capability_pack d e ?reg" using assms(2) by (simp add: register_capability_def)
    have "cr_descriptors reg = cr_descriptors ?reg" unfolding reg by (cases e) (simp_all add: reject_capability_pack_def)
    moreover have "capabilities_ok reg" unfolding reg using ok
      by (cases e) (simp_all add: reject_capability_pack_def capabilities_ok_def)
    ultimately show ?thesis using ran assms(3-5) by (simp add: host_ok_def migrated_ran_def migration_applied_def)
  next
    case (Inr pid)
    then have reg: "reg = commit_capability_pack pid d ?reg" using assms(2) by (simp add: register_capability_def)
    have "bt_get (cr_descriptors ?reg) pid = None" using validated_capability [OF Inr] by simp
    then have new: "pid \<notin> set (eh_migrated host)" using ran by (auto simp: migrated_ran_def)
    have get: "bt_get (cr_descriptors reg) q = (if q = pid then Some d else bt_get (cr_descriptors ?reg) q)" for q
      by (simp add: reg commit_capability_pack_def bt_get_insert)
    have "migrated_ran host'"
      unfolding migrated_ran_def migration_applied_def assms(3-5)
    proof (intro conjI allI impI ballI)
      fix q d' m assume q: "q \<in> set (eh_migrated host)" "bt_get (cr_descriptors reg) q = Some d'" "m \<in> set (cp_migrations d')"
      then have "bt_get (cr_descriptors ?reg) q = Some d'" using new get [of q] by (auto split: if_splits)
      then show "execution_of (step_from_descriptor q m) \<in> set (eh_applied_migrations host)"
        using ran q(1,3) unfolding migrated_ran_def migration_applied_def by blast
    next
      fix q assume "q \<in> set (eh_migrated host)"
      then have "bt_get (cr_descriptors ?reg) q \<noteq> None" using ran unfolding migrated_ran_def by blast
      then show "bt_get (cr_descriptors reg) q \<noteq> None" using get [of q] by simp
    qed
    then show ?thesis using capabilities_ok_commit [OF ok Inr] assms(3) by (simp add: host_ok_def reg)
  qed
qed

lemma host_ok_migrations:
  assumes "host_ok host" "run_capability_migrations executor s host = (report, s', host')"
  shows "host_ok host'"
proof -
  let ?reg = "eh_capability_packs host"
  let ?without = "map fst (filter (\<lambda>(_, d). cp_migrations d = []) (resolved_capability_packs host))"
  let ?marked = "foldl (\<lambda>m pid. bs_insert pid m) (eh_migrated host) ?without"
  have ok: "capabilities_ok ?reg" and ran: "migrated_ran host" using assms(1) by (simp_all add: host_ok_def)
  note effect = run_migrations_effect [OF assms(2)]
  have without: "pid \<in> set ?without \<Longrightarrow> \<exists>d. bt_get (cr_descriptors ?reg) pid = Some d \<and> cp_migrations d = []" for pid
    using resolved_packs [OF ok] by auto
  have marked: "pid \<in> set (eh_migrated host') \<Longrightarrow> pid \<notin> set ?marked \<Longrightarrow>
      \<exists>step \<in> set (capability_migration_plan host). ms_pack_id step = pid" for pid
  proof -
    assume "pid \<in> set (eh_migrated host')" "pid \<notin> set ?marked"
    then obtain n where "(pid, n) \<in> set (steps_per_pack (capability_migration_plan host))"
      unfolding effect(4) mark_migrated_def mark_migrated_set by blast
    then have "bt_contains (steps_per_pack (capability_migration_plan host)) pid"
      by (force simp: bt_contains_iff bt_keys_def)
    moreover have "bt_contains (foldl (\<lambda>m s. bt_upsert (ms_pack_id s) 0 Suc m) m steps) pid \<Longrightarrow>
        bt_contains m pid \<or> pid \<in> ms_pack_id ` set steps" for m :: "(string, nat) btree" and steps
      by (induction steps arbitrary: m) (fastforce simp: bt_contains_def bt_upsert_def bt_get_insert split: if_splits)+
    ultimately show ?thesis unfolding steps_per_pack_def by (fastforce simp: bt_contains_def)
  qed
  have "migrated_ran host'"
    unfolding migrated_ran_def migration_applied_def effect(2,3)
  proof (intro conjI allI impI ballI)
    fix pid d m assume pid: "pid \<in> set (eh_migrated host')" "bt_get (cr_descriptors ?reg) pid = Some d" "m \<in> set (cp_migrations d)"
    show "execution_of (step_from_descriptor pid m) \<in> set (eh_applied_migrations host @ mr_executed report)"
    proof (cases "pid \<in> set ?marked")
      case True
      have "cp_migrations d = []" if w: "pid \<in> set ?without" using without [OF w] pid(2) by (metis option.inject)
      then have "pid \<notin> set ?without" using pid(3) by (metis empty_iff empty_set)
      then have "pid \<in> set (eh_migrated host)" using True unfolding bs_fold_set by blast
      then show ?thesis using ran pid(2,3) unfolding migrated_ran_def migration_applied_def by auto
    next
      case False
      have "step_from_descriptor pid m \<in> set (capability_migration_plan host)"
        using planned_steps [OF ok] pid(2,3) by blast
      then show ?thesis using marked_packs_ran [OF effect(1) pid(1) [unfolded effect(4)] False]
        by (simp add: step_from_descriptor_def)
    qed
  next
    fix pid assume pid: "pid \<in> set (eh_migrated host')"
    show "bt_get (cr_descriptors ?reg) pid \<noteq> None"
    proof (cases "pid \<in> set ?marked")
      case True
      then have "pid \<in> set (eh_migrated host) \<or> pid \<in> set ?without" unfolding bs_fold_set by blast
      then show ?thesis using without [of pid] ran unfolding migrated_ran_def by auto
    next
      case False
      from marked [OF pid this] obtain step where "step \<in> set (capability_migration_plan host)" "ms_pack_id step = pid" by blast
      then show ?thesis using planned_steps [OF ok, of step] by (auto simp: step_from_descriptor_def)
    qed
  qed
  then show ?thesis using ok by (simp add: host_ok_def effect(2))
qed

lemma reachable_host_ok: "reachable_host sv host \<Longrightarrow> host_ok host"
proof (induction rule: reachable_host.induct)
  case new
  have "capabilities_ok empty_capability_registry" by (rule reachable_capabilities_ok) (rule reachable_capabilities.empty)
  then show ?case by (simp add: host_ok_def migrated_ran_def default_host_def)
next
  case (language host p r host')
  have "eh_capability_packs host' = eh_capability_packs host" "eh_migrated host' = eh_migrated host"
    "eh_applied_migrations host' = eh_applied_migrations host"
    using language(2) by (auto simp: register_language_pack_def push_diagnostic_def split: sum.splits prod.splits)
  then show ?case using language(3) by (simp add: host_ok_def migrated_ran_def migration_applied_def)
next
  case (capability host d r host')
  show ?case
  proof (cases "validate_compatibility (cp_compatibility d) ''capability pack'' (capability_pack_id d) (eh_context host)")
    case (Inl e)
    then have "eh_capability_packs host' = eh_capability_packs host" "eh_migrated host' = eh_migrated host"
      "eh_applied_migrations host' = eh_applied_migrations host"
      using capability(2) by (auto simp: register_capability_pack_def push_diagnostic_def)
    then show ?thesis using capability(3) by (simp add: host_ok_def migrated_ran_def migration_applied_def)
  next
    case (Inr u)
    obtain q reg where reg: "register_capability d (eh_capability_packs host) = (q, reg)"
      by (cases "register_capability d (eh_capability_packs host)")
    have "eh_capability_packs host' = reg" "eh_migrated host' = eh_migrated host"
      "eh_applied_migrations host' = eh_applied_migrations host"
      using capability(2) Inr reg by (auto simp: register_capability_pack_def push_diagnostic_def split: sum.splits)
    then show ?thesis using host_ok_registered [OF capability(3) reg] by blast
  qed
next
  case (migrations host executor s report s' host')
  show ?case by (rule host_ok_migrations [OF migrations(3,2)])
qed

subsection \<open>The gate\<close>

lemma trim_lowercase: "trim (to_ascii_lowercase s) = to_ascii_lowercase (trim s)"
  by (simp add: trim_def trim_start_def trim_end_def to_ascii_lowercase_def dropWhile_map rev_map comp_def)

lemma ready_pack:
  assumes ok: "capabilities_ok (eh_capability_packs host)" and d: "bt_get (cr_descriptors (eh_capability_packs host)) pid = Some d"
    and ready: "ensure_capability_pack_ready host pid = Inr ()"
  shows "cp_migrations d = [] \<or> pid \<in> set (eh_migrated host)"
proof -
  obtain report where report: "capability_readiness_report host pid = Some report" "rr_status report = ExtensionReady"
    using ready by (auto simp: ensure_capability_pack_ready_def split: option.splits if_splits)
  have "find (\<lambda>r. rr_family r = ''capability-pack'' \<and> rr_id r = to_ascii_lowercase (capability_pack_id d)) (readiness_reports host)
      = Some report"
    using report(1) resolve_registered [OF ok d] by (simp add: capability_readiness_report_def)
  from find_member [OF this] have r: "report \<in> set (readiness_reports host)" "rr_family report = ''capability-pack''"
    "rr_id report = to_ascii_lowercase (capability_pack_id d)" by auto
  then obtain pid' d' where pack: "bt_get (cr_descriptors (eh_capability_packs host)) pid' = Some d'"
    "report = capability_readiness host (pid', d')"
    using resolved_packs [OF ok] by (auto simp: readiness_reports_def language_readiness_def)
  have pid: "pid = normalised (capability_pack_id d)" using ok d unfolding capabilities_ok_def by blast
  have "pid' = normalised (capability_pack_id d')" using ok pack(1) unfolding capabilities_ok_def by blast
  then have "pid' = normalised pid'" by simp
  moreover have "pid' = to_ascii_lowercase (capability_pack_id d)"
    using r(3) unfolding pack(2) by (simp add: capability_readiness_def Let_def)
  then have "normalised pid' = pid" unfolding pid by (simp add: normalised_def trim_lowercase)
  ultimately have same: "pid' = pid" by simp
  then have "d' = d" using pack(1) d by simp
  then show ?thesis using report(2) unfolding pack(2) same
    by (auto simp: capability_readiness_def Let_def from_failures_def evaluate_capability_health_def has_pending_migrations_def
        capability_health_def split: if_splits)
qed

text \<open>C28: no stage runs before the migrations of its pack. In every state a process can bring its host to, by
  registrations and by runs of the migrations that may fail anywhere, a stage is given to a pack for execution only when the
  pack is registered, declares the stage, and every migration it declares has been applied by a run that succeeded on it.\<close>

theorem stages_run_after_their_migrations:
  assumes "reachable_host sv host" "resolve_stage_owner_for_execution host stage = Inr pid"
  shows "\<exists>d. bt_get (cr_descriptors (eh_capability_packs host)) pid = Some d \<and> normalised stage \<in> set (declared_stages d) \<and>
    filter (\<lambda>m. \<not> migration_applied host pid m) (cp_migrations d) = []"
proof -
  have ok: "capabilities_ok (eh_capability_packs host)" and ran: "migrated_ran host"
    using reachable_host_ok [OF assms(1)] by (simp_all add: host_ok_def)
  have "resolve_stage_owner (eh_capability_packs host) stage = Some pid" and ready: "ensure_capability_pack_ready host pid = Inr ()"
    using assms(2) by (auto simp: resolve_stage_owner_for_execution_def split: option.splits)
  then obtain d where d: "bt_get (cr_descriptors (eh_capability_packs host)) pid = Some d" "normalised stage \<in> set (declared_stages d)"
    using ok by (auto simp: resolve_stage_owner_def owner_of_def capabilities_ok_def owners.mirrors_def split: if_splits)
  from ready_pack [OF ok d(1) ready] have "filter (\<lambda>m. \<not> migration_applied host pid m) (cp_migrations d) = []"
    using ran d(1) unfolding migrated_ran_def by (fastforce simp: filter_empty_conv)
  then show ?thesis using d by blast
qed

end
