(* ===== verification/LanguageProperties.thy ===== *)
theory LanguageProperties
  imports ExtensionProperties
begin

text \<open>
  The registry of language packs against what its packs declare: the stored profiles are those of the registered packs,
  the indexes by language and by extension list each of them once, and a request for a profile resolves exactly when one
  declared profile fits it.
\<close>

section \<open>What a descriptor declares\<close>

definition extension_text :: "string \<Rightarrow> string" where
  "extension_text e = to_ascii_lowercase (dropWhile (\<lambda>c. c = CHR ''.'') (trim e))"

definition add_new :: "'a list \<Rightarrow> 'a \<Rightarrow> 'a list" where
  "add_new xs x = (if x \<in> set xs then xs else xs @ [x])"

definition declared_extensions :: "language_profile_descriptor \<Rightarrow> string list" where
  "declared_extensions pd = foldl add_new [] (map extension_text (filter (\<lambda>e. trim e \<noteq> []) (pd_file_extensions pd)))"

definition declared_requirements :: "language_profile_descriptor \<Rightarrow> string list" where
  "declared_requirements pd = filter (\<lambda>r. r \<noteq> []) (map trim (pd_supported_source_versions pd))"

definition profile_record :: "string \<Rightarrow> language_profile_descriptor \<Rightarrow> profile_owner" where
  "profile_record pid pd = \<lparr>po_pack_id = pid, po_profile_id = normalised (pd_id pd), po_language_id = normalised (pd_language_id pd),
     po_dialect = map_option normalised (pd_dialect pd), po_source_version_requirements = declared_requirements pd,
     po_extensions = declared_extensions pd\<rparr>"


lemma set_add_new: "set (foldl add_new acc xs) = set acc \<union> set xs"
  by (induction xs arbitrary: acc) (auto simp: add_new_def)




lemma lang_identifier_ok [simp]: "lang_identifier field v = Inr k \<longleftrightarrow> k = normalised v \<and> k \<noteq> []"
  by (auto simp: lang_identifier_def normalise_identifier_def)




section \<open>Indexes\<close>






lemma commit_profile_keeps [simp]:
  "lr_descriptors (foldl (\<lambda>reg kp. commit_profile kp reg) reg kps) = lr_descriptors reg"
  "lr_aliases (foldl (\<lambda>reg kp. commit_profile kp reg) reg kps) = lr_aliases reg"
  by (induction kps arbitrary: reg) (simp_all add: commit_profile_def split: prod.splits)


section \<open>Reachable registries\<close>













section \<open>Resolution\<close>









lemma profile_record_fields [simp]:
  "po_pack_id (profile_record pid pd) = pid" "po_profile_id (profile_record pid pd) = normalised (pd_id pd)"
  "po_language_id (profile_record pid pd) = normalised (pd_language_id pd)"
  "po_dialect (profile_record pid pd) = map_option normalised (pd_dialect pd)"
  "po_source_version_requirements (profile_record pid pd) = declared_requirements pd"
  "po_extensions (profile_record pid pd) = declared_extensions pd"
  by (simp_all add: profile_record_def)










section \<open>Concrete hosts\<close>

definition lenient_semver :: semver where
  "lenient_semver = \<lparr>sv_version = \<lambda>_. True, sv_requirement = \<lambda>_. True, sv_matches = \<lambda>_ _. True\<rparr>"

definition strict_semver :: semver where
  "strict_semver = \<lparr>sv_version = \<lambda>_. False, sv_requirement = \<lambda>_. False, sv_matches = \<lambda>_ _. False\<rparr>"

definition knowledge_registry :: capability_registry where
  "knowledge_registry = snd (register_capability KNOWLEDGE_CAPABILITY_PACK empty_capability_registry)"

lemma knowledge_registry_reachable: "reachable_capabilities knowledge_registry"
  unfolding knowledge_registry_def
  by (rule reachable_capabilities.registered [OF reachable_capabilities.empty surjective_pairing])

theorem contributions_have_one_owner_witness:
  "normalised ''Knowledge'' \<noteq> [] \<and>
    (\<exists>d. bt_get (cr_descriptors knowledge_registry) ''knowledge-capability-pack'' = Some d \<and> normalised ''Knowledge'' \<in> set (declared_stages d))"
proof -
  have "resolve_stage_owner knowledge_registry ''Knowledge'' = Some ''knowledge-capability-pack''" by code_simp
  then show ?thesis
    using contributions_have_one_owner [OF knowledge_registry_reachable, of "''Knowledge''" "''knowledge-capability-pack''"] by blast
qed

definition homeless_pack :: capability_pack where
  "homeless_pack = KNOWLEDGE_CAPABILITY_PACK\<lparr>cp_compatibility := (phase1_local_cli [])\<lparr>ec_supported_runtimes := []\<rparr>\<rparr>"

theorem failed_registration_changes_no_table_witness:
  "(\<exists>g. eh_diagnostics (snd (register_language_pack strict_semver RUST_LANGUAGE_PACK default_host)) = eh_diagnostics default_host @ [g] \<and>
    dg_severity g = ErrorSeverity \<and> dg_message g = registration_message (LanguageFailure (InvalidPackVersion ''rust-language-pack'' ''1.0.0'')))"
proof -
  have "fst (register_capability_pack homeless_pack default_host) = Inl (CompatibilityFailure
      (EmptyRuntimeSupport ''capability pack'' ''knowledge-capability-pack''))" by code_simp
  then have capability: "register_capability_pack homeless_pack default_host = (Inl (CompatibilityFailure
      (EmptyRuntimeSupport ''capability pack'' ''knowledge-capability-pack'')), snd (register_capability_pack homeless_pack default_host))"
    by (simp add: prod_eq_iff)
  have "fst (register_language_pack strict_semver RUST_LANGUAGE_PACK default_host) =
      Inl (LanguageFailure (InvalidPackVersion ''rust-language-pack'' ''1.0.0''))" by code_simp
  then have language: "register_language_pack strict_semver RUST_LANGUAGE_PACK default_host =
      (Inl (LanguageFailure (InvalidPackVersion ''rust-language-pack'' ''1.0.0'')),
       snd (register_language_pack strict_semver RUST_LANGUAGE_PACK default_host))"
    by (simp add: prod_eq_iff)
  show ?thesis using failed_registration_changes_no_table [OF capability language] by blast
qed

definition migrating_pack :: capability_pack where
  "migrating_pack = KNOWLEDGE_CAPABILITY_PACK\<lparr>cp_migrations := [\<lparr>md_id = ''002'', md_order = 2, md_description = ''index''\<rparr>,
     \<lparr>md_id = ''001'', md_order = 1, md_description = ''table''\<rparr>]\<rparr>"

definition always_succeeds :: "nat \<Rightarrow> migration_step \<Rightarrow> (string, unit) result \<times> nat" where
  "always_succeeds n step = (Inr (), n + 1)"

definition waiting_host :: core_extension_host where
  "waiting_host = snd (register_capability_pack migrating_pack default_host)"

definition migrated_host :: core_extension_host where
  "migrated_host = snd (snd (run_capability_migrations always_succeeds 0 waiting_host))"

lemma migrated_host_reachable: "reachable_host lenient_semver migrated_host"
proof -
  have waiting: "reachable_host lenient_semver waiting_host" unfolding waiting_host_def
    by (rule reachable_host.capability [OF reachable_host.new surjective_pairing])
  obtain report n host where run: "run_capability_migrations always_succeeds 0 waiting_host = (report, n, host)"
    by (metis prod_cases3)
  have "reachable_host lenient_semver host" by (rule reachable_host.migrations [OF waiting run])
  then show ?thesis by (simp add: migrated_host_def run)
qed

lemma stage_waits_for_migrations: "\<not> isl (resolve_stage_owner_for_execution migrated_host ''knowledge'') \<and>
    isl (resolve_stage_owner_for_execution waiting_host ''knowledge'')"
  by code_simp

theorem stages_run_after_their_migrations_witness:
  "\<exists>d. bt_get (cr_descriptors (eh_capability_packs migrated_host)) ''knowledge-capability-pack'' = Some d \<and>
    normalised ''knowledge'' \<in> set (declared_stages d) \<and>
    filter (\<lambda>m. \<not> migration_applied migrated_host ''knowledge-capability-pack'' m) (cp_migrations d) = []"
proof (rule stages_run_after_their_migrations [OF migrated_host_reachable])
  show "resolve_stage_owner_for_execution migrated_host ''knowledge'' = Inr ''knowledge-capability-pack''" by code_simp
qed




section \<open>What registration lets through\<close>

text \<open>The identifier of a pack is not checked against the aliases of others: a pack takes over the alias it is named as.\<close>

definition usurping_pack :: capability_pack where
  "usurping_pack = TEST_HARNESS_CAPABILITY_PACK
     \<lparr>cp_capability := TEST_HARNESS_CAPABILITY_DESCRIPTOR\<lparr>cap_id := ''knowledge-pack''\<rparr>\<rparr>"

lemma pack_id_takes_over_alias:
  "resolve_capability_pack knowledge_registry ''knowledge-pack'' = Some KNOWLEDGE_CAPABILITY_PACK \<and>
   fst (register_capability usurping_pack knowledge_registry) = Inr () \<and>
   resolve_capability_pack (snd (register_capability usurping_pack knowledge_registry)) ''knowledge-pack'' = Some usurping_pack"
  by code_simp

text \<open>The aliases of the profiles of one pack are checked against other packs only: the last one wins, also against the
  identifier of a profile.\<close>

definition overlapping_pack :: language_pack where
  "overlapping_pack = builtin_language_pack ''p'' ''P'' [] [''l'']
     [language_profile_entry ''a'' ''A'' ''l'' None [] [] [], language_profile_entry ''b'' ''B'' ''l'' None [''a''] [] []]"

lemma profile_alias_hides_profile:
  "fst (register_language lenient_semver overlapping_pack empty_language_registry) = Inr () \<and>
   map_option (pd_id \<circ> rv_profile)
     (resolve_profile (snd (register_language lenient_semver overlapping_pack empty_language_registry)) ''a'') = Some ''b''"
  by code_simp

text \<open>A profile whose identifier has a space is registered and never found.\<close>

definition spaced_pack :: language_pack where
  "spaced_pack = builtin_language_pack ''p'' ''P'' [] [''l''] [language_profile_entry ''a b'' ''AB'' ''l'' None [] [''x''] []]"

lemma spaced_profile_is_not_found:
  "fst (register_language lenient_semver spaced_pack empty_language_registry) = Inr () \<and>
   resolve_profile (snd (register_language lenient_semver spaced_pack empty_language_registry)) ''a b'' = None \<and>
   resolve_by_path (snd (register_language lenient_semver spaced_pack empty_language_registry)) ''f.x'' = Inl MissingResolutionInput"
  by code_simp

text \<open>A capability pack whose identifier has a blank around it is registered and never ready.\<close>

definition padded_pack :: capability_pack where
  "padded_pack = KNOWLEDGE_CAPABILITY_PACK\<lparr>cp_capability := KNOWLEDGE_CAPABILITY_DESCRIPTOR\<lparr>cap_id := '' padded''\<rparr>\<rparr>"

lemma padded_pack_is_never_ready:
  "fst (register_capability_pack padded_pack default_host) = Inr () \<and>
   resolve_stage_owner_for_execution (snd (register_capability_pack padded_pack default_host)) ''knowledge'' =
     Inl (CapabilityNotReady ''padded'' ''capability pack is not registered'')"
  by code_simp

end
