(* ===== verification/Pagination.thy ===== *)
theory Pagination
  imports
    RustStr
    "HOL-Library.Word"
begin

text \<open>
  The pages of a GraphQL connection, \<open>graphql/types/connection.rs\<close>: the arguments \<open>first\<close>, \<open>after\<close>, \<open>last\<close> and
  \<open>before\<close> of a field become a direction, a limit and a cursor, and a page is a window of the items with what is before
  and after it. The cursor of an item is an argument, as it is one of \<open>paginate_items\<close>.
\<close>

section \<open>Arguments\<close>

datatype pagination_error = BadUserInput string | BadCursor string

datatype connection_pagination = Forward nat "string option" | Backward nat "string option"

text \<open>The numbers of the field are 32-bit; the default limit is cut to 32 bits.\<close>

definition from_graphql :: "nat \<Rightarrow> 32 word option \<Rightarrow> string option \<Rightarrow> 32 word option \<Rightarrow> string option
    \<Rightarrow> (pagination_error, connection_pagination) result" where
  "from_graphql default_limit first_n after last_n before =
     (if (first_n \<noteq> None \<or> after \<noteq> None) \<and> (last_n \<noteq> None \<or> before \<noteq> None) then
        Err (BadUserInput ''use either forward pagination (`first`/`after`) or backward pagination (`last`/`before`), not both'')
      else (case last_n of
          Some n \<Rightarrow>
            if sint n \<le> 0 then Err (BadUserInput ''`last` must be greater than zero'')
            else Ok (Backward (nat (sint n)) before)
        | None \<Rightarrow>
            if before \<noteq> None then Err (BadUserInput ''`before` requires `last`'')
            else (let n = unwrap_or first_n (of_nat default_limit) in
              if sint n \<le> 0 then Err (BadUserInput ''`first` must be greater than zero'')
              else Ok (Forward (nat (sint n)) after))))"

fun pagination_limit :: "connection_pagination \<Rightarrow> nat" where
  "pagination_limit (Forward n _) = n"
| "pagination_limit (Backward n _) = n"

definition saturating_add :: "nat \<Rightarrow> nat \<Rightarrow> nat" where
  "saturating_add a b = min (a + b) (2 ^ 64 - 1)"

definition fetch_limit :: "connection_pagination \<Rightarrow> nat" where
  "fetch_limit p = saturating_add (pagination_limit p) 1"

fun pagination_after :: "connection_pagination \<Rightarrow> string option" where
  "pagination_after (Forward _ after) = after"
| "pagination_after (Backward _ _) = None"

fun pagination_before :: "connection_pagination \<Rightarrow> string option" where
  "pagination_before (Backward _ before) = before"
| "pagination_before (Forward _ _) = None"

section \<open>Pages\<close>

record page_info =
  has_next_page :: bool
  has_previous_page :: bool
  start_cursor :: "string option"
  end_cursor :: "string option"

record 'a paginated_items =
  page_items :: "'a list"
  page_page_info :: page_info
  page_total_count :: nat

definition cursor_position :: "('a \<Rightarrow> string) \<Rightarrow> 'a list \<Rightarrow> string \<Rightarrow> (pagination_error, nat) result" where
  "cursor_position cursor_of items cursor =
     (case find_index (\<lambda>item. cursor_of item = cursor) items of
        None \<Rightarrow> Err (BadCursor (''cursor `'' @ cursor @ ''` does not match any result in this connection''))
      | Some position \<Rightarrow> Ok position)"

fun page_window :: "('a \<Rightarrow> string) \<Rightarrow> 'a list \<Rightarrow> connection_pagination \<Rightarrow> (pagination_error, nat \<times> nat) result" where
  "page_window cursor_of items (Forward limit after) =
     and_then (case after of
         Some cursor \<Rightarrow> and_then (cursor_position cursor_of items cursor) (\<lambda>position. Ok (saturating_add position 1))
       | None \<Rightarrow> Ok 0) (\<lambda>start_index.
     Ok (start_index, min (saturating_add start_index limit) (length items)))"
| "page_window cursor_of items (Backward limit before) =
     and_then (case before of
         Some cursor \<Rightarrow> cursor_position cursor_of items cursor
       | None \<Rightarrow> Ok (length items)) (\<lambda>end_index.
     Ok (end_index - limit, end_index))"

definition page_of :: "('a \<Rightarrow> string) \<Rightarrow> 'a list \<Rightarrow> nat \<times> nat \<Rightarrow> 'a paginated_items" where
  "page_of cursor_of items window =
     (case window of (start_index, end_index) \<Rightarrow>
      let page = take (end_index - start_index) (drop start_index items) in
      \<lparr>page_items = page,
       page_page_info = \<lparr>has_next_page = (end_index < length items), has_previous_page = (start_index > 0),
         start_cursor = (if page = [] then None else Some (cursor_of (hd page))),
         end_cursor = (if page = [] then None else Some (cursor_of (last page)))\<rparr>,
       page_total_count = length items\<rparr>)"

definition paginate_items :: "('a \<Rightarrow> string) \<Rightarrow> 'a list \<Rightarrow> connection_pagination
    \<Rightarrow> (pagination_error, 'a paginated_items) result" where
  "paginate_items cursor_of items pagination =
     and_then (page_window cursor_of items pagination) (\<lambda>window. Ok (page_of cursor_of items window))"

subsection \<open>Connections\<close>

text \<open>The connections of the schema differ in the type of their nodes only; the total is cut to 31 bits.\<close>

record 'n edge =
  edge_node :: 'n
  edge_cursor :: string

record 'n connection =
  conn_edges :: "'n edge list"
  conn_page_info :: page_info
  conn_total_count :: "32 word"

definition edge_new :: "('n \<Rightarrow> string) \<Rightarrow> 'n \<Rightarrow> 'n edge" where
  "edge_new cursor_of node = \<lparr>edge_node = node, edge_cursor = cursor_of node\<rparr>"

definition connection_new :: "'n edge list \<Rightarrow> page_info \<Rightarrow> nat \<Rightarrow> 'n connection" where
  "connection_new edges info total_count = \<lparr>conn_edges = edges, conn_page_info = info,
     conn_total_count = (if total_count < 2 ^ 31 then of_nat total_count else 0x7FFFFFFF)\<rparr>"

section \<open>What a page is\<close>

text \<open>A list of items is in memory, so that its length is one of 64 bits.\<close>

lemma cursor_position_Ok:
  "cursor_position cursor_of items cursor = Ok i \<longleftrightarrow> find_index (\<lambda>item. cursor_of item = cursor) items = Some i"
  by (auto simp: cursor_position_def split: option.splits)

lemma find_index_first:
  assumes found: "find_index P xs = Some i" and j: "j < i"
  shows "\<not> P (xs ! j)"
proof
  assume "P (xs ! j)"
  obtain js where js: "filter (\<lambda>i. P (xs ! i)) [0..<length xs] = i # js"
    using found by (auto simp: find_index_def split: list.splits)
  have "j \<in> set (filter (\<lambda>i. P (xs ! i)) [0..<length xs])"
    using find_index_Some(1) [OF found] j \<open>P (xs ! j)\<close> by simp
  then have "j \<in> set (i # js)" by (simp only: js)
  moreover have "sorted_wrt (<) (i # js)" unfolding js [symmetric] by (rule sorted_wrt_filter) simp
  ultimately show False using j by auto
qed

lemma find_index_eq: "i < length xs \<Longrightarrow> P (xs ! i) \<Longrightarrow> (\<And>j. j < i \<Longrightarrow> \<not> P (xs ! j)) \<Longrightarrow> find_index P xs = Some i"
proof (cases "find_index P xs")
  case None
  then show "i < length xs \<Longrightarrow> P (xs ! i) \<Longrightarrow> ?thesis" by (simp add: find_index_None)
next
  case (Some k)
  assume i: "i < length xs" "P (xs ! i)" and least: "\<And>j. j < i \<Longrightarrow> \<not> P (xs ! j)"
  have "\<not> k < i" using least find_index_Some(2) [OF Some] by blast
  moreover have "\<not> i < k" using find_index_first [OF Some] i(2) by blast
  ultimately show ?thesis using Some by simp
qed

lemma page_window_bounds:
  assumes "page_window cursor_of items p = Ok (a, b)" "length items < 2 ^ 64"
  shows "a \<le> b \<and> b \<le> length items"
proof (cases p)
  case (Forward limit after)
  show ?thesis
  proof (cases after)
    case None
    then show ?thesis using assms Forward by (auto simp: saturating_add_def)
  next
    case (Some cursor)
    then obtain i where i: "find_index (\<lambda>item. cursor_of item = cursor) items = Some i"
      and ab: "a = saturating_add i 1" "b = min (saturating_add a limit) (length items)"
      using assms Forward by (auto simp: cursor_position_Ok)
    have "i < length items" by (rule find_index_Some(1) [OF i])
    then show ?thesis using ab assms(2) by (auto simp: saturating_add_def)
  qed
next
  case (Backward limit before)
  show ?thesis
  proof (cases before)
    case None
    then show ?thesis using assms Backward by auto
  next
    case (Some cursor)
    then have "find_index (\<lambda>item. cursor_of item = cursor) items = Some b" "a = b - limit"
      using assms Backward by (auto simp: cursor_position_Ok)
    then show ?thesis using find_index_Some(1) less_imp_le by fastforce
  qed
qed


text \<open>The window in terms of what is before and after it.\<close>

lemma forward_window:
  assumes "page_window cursor_of items (Forward limit after) = Ok (a, b)" "length items < 2 ^ 64"
  shows "b = min (a + limit) (length items)" "after = None \<Longrightarrow> a = 0"
    "after = Some cursor \<Longrightarrow> 0 < a \<and> cursor_of (items ! (a - 1)) = cursor \<and> (\<forall>j < a - 1. cursor_of (items ! j) \<noteq> cursor)"
proof -
  have bounds: "a \<le> b" "b \<le> length items" using page_window_bounds [OF assms] by auto
  have "b = min (saturating_add a limit) (length items)" using assms(1) by auto
  then show "b = min (a + limit) (length items)" using bounds assms(2) by (auto simp: saturating_add_def)
  show "after = None \<Longrightarrow> a = 0" using assms(1) by simp
  assume "after = Some cursor"
  then obtain i where i: "find_index (\<lambda>item. cursor_of item = cursor) items = Some i" and a: "a = saturating_add i 1"
    using assms(1) by (auto simp: cursor_position_Ok)
  have "i < length items" by (rule find_index_Some(1) [OF i])
  then have "a = i + 1" using a assms(2) by (simp add: saturating_add_def)
  then show "0 < a \<and> cursor_of (items ! (a - 1)) = cursor \<and> (\<forall>j < a - 1. cursor_of (items ! j) \<noteq> cursor)"
    using find_index_Some(2) [OF i] find_index_first [OF i] by auto
qed

lemma backward_window:
  assumes "page_window cursor_of items (Backward limit before) = Ok (a, b)"
  shows "a = b - limit" "before = None \<Longrightarrow> b = length items"
    "before = Some cursor \<Longrightarrow> b < length items \<and> cursor_of (items ! b) = cursor \<and> (\<forall>j < b. cursor_of (items ! j) \<noteq> cursor)"
proof -
  show "a = b - limit" "before = None \<Longrightarrow> b = length items" using assms by auto
  assume "before = Some cursor"
  then have i: "find_index (\<lambda>item. cursor_of item = cursor) items = Some b"
    using assms by (auto simp: cursor_position_Ok)
  show "b < length items \<and> cursor_of (items ! b) = cursor \<and> (\<forall>j < b. cursor_of (items ! j) \<noteq> cursor)"
    using find_index_Some [OF i] find_index_first [OF i] by simp
qed

lemma paginate_items_Ok:
  "paginate_items cursor_of items p = Ok r \<longleftrightarrow>
    (\<exists>a b. page_window cursor_of items p = Ok (a, b) \<and> r = page_of cursor_of items (a, b))"
  by (auto simp: paginate_items_def)

lemma page_items_page_of: "page_items (page_of cursor_of items (a, b)) = take (b - a) (drop a items)"
  by (simp add: page_of_def Let_def)

lemma length_page: "a \<le> b \<Longrightarrow> b \<le> length items \<Longrightarrow> length (page_items (page_of cursor_of items (a, b))) = b - a"
  by (simp add: page_items_page_of)

fun page_between :: "('a \<Rightarrow> string) \<Rightarrow> connection_pagination \<Rightarrow> 'a list \<Rightarrow> 'a list \<Rightarrow> 'a list \<Rightarrow> bool" where
  "page_between cursor_of (Forward limit cursor) before page after \<longleftrightarrow>
     length page = min limit (length page + length after) \<and>
     (case cursor of
        None \<Rightarrow> before = []
      | Some c \<Rightarrow> before \<noteq> [] \<and> cursor_of (last before) = c \<and> c \<notin> cursor_of ` set (butlast before))"
| "page_between cursor_of (Backward limit cursor) before page after \<longleftrightarrow>
     length page = min limit (length before + length page) \<and>
     (case cursor of
        None \<Rightarrow> after = []
      | Some c \<Rightarrow> after \<noteq> [] \<and> cursor_of (hd after) = c \<and> c \<notin> cursor_of ` set (before @ page))"

text \<open>A page is a window of the items. It stands between what the flags say is before and after it; a page forward
  begins right after the first item with the cursor, a page backward ends right before it, and it is as long as the limit
  and the items allow.\<close>

theorem page_is_a_window:
  assumes "paginate_items cursor_of items p = Ok r" "length items < 2 ^ 64"
  shows "\<exists>before after. items = before @ page_items r @ after \<and> page_between cursor_of p before (page_items r) after \<and>
    has_previous_page (page_page_info r) = (before \<noteq> []) \<and> has_next_page (page_page_info r) = (after \<noteq> [])"
proof -
  obtain a b where ab: "page_window cursor_of items p = Ok (a, b)" and r: "r = page_of cursor_of items (a, b)"
    using assms(1) by (auto simp: paginate_items_Ok)
  have bounds: "a \<le> b" "b \<le> length items" using page_window_bounds [OF ab assms(2)] by auto
  have items: "items = take a items @ page_items r @ drop b items"
    using bounds by (metis append_take_drop_id drop_drop le_add_diff_inverse2 page_items_page_of r)
  have len: "length (page_items r) = b - a" unfolding r by (rule length_page [OF bounds])
  have flags: "has_previous_page (page_page_info r) = (take a items \<noteq> [])"
    "has_next_page (page_page_info r) = (drop b items \<noteq> [])"
    using bounds by (auto simp: r page_of_def Let_def)
  have early: "take a items @ page_items r = take b items"
    using bounds by (metis le_add_diff_inverse page_items_page_of r take_add)
  have "page_between cursor_of p (take a items) (page_items r) (drop b items)"
  proof (cases p)
    case (Forward limit cursor)
    note window = forward_window [OF ab [unfolded Forward] assms(2)]
    have "last (take a items) = items ! (a - 1)" if "0 < a"
      using that bounds by (subst last_conv_nth) auto
    moreover have "butlast (take a items) = take (a - 1) items" using bounds by (simp add: butlast_take)
    ultimately show ?thesis using window bounds len unfolding Forward
      by (cases cursor) (fastforce simp: in_set_conv_nth)+
  next
    case (Backward limit cursor)
    note window = backward_window [OF ab [unfolded Backward]]
    show ?thesis using window bounds len unfolding Backward page_between.simps early
      by (cases cursor) (fastforce simp: hd_drop_conv_nth in_set_conv_nth)+
  qed
  then show ?thesis using items flags by blast
qed

section \<open>Following the cursors\<close>

text \<open>A reader that asks for page after page behind the last cursor, with fuel for the number of its requests.\<close>

fun read_pages :: "nat \<Rightarrow> ('a \<Rightarrow> string) \<Rightarrow> 'a list \<Rightarrow> nat \<Rightarrow> string option \<Rightarrow> 'a list list option" where
  "read_pages 0 cursor_of items limit after = None"
| "read_pages (Suc fuel) cursor_of items limit after =
     (case paginate_items cursor_of items (Forward limit after) of
        Inl e \<Rightarrow> None
      | Inr r \<Rightarrow>
          if has_next_page (page_page_info r)
          then map_option ((#) (page_items r)) (read_pages fuel cursor_of items limit (end_cursor (page_page_info r)))
          else Some [page_items r])"

definition cursor_before :: "('a \<Rightarrow> string) \<Rightarrow> 'a list \<Rightarrow> nat \<Rightarrow> string option" where
  "cursor_before cursor_of items a = (if a = 0 then None else Some (cursor_of (items ! (a - 1))))"

lemma saturating_in_memory: "n < 2 ^ 64 \<Longrightarrow> min (saturating_add a b) n = min (a + b) n"
  "i < n \<Longrightarrow> n < 2 ^ 64 \<Longrightarrow> saturating_add i 1 = Suc i"
  by (auto simp: saturating_add_def)

lemma forward_from:
  assumes "distinct (map cursor_of items)" "length items < 2 ^ 64" "a \<le> length items"
  shows "paginate_items cursor_of items (Forward limit (cursor_before cursor_of items a)) =
    Ok (page_of cursor_of items (a, min (a + limit) (length items)))"
proof (cases "a = 0")
  case True
  then show ?thesis using assms by (simp add: paginate_items_def cursor_before_def saturating_in_memory del: One_nat_def)
next
  case False
  have "find_index (\<lambda>item. cursor_of item = cursor_of (items ! (a - 1))) items = Some (a - 1)"
  proof (rule find_index_eq)
    show "cursor_of (items ! j) \<noteq> cursor_of (items ! (a - 1))" if "j < a - 1" for j
      using assms that False by (auto simp: distinct_conv_nth)
  qed (use assms False in auto)
  then show ?thesis using assms False
    by (simp add: paginate_items_def cursor_before_def cursor_position_def saturating_in_memory(1)
        saturating_in_memory(2) [of "a - 1" "length items"] del: One_nat_def)
qed

lemma read_pages_from:
  assumes "distinct (map cursor_of items)" "length items < 2 ^ 64" "0 < limit"
  shows "a \<le> length items \<Longrightarrow> length items - a < fuel \<Longrightarrow>
    \<exists>pages. read_pages fuel cursor_of items limit (cursor_before cursor_of items a) = Some pages \<and>
      concat pages = drop a items \<and> pages \<noteq> [] \<and> (\<forall>p \<in> set (butlast pages). length p = limit) \<and> length (last pages) \<le> limit"
proof (induction fuel arbitrary: a)
  case (Suc fuel)
  let ?b = "min (a + limit) (length items)"
  let ?r = "page_of cursor_of items (a, ?b)"
  note page = forward_from [OF assms(1,2) Suc.prems(1), of limit]
  have items: "page_items ?r = take limit (drop a items)" using Suc.prems(1) by (auto simp: page_items_page_of min_def)
  show ?case
  proof (cases "?b < length items")
    case True
    then have b: "?b = a + limit" by simp
    have "page_items ?r \<noteq> []" using items assms(3) True by simp
    moreover have "last (page_items ?r) = items ! (?b - 1)"
      using True assms(3) by (subst items) (subst last_conv_nth, auto)
    ultimately have cursor: "end_cursor (page_page_info ?r) = cursor_before cursor_of items ?b"
      using assms(3) True by (simp add: page_of_def Let_def cursor_before_def)
    have "?b \<le> length items" "length items - ?b < fuel" using Suc.prems assms(3) True by auto
    from Suc.IH [OF this] obtain pages where
      IH: "read_pages fuel cursor_of items limit (cursor_before cursor_of items ?b) = Some pages"
        "concat pages = drop ?b items" "pages \<noteq> []" "\<forall>p \<in> set (butlast pages). length p = limit" "length (last pages) \<le> limit"
      by blast
    have next_page: "has_next_page (page_page_info ?r)" using True by (simp add: page_of_def Let_def)
    have "read_pages (Suc fuel) cursor_of items limit (cursor_before cursor_of items a) = Some (page_items ?r # pages)"
      by (simp only: read_pages.simps page sum.case next_page if_True cursor IH(1) option.map)
    moreover have "concat (page_items ?r # pages) = drop a items"
    proof -
      have "drop ?b items = drop limit (drop a items)" using b by (simp add: add.commute)
      then show ?thesis using IH(2) by (simp only: items concat.simps append_take_drop_id)
    qed
    moreover have "length (page_items ?r) = limit" using items b True by simp
    ultimately show ?thesis using IH(3-5) by auto
  next
    case False
    then have "read_pages (Suc fuel) cursor_of items limit (cursor_before cursor_of items a) = Some [page_items ?r]"
      by (simp only: read_pages.simps page sum.case) (simp add: page_of_def Let_def)
    moreover have "page_items ?r = drop a items" "length (page_items ?r) \<le> limit" using False unfolding items by auto
    ultimately show ?thesis by auto
  qed
qed simp

text \<open>C30: following the cursors ends and reads everything. When the items have different cursors, a reader that asks for
  pages of a positive size behind the end cursor of the last one stops after at most one request more than there are items,
  and has read every item once, in order, with every page but the last full.\<close>

theorem cursors_lead_through_all_items:
  assumes "distinct (map cursor_of items)" "length items < 2 ^ 64" "0 < limit"
  shows "\<exists>pages. read_pages (length items + 1) cursor_of items limit None = Some pages \<and> concat pages = items \<and>
    (\<forall>p \<in> set (butlast pages). length p = limit) \<and> length (last pages) \<le> limit"
  using read_pages_from [OF assms, of 0 "length items + 1"] by (auto simp: cursor_before_def)

text \<open>Items with equal cursors can keep the reader on the same page.\<close>

lemma equal_cursors_stop_the_reader: "read_pages fuel (\<lambda>_. ''c'') [0 :: nat, 1, 2] 1 (Some ''c'') = None"
proof (induction fuel)
  case (Suc fuel)
  have "paginate_items (\<lambda>_. ''c'') [0 :: nat, 1, 2] (Forward 1 (Some ''c'')) =
      Ok (page_of (\<lambda>_. ''c'') [0, 1, 2] (1, Suc 1))"
  proof -
    have "find_index (\<lambda>_. True) [0 :: nat, 1, 2] = Some 0" by (rule find_index_eq) simp_all
    then show ?thesis by (simp add: paginate_items_def cursor_position_def saturating_add_def)
  qed
  then show ?case using Suc by (simp add: page_of_def Let_def)
qed simp

section \<open>Backwards\<close>

definition mirrored :: "'a paginated_items \<Rightarrow> 'a paginated_items" where
  "mirrored r = \<lparr>page_items = rev (page_items r),
     page_page_info = \<lparr>has_next_page = has_previous_page (page_page_info r), has_previous_page = has_next_page (page_page_info r),
       start_cursor = end_cursor (page_page_info r), end_cursor = start_cursor (page_page_info r)\<rparr>,
     page_total_count = page_total_count r\<rparr>"

lemma page_of_rev:
  assumes "a \<le> b" "b \<le> length items"
  shows "page_of cursor_of items (a, b) = mirrored (page_of cursor_of (rev items) (length items - b, length items - a))"
proof -
  have "rev (take (b - a) (drop a items)) = take (b - a) (drop (length items - b) (rev items))"
  proof -
    have "length items - a - (b - a) = length items - b" "length items - a - (length items - b) = b - a" using assms by auto
    then show ?thesis by (simp only: rev_take rev_drop length_drop drop_take)
  qed
  then have "take (b - a) (drop a items) = rev (take (b - a) (drop (length items - b) (rev items)))"
    by (metis rev_swap)
  moreover have "length items - a - (length items - b) = b - a" using assms by simp
  ultimately show ?thesis using assms
    by (auto simp: page_of_def mirrored_def Let_def hd_rev last_rev) (metis length_greater_0_conv less_le_trans)
qed

lemma find_index_rev:
  assumes "distinct (map f xs)" "find_index (\<lambda>x. f x = c) xs = Some i"
  shows "find_index (\<lambda>x. f x = c) (rev xs) = Some (length xs - Suc i)"
proof (rule find_index_eq)
  have i: "i < length xs" "f (xs ! i) = c" using find_index_Some [OF assms(2)] by auto
  then show "length xs - Suc i < length (rev xs)" "f (rev xs ! (length xs - Suc i)) = c" by (auto simp: rev_nth)
  show "f (rev xs ! j) \<noteq> c" if "j < length xs - Suc i" for j
  proof -
    have "rev xs ! j = xs ! (length xs - Suc j)" "length xs - Suc j \<noteq> i" "length xs - Suc j < length xs"
      using that by (auto simp: rev_nth)
    then show ?thesis using assms(1) i by (auto simp: distinct_conv_nth)
  qed
qed

text \<open>C31: reading backwards is reading the reversed items forwards. When the items have different cursors, a backward page
  is the mirror image of the forward page with the same limit and cursor over the items in reverse, with the same errors.\<close>

theorem backward_is_forward_reversed:
  assumes "distinct (map cursor_of items)" "length items < 2 ^ 64"
  shows "paginate_items cursor_of items (Backward limit cursor) =
    map_sum id mirrored (paginate_items cursor_of (rev items) (Forward limit cursor))"
proof -
  have page: "page_of cursor_of items (b - limit, b) =
      mirrored (page_of cursor_of (rev items) (length items - b, min (length items - b + limit) (length items)))"
    if "b \<le> length items" for b
  proof -
    have "length items - (b - limit) = min (length items - b + limit) (length items)" using that by auto
    then show ?thesis using page_of_rev [of "b - limit" b items cursor_of] that by simp
  qed
  show ?thesis
  proof (cases cursor)
    case None
    then show ?thesis using page [of "length items"] assms(2)
      by (simp add: paginate_items_def saturating_in_memory)
  next
    case (Some c)
    show ?thesis
    proof (cases "find_index (\<lambda>item. cursor_of item = c) items")
      case None
      then have "find_index (\<lambda>item. cursor_of item = c) (rev items) = None" by (simp add: find_index_None)
      then show ?thesis using None Some by (simp add: paginate_items_def cursor_position_def)
    next
      case (Some i)
      have i: "i < length items" by (rule find_index_Some(1) [OF Some])
      have "find_index (\<lambda>item. cursor_of item = c) (rev items) = Some (length items - Suc i)"
        by (rule find_index_rev [OF assms(1) Some])
      then show ?thesis using Some \<open>cursor = Some c\<close> page [of i] i assms(2)
        by (simp add: paginate_items_def cursor_position_def saturating_in_memory(1)
            saturating_in_memory(2) [of _ "length items"] Suc_diff_Suc del: One_nat_def)
    qed
  qed
qed

section \<open>A connection of three items\<close>

theorem page_is_a_window_witness:
  "\<exists>before after. [''a'', ''b'', ''c''] = before @ [''b'', ''c''] @ after \<and>
    page_between id (Forward 5 (Some ''a'')) before [''b'', ''c''] after \<and> True = (before \<noteq> []) \<and> False = (after \<noteq> [])"
proof -
  let ?items = "[''a'', ''b'', ''c'']"
  have "find_index (\<lambda>item. id item = ''a'') ?items = Some 0" by (rule find_index_eq) simp_all
  then have "paginate_items id ?items (Forward 5 (Some ''a'')) = Ok (page_of id ?items (1, Suc (Suc (Suc 0))))"
    by (simp add: paginate_items_def cursor_position_def saturating_add_def)
  from page_is_a_window [OF this] show ?thesis by (simp add: page_of_def Let_def)
qed

theorem cursors_lead_through_all_items_witness:
  "\<exists>pages. read_pages 4 id [''a'', ''b'', ''c''] 2 None = Some pages \<and> concat pages = [''a'', ''b'', ''c''] \<and>
    (\<forall>p \<in> set (butlast pages). length p = 2) \<and> length (last pages) \<le> 2"
proof -
  have size: "length [''a'', ''b'', ''c''] + 1 = 4" by simp
  have items: "distinct (map id [''a'', ''b'', ''c''])" "length [''a'', ''b'', ''c''] < 2 ^ 64" "0 < (2 :: nat)" by simp_all
  show ?thesis by (rule cursors_lead_through_all_items [OF items, unfolded size])
qed

theorem backward_is_forward_reversed_witness:
  "paginate_items id [''a'', ''b'', ''c''] (Backward 2 (Some ''c'')) =
    map_sum id mirrored (paginate_items id [''c'', ''b'', ''a''] (Forward 2 (Some ''c'')))"
  using backward_is_forward_reversed [of id "[''a'', ''b'', ''c'']" 2 "Some ''c''"] by simp

end
