(* ===== verification/Chunking.thy ===== *)
theory Chunking
  imports
    OrdMap
    "HOL-Library.Multiset"
begin

text \<open>
  Transcripts in chunks, \<open>adapters/agents/chunking.rs\<close> with the agents' own ways of chunking: a transcript that is too
  long for one file is cut between its lines (or, by the Gemini agent, between its messages), the chunks are stored in
  numbered files and put together again. A byte is a \<open>char\<close>. JSON documents of messages are read and written by the
  serde library, a record of arguments; the registry of agents is a map in the order of the names.
\<close>

section \<open>Lines (chunking.rs)\<close>

definition newline :: char where "newline = CHR 0x0A"

definition MAX_CHUNK_SIZE :: nat where "MAX_CHUNK_SIZE = 50 * 1024 * 1024"

definition drop_newline :: "string \<Rightarrow> string" where
  "drop_newline s = (if s \<noteq> [] \<and> last s = newline then butlast s else s)"

definition line_too_long :: "nat \<Rightarrow> nat \<Rightarrow> nat \<Rightarrow> string" where
  "line_too_long i bytes max_size = ''JSONL line '' @ dec (i + 1) @ '' exceeds maximum chunk size ('' @ dec bytes @ '' bytes > ''
     @ dec max_size @ '' bytes); cannot split a single JSON object''"

fun chunk_lines :: "nat \<Rightarrow> nat \<Rightarrow> string list \<Rightarrow> string \<Rightarrow> string list \<Rightarrow> (string, string list) result" where
  "chunk_lines max_size i [] current chunks = Ok (if current = [] then chunks else chunks @ [drop_newline current])"
| "chunk_lines max_size i (line # rest) current chunks =
     (if length line + 1 > max_size then Err (line_too_long i (length line + 1) max_size)
      else if length current + (length line + 1) > max_size \<and> current \<noteq> [] then
        chunk_lines max_size (i + 1) rest (line @ [newline]) (chunks @ [drop_newline current])
      else chunk_lines max_size (i + 1) rest (current @ line @ [newline]) chunks)"

definition chunk_jsonl :: "string \<Rightarrow> nat \<Rightarrow> (string, string list) result" where
  "chunk_jsonl content max_size =
     (if content = [] then Ok [] else chunk_lines max_size 0 (split_on newline content) [] [])"

fun reassemble_jsonl :: "string list \<Rightarrow> string" where
  "reassemble_jsonl [] = []"
| "reassemble_jsonl [chunk] = chunk"
| "reassemble_jsonl (chunk # rest) = chunk @ [newline] @ reassemble_jsonl rest"

definition slice_jsonl_by_line :: "string \<Rightarrow> nat \<Rightarrow> nat \<Rightarrow> string" where
  "slice_jsonl_by_line transcript start_line end_line =
     (if end_line \<le> start_line \<or> transcript = [] then []
      else join_on [newline] (take (end_line - start_line) (drop start_line (lines transcript))))"

subsection \<open>File names\<close>

definition chunk_file_name :: "string \<Rightarrow> nat \<Rightarrow> string" where
  "chunk_file_name base_name index = (if index = 0 then base_name else base_name @ ''.'' @ dec_pad 3 index)"

text \<open>\<open>str::parse::<i32>\<close> of digits.\<close>

definition parse_chunk_index :: "string \<Rightarrow> string \<Rightarrow> int" where
  "parse_chunk_index filename base_name =
     (if filename = base_name then 0
      else (case strip_prefix (base_name @ ''.'') filename of
          None \<Rightarrow> - 1
        | Some digits \<Rightarrow>
            if digits = [] \<or> \<not> list_all is_digit digits then - 1
            else if digits_value digits < 2 ^ 31 then int (digits_value digits) else - 1))"

definition sort_chunk_files :: "string list \<Rightarrow> string \<Rightarrow> string list" where
  "sort_chunk_files files base_name = sort_key (\<lambda>file. parse_chunk_index file base_name) files"

section \<open>The agents\<close>

record transcript_agent =
  ta_name :: string
  ta_type :: string
  ta_chunk :: "string \<Rightarrow> nat \<Rightarrow> (string, string list) result"
  ta_reassemble :: "string list \<Rightarrow> (string, string) result"

text \<open>The default of the trait, which the Claude Code agent keeps.\<close>

definition whole_agent :: "string \<Rightarrow> transcript_agent" where
  "whole_agent name = \<lparr>ta_name = name, ta_type = name, ta_chunk = \<lambda>content _. Ok [content], ta_reassemble = \<lambda>chunks. Ok (concat chunks)\<rparr>"

definition map_err :: "('e \<Rightarrow> 'f) \<Rightarrow> ('e, 'a) result \<Rightarrow> ('f, 'a) result" where
  "map_err f r = (case r of Inl e \<Rightarrow> Inl (f e) | Inr a \<Rightarrow> Inr a)"

definition jsonl_agent :: "string \<Rightarrow> string \<Rightarrow> transcript_agent" where
  "jsonl_agent name failure = \<lparr>ta_name = name, ta_type = name,
     ta_chunk = \<lambda>content max_size. map_err (\<lambda>e. failure @ e) (chunk_jsonl content max_size),
     ta_reassemble = \<lambda>chunks. Ok (reassemble_jsonl chunks)\<rparr>"

definition claude_code_agent :: transcript_agent where
  "claude_code_agent = whole_agent ''claude-code''"

definition copilot_agent :: transcript_agent where
  "copilot_agent = jsonl_agent ''copilot'' ''failed to chunk transcript: ''"

definition codex_agent :: transcript_agent where
  "codex_agent = jsonl_agent ''codex'' ''failed to chunk Codex transcript: ''"

definition cursor_agent :: transcript_agent where
  "cursor_agent = jsonl_agent ''cursor'' ''failed to chunk JSONL transcript: ''"

definition open_code_agent :: transcript_agent where
  "open_code_agent = jsonl_agent ''opencode'' ''failed to chunk opencode transcript: ''"

subsection \<open>Gemini (gemini/agent/cli_agent.rs)\<close>

text \<open>What serde does: a document of messages and a single message as JSON.\<close>

record 'm message_codec =
  mc_read :: "string \<Rightarrow> (string, 'm list) result"
  mc_write :: "'m list \<Rightarrow> (string, string) result"
  mc_message :: "'m \<Rightarrow> string option"

definition empty_document_size :: nat where "empty_document_size = 15"

fun chunk_messages :: "'m message_codec \<Rightarrow> nat \<Rightarrow> 'm list \<Rightarrow> 'm list \<Rightarrow> nat \<Rightarrow> string list \<Rightarrow> (string, string list) result" where
  "chunk_messages mc max_size [] current current_size chunks =
     and_then
       (if current \<noteq> [] then and_then (map_err (\<lambda>e. ''failed to marshal final chunk: '' @ e) (mc_write mc current))
          (\<lambda>data. Ok (chunks @ [data]))
        else Ok chunks)
       (\<lambda>chunks. if chunks = [] then Err ''failed to create any chunks: all messages failed to marshal'' else Ok chunks)"
| "chunk_messages mc max_size (msg # rest) current current_size chunks =
     (case mc_message mc msg of
        None \<Rightarrow> chunk_messages mc max_size rest current current_size chunks
      | Some text \<Rightarrow>
          let msg_size = length text + 1 in
          if current_size + msg_size > max_size \<and> current \<noteq> [] then
            and_then (map_err (\<lambda>e. ''failed to marshal chunk: '' @ e) (mc_write mc current)) (\<lambda>data.
              chunk_messages mc max_size rest [msg] (empty_document_size + msg_size) (chunks @ [data]))
          else chunk_messages mc max_size rest (current @ [msg]) (current_size + msg_size) chunks)"

definition gemini_chunk :: "'m message_codec \<Rightarrow> string \<Rightarrow> nat \<Rightarrow> (string, string list) result" where
  "gemini_chunk mc content max_size =
     (case mc_read mc content of
        Inl _ \<Rightarrow> map_err (\<lambda>e. ''failed to chunk as JSONL: '' @ e) (chunk_jsonl content max_size)
      | Inr messages \<Rightarrow>
          if messages = [] then Ok [content] else chunk_messages mc max_size messages [] empty_document_size [])"

definition gemini_reassemble :: "'m message_codec \<Rightarrow> string list \<Rightarrow> (string, string) result" where
  "gemini_reassemble mc chunks =
     and_then (map_result (\<lambda>chunk. map_err (\<lambda>e. ''failed to unmarshal chunk: '' @ e) (mc_read mc chunk)) chunks) (\<lambda>documents.
     map_err (\<lambda>e. ''failed to marshal reassembled transcript: '' @ e) (mc_write mc (concat documents)))"

definition gemini_agent :: "'m message_codec \<Rightarrow> transcript_agent" where
  "gemini_agent mc = \<lparr>ta_name = ''gemini'', ta_type = ''gemini'', ta_chunk = gemini_chunk mc, ta_reassemble = gemini_reassemble mc\<rparr>"

subsection \<open>The registry (registry.rs)\<close>

type_synonym agent_registry = "(string, transcript_agent) btree"

definition agent_registry_new :: "transcript_agent list \<Rightarrow> agent_registry" where
  "agent_registry_new agents = foldl (\<lambda>m agent. bt_insert (ta_name agent) agent m) [] agents"

definition get_by_agent_type :: "agent_registry \<Rightarrow> string \<Rightarrow> transcript_agent option" where
  "get_by_agent_type registry agent_type = find (\<lambda>agent. ta_type agent = agent_type) (bt_values registry)"

text \<open>The built-in agents.\<close>

definition builtin_agents :: "'m message_codec \<Rightarrow> agent_registry" where
  "builtin_agents mc = agent_registry_new
     [claude_code_agent, copilot_agent, codex_agent, cursor_agent, gemini_agent mc, open_code_agent]"

definition chunk_transcript :: "agent_registry \<Rightarrow> string \<Rightarrow> string \<Rightarrow> (string, string list) result" where
  "chunk_transcript registry content agent_type =
     (if length content \<le> MAX_CHUNK_SIZE then Ok [content]
      else (case (if agent_type \<noteq> [] then get_by_agent_type registry agent_type else None) of
          Some agent \<Rightarrow> map_err (\<lambda>e. ''agent chunking failed: '' @ e) (ta_chunk agent content MAX_CHUNK_SIZE)
        | None \<Rightarrow> chunk_jsonl content MAX_CHUNK_SIZE))"

definition reassemble_transcript :: "agent_registry \<Rightarrow> string list \<Rightarrow> string \<Rightarrow> (string, string option) result" where
  "reassemble_transcript registry chunks agent_type =
     (case chunks of
        [] \<Rightarrow> Ok None
      | [chunk] \<Rightarrow> Ok (Some chunk)
      | _ \<Rightarrow>
          (case (if agent_type \<noteq> [] then get_by_agent_type registry agent_type else None) of
             Some agent \<Rightarrow> map_err (\<lambda>e. ''agent reassembly failed: '' @ e) (and_then (ta_reassemble agent chunks) (\<lambda>t. Ok (Some t)))
           | None \<Rightarrow> Ok (Some (reassemble_jsonl chunks))))"

section \<open>Chunks are whole lines\<close>

lemma map_err_simps [simp]: "map_err f (Inl e) = Inl (f e)" "map_err f (Inr a) = Inr a"
  by (simp_all add: map_err_def)

lemma map_err_Ok [simp]: "map_err f r = Inr a \<longleftrightarrow> r = Inr a"
  by (cases r) simp_all

abbreviation ended :: "string list \<Rightarrow> string" where "ended ls \<equiv> concat (map (\<lambda>l. l @ [newline]) ls)"

lemma ended_join: "ls \<noteq> [] \<Longrightarrow> ended ls = join_on [newline] ls @ [newline]"
  by (induction ls rule: list_nonempty_induct) (simp_all add: join_on_Cons)

lemma ended_empty [simp]: "ended ls = [] \<longleftrightarrow> ls = []"
  by (cases ls) simp_all

lemma drop_newline_ended: "ls \<noteq> [] \<Longrightarrow> drop_newline (ended ls) = join_on [newline] ls"
  by (simp add: drop_newline_def ended_join)

lemma reassemble_join: "reassemble_jsonl chunks = join_on [newline] chunks"
  by (induction chunks rule: reassemble_jsonl.induct) simp_all

lemma join_on_append: "xs \<noteq> [] \<Longrightarrow> ys \<noteq> [] \<Longrightarrow> join_on d (xs @ ys) = join_on d xs @ d @ join_on d ys"
  by (induction xs rule: list_nonempty_induct) (simp_all add: join_on_Cons)

lemma join_groups: "[] \<notin> set gs \<Longrightarrow> join_on d (map (join_on d) gs) = join_on d (concat gs)"
proof (induction gs)
  case (Cons g gs)
  show ?case
  proof (cases gs)
    case (Cons h hs)
    then have "concat gs \<noteq> []" "g \<noteq> []" "map (join_on d) gs \<noteq> []" using Cons.prems by auto
    then show ?thesis using Cons.IH Cons.prems by (simp add: join_on_Cons join_on_append)
  qed simp
qed simp

lemma chunk_lines_groups:
  assumes "chunk_lines max_size i rest (ended cur) chunks = Ok out" "length (ended cur) \<le> max_size"
  shows "\<exists>gs. out = chunks @ map (join_on [newline]) gs \<and> concat gs = cur @ rest \<and> [] \<notin> set gs \<and>
    list_all (\<lambda>g. length (join_on [newline] g) < max_size) gs"
  using assms
proof (induction rest arbitrary: i cur chunks)
  case Nil
  show ?case
  proof (cases "cur = []")
    case True
    then show ?thesis using Nil by (intro exI [of _ "[]"]) simp
  next
    case False
    then have "length (join_on [newline] cur) < max_size" using Nil(2) by (simp add: ended_join)
    then show ?thesis using False Nil(1) by (intro exI [of _ "[cur]"]) (simp add: drop_newline_ended)
  qed
next
  case (Cons l rest)
  have fits: "length l + 1 \<le> max_size" using Cons.prems(1) by (auto split: if_splits)
  show ?case
  proof (cases "length (ended cur) + (length l + 1) > max_size \<and> cur \<noteq> []")
    case True
    then have step: "chunk_lines max_size (i + 1) rest (ended [l]) (chunks @ [join_on [newline] cur]) = Ok out"
      using Cons.prems(1) fits by (simp add: drop_newline_ended)
    have "length (ended [l]) \<le> max_size" using fits by simp
    from Cons.IH [OF step this] obtain gs where
      gs: "out = (chunks @ [join_on [newline] cur]) @ map (join_on [newline]) gs" "concat gs = [l] @ rest" "[] \<notin> set gs"
        "list_all (\<lambda>g. length (join_on [newline] g) < max_size) gs" by blast
    have "length (join_on [newline] cur) < max_size" using True Cons.prems(2) by (simp add: ended_join)
    then show ?thesis using gs True by (intro exI [of _ "cur # gs"]) auto
  next
    case False
    then have step: "chunk_lines max_size (i + 1) rest (ended (cur @ [l])) chunks = Ok out"
      using Cons.prems(1) fits by auto
    have "length (ended (cur @ [l])) \<le> max_size" using False fits by auto
    from Cons.IH [OF step this] show ?thesis by simp
  qed
qed

lemma chunk_lines_fails:
  "(\<exists>e. chunk_lines max_size i rest current chunks = Err e) \<longleftrightarrow> (\<exists>line \<in> set rest. max_size \<le> length line)"
proof (induction rest arbitrary: i current chunks)
  case (Cons l rest)
  then show ?case by (cases "max_size \<le> length l") auto
qed simp

lemma split_groups:
  "[] \<notin> set gs \<Longrightarrow> (\<And>g l. g \<in> set gs \<Longrightarrow> l \<in> set g \<Longrightarrow> d \<notin> set l) \<Longrightarrow>
    concat (map (split_on d) (map (join_on [d]) gs)) = concat gs"
proof (induction gs)
  case (Cons g gs)
  have "split_on d (join_on [d] g) = g" using Cons.prems by (intro split_join) auto
  moreover have "concat (map (split_on d) (map (join_on [d]) gs)) = concat gs"
    by (rule Cons.IH) (use Cons.prems in auto)
  ultimately show ?case by simp
qed simp

lemma chunk_jsonl_groups:
  assumes "chunk_jsonl content max_size = Ok chunks"
  obtains gs where "chunks = map (join_on [newline]) gs" "concat gs = (if content = [] then [] else split_on newline content)"
    "[] \<notin> set gs" "list_all (\<lambda>g. length (join_on [newline] g) < max_size) gs"
proof (cases "content = []")
  case True
  then show ?thesis using assms that [of "[]"] by (simp add: chunk_jsonl_def)
next
  case False
  then have "chunk_lines max_size 0 (split_on newline content) (ended []) [] = Ok chunks"
    using assms by (simp add: chunk_jsonl_def)
  from chunk_lines_groups [OF this] show ?thesis using that False by auto
qed

lemma chunk_jsonl_lines:
  assumes "chunk_jsonl content max_size = Ok chunks"
  shows "concat (map (split_on newline) chunks) = (if content = [] then [] else split_on newline content)"
proof -
  obtain gs where gs: "chunks = map (join_on [newline]) gs" "concat gs = (if content = [] then [] else split_on newline content)"
    "[] \<notin> set gs" by (rule chunk_jsonl_groups [OF assms])
  have "newline \<notin> set l" if "g \<in> set gs" "l \<in> set g" for g l
  proof -
    have "l \<in> set (concat gs)" using that by auto
    then show ?thesis unfolding gs(2) by (auto split: if_splits dest: split_on_no_delim)
  qed
  from split_groups [OF gs(3) this] show ?thesis unfolding gs(1,2) by simp
qed

lemma chunk_jsonl_restores:
  assumes "chunk_jsonl content max_size = Ok chunks"
  shows "reassemble_jsonl chunks = content"
proof -
  obtain gs where gs: "chunks = map (join_on [newline]) gs" "concat gs = (if content = [] then [] else split_on newline content)"
    "[] \<notin> set gs" by (rule chunk_jsonl_groups [OF assms])
  from join_groups [OF gs(3), of "[newline]"] show ?thesis by (simp add: reassemble_join gs(1,2) split: if_splits)
qed

lemma chunk_jsonl_some: "content \<noteq> [] \<Longrightarrow> chunk_jsonl content max_size = Ok chunks \<Longrightarrow> chunks \<noteq> []"
  using chunk_jsonl_restores by fastforce

text \<open>C32: a transcript is cut between its lines. Putting the chunks together gives the transcript back byte for byte; every
  chunk is shorter than the limit and made of whole lines, which are those of the transcript in order; and the cut fails
  exactly for a transcript with a line that is too long for a chunk.\<close>

theorem chunks_are_whole_lines:
  "case chunk_jsonl content max_size of
     Inl _ \<Rightarrow> content \<noteq> [] \<and> list_ex (\<lambda>line. max_size \<le> length line) (split_on newline content)
   | Inr chunks \<Rightarrow> reassemble_jsonl chunks = content \<and> list_all (\<lambda>chunk. length chunk < max_size) chunks \<and>
       concat (map (split_on newline) chunks) = (if content = [] then [] else split_on newline content) \<and>
       (content = [] \<or> list_all (\<lambda>line. length line < max_size) (split_on newline content))"
proof -
  note fails = chunk_lines_fails [of max_size 0 "split_on newline content" "[]" "[]"]
  show ?thesis
  proof (cases "chunk_jsonl content max_size")
    case (Inl e)
    then show ?thesis using fails by (auto simp: chunk_jsonl_def list_ex_iff split: if_splits)
  next
    case (Inr chunks)
    obtain gs where gs: "chunks = map (join_on [newline]) gs" "list_all (\<lambda>g. length (join_on [newline] g) < max_size) gs"
      by (rule chunk_jsonl_groups [OF Inr])
    have "content = [] \<or> list_all (\<lambda>line. length line < max_size) (split_on newline content)"
      using fails Inr by (auto simp: chunk_jsonl_def list_ex_iff list_all_iff not_le split: if_splits)
    then show ?thesis using Inr gs chunk_jsonl_restores [OF Inr] chunk_jsonl_lines [OF Inr] by (simp add: list_all_iff)
  qed
qed

section \<open>Stored transcripts\<close>

subsection \<open>Names of chunks\<close>

lemma parse_chunk_file_name: "index < 2 ^ 31 \<Longrightarrow> parse_chunk_index (chunk_file_name base index) base = int index"
proof -
  have "strip_prefix (base @ ''.'') (base @ CHR ''.'' # dec_pad 3 index) = Some (dec_pad 3 index)" by simp
  then show "index < 2 ^ 31 \<Longrightarrow> ?thesis"
    by (simp add: parse_chunk_index_def chunk_file_name_def dec_pad_digits del: strip_prefix_Some)
qed

lemma chunk_names_distinct: "n \<le> 2 ^ 31 \<Longrightarrow> inj_on (chunk_file_name base) {..<n}"
  by (rule inj_on_inverseI [of _ "\<lambda>file. nat (parse_chunk_index file base)"]) (simp add: parse_chunk_file_name)

text \<open>The chunk files of a transcript sort into the order of the chunks.\<close>

lemma chunk_files_sort_back:
  assumes "mset files = mset (map (chunk_file_name base) [0..<n])" "n \<le> 2 ^ 31"
  shows "sort_chunk_files files base = map (chunk_file_name base) [0..<n]"
  unfolding sort_chunk_files_def
proof (rule sort_key_inj_key_eq [OF assms(1)])
  have files: "set files = chunk_file_name base ` {0..<n}" using arg_cong [OF assms(1), of set_mset] by simp
  have index: "parse_chunk_index (chunk_file_name base i) base = int i" if "i < n" for i
    using that assms(2) by (simp add: parse_chunk_file_name)
  show "inj_on (\<lambda>file. parse_chunk_index file base) (set files)"
    unfolding files by (rule inj_on_inverseI [of _ "\<lambda>i. chunk_file_name base (nat i)"]) (auto simp: index)
  have "map (\<lambda>file. parse_chunk_index file base) (map (chunk_file_name base) [0..<n]) = map int [0..<n]"
    using index by simp
  then show "sorted (map (\<lambda>file. parse_chunk_index file base) (map (chunk_file_name base) [0..<n]))"
    by (simp only: sorted_map) simp
qed

subsection \<open>Lossless agents\<close>

text \<open>The interface of an agent whose chunks lead back to the transcript.\<close>

locale lossless_chunking =
  fixes chunk :: "string \<Rightarrow> nat \<Rightarrow> (string, string list) result"
    and reassemble :: "string list \<Rightarrow> (string, string) result"
  assumes restores: "content \<noteq> [] \<Longrightarrow> chunk content max_size = Ok chunks \<Longrightarrow> reassemble chunks = Ok content"
    and single: "content \<noteq> [] \<Longrightarrow> chunk content max_size = Ok [piece] \<Longrightarrow> piece = content"
    and some_chunk: "content \<noteq> [] \<Longrightarrow> chunk content max_size = Ok chunks \<Longrightarrow> chunks \<noteq> []"
begin

lemma reread:
  assumes "content \<noteq> []" "chunk content max_size = Ok chunks"
  shows "(case chunks of [] \<Rightarrow> Ok None | [piece] \<Rightarrow> Ok (Some piece)
     | _ \<Rightarrow> map_err failed (and_then (reassemble chunks) (\<lambda>t. Ok (Some t)))) = Ok (Some content)"
  using assms restores [OF assms] single [OF assms(1)] some_chunk [OF assms] by (auto split: list.splits)

end

interpretation line_chunks: lossless_chunking chunk_jsonl "\<lambda>chunks. Ok (reassemble_jsonl chunks)"
proof unfold_locales
  show "chunk_jsonl content max_size = Ok [piece] \<Longrightarrow> piece = content" for content max_size piece
    using chunk_jsonl_restores by fastforce
qed (simp_all add: chunk_jsonl_restores chunk_jsonl_some)

interpretation jsonl_agent: lossless_chunking "ta_chunk (jsonl_agent name failure)" "ta_reassemble (jsonl_agent name failure)"
  by unfold_locales (auto simp: jsonl_agent_def chunk_jsonl_restores chunk_jsonl_some intro: line_chunks.single)

interpretation whole_agent: lossless_chunking "ta_chunk (whole_agent name)" "ta_reassemble (whole_agent name)"
  by unfold_locales (auto simp: whole_agent_def)

lemma builtin_agent_cases:
  assumes "get_by_agent_type (builtin_agents mc) agent_type = Some agent" "agent_type \<noteq> ''gemini''"
  obtains name where "agent = whole_agent name" | name failure where "agent = jsonl_agent name failure"
proof -
  have agents: "set (bt_values (builtin_agents mc)) =
      {claude_code_agent, copilot_agent, codex_agent, cursor_agent, gemini_agent mc, open_code_agent}"
    by (simp add: builtin_agents_def agent_registry_new_def bt_values_def claude_code_agent_def copilot_agent_def
        codex_agent_def cursor_agent_def open_code_agent_def gemini_agent_def whole_agent_def jsonl_agent_def insert_commute)
  have "agent \<in> set (bt_values (builtin_agents mc)) \<and> ta_type agent = agent_type"
    using assms(1) find_member by (fastforce simp: get_by_agent_type_def)
  then have "agent \<in> {claude_code_agent, copilot_agent, codex_agent, cursor_agent, open_code_agent}"
    using assms(2) unfolding agents by (auto simp: gemini_agent_def)
  then show ?thesis using that
    unfolding claude_code_agent_def copilot_agent_def codex_agent_def cursor_agent_def open_code_agent_def by blast
qed

lemma transcript_reread:
  assumes "chunk_transcript (builtin_agents mc) content agent_type = Ok chunks" "agent_type \<noteq> ''gemini''"
  shows "reassemble_transcript (builtin_agents mc) chunks agent_type = Ok (Some content)"
proof (cases "length content \<le> MAX_CHUNK_SIZE")
  case True
  then have "chunks = [content]" using assms(1) by (simp add: chunk_transcript_def)
  then show ?thesis by (simp add: reassemble_transcript_def)
next
  case False
  then have content: "content \<noteq> []" by auto
  let ?agent = "if agent_type \<noteq> [] then get_by_agent_type (builtin_agents mc) agent_type else None"
  show ?thesis
  proof (cases ?agent)
    case None
    then have "chunk_jsonl content MAX_CHUNK_SIZE = Ok chunks"
      using assms(1) False by (simp add: chunk_transcript_def)
    from line_chunks.reread [OF content this, of id] show ?thesis
      unfolding reassemble_transcript_def None option.case by (simp only: and_then_simps map_err_simps)
  next
    case (Some agent)
    then have chunks: "ta_chunk agent content MAX_CHUNK_SIZE = Ok chunks"
      using assms(1) False by (simp add: chunk_transcript_def)
    have found: "get_by_agent_type (builtin_agents mc) agent_type = Some agent" using Some by (simp split: if_splits)
    have "(case chunks of [] \<Rightarrow> Ok None | [piece] \<Rightarrow> Ok (Some piece)
       | _ \<Rightarrow> map_err ((@) ''agent reassembly failed: '') (and_then (ta_reassemble agent chunks) (\<lambda>t. Ok (Some t)))) = Ok (Some content)"
      using found assms(2)
    proof (cases rule: builtin_agent_cases)
      case (1 name)
      show ?thesis using chunks unfolding 1 by (rule whole_agent.reread [OF content])
    next
      case (2 name failure)
      show ?thesis using chunks unfolding 2 by (rule jsonl_agent.reread [OF content])
    qed
    then show ?thesis by (simp only: reassemble_transcript_def Some option.case)
  qed
qed

text \<open>The files of a transcript, by name.\<close>

definition stored_chunks :: "string \<Rightarrow> string list \<Rightarrow> (string \<times> string) list" where
  "stored_chunks base chunks = zip (map (chunk_file_name base) [0..<length chunks]) chunks"

lemma read_stored_chunks:
  assumes "length chunks \<le> 2 ^ 31"
  shows "map (the \<circ> map_of (stored_chunks base chunks)) (map (chunk_file_name base) [0..<length chunks]) = chunks"
proof (rule nth_equalityI)
  fix i assume i: "i < length (map (the \<circ> map_of (stored_chunks base chunks)) (map (chunk_file_name base) [0..<length chunks]))"
  have "distinct (map (chunk_file_name base) [0..<length chunks])"
    using chunk_names_distinct [OF assms, of base] by (simp add: distinct_map lessThan_atLeast0)
  then have "map_of (stored_chunks base chunks) (map (chunk_file_name base) [0..<length chunks] ! i) = Some (chunks ! i)"
    unfolding stored_chunks_def by (rule map_of_zip_nth [rotated]) (use i in simp_all)
  then show "map (the \<circ> map_of (stored_chunks base chunks)) (map (chunk_file_name base) [0..<length chunks]) ! i = chunks ! i"
    using i by simp
qed simp

text \<open>C33: a stored transcript is read back. Whatever the built-in agent (Gemini apart), cutting a transcript, storing the
  chunks under their names, listing the files in any order, sorting them and putting their contents together gives the
  transcript back byte for byte.\<close>

theorem stored_transcript_is_restored:
  assumes "chunk_transcript (builtin_agents mc) content agent_type = Ok chunks" "agent_type \<noteq> ''gemini''"
    and "length chunks \<le> 2 ^ 31" "mset files = mset (map fst (stored_chunks base chunks))"
  shows "reassemble_transcript (builtin_agents mc)
    (map (the \<circ> map_of (stored_chunks base chunks)) (sort_chunk_files files base)) agent_type = Ok (Some content)"
proof -
  have "map fst (stored_chunks base chunks) = map (chunk_file_name base) [0..<length chunks]"
    by (simp add: stored_chunks_def)
  with assms(4) have "sort_chunk_files files base = map (chunk_file_name base) [0..<length chunks]"
    using chunk_files_sort_back [OF _ assms(3)] by simp
  then show ?thesis by (simp only: read_stored_chunks [OF assms(3)] transcript_reread [OF assms(1,2)])
qed

section \<open>Gemini transcripts\<close>

lemma chunk_messages_documents:
  assumes reads: "\<And>ms data. mc_write mc ms = Ok data \<Longrightarrow> mc_read mc data = Ok ms"
    and "chunk_messages mc max_size rest current bytes chunks = Ok out" "list_all (\<lambda>m. mc_message mc m \<noteq> None) rest"
    and "list_all2 (\<lambda>d chunk. mc_write mc d = Ok chunk) docs chunks"
  shows "\<exists>parts. map_result (mc_read mc) out = Ok (docs @ parts) \<and> concat parts = current @ rest"
  using assms(2-)
proof (induction rest arbitrary: current bytes chunks docs)
  case Nil
  have read: "map_result (mc_read mc) cs = Ok ds" if "list_all2 (\<lambda>d chunk. mc_write mc d = Ok chunk) ds cs" for ds cs
    using that by (induction rule: list_all2_induct) (simp_all add: reads)
  show ?case
  proof (cases "current = []")
    case True
    then show ?thesis using Nil.prems(1) read [OF Nil.prems(3)] by (intro exI [of _ "[]"]) (auto split: if_splits)
  next
    case False
    then obtain data where data: "mc_write mc current = Ok data" "out = chunks @ [data]" using Nil.prems(1) by auto
    have "map_result (mc_read mc) out = Ok (docs @ [current])"
      unfolding data(2) by (rule read) (use Nil.prems(3) data(1) in \<open>auto intro: list_all2_appendI\<close>)
    then show ?thesis by (intro exI [of _ "[current]"]) simp
  qed
next
  case (Cons m rest)
  then obtain body where body: "mc_message mc m = Some body" by auto
  show ?case
  proof (cases "bytes + (length body + 1) > max_size \<and> current \<noteq> []")
    case True
    then obtain data where data: "mc_write mc current = Ok data"
      and step: "chunk_messages mc max_size rest [m] (empty_document_size + (length body + 1)) (chunks @ [data]) = Ok out"
      using Cons.prems(1) body by (auto simp: Let_def)
    have "list_all2 (\<lambda>d chunk. mc_write mc d = Ok chunk) (docs @ [current]) (chunks @ [data])"
      using Cons.prems(3) data by (auto intro: list_all2_appendI)
    then obtain parts where "map_result (mc_read mc) out = Ok ((docs @ [current]) @ parts)" "concat parts = [m] @ rest"
      using Cons.IH [OF step] Cons.prems(2) by force
    then show ?thesis by (intro exI [of _ "current # parts"]) simp
  next
    case False
    then have step: "chunk_messages mc max_size rest (current @ [m]) (bytes + (length body + 1)) chunks = Ok out"
      using Cons.prems(1) body by (auto simp: Let_def)
    show ?thesis using Cons.IH [OF step _ Cons.prems(3)] Cons.prems(2) by simp
  qed
qed

text \<open>The Gemini agent restores the messages of a document, and writes no more than those: what else the document has at
  its top is not kept.\<close>

lemma gemini_restores_messages:
  assumes "\<And>ms data. mc_write mc ms = Ok data \<Longrightarrow> mc_read mc data = Ok ms"
    and "mc_read mc content = Ok messages" "messages \<noteq> []" "list_all (\<lambda>m. mc_message mc m \<noteq> None) messages"
    and "gemini_chunk mc content max_size = Ok chunks" "mc_write mc messages = Ok data"
  shows "gemini_reassemble mc chunks = Ok data"
proof -
  have "chunk_messages mc max_size messages [] empty_document_size [] = Ok chunks"
    using assms(2,3,5) by (simp add: gemini_chunk_def)
  from chunk_messages_documents [OF assms(1) this assms(4), of "[]"]
  obtain parts where parts: "map_result (mc_read mc) chunks = Ok parts" "concat parts = messages" by auto
  have "map_result (\<lambda>chunk. map_err ((@) ''failed to unmarshal chunk: '') (mc_read mc chunk)) chunks = Ok parts"
    using parts(1) by (induction chunks arbitrary: parts) auto
  then show ?thesis
    by (simp only: gemini_reassemble_def and_then_simps parts(2) assms(6) map_err_simps)
qed

text \<open>A transcript of the Gemini agent that is no document, as its lines of JSON are none, is cut between its lines; the
  agent then cannot read a chunk of several lines either.\<close>

lemma gemini_lines_are_not_restored:
  assumes "mc_read mc content = Err e" "gemini_chunk mc content max_size = Ok chunks"
    and "piece \<in> set chunks" "mc_read mc piece = Err e'"
  shows "reassemble_jsonl chunks = content \<and> (\<exists>failure. gemini_reassemble mc chunks = Err failure)"
proof -
  have lines: "chunk_jsonl content max_size = Ok chunks" using assms(1,2) by (simp add: gemini_chunk_def)
  have "\<exists>failure. map_result (\<lambda>chunk. map_err ((@) ''failed to unmarshal chunk: '') (mc_read mc chunk)) chunks = Err failure"
    using assms(3)
  proof (induction chunks)
    case (Cons c chunks)
    then show ?case using assms(4) by (cases "mc_read mc c") (auto simp: and_then_def split: sum.splits)
  qed simp
  then have "\<exists>failure. gemini_reassemble mc chunks = Err failure"
    unfolding gemini_reassemble_def by (metis and_then_simps(1))
  then show ?thesis using chunk_jsonl_restores [OF lines] by blast
qed

text \<open>A transcript of Claude Code is one chunk, however long it is.\<close>

lemma claude_transcripts_are_not_cut: "chunk_transcript (builtin_agents mc) content ''claude-code'' = Ok [content]"
proof -
  have "get_by_agent_type (builtin_agents mc) ''claude-code'' = Some claude_code_agent"
    by (simp add: get_by_agent_type_def builtin_agents_def agent_registry_new_def bt_values_def claude_code_agent_def
        copilot_agent_def codex_agent_def cursor_agent_def open_code_agent_def gemini_agent_def whole_agent_def jsonl_agent_def)
  then show ?thesis by (simp add: chunk_transcript_def claude_code_agent_def whole_agent_def)
qed

section \<open>A transcript of two long lines\<close>

definition long_transcript :: "nat \<Rightarrow> string" where
  "long_transcript k = replicate k CHR ''a'' @ newline # replicate k CHR ''b''"

definition no_documents :: "unit message_codec" where
  "no_documents = \<lparr>mc_read = \<lambda>_. Err ''no document'', mc_write = \<lambda>_. Ok [], mc_message = \<lambda>_. None\<rparr>"

lemma long_transcript_chunks:
  assumes "k < MAX_CHUNK_SIZE" "MAX_CHUNK_SIZE \<le> 2 * k"
  shows "chunk_transcript (builtin_agents mc) (long_transcript k) ''codex'' = Ok [replicate k CHR ''a'', replicate k CHR ''b'']"
proof -
  have "get_by_agent_type (builtin_agents mc) ''codex'' = Some codex_agent"
    by (simp add: get_by_agent_type_def builtin_agents_def agent_registry_new_def bt_values_def claude_code_agent_def
        copilot_agent_def codex_agent_def cursor_agent_def open_code_agent_def gemini_agent_def whole_agent_def jsonl_agent_def)
  moreover have "split_on newline (long_transcript k) = [replicate k CHR ''a'', replicate k CHR ''b'']"
    unfolding long_transcript_def by (subst split_on_append_delim) (simp_all add: split_on_single newline_def)
  ultimately show ?thesis using assms
    by (simp add: chunk_transcript_def codex_agent_def jsonl_agent_def chunk_jsonl_def long_transcript_def drop_newline_def)
qed

theorem stored_transcript_is_restored_witness:
  "reassemble_transcript (builtin_agents no_documents)
    (map (the \<circ> map_of (stored_chunks ''t'' [replicate 30000000 CHR ''a'', replicate 30000000 CHR ''b'']))
      (sort_chunk_files [''t.001'', ''t''] ''t'')) ''codex'' = Ok (Some (long_transcript 30000000))"
proof (rule stored_transcript_is_restored)
  show "chunk_transcript (builtin_agents no_documents) (long_transcript 30000000) ''codex'' =
      Ok [replicate 30000000 CHR ''a'', replicate 30000000 CHR ''b'']"
    by (rule long_transcript_chunks) (simp_all add: MAX_CHUNK_SIZE_def)
  have "dec_pad 3 1 = ''001''" by code_simp
  then show "mset [''t.001'', ''t''] = mset (map fst (stored_chunks ''t'' [replicate 30000000 CHR ''a'', replicate 30000000 CHR ''b'']))"
    by (simp add: stored_chunks_def chunk_file_name_def)
qed simp_all

end
