(* ===== verification/FileRules.thy ===== *)
theory FileRules
  imports
    TaskQueue
    LanguagePacks
    SyncManifest
begin

text \<open>
  The rules about paths a file is classified by, \<open>host/devql/classification\<close>: directories and file names
  (path_rules.rs), the roles of text and tracked files (types.rs) and the patterns of a policy (patterns.rs). A pattern is
  compiled to the pieces of the regular expression the code writes; what such a piece matches is the documented meaning of
  the expression in the regex library (a dot is any character but a line feed).
\<close>

section \<open>Paths (db_utils.rs, path_rules.rs)\<close>

definition host_normalize_repo_path :: "string \<Rightarrow> string" where
  "host_normalize_repo_path path =
     dropWhile (\<lambda>c. c = CHR ''/'') (strip_dot_slash (replace_backslash (trim path)))"

definition normalise_candidate_paths :: "string list \<Rightarrow> string list" where
  "normalise_candidate_paths paths = sort_dedup (filter (\<lambda>p. p \<noteq> []) (map host_normalize_repo_path paths))"

definition join_dir_file :: "string \<Rightarrow> string \<Rightarrow> string" where
  "join_dir_file dir name = (if dir = [] then name else dir @ ''/'' @ name)"

text \<open>\<open>Path::parent\<close> as text: without the last component and the separators and dots around it, a leading dot being a
  component. The empty path has no parent.\<close>

definition drop_blank_tail :: "string list \<Rightarrow> string list" where
  "drop_blank_tail segments =
     (case segments of
        [] \<Rightarrow> []
      | first # rest \<Rightarrow>
          (let kept = rev (dropWhile (\<lambda>s. s = [] \<or> s = ''.'') (rev rest))
           in if kept = [] \<and> first = [] then [] else first # kept))"

definition path_parent :: "string \<Rightarrow> string" where
  "path_parent path = join_on ''/'' (drop_blank_tail (butlast (drop_blank_tail (split_on CHR ''/'' path))))"

definition parent_dir :: "string \<Rightarrow> string" where
  "parent_dir path = host_normalize_repo_path (path_parent path)"

definition relative_to_root :: "string \<Rightarrow> string \<Rightarrow> string option" where
  "relative_to_root path root_rel =
     (let path = host_normalize_repo_path path in
      if root_rel = [] then Some path
      else if path = root_rel then Some []
      else strip_prefix (root_rel @ ''/'') path)"

definition lower_extension :: "string \<Rightarrow> string option" where
  "lower_extension path = map_option to_ascii_lowercase (path_extension path)"

definition file_name_or_empty :: "string \<Rightarrow> string" where
  "file_name_or_empty path = unwrap_or (file_name path) []"

definition path_depth :: "string \<Rightarrow> nat" where
  "path_depth path = length (filter (\<lambda>segment. segment \<noteq> []) (split_on CHR ''/'' path))"

definition display_root :: "string \<Rightarrow> string" where
  "display_root root_rel = (if root_rel = [] then ''.'' else root_rel)"

definition normalize_lexical_path :: "string \<Rightarrow> string list" where
  "normalize_lexical_path path = foldl (\<lambda>out component. if component = ''..'' then butlast out else out @ [component]) []
     (filter (\<lambda>component. component \<noteq> [] \<and> component \<noteq> ''.'') (split_on CHR ''/'' path))"

definition pathbuf_to_repo_relative :: "string \<Rightarrow> string" where
  "pathbuf_to_repo_relative path =
     dropWhile (\<lambda>c. c = CHR ''/'') (strip_dot_slash (replace_backslash (join_on ''/'' (normalize_lexical_path path))))"

subsection \<open>Every directory above a path\<close>

lemma strip_dot_slash_length: "length (strip_dot_slash s) \<le> length s"
  by (induction s rule: strip_dot_slash.induct) auto

lemma length_trim: "length (trim s) \<le> length s"
proof -
  have "length (trim_end s) \<le> length s" for s unfolding trim_end_def by (metis length_dropWhile_le length_rev)
  then show ?thesis unfolding trim_def trim_start_def by (meson length_dropWhile_le order_trans)
qed

lemma host_normalize_length: "length (host_normalize_repo_path s) \<le> length s"
proof -
  have "length (host_normalize_repo_path s) \<le> length (strip_dot_slash (replace_backslash (trim s)))"
    unfolding host_normalize_repo_path_def by (rule length_dropWhile_le)
  also have "\<dots> \<le> length (replace_backslash (trim s))" by (rule strip_dot_slash_length)
  also have "\<dots> \<le> length s" using length_trim by (simp add: replace_backslash_def)
  finally show ?thesis .
qed

lemma join_prefix: "prefix xs ys \<Longrightarrow> length (join_on d xs) \<le> length (join_on d ys)"
proof (induction xs arbitrary: ys)
  case (Cons x xs)
  then obtain zs where ys: "ys = x # zs" "prefix xs zs" by (cases ys) auto
  show ?case
  proof (cases "xs = []")
    case True
    then show ?thesis using ys by (cases zs) simp_all
  next
    case False
    then have "zs \<noteq> []" using ys(2) by auto
    then show ?thesis using Cons.IH [OF ys(2)] False ys(1) by (simp add: join_on_Cons)
  qed
qed simp

lemma prefix_rev_dropWhile: "prefix (rev (dropWhile P (rev xs))) xs"
  by (metis rev_rev_ident suffix_dropWhile suffix_to_prefix)

lemma drop_blank_tail_prefix: "prefix (drop_blank_tail xs) xs"
  by (cases xs) (auto simp: drop_blank_tail_def Let_def prefix_rev_dropWhile)

lemma butlast_join: "xs \<noteq> [] \<Longrightarrow> last xs \<noteq> [] \<Longrightarrow> length (join_on d (butlast xs)) < length (join_on d xs)"
proof (induction xs rule: list_nonempty_induct)
  case (cons x xs)
  show ?case
  proof (cases "butlast xs = []")
    case True
    then obtain y where "xs = [y]" using cons.hyps by (cases xs) (auto split: if_splits)
    then show ?thesis using cons.prems by simp
  next
    case False
    then show ?thesis using cons by (simp add: join_on_Cons)
  qed
qed simp

lemma last_kept: "rev (dropWhile P (rev xs)) \<noteq> [] \<Longrightarrow> \<not> P (last (rev (dropWhile P (rev xs))))"
  using hd_dropWhile [of P "rev xs"] by (simp add: last_rev)

lemma drop_blank_tail_last:
  assumes "drop_blank_tail xs \<noteq> []"
  shows "last (drop_blank_tail xs) \<noteq> []"
proof (cases xs)
  case (Cons x rest)
  let ?blank = "\<lambda>s. s = [] \<or> s = ''.''"
  define kept where "kept = rev (dropWhile ?blank (rev rest))"
  have xs: "drop_blank_tail xs = (if kept = [] \<and> x = [] then [] else x # kept)"
    by (simp only: Cons drop_blank_tail_def list.case Let_def kept_def)
  have "last kept \<noteq> []" if "kept \<noteq> []" using last_kept [of ?blank rest] that unfolding kept_def by blast
  then show ?thesis using assms unfolding xs by (auto split: if_splits)
qed (use assms in \<open>simp add: drop_blank_tail_def\<close>)

lemma path_parent_shorter: "path \<noteq> [] \<Longrightarrow> length (path_parent path) < length path"
proof -
  assume path: "path \<noteq> []"
  let ?d = "drop_blank_tail (split_on CHR ''/'' path)"
  have outer: "length (path_parent path) \<le> length (join_on ''/'' (butlast ?d))"
    unfolding path_parent_def by (rule join_prefix [OF drop_blank_tail_prefix])
  have whole: "length (join_on ''/'' ?d) \<le> length path"
    using join_prefix [OF drop_blank_tail_prefix, of "''/''" "split_on CHR ''/'' path"] by simp
  show ?thesis
  proof (cases "?d = []")
    case True
    then have "length (path_parent path) = 0" by (simp add: path_parent_def drop_blank_tail_def)
    then show ?thesis using path by simp
  next
    case False
    then show ?thesis using outer whole butlast_join [OF False drop_blank_tail_last [OF False], of "''/''"] by simp
  qed
qed

lemma parent_dir_shorter: "path \<noteq> [] \<Longrightarrow> length (parent_dir path) < length path"
  unfolding parent_dir_def using host_normalize_length path_parent_shorter le_less_trans by blast

text \<open>The loop of \<open>ancestor_dirs\<close> from a directory on: it ends because a parent is shorter.\<close>

function dirs_above :: "string \<Rightarrow> string list" where
  "dirs_above dir = dir # (if dir = [] then [] else dirs_above (parent_dir dir))"
  by auto
termination by (relation "measure length") (simp_all add: parent_dir_shorter)

declare dirs_above.simps [simp del]

definition ancestor_dirs :: "string \<Rightarrow> string list" where
  "ancestor_dirs path = dirs_above (parent_dir path)"

section \<open>Kinds of files (path_rules.rs)\<close>

definition is_tsconfig_file :: "string \<Rightarrow> bool" where
  "is_tsconfig_file entry \<longleftrightarrow> entry = ''tsconfig.json'' \<or> (starts_with ''tsconfig.'' entry \<and> ends_with ''.json'' entry)"

definition is_jsconfig_file :: "string \<Rightarrow> bool" where
  "is_jsconfig_file entry \<longleftrightarrow> entry = ''jsconfig.json'' \<or> (starts_with ''jsconfig.'' entry \<and> ends_with ''.json'' entry)"

definition is_requirements_file :: "string \<Rightarrow> bool" where
  "is_requirements_file entry \<longleftrightarrow> entry = ''requirements.txt'' \<or> (starts_with ''requirements'' entry \<and> ends_with ''.txt'' entry)"

definition is_lockfile_name :: "string \<Rightarrow> bool" where
  "is_lockfile_name name \<longleftrightarrow> name \<in> set [''Cargo.lock'', ''package-lock.json'', ''pnpm-lock.yaml'', ''yarn.lock'', ''poetry.lock'',
     ''Pipfile.lock''] \<or> ends_with ''.lock'' name"

definition manifest_names :: "string list" where
  "manifest_names = [''Cargo.toml'', ''package.json'', ''pyproject.toml'', ''setup.py'', ''setup.cfg'', ''Pipfile'', ''go.mod'', ''pom.xml'']"

definition is_auto_text_path :: "string \<Rightarrow> bool" where
  "is_auto_text_path path =
     (let path = host_normalize_repo_path path;
          name = file_name_or_empty path;
          name_lower = to_ascii_lowercase name
      in if starts_with ''README'' name \<or> starts_with ''CHANGELOG'' name \<or> starts_with ''LICENSE'' name
           \<or> starts_with ''.env'' name_lower
         then \<not> is_lockfile_name name
         else if name \<in> set manifest_names then True
         else if is_tsconfig_file name \<or> is_jsconfig_file name \<or> is_requirements_file name then True
         else if starts_with ''build.gradle'' name then True
         else if is_lockfile_name name then False
         else (case lower_extension path of
             None \<Rightarrow> False
           | Some e \<Rightarrow> e \<in> set [''md'', ''mdx'', ''txt'', ''rst'', ''adoc'', ''toml'', ''yaml'', ''yml'', ''json'', ''jsonc'', ''ini'',
               ''cfg'', ''conf'']))"

definition auto_ignored_dirs_for_kind :: "string \<Rightarrow> string list" where
  "auto_ignored_dirs_for_kind k =
     (if k = ''rust'' then [''target'']
      else if k = ''node'' \<or> k = ''typescript'' then [''node_modules'', ''.next'', ''dist'', ''build'', ''coverage'']
      else if k = ''python'' then [''.venv'', ''venv'', ''__pycache__'', ''.pytest_cache'', ''.mypy_cache'']
      else if k = ''go'' then [''vendor'', ''bin'']
      else if k = ''java'' then [''target'', ''build'', ''.gradle'']
      else [])"

section \<open>Roles (types.rs)\<close>

definition for_auto_ignored_path :: "string \<Rightarrow> file_role" where
  "for_auto_ignored_path path =
     (let path = host_normalize_repo_path path in
      if contains_str ''/node_modules/'' path \<or> starts_with ''node_modules/'' path \<or> contains_str ''/vendor/'' path
        \<or> starts_with ''vendor/'' path
      then DependencyTree else Generated)"

definition for_text_path :: "string \<Rightarrow> file_role" where
  "for_text_path path =
     (let name = file_name_or_empty path in
      if starts_with ''README'' name \<or> starts_with ''CHANGELOG'' name \<or> starts_with ''LICENSE'' name
        \<or> lower_extension path \<in> Some ` set [''md'', ''mdx'', ''txt'', ''rst'', ''adoc'']
      then Documentation
      else if name \<in> set manifest_names then ProjectManifest
      else if is_tsconfig_file name \<or> is_jsconfig_file name \<or> starts_with ''build.gradle'' name then ContextSeed
      else Configuration)"

definition for_track_only_path :: "string \<Rightarrow> string \<Rightarrow> file_role" where
  "for_track_only_path path reason =
     (if is_lockfile_name (file_name_or_empty path) then Lockfile
      else if reason = ''auto_ignored'' then for_auto_ignored_path path
      else if reason = ''contextless_code_like'' then SourceCode
      else OtherRole)"

fun text_index_mode_for_role :: "file_role \<Rightarrow> text_index_mode" where
  "text_index_mode_for_role Documentation = EmbedText"
| "text_index_mode_for_role ProjectManifest = StoreOnlyText"
| "text_index_mode_for_role ContextSeed = StoreOnlyText"
| "text_index_mode_for_role Configuration = StoreOnlyText"
| "text_index_mode_for_role _ = NoText"

section \<open>Patterns (patterns.rs)\<close>

text \<open>The pieces a regular expression is written with: an escaped character, \<open>[^/]\<close>, \<open>[^/]*\<close>, \<open>.*\<close>, \<open>(?:.*/)?\<close> and
  \<open>(?:/.*)?\<close>.\<close>

datatype piece = Literal char | SegmentChar | SegmentChars | AnyChars | DirPrefix | Below

type_synonym path_matcher = "piece list list"

definition strip_slashes :: "string \<Rightarrow> string" where
  "strip_slashes s = dropWhile (\<lambda>c. c = CHR ''/'') (strip_dot_slash s)"

definition normalize_pattern :: "string \<Rightarrow> string" where
  "normalize_pattern pattern =
     (let slashed = replace_backslash (trim pattern);
          anchored = starts_with ''./'' slashed \<or> starts_with ''/'' slashed;
          bare = strip_slashes slashed;
          below = (if ends_with ''/'' bare then bare @ ''**'' else bare)
      in if anchored \<and> below \<noteq> [] then CHR ''/'' # below else below)"

definition normalize_relative_path :: "string \<Rightarrow> string" where
  "normalize_relative_path path = join_on ''/''
     (foldl (\<lambda>segments segment. if segment = [] \<or> segment = ''.'' then segments
        else if segment = ''..'' then butlast segments else segments @ [segment]) []
      (split_on CHR ''/'' (strip_slashes (replace_backslash (trim path)))))"

definition split_root_anchor :: "string \<Rightarrow> bool \<times> string" where
  "split_root_anchor pattern = (case strip_prefix ''/'' pattern of Some stripped \<Rightarrow> (True, stripped) | None \<Rightarrow> (False, pattern))"

definition is_literal_pattern :: "string \<Rightarrow> bool" where
  "is_literal_pattern pattern \<longleftrightarrow> CHR ''*'' \<notin> set pattern \<and> CHR ''?'' \<notin> set pattern"

definition is_basename_pattern :: "string \<Rightarrow> bool" where
  "is_basename_pattern pattern \<longleftrightarrow> CHR ''/'' \<notin> set pattern"

definition is_single_dir_descendant_pattern :: "string \<Rightarrow> bool" where
  "is_single_dir_descendant_pattern pattern \<longleftrightarrow> ends_with ''/**'' pattern \<and> CHR ''/'' \<notin> set (take (length pattern - 3) pattern)"

definition should_match_folder_descendants :: "string \<Rightarrow> bool" where
  "should_match_folder_descendants pattern \<longleftrightarrow> \<not> ends_with ''/**'' pattern \<and>
     (let segment = last (split_on CHR ''/'' pattern)
      in segment \<noteq> [] \<and> CHR ''*'' \<notin> set segment \<and> CHR ''?'' \<notin> set segment)"

lemma dropWhile_Cons_length: "dropWhile P r = c # rest \<Longrightarrow> length rest \<le> Suc (length r)"
  using length_dropWhile_le [of P r] by simp

function compile_chars :: "string \<Rightarrow> piece list" where
  "compile_chars [] = []"
| "compile_chars (c # cs) =
     (if c = CHR ''*'' then
        (if starts_with ''*'' cs then
           (let rest = dropWhile (\<lambda>c. c = CHR ''*'') cs in
            if starts_with ''/'' rest then DirPrefix # compile_chars (tl rest) else AnyChars # compile_chars rest)
         else SegmentChars # compile_chars cs)
      else if c = CHR ''?'' then SegmentChar # compile_chars cs
      else Literal c # compile_chars cs)"
  by pat_completeness auto
termination
  by (relation "measure length") (auto simp: less_Suc_eq_le length_dropWhile_le dropWhile_Cons_length)

definition compile_pattern :: "string \<Rightarrow> piece list" where
  "compile_pattern pattern =
     (case split_root_anchor pattern of (anchored, pattern) \<Rightarrow>
      if pattern = [] then []
      else if is_literal_pattern pattern then
        (if \<not> anchored \<and> is_basename_pattern pattern then [DirPrefix] else []) @ map Literal pattern @ [Below]
      else
        (if \<not> anchored \<and> (is_basename_pattern pattern \<or> is_single_dir_descendant_pattern pattern) then [DirPrefix] else [])
          @ compile_chars pattern @ (if should_match_folder_descendants pattern then [Below] else []))"

definition path_matcher_new :: "string list \<Rightarrow> path_matcher" where
  "path_matcher_new patterns = map compile_pattern (filter (\<lambda>p. p \<noteq> []) (map normalize_pattern patterns))"

text \<open>The whole text, from \<open>^\<close> to \<open>$\<close>, with every way to divide it tried.\<close>

definition line_feed :: char where "line_feed = CHR 0x0A"

fun piece_weight :: "piece \<Rightarrow> nat" where
  "piece_weight DirPrefix = 3"
| "piece_weight Below = 3"
| "piece_weight _ = 1"

function match_pieces :: "piece list \<Rightarrow> string \<Rightarrow> bool" where
  "match_pieces [] s \<longleftrightarrow> s = []"
| "match_pieces (Literal c # ps) s \<longleftrightarrow> (case s of [] \<Rightarrow> False | d # t \<Rightarrow> d = c \<and> match_pieces ps t)"
| "match_pieces (SegmentChar # ps) s \<longleftrightarrow> (case s of [] \<Rightarrow> False | d # t \<Rightarrow> d \<noteq> CHR ''/'' \<and> match_pieces ps t)"
| "match_pieces (SegmentChars # ps) s \<longleftrightarrow> match_pieces ps s
     \<or> (case s of [] \<Rightarrow> False | d # t \<Rightarrow> d \<noteq> CHR ''/'' \<and> match_pieces (SegmentChars # ps) t)"
| "match_pieces (AnyChars # ps) s \<longleftrightarrow> match_pieces ps s
     \<or> (case s of [] \<Rightarrow> False | d # t \<Rightarrow> d \<noteq> line_feed \<and> match_pieces (AnyChars # ps) t)"
| "match_pieces (DirPrefix # ps) s \<longleftrightarrow> match_pieces ps s \<or> match_pieces (AnyChars # Literal CHR ''/'' # ps) s"
| "match_pieces (Below # ps) s \<longleftrightarrow> match_pieces ps s \<or> match_pieces (Literal CHR ''/'' # AnyChars # ps) s"
  by pat_completeness auto
termination
  by (relation "measures [\<lambda>(ps, s). sum_list (map piece_weight ps), \<lambda>(ps, s). length s]") auto

definition is_match :: "path_matcher \<Rightarrow> string \<Rightarrow> bool" where
  "is_match matcher path = (let path = normalize_relative_path path
     in path \<noteq> [] \<and> list_ex (\<lambda>pieces. match_pieces pieces path) matcher)"

section \<open>Exclusions (exclusions.rs)\<close>

text \<open>The patterns a policy excludes are read by a second copy of the rules.\<close>

definition is_single_dir_exclusion :: "string \<Rightarrow> bool" where
  "is_single_dir_exclusion pattern =
     (case strip_suffix ''/**'' pattern of None \<Rightarrow> False | Some base \<Rightarrow> CHR ''/'' \<notin> set base)"

definition compile_exclusion_pattern :: "string \<Rightarrow> piece list" where
  "compile_exclusion_pattern pattern =
     (case split_root_anchor pattern of (anchored, pattern) \<Rightarrow>
      if pattern = [] then []
      else if is_literal_pattern pattern then
        (if \<not> anchored \<and> is_basename_pattern pattern then [DirPrefix] else []) @ map Literal pattern @ [Below]
      else
        (if \<not> anchored \<and> (is_basename_pattern pattern \<or> is_single_dir_exclusion pattern) then [DirPrefix] else [])
          @ compile_chars pattern @ (if should_match_folder_descendants pattern then [Below] else []))"

definition exclusion_patterns :: "string list \<Rightarrow> string list" where
  "exclusion_patterns patterns = sort_dedup (filter (\<lambda>p. p \<noteq> []) (map normalize_pattern patterns))"

definition exclusion_matcher_new :: "string list \<Rightarrow> path_matcher" where
  "exclusion_matcher_new patterns = map compile_exclusion_pattern (exclusion_patterns patterns)"

definition excludes_repo_relative_path :: "path_matcher \<Rightarrow> string \<Rightarrow> bool" where
  "excludes_repo_relative_path matcher path =
     (if matcher = [] then False
      else (let path = normalize_relative_path path in
        if path = [] then False else list_ex (\<lambda>pieces. match_pieces pieces path) matcher))"

end
