(* ===== verification/FileContexts.thy ===== *)
theory FileContexts
  imports
    FileRules
begin

text \<open>
  The project contexts a file can belong to, \<open>host/devql/classification/context.rs\<close>: those found by the manifests next to
  the candidate files and those a policy declares. Arguments are what reads the repository (repo_view.rs), the readers of
  version numbers out of manifests, the JSON reader, the fingerprint of a JSON value, the resolution of a policy path, and
  the language packs with their semantic versions.
\<close>

section \<open>JSON values (serde_json)\<close>

datatype json = JsonNull | JsonBool bool | JsonNumber string | JsonString string | JsonArray "json list"
  | JsonObject "(string \<times> json) list"

fun json_field :: "string \<Rightarrow> json \<Rightarrow> json option" where
  "json_field key (JsonObject entries) = map_of entries key"
| "json_field key _ = None"

fun json_str :: "json \<Rightarrow> string option" where
  "json_str (JsonString s) = Some s"
| "json_str _ = None"

fun json_array :: "json \<Rightarrow> json list option" where
  "json_array (JsonArray items) = Some items"
| "json_array _ = None"

definition json_opt :: "string option \<Rightarrow> json" where
  "json_opt value = (case value of None \<Rightarrow> JsonNull | Some s \<Rightarrow> JsonString s)"

definition json_strings :: "string list \<Rightarrow> json" where
  "json_strings items = JsonArray (map JsonString items)"

text \<open>The strings of an array, trimmed, without the blank ones.\<close>

definition trimmed_strings :: "json list \<Rightarrow> string list" where
  "trimmed_strings items = filter (\<lambda>s. s \<noteq> []) (map trim (List.map_filter json_str items))"

definition parse_scope_string_list :: "json \<Rightarrow> string \<Rightarrow> (string, string list) result" where
  "parse_scope_string_list scope key =
     (case json_field key scope of
        None \<Rightarrow> Ok []
      | Some raw \<Rightarrow>
          (case json_array raw of
             None \<Rightarrow> Err (''`scope.'' @ key @ ''` must be an array of strings'')
           | Some items \<Rightarrow> Ok (trimmed_strings items)))"

definition required_string :: "json \<Rightarrow> string \<Rightarrow> (string, string) result" where
  "required_string entry key =
     (case Option.bind (json_field key entry) json_str of
        Some s \<Rightarrow> if trim s = [] then Err (''`contexts.'' @ key @ ''` must be a non-empty string'') else Ok (trim s)
      | None \<Rightarrow> Err (''`contexts.'' @ key @ ''` must be a non-empty string''))"

definition optional_string :: "json \<Rightarrow> string \<Rightarrow> string option" where
  "optional_string entry key =
     (case Option.bind (json_field key entry) json_str of
        Some s \<Rightarrow> if trim s = [] then None else Some (trim s)
      | None \<Rightarrow> None)"

definition optional_string_list :: "json \<Rightarrow> string \<Rightarrow> (string, string list) result" where
  "optional_string_list entry key =
     (case json_field key entry of
        None \<Rightarrow> Ok []
      | Some raw \<Rightarrow>
          (case json_array raw of
             None \<Rightarrow> Err (''`contexts.'' @ key @ ''` must be an array of strings'')
           | Some items \<Rightarrow> Ok (trimmed_strings items)))"

section \<open>The scope of automatic contexts\<close>

record auto_scope_policy =
  as_root_rel :: "string option"
  as_include :: "path_matcher option"

definition matcher_of :: "string list \<Rightarrow> path_matcher option" where
  "matcher_of patterns = (if patterns = [] then None else Some (path_matcher_new patterns))"

text \<open>\<open>resolve\<close> gives the path of a policy value below the repository, or says that it lies outside.\<close>

definition from_scope :: "(string \<Rightarrow> (string, string) result) \<Rightarrow> json \<Rightarrow> (string, auto_scope_policy) result" where
  "from_scope resolve scope =
     and_then (parse_scope_string_list scope ''include'') (\<lambda>include_patterns.
     and_then (optional (\<lambda>value. and_then (resolve value) (\<lambda>path. Ok (pathbuf_to_repo_relative path)))
       (optional_string scope ''project_root'')) (\<lambda>root_rel.
     Ok \<lparr>as_root_rel = root_rel, as_include = matcher_of include_patterns\<rparr>))"

definition relative_to_auto_root :: "auto_scope_policy \<Rightarrow> string \<Rightarrow> string option" where
  "relative_to_auto_root scope path =
     (case as_root_rel scope of
        None \<Rightarrow> Some (host_normalize_repo_path path)
      | Some root_rel \<Rightarrow> relative_to_root path root_rel)"

definition allows_path :: "auto_scope_policy \<Rightarrow> string \<Rightarrow> bool" where
  "allows_path scope path =
     (case relative_to_auto_root scope path of
        None \<Rightarrow> False
      | Some relative \<Rightarrow> (case as_include scope of None \<Rightarrow> True | Some matcher \<Rightarrow> is_match matcher relative))"

definition allows_context_root :: "auto_scope_policy \<Rightarrow> string \<Rightarrow> bool" where
  "allows_context_root scope path \<longleftrightarrow> relative_to_auto_root scope path \<noteq> None"

section \<open>Contexts\<close>

record project_context =
  pc_context_id :: string
  pc_root :: string
  pc_kind :: string
  pc_detection_source :: string
  pc_config_files :: "string list"
  pc_config_fingerprint :: string
  pc_base_languages :: "string list"
  pc_frameworks :: "string list"
  pc_runtime_profile :: "string option"
  pc_source_versions :: "(string, string) btree"

record resolved_context =
  rc_context :: project_context
  rc_root_rel :: string
  rc_root_depth :: nat
  rc_manual :: bool
  rc_include :: "path_matcher option"
  rc_exclude :: "path_matcher option"
  rc_code_extensions :: "string list"
  rc_profile_id :: "string option"
  rc_auto_ignored_dirs :: "string list"

definition context_ignores :: "resolved_context \<Rightarrow> string \<Rightarrow> bool" where
  "context_ignores c path =
     (case relative_to_root path (rc_root_rel c) of
        None \<Rightarrow> False
      | Some relative \<Rightarrow> list_ex (\<lambda>dir. relative = dir \<or> starts_with (dir @ ''/'') relative) (rc_auto_ignored_dirs c))"

definition matches_affiliated_path :: "resolved_context \<Rightarrow> string \<Rightarrow> bool" where
  "matches_affiliated_path c path =
     (case relative_to_root path (rc_root_rel c) of
        None \<Rightarrow> False
      | Some relative \<Rightarrow> \<not> context_ignores c path
          \<and> (case rc_include c of None \<Rightarrow> True | Some matcher \<Rightarrow> is_match matcher relative)
          \<and> (case rc_exclude c of None \<Rightarrow> True | Some matcher \<Rightarrow> \<not> is_match matcher relative))"

definition matches_code_path :: "resolved_context \<Rightarrow> string \<Rightarrow> bool" where
  "matches_code_path c path \<longleftrightarrow> matches_affiliated_path c path
     \<and> (case lower_extension path of None \<Rightarrow> False | Some e \<Rightarrow> e \<in> set (rc_code_extensions c))"

section \<open>What is read\<close>

record repo_view =
  vw_list_dir :: "string \<Rightarrow> (string, string list) result"
  vw_read_text :: "string \<Rightarrow> (string, string option) result"

record manifest_readers =
  mr_json :: "string \<Rightarrow> json option"
  mr_toolchain_channel :: "string \<Rightarrow> string option"
  mr_cargo_rust_version :: "string \<Rightarrow> string option"
  mr_requires_python :: "string \<Rightarrow> string option"
  mr_go_version :: "string \<Rightarrow> string option"
  mr_java_version :: "string \<Rightarrow> string option"
  mr_fingerprint :: "json \<Rightarrow> string"

text \<open>The view of a revision lists the candidate files by their directories.\<close>

definition revision_dir_entries :: "string list \<Rightarrow> (string, string list) btree" where
  "revision_dir_entries paths = foldl (\<lambda>m path. if file_name_or_empty path = [] then m
     else bt_upsert (parent_dir path) [] (bs_insert (file_name_or_empty path)) m) [] paths"

definition revision_view :: "(string \<Rightarrow> string option) \<Rightarrow> string list \<Rightarrow> repo_view" where
  "revision_view show_file paths = \<lparr>vw_list_dir = \<lambda>dir. Ok (unwrap_or (bt_get (revision_dir_entries paths) dir) []),
     vw_read_text = \<lambda>path. Ok (show_file path)\<rparr>"

section \<open>Contexts of a policy\<close>

record manual_context_spec =
  mx_id :: string
  mx_kind :: string
  mx_root_rel :: string
  mx_include :: "string list"
  mx_exclude :: "string list"
  mx_frameworks :: "string list"
  mx_runtime_profile :: "string option"
  mx_source_version_override :: "string option"
  mx_profile :: "string option"

definition profile_input :: "string \<Rightarrow> string option \<Rightarrow> resolution_input" where
  "profile_input profile_key file_path = \<lparr>ri_language_id = None, ri_profile_key = Some profile_key, ri_file_path = file_path,
     ri_language_profile = None\<rparr>"

definition manual_languages :: "semver \<Rightarrow> language_registry \<Rightarrow> manual_context_spec \<Rightarrow> (string, string \<times> string list) result" where
  "manual_languages sv reg sp =
     (let k = mx_kind sp in
      if k = ''rust'' then Ok (''rust'', [''rs''])
      else if k = ''node'' then Ok (''javascript'', [''js'', ''jsx'', ''mjs'', ''cjs''])
      else if k = ''python'' then Ok (''python'', [''py''])
      else if k = ''go'' then Ok (''go'', [''go''])
      else if k = ''java'' then Ok (''java'', [''java''])
      else if k = ''standalone'' then
        (case mx_profile sp of
           None \<Rightarrow> Err (''manual standalone context `'' @ mx_id sp @ ''` requires `profile`'')
         | Some profile \<Rightarrow>
             (case resolve_language sv reg (profile_input profile None) of
                Inl _ \<Rightarrow> Err (''resolving standalone context profile `'' @ profile @ ''`'')
              | Inr resolved \<Rightarrow> Ok (pd_language_id (rv_profile resolved),
                  map to_ascii_lowercase (pd_file_extensions (rv_profile resolved)))))
      else Err (''unsupported manual context kind `'' @ k @ ''`''))"

definition manual_config :: "manual_context_spec \<Rightarrow> (string, string) btree \<Rightarrow> json" where
  "manual_config sp source_versions = JsonObject
     [(''id'', JsonString (mx_id sp)), (''kind'', JsonString (mx_kind sp)), (''root'', JsonString (mx_root_rel sp)),
      (''include'', json_strings (mx_include sp)), (''exclude'', json_strings (mx_exclude sp)),
      (''frameworks'', json_strings (mx_frameworks sp)), (''runtime_profile'', json_opt (mx_runtime_profile sp)),
      (''source_versions'', JsonObject (map (\<lambda>(k, v). (k, JsonString v)) source_versions)), (''profile'', json_opt (mx_profile sp))]"

definition build_manual_context_from_spec :: "manifest_readers \<Rightarrow> semver \<Rightarrow> language_registry \<Rightarrow> manual_context_spec
    \<Rightarrow> (string, resolved_context) result" where
  "build_manual_context_from_spec rd sv reg sp =
     and_then (manual_languages sv reg sp) (\<lambda>(base_language, code_extensions).
     let source_versions = (case mx_source_version_override sp of None \<Rightarrow> [] | Some v \<Rightarrow> bt_insert base_language v []) in
     Ok \<lparr>rc_context = \<lparr>pc_context_id = mx_id sp, pc_root = display_root (mx_root_rel sp), pc_kind = mx_kind sp,
           pc_detection_source = ''manual'', pc_config_files = [],
           pc_config_fingerprint = mr_fingerprint rd (manual_config sp source_versions),
           pc_base_languages = [base_language], pc_frameworks = sort_dedup (mx_frameworks sp),
           pc_runtime_profile = mx_runtime_profile sp, pc_source_versions = source_versions\<rparr>,
         rc_root_rel = mx_root_rel sp, rc_root_depth = path_depth (mx_root_rel sp), rc_manual = True,
         rc_include = matcher_of (mx_include sp), rc_exclude = matcher_of (mx_exclude sp),
         rc_code_extensions = code_extensions, rc_profile_id = mx_profile sp,
         rc_auto_ignored_dirs = auto_ignored_dirs_for_kind (mx_kind sp)\<rparr>)"

text \<open>One entry, with the identifiers seen before it.\<close>

definition parse_manual_context :: "manifest_readers \<Rightarrow> semver \<Rightarrow> language_registry \<Rightarrow> (string \<Rightarrow> (string, string) result) \<Rightarrow> json
    \<Rightarrow> string list \<times> resolved_context list \<Rightarrow> (string, string list \<times> resolved_context list) result" where
  "parse_manual_context rd sv reg resolve item = (\<lambda>(seen, out).
     (case item of
        JsonObject entries \<Rightarrow>
          and_then (required_string item ''id'') (\<lambda>ident.
          if ident \<in> set seen then Err (''duplicate manual context id `'' @ ident @ ''`'')
          else
            and_then (required_string item ''kind'') (\<lambda>k.
            and_then (required_string item ''root'') (\<lambda>root_raw.
            and_then (resolve root_raw) (\<lambda>root.
            and_then (optional_string_list item ''include'') (\<lambda>include_patterns.
            and_then (optional_string_list item ''exclude'') (\<lambda>exclude_patterns.
            and_then (optional_string_list item ''frameworks'') (\<lambda>frameworks.
            and_then (build_manual_context_from_spec rd sv reg \<lparr>mx_id = ident, mx_kind = k,
               mx_root_rel = pathbuf_to_repo_relative root, mx_include = include_patterns, mx_exclude = exclude_patterns,
               mx_frameworks = frameworks, mx_runtime_profile = optional_string item ''runtime_profile'',
               mx_source_version_override = optional_string item ''source_version_override'',
               mx_profile = optional_string item ''profile''\<rparr>) (\<lambda>context.
            Ok (ident # seen, out @ [context])))))))))
      | _ \<Rightarrow> Err ''`contexts` entries must be objects''))"

definition parse_manual_context_specs :: "manifest_readers \<Rightarrow> semver \<Rightarrow> language_registry \<Rightarrow> (string \<Rightarrow> (string, string) result) \<Rightarrow> json
    \<Rightarrow> (string, resolved_context list) result" where
  "parse_manual_context_specs rd sv reg resolve contexts =
     (case contexts of
        JsonArray items \<Rightarrow> and_then (fold_result (parse_manual_context rd sv reg resolve) items ([], [])) (\<lambda>(_, out). Ok out)
      | JsonNull \<Rightarrow> Ok []
      | JsonObject [] \<Rightarrow> Ok []
      | _ \<Rightarrow> Err ''`contexts` must be an array of tables'')"

section \<open>Contexts of the manifests\<close>

definition build_auto_context :: "manifest_readers \<Rightarrow> string \<Rightarrow> string \<Rightarrow> string list \<Rightarrow> string \<Rightarrow> string list \<Rightarrow> string option
    \<Rightarrow> (string, string) btree \<Rightarrow> string list \<Rightarrow> resolved_context" where
  "build_auto_context rd k dir config_files base_language frameworks runtime_profile source_versions code_extensions =
     (let config_files = sort_dedup config_files;
          frameworks = sort_dedup frameworks;
          config = JsonObject [(''kind'', JsonString k), (''root'', JsonString (display_root dir)),
            (''config_files'', json_strings config_files), (''frameworks'', json_strings frameworks),
            (''runtime_profile'', json_opt runtime_profile),
            (''source_versions'', JsonObject (map (\<lambda>(k, v). (k, JsonString v)) source_versions))]
      in \<lparr>rc_context = \<lparr>pc_context_id = ''auto:'' @ k @ '':'' @ display_root dir, pc_root = display_root dir, pc_kind = k,
             pc_detection_source = ''auto'', pc_config_files = config_files, pc_config_fingerprint = mr_fingerprint rd config,
             pc_base_languages = [base_language], pc_frameworks = frameworks, pc_runtime_profile = runtime_profile,
             pc_source_versions = source_versions\<rparr>,
           rc_root_rel = dir, rc_root_depth = path_depth dir, rc_manual = False, rc_include = None, rc_exclude = None,
           rc_code_extensions = code_extensions, rc_profile_id = None, rc_auto_ignored_dirs = auto_ignored_dirs_for_kind k\<rparr>)"

definition version_of :: "string \<Rightarrow> string option \<Rightarrow> (string, string) btree" where
  "version_of language ver = (case ver of None \<Rightarrow> [] | Some v \<Rightarrow> [(language, v)])"

definition build_rust_context :: "manifest_readers \<Rightarrow> repo_view \<Rightarrow> auto_scope_policy \<Rightarrow> string \<Rightarrow> string list
    \<Rightarrow> (string, resolved_context option) result" where
  "build_rust_context rd view scope dir entries =
     (if ''Cargo.toml'' \<notin> set entries \<or> \<not> allows_context_root scope dir then Ok None
      else
        and_then (vw_read_text view (join_dir_file dir ''Cargo.toml'')) (\<lambda>cargo_content.
        and_then (vw_read_text view (join_dir_file dir ''rust-toolchain.toml'')) (\<lambda>toolchain_content.
        Ok (Some (build_auto_context rd ''rust'' dir
          (join_dir_file dir ''Cargo.toml'' # (if toolchain_content = None then [] else [join_dir_file dir ''rust-toolchain.toml'']))
          ''rust'' [] None
          (version_of ''rust'' (opt_or (Option.bind toolchain_content (mr_toolchain_channel rd))
             (mr_cargo_rust_version rd (unwrap_or cargo_content []))))
          [''rs''])))))"

definition dependency_version :: "json \<Rightarrow> string \<Rightarrow> string option" where
  "dependency_version package name =
     opt_or (Option.bind (Option.bind (json_field ''dependencies'' package) (json_field name)) json_str)
       (Option.bind (Option.bind (json_field ''devDependencies'' package) (json_field name)) json_str)"

definition parse_package_dependency_version :: "manifest_readers \<Rightarrow> string \<Rightarrow> string option" where
  "parse_package_dependency_version rd content = Option.bind (mr_json rd content) (\<lambda>package. dependency_version package ''typescript'')"

definition parse_package_frameworks :: "manifest_readers \<Rightarrow> string \<Rightarrow> string \<Rightarrow> (string, string list) result" where
  "parse_package_frameworks rd package_path content =
     (case mr_json rd content of
        None \<Rightarrow> Err (''parsing package.json at `'' @ package_path @ ''`'')
      | Some package \<Rightarrow> Ok (sort_dedup (List.map_filter
          (\<lambda>dependency. map_option (\<lambda>ver. dependency @ ''@'' @ ver) (dependency_version package dependency)) [''react'', ''next''])))"

definition frameworks_of :: "manifest_readers \<Rightarrow> string \<Rightarrow> string option \<Rightarrow> (string, string list) result" where
  "frameworks_of rd package_path package_content =
     and_then (optional (parse_package_frameworks rd package_path) package_content) (\<lambda>found. Ok (unwrap_or found []))"

definition runtime_profile_of :: "string list \<Rightarrow> string option" where
  "runtime_profile_of frameworks =
     (if list_ex (starts_with ''next'') frameworks then Some ''next''
      else if list_ex (starts_with ''react'') frameworks then Some ''react''
      else None)"

definition next_config_paths :: "string \<Rightarrow> string list \<Rightarrow> string list" where
  "next_config_paths dir entries = map (join_dir_file dir) (filter (starts_with ''next.config.'') entries)"

definition build_node_context :: "manifest_readers \<Rightarrow> repo_view \<Rightarrow> auto_scope_policy \<Rightarrow> string \<Rightarrow> string list
    \<Rightarrow> (string, resolved_context option) result" where
  "build_node_context rd view scope dir entries =
     (let jsconfig_paths = map (join_dir_file dir) (filter is_jsconfig_file entries);
          has_package_json = (''package.json'' \<in> set entries);
          package_path = join_dir_file dir ''package.json'';
          seed_path = (if has_package_json then package_path else case jsconfig_paths of [] \<Rightarrow> [] | p # _ \<Rightarrow> p)
      in if \<not> has_package_json \<and> jsconfig_paths = [] then Ok None
         else if seed_path = [] \<or> \<not> allows_context_root scope dir then Ok None
         else
           and_then (if has_package_json then vw_read_text view package_path else Ok None) (\<lambda>package_content.
           and_then (frameworks_of rd package_path package_content) (\<lambda>frameworks.
           Ok (Some (build_auto_context rd ''node'' dir
             ((if has_package_json then [package_path] else []) @ jsconfig_paths @ next_config_paths dir entries)
             ''javascript'' frameworks (runtime_profile_of frameworks) [] [''js'', ''jsx'', ''mjs'', ''cjs''])))))"

definition build_typescript_context :: "manifest_readers \<Rightarrow> repo_view \<Rightarrow> auto_scope_policy \<Rightarrow> string \<Rightarrow> string list
    \<Rightarrow> (string, resolved_context option) result" where
  "build_typescript_context rd view scope dir entries =
     (let tsconfig_paths = map (join_dir_file dir) (filter (\<lambda>e. is_tsconfig_file e \<or> is_jsconfig_file e) entries);
          package_path = join_dir_file dir ''package.json''
      in and_then (vw_read_text view package_path) (\<lambda>package_content.
         let ver = Option.bind package_content (parse_package_dependency_version rd);
             seed_path = (case tsconfig_paths of p # _ \<Rightarrow> p | [] \<Rightarrow> if ver \<noteq> None then package_path else [])
         in if tsconfig_paths = [] \<and> ver = None then Ok None
            else if seed_path = [] \<or> \<not> allows_context_root scope dir then Ok None
            else
              and_then (frameworks_of rd package_path package_content) (\<lambda>frameworks.
              Ok (Some (build_auto_context rd ''typescript'' dir
                (tsconfig_paths @ (if package_content = None then [] else [package_path]) @ next_config_paths dir entries)
                ''typescript'' frameworks (runtime_profile_of frameworks) (version_of ''typescript'' ver)
                [''ts'', ''tsx'', ''mts'', ''cts''])))))"

definition is_python_seed :: "string \<Rightarrow> bool" where
  "is_python_seed entry \<longleftrightarrow> entry \<in> set [''pyproject.toml'', ''setup.py'', ''setup.cfg'', ''Pipfile''] \<or> is_requirements_file entry"

definition build_python_context :: "manifest_readers \<Rightarrow> repo_view \<Rightarrow> auto_scope_policy \<Rightarrow> string \<Rightarrow> string list
    \<Rightarrow> (string, resolved_context option) result" where
  "build_python_context rd view scope dir entries =
     (let seeds = filter is_python_seed entries in
      if seeds = [] then Ok None
      else if join_dir_file dir (hd seeds) = [] \<or> \<not> allows_context_root scope dir then Ok None
      else
        and_then (vw_read_text view (join_dir_file dir ''.python-version'')) (\<lambda>version_content.
        and_then (vw_read_text view (join_dir_file dir ''pyproject.toml'')) (\<lambda>pyproject_content.
        let ver = opt_or (Option.bind pyproject_content (mr_requires_python rd)) (map_option trim version_content)
        in Ok (Some (build_auto_context rd ''python'' dir
             (map (join_dir_file dir) seeds @ (if version_content = None then [] else [join_dir_file dir ''.python-version'']))
             ''python'' [] None (version_of ''python'' (if ver = Some [] then None else ver)) [''py''])))))"

definition build_go_context :: "manifest_readers \<Rightarrow> repo_view \<Rightarrow> auto_scope_policy \<Rightarrow> string \<Rightarrow> string list
    \<Rightarrow> (string, resolved_context option) result" where
  "build_go_context rd view scope dir entries =
     (if ''go.mod'' \<notin> set entries \<or> \<not> allows_context_root scope dir then Ok None
      else
        and_then (vw_read_text view (join_dir_file dir ''go.mod'')) (\<lambda>go_mod.
        Ok (Some (build_auto_context rd ''go'' dir [join_dir_file dir ''go.mod''] ''go'' [] None
          (version_of ''go'' (mr_go_version rd (unwrap_or go_mod []))) [''go'']))))"

text \<open>The first manifest that names a version that is not blank.\<close>

fun first_java_version :: "manifest_readers \<Rightarrow> repo_view \<Rightarrow> string list \<Rightarrow> (string, string option) result" where
  "first_java_version rd view [] = Ok None"
| "first_java_version rd view (config_file # rest) =
     and_then (vw_read_text view config_file) (\<lambda>content.
     case Option.bind content (mr_java_version rd) of
       Some ver \<Rightarrow> if trim ver = [] then first_java_version rd view rest else Ok (Some ver)
     | None \<Rightarrow> first_java_version rd view rest)"

definition java_seed_names :: "string list" where
  "java_seed_names = [''pom.xml'', ''build.gradle'', ''build.gradle.kts'', ''settings.gradle'', ''settings.gradle.kts'']"

definition build_java_context :: "manifest_readers \<Rightarrow> repo_view \<Rightarrow> auto_scope_policy \<Rightarrow> string \<Rightarrow> string list
    \<Rightarrow> (string, resolved_context option) result" where
  "build_java_context rd view scope dir entries =
     (let seeds = filter (\<lambda>e. e \<in> set java_seed_names) entries in
      if seeds = [] then Ok None
      else if join_dir_file dir (hd seeds) = [] \<or> \<not> allows_context_root scope dir then Ok None
      else
        and_then (first_java_version rd view (map (join_dir_file dir) seeds)) (\<lambda>ver.
        Ok (Some (build_auto_context rd ''java'' dir (map (join_dir_file dir) seeds) ''java'' [] None
          [(''java'', unwrap_or ver ''unknown'')] [''java'']))))"

definition context_builders :: "(manifest_readers \<Rightarrow> repo_view \<Rightarrow> auto_scope_policy \<Rightarrow> string \<Rightarrow> string list
    \<Rightarrow> (string, resolved_context option) result) list" where
  "context_builders = [build_rust_context, build_node_context, build_typescript_context, build_python_context, build_go_context,
     build_java_context]"

definition candidate_directories :: "string list \<Rightarrow> string list" where
  "candidate_directories paths = bs_of_list (concat (map ancestor_dirs paths) @ [[]])"

definition contexts_of_directory :: "manifest_readers \<Rightarrow> repo_view \<Rightarrow> auto_scope_policy \<Rightarrow> string \<Rightarrow> resolved_context list
    \<Rightarrow> (string, resolved_context list) result" where
  "contexts_of_directory rd view scope dir contexts =
     and_then (vw_list_dir view dir) (\<lambda>entries.
     if entries = [] \<and> dir \<noteq> [] then Ok contexts
     else fold_result (\<lambda>build contexts. and_then (build rd view scope dir entries) (\<lambda>found.
       Ok (case found of None \<Rightarrow> contexts | Some c \<Rightarrow> contexts @ [c]))) context_builders contexts)"

definition detect_auto_contexts :: "manifest_readers \<Rightarrow> repo_view \<Rightarrow> string list \<Rightarrow> auto_scope_policy \<Rightarrow> (string, resolved_context list) result" where
  "detect_auto_contexts rd view paths scope =
     fold_result (contexts_of_directory rd view scope) (candidate_directories paths) []"

end
