(* ===== verification/FileClassifier.thy ===== *)
theory FileClassifier
  imports
    FileContexts
begin

text \<open>
  The classifier of files, \<open>host/devql/classification/classifier.rs\<close>: which context a file belongs to, and whether it is
  analysed as code, indexed as text, only tracked, or left out. What it yields is the classification a sync stores
  (theory SyncManifest).
\<close>

section \<open>The classifier\<close>

definition PLAIN_TEXT_LANGUAGE_ID :: string where "PLAIN_TEXT_LANGUAGE_ID = ''plain_text''"
definition TRACK_ONLY_LANGUAGE_ID :: string where "TRACK_ONLY_LANGUAGE_ID = ''track_only''"

record file_classifier =
  cl_parser_version :: string
  cl_extractor_version :: string
  cl_auto_scope :: auto_scope_policy
  cl_include_as_text :: "path_matcher option"
  cl_contexts :: "resolved_context list"

record classifier_env =
  ce_semver :: semver
  ce_languages :: language_registry
  ce_fingerprint :: "json \<Rightarrow> string"

text \<open>Deeper contexts first, manual before automatic ones, then by the number of their manifests and the identifier.\<close>

definition context_priority :: "resolved_context \<Rightarrow> int \<times> bool \<times> int \<times> string" where
  "context_priority c = (- int (rc_root_depth c), \<not> rc_manual c, - int (length (pc_config_files (rc_context c))), pc_context_id (rc_context c))"

fun dedup_contexts :: "resolved_context list \<Rightarrow> resolved_context list" where
  "dedup_contexts (x # y # rest) =
     (if pc_context_id (rc_context x) = pc_context_id (rc_context y) then dedup_contexts (x # rest) else x # dedup_contexts (y # rest))"
| "dedup_contexts cs = cs"

definition matching_code_contexts :: "file_classifier \<Rightarrow> string \<Rightarrow> bool \<Rightarrow> resolved_context list" where
  "matching_code_contexts cl path manual_only = sort_key context_priority
     (filter (\<lambda>c. (rc_manual c \<or> (\<not> manual_only \<and> allows_path (cl_auto_scope cl) path)) \<and> matches_code_path c path) (cl_contexts cl))"

definition matching_affiliated_contexts :: "file_classifier \<Rightarrow> string \<Rightarrow> resolved_context list" where
  "matching_affiliated_contexts cl path = sort_key context_priority
     (filter (\<lambda>c. (rc_manual c \<or> allows_path (cl_auto_scope cl) path) \<and> matches_affiliated_path c path) (cl_contexts cl))"

definition is_auto_ignored :: "file_classifier \<Rightarrow> string \<Rightarrow> bool" where
  "is_auto_ignored cl path \<longleftrightarrow> list_ex (\<lambda>c. \<not> rc_manual c \<and> context_ignores c path) (cl_contexts cl)"

definition should_classify_as_text :: "file_classifier \<Rightarrow> string \<Rightarrow> bool" where
  "should_classify_as_text cl path \<longleftrightarrow> \<not> is_auto_ignored cl path \<and> is_auto_text_path path"

fun choose_primary_context :: "resolved_context list \<Rightarrow> resolved_context option" where
  "choose_primary_context [] = None"
| "choose_primary_context (c # _) = Some c"

section \<open>Languages\<close>

definition resolve_language_id_for_file_path :: "classifier_env \<Rightarrow> string \<Rightarrow> string option" where
  "resolve_language_id_for_file_path env path =
     (case resolve_language (ce_semver env) (ce_languages env) \<lparr>ri_language_id = None, ri_profile_key = None,
          ri_file_path = Some path, ri_language_profile = None\<rparr> of
        Inl _ \<Rightarrow> None
      | Inr resolved \<Rightarrow> Some (pd_language_id (rv_profile resolved)))"

definition resolved_language_for_context :: "classifier_env \<Rightarrow> string \<Rightarrow> resolved_context \<Rightarrow> (string, string) result" where
  "resolved_language_for_context env path c =
     (case rc_profile_id c of
        Some profile_id \<Rightarrow>
          (case resolve_language (ce_semver env) (ce_languages env) (profile_input profile_id (Some path)) of
             Inl _ \<Rightarrow> Err (''resolving language profile `'' @ profile_id @ ''` for `'' @ path @ ''`'')
           | Inr resolved \<Rightarrow> Ok (pd_language_id (rv_profile resolved)))
      | None \<Rightarrow> Ok (unwrap_or (resolve_language_id_for_file_path env path) PLAIN_TEXT_LANGUAGE_ID))"

definition resolved_dialect_for_path :: "string \<Rightarrow> string option" where
  "resolved_dialect_for_path path =
     Option.bind (lower_extension path) (map_of
       [(''tsx'', ''tsx''), (''jsx'', ''jsx''), (''ts'', ''ts''), (''mts'', ''ts''), (''cts'', ''ts''), (''js'', ''js''), (''mjs'', ''js''),
        (''cjs'', ''js''), (''py'', ''py''), (''go'', ''go''), (''java'', ''java'')])"

section \<open>Classification\<close>

record classification_input =
  ci_analysis_mode :: analysis_mode
  ci_file_role :: file_role
  ci_text_index_mode :: text_index_mode
  ci_language :: string
  ci_dialect :: "string option"
  ci_contexts :: "resolved_context list"
  ci_primary :: "resolved_context option"
  ci_classification_reason :: string
  ci_excluded_by_policy :: bool

definition extraction_config :: "file_classifier \<Rightarrow> classification_input \<Rightarrow> json" where
  "extraction_config cl i =
     (let context = map_option rc_context (ci_primary i) in JsonObject
       [(''analysis_mode'', JsonString (analysis_mode_as_str (ci_analysis_mode i))),
        (''file_role'', JsonString (file_role_as_str (ci_file_role i))),
        (''text_index_mode'', JsonString (text_index_mode_as_str (ci_text_index_mode i))),
        (''resolved_language'', JsonString (ci_language i)), (''dialect'', json_opt (ci_dialect i)),
        (''frameworks'', json_strings (unwrap_or (map_option pc_frameworks context) [])),
        (''runtime_profile'', json_opt (Option.bind context pc_runtime_profile)),
        (''context_fingerprint'', json_opt (map_option pc_config_fingerprint context)),
        (''parser_version'', JsonString (cl_parser_version cl)), (''extractor_version'', JsonString (cl_extractor_version cl))])"

definition build_classification :: "classifier_env \<Rightarrow> file_classifier \<Rightarrow> classification_input \<Rightarrow> file_classification" where
  "build_classification env cl i =
     (let context = map_option rc_context (ci_primary i); primary_id = map_option pc_context_id context in
      \<lparr>fc_analysis_mode = ci_analysis_mode i, fc_file_role = ci_file_role i, fc_text_index_mode = ci_text_index_mode i,
       fc_language = ci_language i, fc_resolved_language = ci_language i, fc_dialect = ci_dialect i,
       fc_primary_context_id = primary_id,
       fc_secondary_context_ids = filter (\<lambda>ident. Some ident \<noteq> primary_id) (map (pc_context_id \<circ> rc_context) (ci_contexts i)),
       fc_frameworks = unwrap_or (map_option pc_frameworks context) [],
       fc_runtime_profile = Option.bind context pc_runtime_profile,
       fc_classification_reason = ci_classification_reason i,
       fc_context_fingerprint = map_option pc_config_fingerprint context,
       fc_extraction_fingerprint = ce_fingerprint env (extraction_config cl i),
       fc_excluded_by_policy = ci_excluded_by_policy i\<rparr>)"

definition untracked_input :: "analysis_mode \<Rightarrow> file_role \<Rightarrow> string \<Rightarrow> bool \<Rightarrow> classification_input" where
  "untracked_input mode role reason excluded = \<lparr>ci_analysis_mode = mode, ci_file_role = role, ci_text_index_mode = NoText,
     ci_language = TRACK_ONLY_LANGUAGE_ID, ci_dialect = None, ci_contexts = [], ci_primary = None,
     ci_classification_reason = reason, ci_excluded_by_policy = excluded\<rparr>"

definition code_input :: "string \<Rightarrow> string \<Rightarrow> resolved_context list \<Rightarrow> resolved_context \<Rightarrow> string \<Rightarrow> classification_input" where
  "code_input path language matches primary reason = \<lparr>ci_analysis_mode = CodeMode, ci_file_role = SourceCode,
     ci_text_index_mode = NoText, ci_language = language, ci_dialect = resolved_dialect_for_path path, ci_contexts = matches,
     ci_primary = Some primary, ci_classification_reason = reason @ pc_context_id (rc_context primary),
     ci_excluded_by_policy = False\<rparr>"

definition text_input :: "file_classifier \<Rightarrow> string \<Rightarrow> string \<Rightarrow> classification_input" where
  "text_input cl path reason = (let affiliations = matching_affiliated_contexts cl path; role = for_text_path path in
     \<lparr>ci_analysis_mode = TextMode, ci_file_role = role, ci_text_index_mode = text_index_mode_for_role role,
      ci_language = PLAIN_TEXT_LANGUAGE_ID, ci_dialect = None, ci_contexts = affiliations,
      ci_primary = choose_primary_context affiliations, ci_classification_reason = reason, ci_excluded_by_policy = False\<rparr>)"

definition track_only_input :: "classifier_env \<Rightarrow> file_classifier \<Rightarrow> string \<Rightarrow> classification_input" where
  "track_only_input env cl path =
     (let reason = (if is_auto_ignored cl path then ''auto_ignored''
            else if resolve_language_id_for_file_path env path \<noteq> None then ''contextless_code_like'' else ''track_only'');
          affiliations = matching_affiliated_contexts cl path in
     \<lparr>ci_analysis_mode = TrackOnlyMode, ci_file_role = for_track_only_path path reason, ci_text_index_mode = NoText,
      ci_language = TRACK_ONLY_LANGUAGE_ID, ci_dialect = None, ci_contexts = affiliations,
      ci_primary = choose_primary_context affiliations, ci_classification_reason = reason, ci_excluded_by_policy = False\<rparr>)"

definition classify_as_code :: "classifier_env \<Rightarrow> file_classifier \<Rightarrow> string \<Rightarrow> string \<Rightarrow> resolved_context list
    \<Rightarrow> (string, file_classification) result" where
  "classify_as_code env cl path reason matches =
     and_then (resolved_language_for_context env path (hd matches)) (\<lambda>language.
     Ok (build_classification env cl (code_input path language matches (hd matches) reason)))"

definition included_as_text :: "file_classifier \<Rightarrow> string \<Rightarrow> bool" where
  "included_as_text cl path \<longleftrightarrow> (case cl_include_as_text cl of None \<Rightarrow> False | Some matcher \<Rightarrow> is_match matcher path)"

definition classify_repo_relative_path :: "classifier_env \<Rightarrow> file_classifier \<Rightarrow> string \<Rightarrow> bool \<Rightarrow> (string, file_classification) result" where
  "classify_repo_relative_path env cl raw_path excluded_by_policy =
     (let path = host_normalize_repo_path raw_path in
      if path = [] then Ok (build_classification env cl (untracked_input TrackOnlyMode OtherRole ''empty_path'' False))
      else if excluded_by_policy then Ok (build_classification env cl
        (untracked_input ExcludedMode (for_track_only_path path ''excluded_by_policy'') ''excluded_by_policy'' True))
      else if matching_code_contexts cl path True \<noteq> [] then
        classify_as_code env cl path ''manual_context:'' (matching_code_contexts cl path True)
      else if included_as_text cl path then Ok (build_classification env cl (text_input cl path ''manual_text''))
      else if matching_code_contexts cl path False \<noteq> [] then
        classify_as_code env cl path ''auto_context:'' (matching_code_contexts cl path False)
      else if allows_path (cl_auto_scope cl) path \<and> should_classify_as_text cl path then
        Ok (build_classification env cl (text_input cl path ''auto_text''))
      else Ok (build_classification env cl (track_only_input env cl path)))"

section \<open>Discovery\<close>

definition discover_with_view :: "manifest_readers \<Rightarrow> semver \<Rightarrow> language_registry \<Rightarrow> (string \<Rightarrow> (string, string) result) \<Rightarrow> json \<Rightarrow> json
    \<Rightarrow> repo_view \<Rightarrow> string list \<Rightarrow> string \<Rightarrow> string \<Rightarrow> (string, file_classifier) result" where
  "discover_with_view rd sv reg resolve scope contexts view candidate_paths parser_version extractor_version =
     and_then (from_scope resolve scope) (\<lambda>auto_scope.
     and_then (parse_scope_string_list scope ''include_as_text'') (\<lambda>include_as_text.
     and_then (detect_auto_contexts rd view candidate_paths auto_scope) (\<lambda>detected.
     and_then (parse_manual_context_specs rd sv reg resolve contexts) (\<lambda>manual_contexts.
     Ok \<lparr>cl_parser_version = parser_version, cl_extractor_version = extractor_version, cl_auto_scope = auto_scope,
         cl_include_as_text = matcher_of include_as_text,
         cl_contexts = dedup_contexts (sort_key context_priority (detected @ manual_contexts))\<rparr>))))"

definition discover_for_worktree :: "manifest_readers \<Rightarrow> semver \<Rightarrow> language_registry \<Rightarrow> (string \<Rightarrow> (string, string) result) \<Rightarrow> json \<Rightarrow> json
    \<Rightarrow> repo_view \<Rightarrow> string list \<Rightarrow> string \<Rightarrow> string \<Rightarrow> (string, file_classifier) result" where
  "discover_for_worktree rd sv reg resolve scope contexts worktree candidate_paths =
     discover_with_view rd sv reg resolve scope contexts worktree (normalise_candidate_paths candidate_paths)"

definition discover_for_revision :: "manifest_readers \<Rightarrow> semver \<Rightarrow> language_registry \<Rightarrow> (string \<Rightarrow> (string, string) result) \<Rightarrow> json \<Rightarrow> json
    \<Rightarrow> (string \<Rightarrow> string option) \<Rightarrow> string list \<Rightarrow> string \<Rightarrow> string \<Rightarrow> (string, file_classifier) result" where
  "discover_for_revision rd sv reg resolve scope contexts show_file candidate_paths =
     (let paths = normalise_candidate_paths candidate_paths in
      discover_with_view rd sv reg resolve scope contexts (revision_view show_file paths) paths)"

section \<open>The classifier of a sync (commands_sync/orchestrator.rs)\<close>

definition sync_classifier :: "classifier_env \<Rightarrow> file_classifier \<Rightarrow> string \<Rightarrow> (string, file_classification option) result" where
  "sync_classifier env cl path =
     and_then (classify_repo_relative_path env cl path False) (\<lambda>c. Ok (if should_persist_current_state c then Some c else None))"

end
