(* ===== verification/ClassifierProperties.thy ===== *)
theory ClassifierProperties
  imports
    FileClassifier
    ExtensionHost
begin

text \<open>
  What the classification of files promises: a pattern matches the paths its expression describes, and the two copies of
  the pattern rules agree; a file is code exactly when a context claims it, by the first context in their order of
  priority; the order in which contexts are found does not matter.
\<close>

section \<open>Directories\<close>

text \<open>The loop of \<open>ancestor_dirs\<close> as it is written, which could run forever.\<close>

partial_function (option) ancestor_loop :: "string \<Rightarrow> string list \<Rightarrow> string list option" where
  "ancestor_loop current dirs =
     (if current = [] then Some (dirs @ [current]) else ancestor_loop (parent_dir current) (dirs @ [current]))"

lemma ancestor_loop_dirs: "ancestor_loop current dirs = Some (dirs @ dirs_above current)"
proof (induction current arbitrary: dirs rule: dirs_above.induct)
  case (1 dir)
  show ?case
  proof (cases "dir = []")
    case True
    then show ?thesis by (subst ancestor_loop.simps) (simp add: dirs_above.simps)
  next
    case False
    then show ?thesis using 1 [OF False, of "dirs @ [dir]"]
      by (subst ancestor_loop.simps) (simp add: dirs_above.simps [of dir])
  qed
qed

lemma dirs_above_chain:
  "last (dirs_above dir) = [] \<and> sorted_wrt (\<lambda>a b. length b < length a) (dirs_above dir) \<and>
    list_all (\<lambda>d. length d \<le> length dir) (dirs_above dir) \<and> length (dirs_above dir) \<le> length dir + 1"
proof (induction dir rule: dirs_above.induct)
  case (1 dir)
  show ?case
  proof (cases "dir = []")
    case True
    then show ?thesis by (simp add: dirs_above.simps)
  next
    case False
    have shorter: "length (parent_dir dir) < length dir" by (rule parent_dir_shorter [OF False])
    have more: "dirs_above (parent_dir dir) \<noteq> []" by (subst dirs_above.simps) simp
    show ?thesis using 1 [OF False] shorter more False
      by (auto simp: dirs_above.simps [of dir] list_all_iff)
  qed
qed

text \<open>C34: the search for the directories above a path ends. The loop, which asks for a parent until it is at the root, returns
  for every path after at most as many rounds as the path has characters, and yields ever shorter directories down to the
  root.\<close>

theorem ancestor_search_ends:
  "ancestor_loop (parent_dir path) [] = Some (ancestor_dirs path) \<and> last (ancestor_dirs path) = [] \<and>
    sorted_wrt (\<lambda>a b. length b < length a) (ancestor_dirs path) \<and> length (ancestor_dirs path) \<le> max 1 (length path)"
proof -
  have "length (parent_dir path) + 1 \<le> max 1 (length path)"
  proof (cases "path = []")
    case True
    have "parent_dir [] = []" by code_simp
    then show ?thesis using True by simp
  next
    case False
    then show ?thesis using parent_dir_shorter [OF False] by simp
  qed
  then show ?thesis using dirs_above_chain [of "parent_dir path"] by (auto simp: ancestor_loop_dirs ancestor_dirs_def)
qed

section \<open>Patterns\<close>

text \<open>The texts a piece stands for.\<close>

fun piece_language :: "piece \<Rightarrow> string set" where
  "piece_language (Literal c) = {[c]}"
| "piece_language SegmentChar = {[c] | c. c \<noteq> CHR ''/''}"
| "piece_language SegmentChars = {w. CHR ''/'' \<notin> set w}"
| "piece_language AnyChars = {w. line_feed \<notin> set w}"
| "piece_language DirPrefix = insert [] {w @ ''/'' | w. line_feed \<notin> set w}"
| "piece_language Below = insert [] {CHR ''/'' # w | w. line_feed \<notin> set w}"

definition pieces_language :: "piece list \<Rightarrow> string set" where
  "pieces_language pieces = {concat ws | ws. list_all2 (\<lambda>p w. w \<in> piece_language p) pieces ws}"

lemma pieces_language_Nil: "pieces_language [] = {[]}"
  by (auto simp: pieces_language_def)

lemma pieces_language_Cons: "pieces_language (p # ps) = {w @ v | w v. w \<in> piece_language p \<and> v \<in> pieces_language ps}"
proof (intro set_eqI iffI)
  fix s assume "s \<in> pieces_language (p # ps)"
  then show "s \<in> {w @ v | w v. w \<in> piece_language p \<and> v \<in> pieces_language ps}"
    by (auto simp: pieces_language_def list_all2_Cons1) blast
next
  fix s assume "s \<in> {w @ v | w v. w \<in> piece_language p \<and> v \<in> pieces_language ps}"
  then obtain w ws where "s = concat (w # ws)" "list_all2 (\<lambda>p w. w \<in> piece_language p) (p # ps) (w # ws)"
    by (auto simp: pieces_language_def)
  then show "s \<in> pieces_language (p # ps)" unfolding pieces_language_def by blast
qed

lemma star_unfold:
  "{w @ v | w v. d \<notin> set w \<and> v \<in> L} = {s. s \<in> L \<or> (\<exists>c t. s = c # t \<and> c \<noteq> d \<and> t \<in> {w @ v | w v. d \<notin> set w \<and> v \<in> L})}"
  (is "?A = ?B")
proof (intro set_eqI iffI)
  fix s assume "s \<in> ?A"
  then obtain w v where "s = w @ v" "d \<notin> set w" "v \<in> L" by auto
  then show "s \<in> ?B" by (cases w) auto
next
  fix s assume "s \<in> ?B"
  then consider "s \<in> L" | c t w v where "s = c # t" "c \<noteq> d" "t = w @ v" "d \<notin> set w" "v \<in> L" by auto
  then show "s \<in> ?A"
  proof cases
    case 1
    then have "s = [] @ s \<and> d \<notin> set []" by simp
    then show ?thesis using 1 by blast
  next
    case (2 c t w v)
    then have "s = (c # w) @ v \<and> d \<notin> set (c # w)" by simp
    then show ?thesis using 2 by blast
  qed
qed

lemma match_pieces_language: "match_pieces ps s \<longleftrightarrow> s \<in> pieces_language ps"
proof (induction ps s rule: match_pieces.induct)
  case (1 s)
  then show ?case by (simp add: pieces_language_Nil)
next
  case (2 c ps s)
  then show ?case by (cases s) (auto simp: pieces_language_Cons)
next
  case (3 ps s)
  have "s \<in> pieces_language (SegmentChar # ps) \<longleftrightarrow> (\<exists>c t. s = c # t \<and> c \<noteq> CHR ''/'' \<and> t \<in> pieces_language ps)"
    by (auto simp: pieces_language_Cons) (metis append_Cons append_Nil)
  then show ?case using 3 by (cases s) auto
next
  case (4 ps s)
  show ?case
    using 4 star_unfold [of "CHR ''/''" "pieces_language ps"] by (cases s) (auto simp: pieces_language_Cons)
next
  case (5 ps s)
  show ?case
    using 5 star_unfold [of line_feed "pieces_language ps"] by (cases s) (auto simp: pieces_language_Cons)
next
  case (6 ps s)
  have "pieces_language (DirPrefix # ps) = pieces_language ps \<union> pieces_language (AnyChars # Literal CHR ''/'' # ps)"
    by (auto simp: pieces_language_Cons) (metis append.assoc append_Cons append_Nil)+
  then show ?case using 6 by simp
next
  case (7 ps s)
  have "pieces_language (Below # ps) = pieces_language ps \<union> pieces_language (Literal CHR ''/'' # AnyChars # ps)"
    by (auto simp: pieces_language_Cons) (metis append_Cons append_Nil)+
  then show ?case using 7 by simp
qed





lemma literal_language: "pieces_language (map Literal w @ ps) = {w @ v | v. v \<in> pieces_language ps}"
  by (induction w) (auto simp: pieces_language_Cons)

text \<open>A pattern without wildcards names a path and everything below it, at any depth if it is a single name.\<close>

lemma literal_patterns_name_subtrees:
  assumes "is_literal_pattern pattern" "pattern \<noteq> []" "hd pattern \<noteq> CHR ''/''" "line_feed \<notin> set path"
  shows "match_pieces (compile_pattern pattern) path \<longleftrightarrow>
    (\<exists>above below. path = above @ pattern @ below \<and> (above = [] \<or> is_basename_pattern pattern \<and> last above = CHR ''/'') \<and>
      (below = [] \<or> hd below = CHR ''/''))"
proof -
  have split: "split_root_anchor pattern = (False, pattern)"
    using assms(2,3) by (cases pattern) (auto simp: split_root_anchor_def split: option.splits)
  have below: "pieces_language [Below] = {w. w = [] \<or> hd w = CHR ''/'' \<and> line_feed \<notin> set (tl w)}"
  proof (intro set_eqI iffI)
    fix w assume "w \<in> {w. w = [] \<or> hd w = CHR ''/'' \<and> line_feed \<notin> set (tl w)}"
    then show "w \<in> pieces_language [Below]" by (cases w) (auto simp: pieces_language_Cons pieces_language_Nil)
  qed (auto simp: pieces_language_Cons pieces_language_Nil)
  have tail: "w \<in> pieces_language (map Literal pattern @ [Below]) \<longleftrightarrow>
      (\<exists>v. w = pattern @ v \<and> (v = [] \<or> hd v = CHR ''/'' \<and> line_feed \<notin> set (tl v)))" for w
    by (auto simp: literal_language below)
  have clean: "line_feed \<notin> set v" if "path = u @ v" for u v using assms(4) that by auto
  show ?thesis
  proof (cases "is_basename_pattern pattern")
    case False
    then have "compile_pattern pattern = map Literal pattern @ [Below]"
      using assms by (simp add: compile_pattern_def split)
    then show ?thesis using tail False clean
      by (auto simp: match_pieces_language) (metis list.set_sel(2) clean)+
  next
    case True
    then have pieces: "compile_pattern pattern = DirPrefix # map Literal pattern @ [Below]"
      using assms by (simp add: compile_pattern_def split)
    have "path \<in> pieces_language (compile_pattern pattern) \<longleftrightarrow> (\<exists>above v. path = above @ pattern @ v \<and>
        above \<in> piece_language DirPrefix \<and> (v = [] \<or> hd v = CHR ''/'' \<and> line_feed \<notin> set (tl v)))"
      unfolding pieces pieces_language_Cons using tail by blast
    moreover have "above \<in> piece_language DirPrefix \<longleftrightarrow> above = [] \<or> last above = CHR ''/''" if "path = above @ u" for above u
    proof (cases above rule: rev_cases)
      case (snoc w c)
      then have "line_feed \<notin> set w" using assms(4) that by auto
      then show ?thesis using snoc by auto
    qed simp
    moreover have "v = [] \<or> line_feed \<notin> set (tl v)" if "path = u @ v" for u v
      using clean [OF that] list.set_sel(2) by metis
    ultimately show ?thesis using True by (simp only: match_pieces_language) (metis append.assoc)
  qed
qed

section \<open>Code belongs to a context\<close>

text \<open>The contexts that claim a path as code: the manual ones, else the others, unless the policy makes the path a text or
  leaves it out of its automatic scope.\<close>

definition claiming_contexts :: "file_classifier \<Rightarrow> string \<Rightarrow> resolved_context set" where
  "claiming_contexts cl path =
     (if \<exists>c \<in> set (cl_contexts cl). rc_manual c \<and> matches_code_path c path
      then {c \<in> set (cl_contexts cl). rc_manual c \<and> matches_code_path c path}
      else if included_as_text cl path \<or> \<not> allows_path (cl_auto_scope cl) path then {}
      else {c \<in> set (cl_contexts cl). matches_code_path c path})"

lemma hd_sort_key:
  assumes "xs \<noteq> []"
  shows "hd (sort_key f xs) \<in> set xs" "y \<in> set xs \<Longrightarrow> f (hd (sort_key f xs)) \<le> f y"
proof -
  obtain z zs where z: "sort_key f xs = z # zs" using assms by (metis list.exhaust set_empty set_sort)
  then have members: "set (z # zs) = set xs" by (metis set_sort)
  have "sorted (map f (z # zs))" using sorted_sort_key [of f xs] z by simp
  then show "hd (sort_key f xs) \<in> set xs" "y \<in> set xs \<Longrightarrow> f (hd (sort_key f xs)) \<le> f y"
    using members z by auto
qed

lemma matching_code_sets:
  "set (matching_code_contexts cl path True) = {c \<in> set (cl_contexts cl). rc_manual c \<and> matches_code_path c path}"
  "set (matching_code_contexts cl path False) =
     {c \<in> set (cl_contexts cl). (rc_manual c \<or> allows_path (cl_auto_scope cl) path) \<and> matches_code_path c path}"
  by (auto simp: matching_code_contexts_def)

lemma matching_code_hd:
  assumes "matching_code_contexts cl path manual_only \<noteq> []"
  shows "hd (matching_code_contexts cl path manual_only) \<in> set (matching_code_contexts cl path manual_only)"
    "q \<in> set (matching_code_contexts cl path manual_only) \<Longrightarrow>
      context_priority (hd (matching_code_contexts cl path manual_only)) \<le> context_priority q"
proof -
  let ?P = "\<lambda>c. (rc_manual c \<or> (\<not> manual_only \<and> allows_path (cl_auto_scope cl) path)) \<and> matches_code_path c path"
  let ?cs = "filter ?P (cl_contexts cl)"
  have eq: "matching_code_contexts cl path manual_only = sort_key context_priority ?cs" by (simp add: matching_code_contexts_def)
  then have "?cs \<noteq> []" using assms by (metis set_empty set_sort)
  note min = hd_sort_key [OF this, where f = context_priority]
  show "hd (matching_code_contexts cl path manual_only) \<in> set (matching_code_contexts cl path manual_only)"
    "q \<in> set (matching_code_contexts cl path manual_only) \<Longrightarrow>
      context_priority (hd (matching_code_contexts cl path manual_only)) \<le> context_priority q"
    unfolding eq set_sort using min by auto
qed

lemma build_classification_mode [simp]:
  "fc_analysis_mode (build_classification env cl i) = ci_analysis_mode i"
  "fc_language (build_classification env cl i) = ci_language i"
  "fc_primary_context_id (build_classification env cl i) = map_option (pc_context_id \<circ> rc_context) (ci_primary i)"
  by (simp_all add: build_classification_def Let_def option.map_comp)

lemma input_modes [simp]:
  "ci_analysis_mode (untracked_input mode role reason excluded) = mode"
  "ci_analysis_mode (text_input cl path reason) = TextMode"
  "ci_analysis_mode (track_only_input env cl path) = TrackOnlyMode"
  "ci_analysis_mode (code_input path language matches primary reason) = CodeMode"
  "ci_primary (code_input path language matches primary reason) = Some primary"
  "ci_language (untracked_input mode role reason excluded) = TRACK_ONLY_LANGUAGE_ID"
  "ci_language (text_input cl path reason) = PLAIN_TEXT_LANGUAGE_ID"
  "ci_language (track_only_input env cl path) = TRACK_ONLY_LANGUAGE_ID"
  by (simp_all add: untracked_input_def text_input_def track_only_input_def code_input_def Let_def)

lemma classify_as_code_Ok:
  "classify_as_code env cl path reason matches = Ok c \<Longrightarrow>
    fc_analysis_mode c = CodeMode \<and> fc_primary_context_id c = Some (pc_context_id (rc_context (hd matches)))"
  by (auto simp: classify_as_code_def)

text \<open>C36: a file is analysed as code exactly when a context claims it. It is left out exactly when the policy excludes it;
  otherwise it is code just in case the set of claiming contexts is not empty, and then its primary context is one that
  comes first in the order of depth, hand-made before found, number of manifests and identifier; every other file has no
  programming language.\<close>

theorem code_is_claimed_by_its_context:
  assumes "classify_repo_relative_path env cl raw_path excluded = Ok c" "path = host_normalize_repo_path raw_path"
  shows "(fc_analysis_mode c = ExcludedMode \<longleftrightarrow> path \<noteq> [] \<and> excluded) \<and>
    (fc_analysis_mode c = CodeMode \<longleftrightarrow> path \<noteq> [] \<and> \<not> excluded \<and> claiming_contexts cl path \<noteq> {}) \<and>
    (if fc_analysis_mode c = CodeMode
     then \<exists>p \<in> claiming_contexts cl path. fc_primary_context_id c = Some (pc_context_id (rc_context p)) \<and>
       claiming_contexts cl path \<subseteq> {q. context_priority p \<le> context_priority q}
     else fc_language c \<in> {PLAIN_TEXT_LANGUAGE_ID, TRACK_ONLY_LANGUAGE_ID})"
proof -
  note classify = assms(1) [unfolded classify_repo_relative_path_def Let_def, folded assms(2)]
  let ?manual = "matching_code_contexts cl path True"
  let ?auto = "matching_code_contexts cl path False"
  have manual: "?manual \<noteq> [] \<Longrightarrow> claiming_contexts cl path = set ?manual"
    and auto: "?manual = [] \<Longrightarrow> \<not> included_as_text cl path \<Longrightarrow> claiming_contexts cl path = set ?auto"
    and texts: "?manual = [] \<Longrightarrow> included_as_text cl path \<Longrightarrow> claiming_contexts cl path = {}"
    unfolding set_empty [symmetric] matching_code_sets claiming_contexts_def by auto
  have code: ?thesis if "path \<noteq> []" "\<not> excluded" "matches \<noteq> []" "claiming_contexts cl path = set matches"
    "classify_as_code env cl path reason matches = Ok c" "matches \<in> {?manual, ?auto}" for matches reason
  proof -
    have "hd matches \<in> set matches" "set matches \<subseteq> {q. context_priority (hd matches) \<le> context_priority q}"
      using that(3,6) matching_code_hd by auto
    then show ?thesis using classify_as_code_Ok [OF that(5)] that(1-4) by auto
  qed
  consider "path = []" | "path \<noteq> []" "excluded" | "path \<noteq> []" "\<not> excluded" "?manual \<noteq> []"
    | "path \<noteq> []" "\<not> excluded" "?manual = []" "included_as_text cl path"
    | "path \<noteq> []" "\<not> excluded" "?manual = []" "\<not> included_as_text cl path" "?auto \<noteq> []"
    | "path \<noteq> []" "\<not> excluded" "?manual = []" "\<not> included_as_text cl path" "?auto = []"
    by blast
  then show ?thesis
  proof cases
    case 3
    then show ?thesis using classify by (intro code [OF _ _ 3(3) manual [OF 3(3)]]) auto
  next
    case 5
    then show ?thesis using classify by (intro code [OF _ _ 5(5) auto [OF 5(3,4)]]) auto
  next
    case 6
    then have "claiming_contexts cl path = {}" using auto by simp
    then show ?thesis using classify 6 by (auto split: if_splits)
  qed (use classify texts in auto)
qed

text \<open>The order in which contexts were found does not matter, as long as they have different identifiers.\<close>

lemma classification_independent_of_context_order:
  assumes "mset contexts = mset (cl_contexts cl)" "distinct (map (pc_context_id \<circ> rc_context) (cl_contexts cl))"
  shows "classify_repo_relative_path env (cl\<lparr>cl_contexts := contexts\<rparr>) path excluded = classify_repo_relative_path env cl path excluded"
proof -
  let ?cl = "cl\<lparr>cl_contexts := contexts\<rparr>"
  have inj: "inj_on context_priority (set (filter P contexts))" for P
  proof (rule inj_onI)
    fix x y assume "x \<in> set (filter P contexts)" "y \<in> set (filter P contexts)" and same: "context_priority x = context_priority y"
    then have "x \<in> set (cl_contexts cl)" "y \<in> set (cl_contexts cl)" using mset_eq_setD [OF assms(1)] by auto
    moreover have "(pc_context_id \<circ> rc_context) x = (pc_context_id \<circ> rc_context) y" using same by (simp add: context_priority_def)
    ultimately show "x = y" using assms(2) by (auto simp: distinct_map inj_on_def)
  qed
  have sorted: "sort_key context_priority (filter P contexts) = sort_key context_priority (filter P (cl_contexts cl))" for P
  proof (rule sort_key_inj_key_eq [OF _ inj])
    show "mset (filter P contexts) = mset (sort_key context_priority (filter P (cl_contexts cl)))" using assms(1) by simp
  qed simp
  have code: "matching_code_contexts ?cl = matching_code_contexts cl"
    by (intro ext) (simp add: matching_code_contexts_def sorted)
  have affiliated: "matching_affiliated_contexts ?cl = matching_affiliated_contexts cl"
    by (intro ext) (simp add: matching_affiliated_contexts_def sorted)
  have ignored: "is_auto_ignored ?cl = is_auto_ignored cl"
    using mset_eq_setD [OF assms(1)] by (intro ext) (simp add: is_auto_ignored_def list_ex_iff)
  have inputs: "text_input ?cl = text_input cl" "track_only_input env ?cl = track_only_input env cl"
    by (intro ext, simp only: text_input_def track_only_input_def affiliated ignored)+
  have builds: "build_classification env ?cl = build_classification env cl"
    by (intro ext) (simp add: build_classification_def extraction_config_def)
  have as_code: "classify_as_code env ?cl = classify_as_code env cl" by (intro ext) (simp only: classify_as_code_def builds)
  have scope: "included_as_text ?cl = included_as_text cl" "should_classify_as_text ?cl = should_classify_as_text cl"
    "cl_auto_scope ?cl = cl_auto_scope cl"
    by (intro ext, simp add: included_as_text_def) (intro ext, simp add: should_classify_as_text_def ignored, simp)
  show ?thesis unfolding classify_repo_relative_path_def code inputs builds as_code scope ..
qed

text \<open>A sync asks about paths that are not excluded, and stores all of them.\<close>

lemma sync_stores_every_classification:
  "sync_classifier env cl path = map_sum id Some (classify_repo_relative_path env cl path False)"
proof (cases "classify_repo_relative_path env cl path False")
  case (Inr c)
  have "fc_analysis_mode c \<noteq> ExcludedMode"
    using Inr by (auto simp: classify_repo_relative_path_def classify_as_code_def Let_def split: if_splits)
  then show ?thesis using Inr by (simp add: sync_classifier_def should_persist_current_state_def)
qed (simp add: sync_classifier_def)

section \<open>A repository with a TypeScript project\<close>

definition sample_readers :: manifest_readers where
  "sample_readers = \<lparr>mr_json = \<lambda>_. None, mr_toolchain_channel = \<lambda>_. None, mr_cargo_rust_version = \<lambda>_. None,
     mr_requires_python = \<lambda>_. None, mr_go_version = \<lambda>_. None, mr_java_version = \<lambda>_. None, mr_fingerprint = \<lambda>_. ''f''\<rparr>"

definition any_semver :: semver where
  "any_semver = \<lparr>sv_version = \<lambda>_. True, sv_requirement = \<lambda>_. True, sv_matches = \<lambda>_ _. True\<rparr>"

definition sample_languages :: language_registry where
  "sample_languages = snd (register_language any_semver TS_JS_LANGUAGE_PACK empty_language_registry)"

definition sample_env :: classifier_env where
  "sample_env = \<lparr>ce_semver = any_semver, ce_languages = sample_languages, ce_fingerprint = \<lambda>_. ''e''\<rparr>"

definition sample_classifier :: file_classifier where
  "sample_classifier = (case discover_for_revision sample_readers any_semver sample_languages (\<lambda>path. Ok path) JsonNull JsonNull
       (\<lambda>_. None) [''web/tsconfig.json'', ''web/a.tsx''] ''p'' ''x'' of
     Inr cl \<Rightarrow> cl | Inl _ \<Rightarrow> \<lparr>cl_parser_version = [], cl_extractor_version = [], cl_auto_scope = \<lparr>as_root_rel = None, as_include = None\<rparr>,
       cl_include_as_text = None, cl_contexts = []\<rparr>)"

lemma sample_contexts: "map (pc_context_id \<circ> rc_context) (cl_contexts sample_classifier) = [''auto:typescript:web'']"
  by code_simp

lemma sample_code: "map_sum id (\<lambda>c. (fc_analysis_mode c, fc_primary_context_id c, fc_language c))
    (classify_repo_relative_path sample_env sample_classifier ''./web/a.tsx'' False) =
  Ok (CodeMode, Some ''auto:typescript:web'', ''typescript'')"
  by code_simp

theorem code_is_claimed_by_its_context_witness:
  "\<exists>p \<in> claiming_contexts sample_classifier (host_normalize_repo_path ''./web/a.tsx'').
    pc_context_id (rc_context p) = ''auto:typescript:web''"
proof -
  obtain c where c: "classify_repo_relative_path sample_env sample_classifier ''./web/a.tsx'' False = Ok c"
    "fc_analysis_mode c = CodeMode" "fc_primary_context_id c = Some ''auto:typescript:web''"
    using sample_code by (cases "classify_repo_relative_path sample_env sample_classifier ''./web/a.tsx'' False") auto
  show ?thesis using code_is_claimed_by_its_context [OF c(1) refl] c(2,3) by auto
qed

end
