(* ===== verification/Spec2Isabelle.thy ===== *)
theory Spec2Isabelle
  imports Calendar SessionPhase Attribution QueueProperties SpoolProperties WorkerProperties SyncProperties CapabilityProperties DevqlProperties LanguageProperties Pagination Chunking ClassifierProperties
begin

text \<open>
  Verification development of Bitloops: the daemon that keeps a queryable model of a repository, its queues and
  syncs, the query language, the host of its extensions, and the record of agent sessions. Paths below are relative to
  \<open>src/bitloops/src\<close>.

  \<^bold>\<open>The program and its parts.\<close> Git hooks and the command line ask the daemon for work. A hook writes a job into the
  producer spool, a table that survives the daemon; a command submits a task to the task queue. The worker of the daemon
  claims spool jobs and turns them into tasks, and the coordinator starts tasks by lane and repository. A sync task reads
  the state of the work tree, the index and the last commit, classifies every file, and brings the stored files up to
  date. Each sync that changes something is a generation, whose changes are delivered to the capability packs. The packs
  and the language packs are registered with the extension host. Stored artefacts are asked for in DevQL, which is
  compiled to GraphQL, whose connections are read page by page. Beside this, the hooks of coding agents drive sessions
  through phases, store transcripts in chunks and attribute the lines of a commit to the agent or the user.

  \<^bold>\<open>Conventions.\<close> A Rust struct is a record, an enum a datatype, a \<open>Result\<close> a sum with \<open>Err\<close> and \<open>Ok\<close> (theory
  Prelude), an \<open>Option\<close> an option. Strings are lists of characters, which stand for the bytes of ASCII and Latin-1
  text (RustStr); unsigned integers are natural numbers where the code cannot overflow them, and words or explicit
  bounds where it can. \<open>BTreeMap\<close> and \<open>BTreeSet\<close> are sorted association lists (OrdMap); hash tables whose order the
  code never looks at are association lists or sets. A mutex-guarded operation that commits a transaction is one function
  from the state to an error or a new state and a value: an error leaves the state as it was. Clocks, fresh identifiers,
  git, the file system, digests, readers of JSON, dates and semantic versions, and the work done by a task, a job or a
  consumer are arguments. The contexts that \<open>anyhow\<close> adds to an error are left out unless the code shows them to a user.

  \<^bold>\<open>Shared theories.\<close> Prelude (results, iterators, sorting), RustStr (splitting, trimming, decimal printing), OrdMap
  (ordered maps, with the locale \<open>ordered_map\<close> of their laws).

  \<^bold>\<open>The task queue.\<close> TaskTypes is \<open>daemon/types/devql_task.rs\<close>: tasks, their specifications, kinds and statuses. TaskQueue
  is \<open>daemon/tasks/queue.rs\<close>: merging a submission, scheduling, pruning, queue positions. TaskCoordinator is
  \<open>daemon/tasks/coordinator.rs\<close> and its state.rs: every transaction of the queue, the step relation \<open>queue_step\<close> and
  the states it reaches. The locales \<open>queue_operation\<close> and \<open>calm_operation\<close> are the contract of a transaction, and each
  transaction interprets one of them. QueueProperties holds the properties: running tasks are compatible, records are
  well formed, a submission is covered, the scheduler makes progress and picks the first task of each lane.

  \<^bold>\<open>The producer spool.\<close> ProducerSpool is \<open>host/devql/producer_spool\<close>: enqueueing with merging by deduplication key,
  claiming under the admission guards, requeueing, pruning and recovery, over a list of rows. SpoolTable has the invariant
  of the table, the claim as a specification and the locale \<open>spool_operation\<close>; SpoolProperties the properties over the
  reachable tables. TaskWorker is \<open>daemon/tasks/coordinator/worker\<close>: the cycle that moves jobs from the spool to the
  queue. WorkerProperties relates both stores in every interleaving with hooks and finishing tasks.

  \<^bold>\<open>The sync.\<close> SyncManifest is \<open>host/devql/sync\<close> (workspace state, desired manifest, classification of paths against the
  stored rows), SyncRun is \<open>host/devql/commands_sync\<close> (preparing files, batches, deadlines, progress, the difference).
  SyncSpec states what a sync should store for each path in one pass, and the simulation that any schedule of
  preparations and batches implements it; SyncProperties has the properties.

  \<^bold>\<open>Classification of files.\<close> FileRules (path_rules.rs, types.rs, patterns.rs, exclusions.rs), FileContexts (context.rs,
  repo_view.rs) and FileClassifier (classifier.rs) are \<open>host/devql/classification\<close>; the classifier is the one a sync
  stores the result of. ClassifierProperties: the search for directories ends, patterns mean what their expressions say,
  code is claimed by the context of highest priority.

  \<^bold>\<open>Delivery of sync results.\<close> CapabilityEvents is \<open>daemon/capability_events/queue.rs\<close> (generations, change rows, mailboxes
  and runs), CapabilityRuns is plan.rs and the coordinator with the step relation \<open>coordinator_step\<close>, CapabilityDelta
  merges the recorded changes (locale \<open>change_log\<close>), CapabilityTables has the invariant and CapabilityProperties the
  properties: cursors only advance, runs exclude each other, the launch is fair to the order of the queue.

  \<^bold>\<open>DevQL.\<close> DevqlQuery is \<open>host/devql/query/parser.rs\<close>; DevqlValidate, DevqlGraphql and DevqlCompile are
  \<open>host/devql/query/dsl_compiler\<close>: types and validation, document tree and arguments, leaves and scopes. DevqlTokens is
  a lexer of GraphQL documents for the specification, DevqlTrees shows that the compiled trees are well formed, and
  DevqlProperties that the document reads as the tokens of its tree whatever the strings of the query hold.

  \<^bold>\<open>The extension host.\<close> ExtensionPacks is \<open>host/extension_host/lifecycle.rs\<close> and capability.rs (locale
  \<open>exclusive_claims\<close> for the owner tables), LanguagePacks is \<open>host/extension_host/language\<close>, ExtensionHost is
  \<open>host/extension_host/host\<close> with the built-in packs. ExtensionProperties and LanguageProperties show that every
  contribution has one owner, that a rejected registration changes no table, that stages run after their migrations, and
  that a language profile resolves exactly when one profile fits.

  \<^bold>\<open>Sessions and results.\<close> SessionPhase is \<open>host/checkpoints/session\<close>: the phases, the actions of a transition over an
  arbitrary handler (locale \<open>phase_handler\<close>), and the choice of a session. Calendar holds the date functions of the
  sessions, the telemetry and the doctor. Attribution is \<open>host/checkpoints/strategy/attribution.rs\<close>. Chunking is
  \<open>adapters/agents/chunking.rs\<close> with the agents that override it (locale \<open>lossless_chunking\<close>). Pagination is
  \<open>graphql/types/connection.rs\<close>.

  \<^bold>\<open>Bounds and termination.\<close> Loops of the code are structural recursion or functions with a proved measure. The search
  for the directories above a path is also given as a loop that need not end, and shown to end. A reader of pages has
  fuel for one request more than there are items, which is shown to be enough when cursors differ. Sums that the code
  takes in 32 or 64 bits are natural numbers or integers where a lemma bounds them and words otherwise; the index of a
  transcript chunk and the number of chunks are bounded by two to the 31st, as the code reads it into an \<open>i32\<close>.

  \<^bold>\<open>Not modelled.\<close> The artefacts of a language adapter come from third-party grammars: what a file yields is an argument
  of the sync. The SQL text of the relational, event and blob stores, and the engines behind it, are replaced by tables
  with atomic transactions; the content cache, the dependency edges and the garbage collection of the sync, which are SQL
  through and through, are left out, as are the enrichment work plane, the interaction store and the executor of compiled
  queries. The analyses of the capability packs work with embeddings, floating-point scores and SQL; how a pack is
  registered, migrated, notified and run is modelled. Command line, HTTP and GraphQL resolvers, configuration, telemetry,
  processes, credentials and the hooks' git plumbing are input and output. The publication of progress to subscribers and
  the execution of a task enter as any outcome.
\<close>

end
